(* ===== verification/Prelude.thy ===== *)
theory Prelude
  imports Main "HOL-Library.Word"
begin

text \<open>
  The prelude of the development: the types every component shares (UUIDs, timestamps, decimal
  text), the wrap-around of Go's \<open>int32\<close>, the three table operations the SQL of the repository
  is made of (filtered selection of the row with the least key, update and deletion of the rows
  that satisfy a predicate), and the lemmas about them that the component theories use.
\<close>

named_theorems table_simps \<open>selection, update and deletion of table rows\<close>
named_theorems wrap_simps \<open>32-bit wrap-around\<close>

section \<open>Shared types\<close>

text \<open>
  A UUID is sixteen bytes, read as a big-endian natural number, so that the order of the numbers
  is the byte order in which PostgreSQL compares them (numbers of \<open>2 ^ 128\<close> and more are not
  excluded: they stand for the endless supply of new identifiers). Timestamps and durations are
  microseconds.
\<close>

type_synonym uuid = nat
type_synonym micros = int

text \<open>\<open>uuid.Parse\<close> reads what \<open>String\<close> prints and rejects the empty string.\<close>

definition uuid_text :: "(uuid \<Rightarrow> string) \<Rightarrow> (string \<Rightarrow> uuid option) \<Rightarrow> bool" where
  "uuid_text us up \<longleftrightarrow> (\<forall>u. up (us u) = Some u) \<and> up '''' = None"

section \<open>Machine integers\<close>

text \<open>Go's \<open>int32\<close> keeps the low 32 bits of a result, read as two's complement.\<close>

definition wrap32 :: "int \<Rightarrow> int" where
  "wrap32 x = (x + 2 ^ 31) mod 2 ^ 32 - 2 ^ 31"

definition in32 :: "int \<Rightarrow> bool" where
  "in32 x \<longleftrightarrow> - (2 ^ 31) \<le> x \<and> x < 2 ^ 31"

lemma wrap32_in32 [simp]: "in32 (wrap32 x)"
  by (simp add: wrap32_def in32_def)

lemma wrap32_id [wrap_simps]: "in32 x \<Longrightarrow> wrap32 x = x"
  by (simp add: wrap32_def in32_def)

lemma in32I: "0 \<le> x \<Longrightarrow> x \<le> 2 ^ 30 \<Longrightarrow> in32 x"
  by (simp add: in32_def)

lemma wrap32_id_iff: "wrap32 x = x \<longleftrightarrow> in32 x"
  by (metis wrap32_id wrap32_in32)

lemma wrap32_add: "wrap32 (wrap32 x + y) = wrap32 (x + y)"
  by (simp add: wrap32_def) presburger

section \<open>Decimal text\<close>

text \<open>The \<open>%d\<close> verb of \<open>fmt\<close>.\<close>

fun nat_str :: "nat \<Rightarrow> string" where
  "nat_str n = (if n < 10 then [char_of (48 + n)] else nat_str (n div 10) @ [char_of (48 + n mod 10)])"

declare nat_str.simps [simp del]

definition int_str :: "int \<Rightarrow> string" where
  "int_str i = (if i < 0 then ''-'' @ nat_str (nat (- i)) else nat_str (nat i))"

section \<open>Table operations\<close>

text \<open>
  \<open>select_min key p rows\<close> is \<open>SELECT ... WHERE p ORDER BY key ASC LIMIT 1\<close>;
  \<open>update_where p f rows\<close> is \<open>UPDATE ... SET f WHERE p\<close>; \<open>DELETE ... WHERE p\<close> is the
  library's \<open>filter\<close> with the negated predicate.
\<close>

fun select_min :: "('a \<Rightarrow> 'k::linorder) \<Rightarrow> ('a \<Rightarrow> bool) \<Rightarrow> 'a list \<Rightarrow> 'a option" where
  "select_min key p [] = None"
| "select_min key p (r # rs) =
     (if p r
      then (case select_min key p rs of
              None \<Rightarrow> Some r
            | Some s \<Rightarrow> if key s < key r then Some s else Some r)
      else select_min key p rs)"

definition update_where :: "('a \<Rightarrow> bool) \<Rightarrow> ('a \<Rightarrow> 'a) \<Rightarrow> 'a list \<Rightarrow> 'a list" where
  "update_where p f = map (\<lambda>r. if p r then f r else r)"

lemma select_min_None_iff [table_simps]:
  "select_min key p rs = None \<longleftrightarrow> (\<forall>r\<in>set rs. \<not> p r)"
  by (induction rs) (auto split: option.splits)

lemma select_min_Some:
  "select_min key p rs = Some r \<Longrightarrow> r \<in> set rs \<and> p r"
  by (induction rs) (auto split: if_splits option.splits)

lemma select_min_least:
  "select_min key p rs = Some r \<Longrightarrow> s \<in> set rs \<Longrightarrow> p s \<Longrightarrow> key r \<le> key s"
proof (induction rs arbitrary: r)
  case Nil
  then show ?case by simp
next
  case (Cons a rs)
  show ?case
  proof (cases "select_min key p rs")
    case None
    with Cons.prems have "s = a" "r = a"
      using select_min_None_iff [of key p rs] by (auto split: if_splits)
    then show ?thesis by simp
  next
    case (Some b)
    with Cons show ?thesis
      by (fastforce split: if_splits)
  qed
qed

lemma update_where_Nil [table_simps]: "update_where p f [] = []"
  by (simp add: update_where_def)

lemma update_where_Cons [table_simps]:
  "update_where p f (r # rs) = (if p r then f r else r) # update_where p f rs"
  by (simp add: update_where_def)

lemma length_update_where [simp]: "length (update_where p f rs) = length rs"
  by (simp add: update_where_def)

lemma set_update_where:
  "set (update_where p f rs) = f ` {r \<in> set rs. p r} \<union> {r \<in> set rs. \<not> p r}"
  by (auto simp: update_where_def)

lemma in_update_where_other: "r \<in> set rs \<Longrightarrow> \<not> p r \<Longrightarrow> r \<in> set (update_where p f rs)"
  by (force simp: update_where_def)

lemma map_update_where [simp]:
  "(\<And>r. p r \<Longrightarrow> key (f r) = key r) \<Longrightarrow> map key (update_where p f rs) = map key rs"
  by (simp add: update_where_def)

text \<open>The row with a given key, in a table whose key column has no duplicates.\<close>

definition lookup_row :: "('a \<Rightarrow> 'k) \<Rightarrow> 'k \<Rightarrow> 'a list \<Rightarrow> 'a option" where
  "lookup_row key k rs = find (\<lambda>r. key r = k) rs"

lemma lookup_row_Nil [table_simps]: "lookup_row key k [] = None"
  by (simp add: lookup_row_def)

lemma lookup_row_Cons [table_simps]:
  "lookup_row key k (r # rs) = (if key r = k then Some r else lookup_row key k rs)"
  by (simp add: lookup_row_def)

lemma lookup_row_SomeD: "lookup_row key k rs = Some r \<Longrightarrow> r \<in> set rs \<and> key r = k"
  by (auto simp: lookup_row_def find_Some_iff)

lemma lookup_row_distinct:
  "distinct (map key rs) \<Longrightarrow> r \<in> set rs \<Longrightarrow> lookup_row key (key r) rs = Some r"
  by (induction rs) (auto simp: table_simps)

lemma lookup_row_None_iff: "lookup_row key k rs = None \<longleftrightarrow> k \<notin> key ` set rs"
  by (auto simp: lookup_row_def find_None_iff)

lemma lookup_row_update_where:
  assumes "\<And>r. key (f r) = key r"
  shows "lookup_row key k (update_where (\<lambda>r. key r = i) f rs) =
    (if k = i then map_option f (lookup_row key k rs) else lookup_row key k rs)"
  using assms by (induction rs) (auto simp: table_simps)

text \<open>How many rows satisfy a predicate, and how an update of one row changes that number.\<close>

definition count_rows :: "('a \<Rightarrow> bool) \<Rightarrow> 'a list \<Rightarrow> nat" where
  "count_rows p rs = length (filter p rs)"

lemma count_rows_update_where_less:
  assumes "r \<in> set rs" "q r" "p r" "\<And>s. q s \<Longrightarrow> \<not> p (f s)"
  shows "count_rows p (update_where q f rs) < count_rows p rs"
proof -
  have le: "count_rows p (update_where q f xs) \<le> count_rows p xs" for xs
    using assms(4) by (induction xs) (auto simp: count_rows_def table_simps)
  from assms(1) show ?thesis
  proof (induction rs)
    case (Cons a rs)
    then show ?case
      using assms(2-4) le [of rs]
      by (auto simp: count_rows_def table_simps less_Suc_eq_le)
  qed simp
qed

lemma find_SomeD: "find P xs = Some x \<Longrightarrow> x \<in> set xs \<and> P x"
  by (auto simp: find_Some_iff)

lemma find_NoneD: "find P xs = None \<Longrightarrow> x \<in> set xs \<Longrightarrow> \<not> P x"
  by (auto simp: find_None_iff)

section \<open>Results\<close>

text \<open>The first error of a sum computation stops it.\<close>

definition bind_sum :: "'e + 'a \<Rightarrow> ('a \<Rightarrow> 'e + 'b) \<Rightarrow> 'e + 'b" where
  "bind_sum m f = (case m of Inl e \<Rightarrow> Inl e | Inr a \<Rightarrow> f a)"

lemma bind_sum_simps [simp]:
  "bind_sum (Inl e) f = Inl e"
  "bind_sum (Inr a) f = f a"
  by (simp_all add: bind_sum_def)

lemma bind_sum_Inr_iff: "bind_sum m f = Inr b \<longleftrightarrow> (\<exists>a. m = Inr a \<and> f a = Inr b)"
  by (cases m) auto

text \<open>A small decoder/encoder pair that satisfies \<open>uuid_text\<close>, for examples.\<close>

definition dec_us :: "uuid \<Rightarrow> string" where "dec_us u = replicate (Suc u) CHR ''u''"

definition dec_up :: "string \<Rightarrow> uuid option" where
  "dec_up s = (if s \<noteq> [] \<and> list_all (\<lambda>c. c = CHR ''u'') s then Some (length s - 1) else None)"

lemma dec_text: "uuid_text dec_us dec_up"
  by (simp add: uuid_text_def dec_us_def dec_up_def list_all_iff)

end
