(* ===== verification/Go_Errors.thy ===== *)
theory Go_Errors
  imports Prelude
begin

text \<open>
  Go error values as the workers use them: sentinels and plain messages, the
  \<open>PreconditionError\<close> of \<open>cluster-worker/pkg/handler/mod.go\<close>, \<open>pgx.ErrNoRows\<close>, the
  Kubernetes \<open>AlreadyExists\<close> and \<open>NotFound\<close> status errors, errors that wrap others with the \<open>%w\<close> verb of
  \<open>fmt.Errorf\<close>, and \<open>errors.Join\<close>. A function that returns \<open>error\<close> has the type
  \<open>gerr option\<close> (\<open>None\<close> is \<open>nil\<close>); one that returns a value and an error has the sum type
  \<open>gerr + 'a\<close>. Two sentinels made by \<open>errors.New\<close> are told apart by their texts, which are
  different for the sentinels of the modelled packages.
\<close>

datatype gerr =
    ErrNew string
  | PreconditionError string
  | ErrNoRows
  | AlreadyExists string
  | NotFound string
  | Wrapped string "gerr list"
  | Joined "gerr list"

section \<open>Operations of the errors package\<close>

fun join_lines :: "string list \<Rightarrow> string" where
  "join_lines [] = ''''"
| "join_lines [s] = s"
| "join_lines (s # t # ss) = s @ [char_of (10 :: nat)] @ join_lines (t # ss)"

text \<open>The \<open>Error\<close> method.\<close>

fun err_text :: "gerr \<Rightarrow> string" where
  "err_text (ErrNew s) = s"
| "err_text (PreconditionError r) = ''precondition not met: '' @ r"
| "err_text ErrNoRows = ''no rows in result set''"
| "err_text (AlreadyExists s) = s"
| "err_text (NotFound s) = s"
| "err_text (Wrapped s es) = s"
| "err_text (Joined es) = join_lines (map err_text es)"

text \<open>\<open>errorf p e\<close> is \<open>fmt.Errorf(p + ": %w", e)\<close>.\<close>

definition errorf :: "string \<Rightarrow> gerr \<Rightarrow> gerr" where
  "errorf p e = Wrapped (p @ '': '' @ err_text e) [e]"

text \<open>\<open>errorf2 e f\<close> is \<open>fmt.Errorf("%w: %w", e, f)\<close>.\<close>

definition errorf2 :: "gerr \<Rightarrow> gerr \<Rightarrow> gerr" where
  "errorf2 e f = Wrapped (err_text e @ '': '' @ err_text f) [e, f]"

text \<open>\<open>errors.Join\<close> of non-nil errors: \<open>nil\<close> for none.\<close>

definition errors_join :: "gerr list \<Rightarrow> gerr option" where
  "errors_join es = (if es = [] then None else Some (Joined es))"

text \<open>\<open>errors.Is(e, target)\<close>: the error itself or one below it in the tree of wrapped errors.\<close>

fun errors_is :: "gerr \<Rightarrow> gerr \<Rightarrow> bool" where
  "errors_is t (Wrapped s es) = (Wrapped s es = t \<or> list_ex (errors_is t) es)"
| "errors_is t (Joined es) = (Joined es = t \<or> list_ex (errors_is t) es)"
| "errors_is t e = (e = t)"

text \<open>\<open>errors.AsType[*PreconditionError](e)\<close>: the first in depth-first order.\<close>

fun first_some :: "'a option list \<Rightarrow> 'a option" where
  "first_some [] = None"
| "first_some (None # xs) = first_some xs"
| "first_some (Some x # xs) = Some x"

fun as_precondition :: "gerr \<Rightarrow> string option" where
  "as_precondition (PreconditionError r) = Some r"
| "as_precondition (Wrapped s es) = first_some (map as_precondition es)"
| "as_precondition (Joined es) = first_some (map as_precondition es)"
| "as_precondition e = None"

text \<open>\<open>apierrors.IsAlreadyExists\<close> looks for a status error with that reason in the wrapped tree.\<close>

fun is_already_exists :: "gerr \<Rightarrow> bool" where
  "is_already_exists (AlreadyExists s) = True"
| "is_already_exists (Wrapped s es) = list_ex is_already_exists es"
| "is_already_exists (Joined es) = list_ex is_already_exists es"
| "is_already_exists e = False"

fun is_not_found :: "gerr \<Rightarrow> bool" where
  "is_not_found (NotFound s) = True"
| "is_not_found (Wrapped s es) = list_ex is_not_found es"
| "is_not_found (Joined es) = list_ex is_not_found es"
| "is_not_found e = False"

section \<open>Lemmas\<close>

lemma first_some_None_iff: "first_some xs = None \<longleftrightarrow> set xs \<subseteq> {None}"
  by (induction xs rule: first_some.induct) auto

lemma as_precondition_Joined_None:
  "as_precondition (Joined es) = None \<longleftrightarrow> (\<forall>e\<in>set es. as_precondition e = None)"
  by (auto simp: first_some_None_iff)

lemma first_some_Cons: "first_some (x # xs) = (case x of None \<Rightarrow> first_some xs | Some y \<Rightarrow> Some y)"
  by (cases x) auto

lemma as_precondition_errorf [simp]: "as_precondition (errorf p e) = as_precondition e"
  by (cases "as_precondition e") (simp_all add: errorf_def first_some_Cons)

lemma errors_is_errorf [simp]:
  "t \<noteq> errorf p e \<Longrightarrow> errors_is t (errorf p e) = errors_is t e"
  by (auto simp: errorf_def)

lemma errors_is_errorf_ErrNew [simp]: "errors_is (ErrNew s) (errorf p e) = errors_is (ErrNew s) e"
  by (simp add: errorf_def)

lemma errors_is_Joined_ErrNew:
  "errors_is (ErrNew s) (Joined es) \<longleftrightarrow> (\<exists>e\<in>set es. errors_is (ErrNew s) e)"
  by (auto simp: list_ex_iff)

lemma errors_is_errorf2_left [simp]: "errors_is (ErrNew s) (errorf2 (ErrNew s) f)"
  by (simp add: errorf2_def)

end
