(* ===== verification/Tenant_Db.thy ===== *)
theory Tenant_Db
  imports Go_Errors
begin

text \<open>
  The database the cluster-worker reads and writes: the rows of the \<open>tenant\<close> and \<open>catalog\<close>
  tables it touches, the transactional outbox \<open>tenant.cluster_outbox\<close> with its status trigger,
  and one definition per query of \<open>cluster-worker/pkg/db\<close> (the SQL text is in the generated
  \<open>*.sql.go\<close> files). Every call to the database may fail: \<open>db_fault\<close> says which call (counted
  by \<open>db_calls\<close>) returns which error, and a failed call leaves the tables as they are. The
  identifiers PostgreSQL generates with \<open>uuidv7()\<close> are the parameter \<open>new_uuid\<close>, read in order.
\<close>

section \<open>Rows\<close>

datatype ob_status = Pending | Retrying | Completed | Failed
datatype ob_event = Created | Updated | Deleted | Reconcile | Ready
datatype ob_source = SrcTrigger | SrcReconcile | SrcManual | SrcStatus

record obrow =
  ob_id :: uuid
  ob_cluster :: "uuid option"
  ob_org_user :: "uuid option"
  ob_project_member :: "uuid option"
  ob_node_pool :: "uuid option"
  ob_namespace :: "uuid option"
  ob_event :: ob_event
  ob_source :: ob_source
  ob_status :: ob_status
  ob_retries :: int
  ob_deferrals :: int
  ob_retry_after :: "micros option"
  ob_processed :: "micros option"
  ob_failed :: "micros option"
  ob_status_info :: "string option"

record user_row =
  u_id :: uuid
  u_email :: "string option"
  u_deleted :: "micros option"

record org_row =
  o_id :: uuid
  o_name :: string

record org_user_row =
  ou_id :: uuid
  ou_org :: uuid
  ou_user :: uuid
  ou_permission :: string
  ou_status :: string
  ou_deleted :: "micros option"

record project_row =
  p_id :: uuid
  p_cluster :: uuid
  p_name :: string
  p_deleted :: "micros option"

record project_member_row =
  pm_id :: uuid
  pm_project :: uuid
  pm_user :: uuid
  pm_role :: string
  pm_deleted :: "micros option"

record cluster_row =
  c_id :: uuid
  c_org :: uuid
  c_name :: string
  c_region :: string
  c_version :: string
  c_deleted :: "micros option"
  c_shoot_status :: "string option"
  c_shoot_message :: "string option"
  c_shoot_updated :: "micros option"
  c_outbox_status :: "ob_status option"
  c_outbox_retries :: int
  c_outbox_error :: "string option"
  c_region_id :: "uuid option"

record namespace_row =
  n_id :: uuid
  n_project :: uuid
  n_name :: string
  n_deleted :: "micros option"

record node_pool_row =
  np_id :: uuid
  np_cluster :: uuid
  np_name :: string
  np_machine_type :: string
  np_min :: int
  np_max :: int
  np_created :: micros
  np_deleted :: "micros option"
  np_machine_type_id :: "uuid option"

record limits_row =
  l_owner :: uuid
  l_max_nodes_per_cluster :: "int option"
  l_max_node_pools_per_cluster :: "int option"
  l_max_nodes_per_node_pool :: "int option"
  l_memory_request :: "int option"
  l_memory_limit :: "int option"
  l_cpu_request :: "int option"
  l_cpu_limit :: "int option"
  l_deleted :: "micros option"

record region_row =
  rg_id :: uuid
  rg_cloud_profile :: "string option"
  rg_cloud_profile_region :: "string option"

text \<open>\<open>catalog_machine\<close> is the join of \<open>region_machine_types\<close> with \<open>machine_types\<close>: the name
  of the machine type a \<open>region_machine_types\<close> id refers to.\<close>

record tenant_db =
  users :: "user_row list"
  orgs :: "org_row list"
  org_users :: "org_user_row list"
  projects :: "project_row list"
  project_members :: "project_member_row list"
  clusters :: "cluster_row list"
  namespaces :: "namespace_row list"
  node_pools :: "node_pool_row list"
  org_limits :: "limits_row list"
  project_limits :: "limits_row list"
  regions :: "region_row list"
  catalog_machine :: "(uuid \<times> string) list"

record cluster_event =
  ev_cluster :: uuid
  ev_type :: string
  ev_sync_action :: "string option"
  ev_message :: "string option"

text \<open>The world a handler runs in. \<open>locked\<close> are the outbox rows locked by other workers'
  transactions; \<open>shoots\<close> and \<open>garden\<close> are the states behind the \<open>ShootAccess\<close> and the Gardener
  client interfaces.\<close>

record ('s, 'g) world =
  clock :: micros
  db_fault :: "nat \<Rightarrow> gerr option"
  db_calls :: nat
  new_uuid :: "nat \<Rightarrow> uuid"
  n_uuids :: nat
  outbox :: "obrow list"
  locked :: "uuid list"
  db :: tenant_db
  events :: "cluster_event list"
  shoots :: 's
  garden :: 'g

section \<open>Calls that may fail\<close>

definition db_call ::
  "(('s, 'g) world \<Rightarrow> (gerr + 'a) \<times> ('s, 'g) world) \<Rightarrow> ('s, 'g) world \<Rightarrow> (gerr + 'a) \<times> ('s, 'g) world" where
  "db_call q w =
     (let w1 = w\<lparr>db_calls := Suc (db_calls w)\<rparr>
      in case db_fault w (db_calls w) of Some e \<Rightarrow> (Inl e, w1) | None \<Rightarrow> q w1)"

definition db_read ::
  "(('s, 'g) world \<Rightarrow> gerr + 'a) \<Rightarrow> ('s, 'g) world \<Rightarrow> (gerr + 'a) \<times> ('s, 'g) world" where
  "db_read f = db_call (\<lambda>w. (f w, w))"

definition db_exec ::
  "(('s, 'g) world \<Rightarrow> ('s, 'g) world) \<Rightarrow> ('s, 'g) world \<Rightarrow> gerr option \<times> ('s, 'g) world" where
  "db_exec f w =
     (case db_call (\<lambda>w. (Inr (), f w)) w of
        (Inl e, w) \<Rightarrow> (Some e, w)
      | (Inr _, w) \<Rightarrow> (None, w))"

text \<open>The first row of a \<open>:one\<close> query.\<close>

definition one :: "'a list \<Rightarrow> gerr + 'a" where
  "one xs = (case xs of [] \<Rightarrow> Inl ErrNoRows | x # _ \<Rightarrow> Inr x)"

section \<open>User access queries (user\_access.sql.go, user\_sync.sql.go)\<close>

definition is_org_admin :: "tenant_db \<Rightarrow> uuid \<Rightarrow> uuid \<Rightarrow> bool" where
  "is_org_admin d org u = list_ex (\<lambda>ou. ou_org ou = org \<and> ou_user ou = u \<and>
     ou_permission ou = ''admin'' \<and> ou_status ou = ''accepted'' \<and> ou_deleted ou = None) (org_users d)"

definition is_project_member :: "tenant_db \<Rightarrow> uuid \<Rightarrow> uuid \<Rightarrow> bool" where
  "is_project_member d cid u = list_ex (\<lambda>p. p_cluster p = cid \<and> p_deleted p = None \<and>
     list_ex (\<lambda>m. pm_project m = p_id p \<and> pm_user m = u \<and> pm_deleted m = None) (project_members d))
     (projects d)"

definition ResolveUserAccess :: "uuid \<Rightarrow> uuid \<Rightarrow> tenant_db \<Rightarrow> gerr + string" where
  "ResolveUserAccess u cid d = one
     [(if is_org_admin d (c_org c) u then ''admin''
       else if is_project_member d (c_id c) u then ''member''
       else ''none''). c \<leftarrow> clusters d, c_id c = cid]"

record user_access_row =
  ua_user :: uuid
  ua_email :: "string option"
  ua_level :: string

definition UserListForCluster :: "uuid \<Rightarrow> tenant_db \<Rightarrow> user_access_row list" where
  "UserListForCluster cid d =
     [\<lparr>ua_user = u_id u, ua_email = u_email u,
       ua_level = (if ou_permission ou = ''admin'' \<and> ou_status ou = ''accepted'' \<and> ou_deleted ou = None
                   then ''admin'' else ''member'')\<rparr>.
       c \<leftarrow> clusters d, c_id c = cid,
       ou \<leftarrow> org_users d, ou_org ou = c_org c \<and> ou_status ou = ''accepted'' \<and> ou_deleted ou = None,
       u \<leftarrow> users d, u_id u = ou_user ou \<and> u_deleted u = None,
       ou_permission ou = ''admin'']
     @ remdups
     [\<lparr>ua_user = u_id u, ua_email = u_email u, ua_level = ''member''\<rparr>.
       c \<leftarrow> clusters d, c_id c = cid,
       p \<leftarrow> projects d, p_cluster p = c_id c \<and> p_deleted p = None,
       m \<leftarrow> project_members d, pm_project m = p_id p \<and> pm_deleted m = None,
       u \<leftarrow> users d, u_id u = pm_user m \<and> u_deleted u = None,
       \<not> is_org_admin d (c_org c) (pm_user m)]"

definition OrgUserGetForSync :: "uuid \<Rightarrow> tenant_db \<Rightarrow> gerr + (uuid \<times> uuid)" where
  "OrgUserGetForSync i d = one [(ou_user ou, ou_org ou). ou \<leftarrow> org_users d, ou_id ou = i]"

definition ProjectMemberGetForSync :: "uuid \<Rightarrow> tenant_db \<Rightarrow> gerr + (uuid \<times> uuid)" where
  "ProjectMemberGetForSync i d = one
     [(pm_user m, p_cluster p). m \<leftarrow> project_members d, pm_id m = i,
       p \<leftarrow> projects d, p_id p = pm_project m,
       c \<leftarrow> clusters d, c_id c = p_cluster p \<and> c_shoot_status c = Some ''ready'' \<and> c_deleted c = None]"

definition ClusterListReadyForOrg :: "uuid \<Rightarrow> tenant_db \<Rightarrow> uuid list" where
  "ClusterListReadyForOrg org d = [c_id c. c \<leftarrow> clusters d,
     c_org c = org \<and> c_shoot_status c = Some ''ready'' \<and> c_deleted c = None]"

definition ClusterListReady :: "tenant_db \<Rightarrow> uuid list" where
  "ClusterListReady d = [c_id c. c \<leftarrow> clusters d, c_shoot_status c = Some ''ready'' \<and> c_deleted c = None]"

definition UserGetEmail :: "uuid \<Rightarrow> tenant_db \<Rightarrow> gerr + string option" where
  "UserGetEmail i d = one [u_email u. u \<leftarrow> users d, u_id u = i]"

section \<open>Namespace queries (namespace\_sync.sql.go)\<close>

record ns_sync_row =
  ns_id :: uuid
  ns_project :: uuid
  ns_cluster :: uuid
  ns_project_name :: string
  ns_org :: uuid
  ns_name :: string
  ns_deleted :: "micros option"
  ns_shoot_status :: "string option"
  ns_org_limits :: "limits_row option"
  ns_project_limits :: "limits_row option"

text \<open>\<open>NamespaceGetForSync\<close> selects four nullable columns from each of the two left-joined limits
  tables; the row keeps the joined limits row itself, absent when the join finds none.\<close>

definition active_limits :: "uuid \<Rightarrow> limits_row list \<Rightarrow> limits_row option" where
  "active_limits owner = find (\<lambda>l. l_owner l = owner \<and> l_deleted l = None)"

definition NamespaceGetForSync :: "uuid \<Rightarrow> tenant_db \<Rightarrow> gerr + ns_sync_row" where
  "NamespaceGetForSync i d = one
     [\<lparr>ns_id = n_id n, ns_project = n_project n, ns_cluster = p_cluster p, ns_project_name = p_name p,
       ns_org = c_org c, ns_name = n_name n, ns_deleted = n_deleted n,
       ns_shoot_status = c_shoot_status c,
       ns_org_limits = active_limits (c_org c) (org_limits d),
       ns_project_limits = active_limits (n_project n) (project_limits d)\<rparr>.
       n \<leftarrow> namespaces d, n_id n = i,
       p \<leftarrow> projects d, p_id p = n_project n,
       c \<leftarrow> clusters d, c_id c = p_cluster p]"

definition NamespaceListActiveForCluster :: "uuid \<Rightarrow> tenant_db \<Rightarrow> uuid list" where
  "NamespaceListActiveForCluster cid d =
     [n_id n. n \<leftarrow> namespaces d, p \<leftarrow> projects d,
       p_id p = n_project n \<and> p_cluster p = cid \<and> n_deleted n = None]"

section \<open>Outbox queries (outbox.sql.go)\<close>

text \<open>The trigger that copies an outbox row's status onto the cluster it concerns
  (\<open>tenant.cluster_outbox_update_cluster_status\<close> of \<open>db/fundament.sql\<close>).\<close>

definition set_cluster_outbox :: "uuid \<Rightarrow> obrow \<Rightarrow> tenant_db \<Rightarrow> tenant_db" where
  "set_cluster_outbox cid r d = d\<lparr>clusters := update_where (\<lambda>c. c_id c = cid)
     (\<lambda>c. c\<lparr>c_outbox_status := Some (ob_status r), c_outbox_retries := ob_retries r,
            c_outbox_error := ob_status_info r\<rparr>) (clusters d)\<rparr>"

definition update_cluster_status_trigger :: "obrow \<Rightarrow> tenant_db \<Rightarrow> tenant_db" where
  "update_cluster_status_trigger r d =
     (case ob_cluster r of
        Some cid \<Rightarrow> set_cluster_outbox cid r d
      | None \<Rightarrow>
          (case ob_node_pool r of
             None \<Rightarrow> d
           | Some npid \<Rightarrow>
               (case lookup_row np_id npid (node_pools d) of
                  None \<Rightarrow> d
                | Some np \<Rightarrow> set_cluster_outbox (np_cluster np) r d)))"

definition outbox_modify :: "uuid \<Rightarrow> (obrow \<Rightarrow> obrow) \<Rightarrow> ('s, 'g) world \<Rightarrow> ('s, 'g) world" where
  "outbox_modify i f w =
     (let rows = update_where (\<lambda>r. ob_id r = i) f (outbox w)
      in w\<lparr>outbox := rows,
           db := (case lookup_row ob_id i rows of
                    None \<Rightarrow> db w
                  | Some r \<Rightarrow> update_cluster_status_trigger r (db w))\<rparr>)"

definition new_obrow :: "uuid \<Rightarrow> ob_event \<Rightarrow> ob_source \<Rightarrow> obrow" where
  "new_obrow i e s = \<lparr>ob_id = i, ob_cluster = None, ob_org_user = None, ob_project_member = None,
     ob_node_pool = None, ob_namespace = None, ob_event = e, ob_source = s, ob_status = Pending,
     ob_retries = 0, ob_deferrals = 0, ob_retry_after = None, ob_processed = None, ob_failed = None,
     ob_status_info = None\<rparr>"

definition outbox_insert :: "(uuid \<Rightarrow> obrow) \<Rightarrow> ('s, 'g) world \<Rightarrow> ('s, 'g) world" where
  "outbox_insert mk w =
     (let r = mk (new_uuid w (n_uuids w))
      in w\<lparr>n_uuids := Suc (n_uuids w), outbox := outbox w @ [r],
           db := update_cluster_status_trigger r (db w)\<rparr>)"

definition active_status :: "ob_status \<Rightarrow> bool" where
  "active_status s \<longleftrightarrow> s = Pending \<or> s = Retrying"

definition eligible :: "micros \<Rightarrow> obrow \<Rightarrow> bool" where
  "eligible now r \<longleftrightarrow> active_status (ob_status r) \<and>
     (case ob_retry_after r of None \<Rightarrow> True | Some t \<Rightarrow> t \<le> now)"

definition OutboxGetAndLock :: "('s, 'g) world \<Rightarrow> gerr + obrow" where
  "OutboxGetAndLock w =
     (case select_min ob_id (\<lambda>r. eligible (clock w) r \<and> ob_id r \<notin> set (locked w)) (outbox w) of
        None \<Rightarrow> Inl ErrNoRows
      | Some r \<Rightarrow> Inr r)"

definition OutboxMarkProcessed :: "uuid \<Rightarrow> ('s, 'g) world \<Rightarrow> ('s, 'g) world" where
  "OutboxMarkProcessed i w = outbox_modify i (\<lambda>r. r\<lparr>ob_status := Completed, ob_processed := Some (clock w),
     ob_status_info := None, ob_retry_after := None\<rparr>) w"

text \<open>\<open>1 << n\<close> on PostgreSQL's \<open>integer\<close>: the shift count is taken modulo 32 and the result
  wraps. \<open>LEAST\<close> caps the exponential backoff.\<close>

definition pg_shl1 :: "int \<Rightarrow> int" where
  "pg_shl1 n = wrap32 (2 ^ nat (n mod 32))"

definition backoff :: "micros \<Rightarrow> micros \<Rightarrow> int \<Rightarrow> micros" where
  "backoff base cap n = min (base * pg_shl1 n) cap"

definition OutboxMarkRetry ::
  "uuid \<Rightarrow> micros \<Rightarrow> micros \<Rightarrow> string \<Rightarrow> ('s, 'g) world \<Rightarrow> ('s, 'g) world" where
  "OutboxMarkRetry i base cap info w = outbox_modify i (\<lambda>r. r\<lparr>ob_retries := ob_retries r + 1,
     ob_retry_after := Some (clock w + backoff base cap (ob_retries r + 1)),
     ob_status := Retrying, ob_status_info := Some info\<rparr>) w"

definition OutboxMarkFailed :: "uuid \<Rightarrow> string \<Rightarrow> ('s, 'g) world \<Rightarrow> ('s, 'g) world" where
  "OutboxMarkFailed i info w = outbox_modify i (\<lambda>r. r\<lparr>ob_status := Failed, ob_failed := Some (clock w),
     ob_status_info := Some info\<rparr>) w"

definition OutboxDeferWithoutRetry :: "uuid \<Rightarrow> micros \<Rightarrow> string \<Rightarrow> ('s, 'g) world \<Rightarrow> ('s, 'g) world" where
  "OutboxDeferWithoutRetry i delay info w = outbox_modify i (\<lambda>r. r\<lparr>ob_retry_after := Some (clock w + delay),
     ob_deferrals := ob_deferrals r + 1, ob_status_info := Some info\<rparr>) w"

definition OutboxInsertReady :: "uuid \<Rightarrow> ('s, 'g) world \<Rightarrow> ('s, 'g) world" where
  "OutboxInsertReady cid w =
     (if list_ex (\<lambda>r. ob_cluster r = Some cid \<and> ob_event r = Ready \<and> active_status (ob_status r)) (outbox w)
      then w
      else outbox_insert (\<lambda>i. (new_obrow i Ready SrcStatus)\<lparr>ob_cluster := Some cid\<rparr>) w)"

definition OutboxInsertReconcile :: "uuid \<Rightarrow> int \<Rightarrow> ('s, 'g) world \<Rightarrow> ('s, 'g) world" where
  "OutboxInsertReconcile cid maxr w =
     (if list_ex (\<lambda>r. ob_cluster r = Some cid \<and>
          (active_status (ob_status r) \<or> ob_status r = Failed \<and> maxr \<le> ob_retries r)) (outbox w)
      then w
      else outbox_insert (\<lambda>i. (new_obrow i Reconcile SrcReconcile)\<lparr>ob_cluster := Some cid\<rparr>) w)"

definition OutboxInsertReconcileForNamespace :: "uuid \<Rightarrow> int \<Rightarrow> ('s, 'g) world \<Rightarrow> ('s, 'g) world" where
  "OutboxInsertReconcileForNamespace nid maxr w =
     (if list_ex (\<lambda>r. ob_namespace r = Some nid \<and>
          (active_status (ob_status r) \<or> ob_status r = Failed \<and> maxr \<le> ob_retries r)) (outbox w)
      then w
      else outbox_insert (\<lambda>i. (new_obrow i Reconcile SrcReconcile)\<lparr>ob_namespace := Some nid\<rparr>) w)"

section \<open>Cluster events\<close>

definition ClusterCreateUserSyncEvent :: "uuid \<Rightarrow> string \<Rightarrow> string \<Rightarrow> ('s, 'g) world \<Rightarrow> ('s, 'g) world" where
  "ClusterCreateUserSyncEvent cid ty msg w =
     w\<lparr>events := events w @ [\<lparr>ev_cluster = cid, ev_type = ty, ev_sync_action = None, ev_message = Some msg\<rparr>]\<rparr>"

section \<open>An empty database\<close>

definition empty_db :: tenant_db where
  "empty_db = \<lparr>users = [], orgs = [], org_users = [], projects = [], project_members = [], clusters = [],
     namespaces = [], node_pools = [], org_limits = [], project_limits = [], regions = [],
     catalog_machine = []\<rparr>"

definition blank_world :: "'s \<Rightarrow> 'g \<Rightarrow> ('s, 'g) world" where
  "blank_world s g = \<lparr>clock = 0, db_fault = (\<lambda>_. None), db_calls = 0, new_uuid = (\<lambda>k. k + 1000),
     n_uuids = 0, outbox = [], locked = [], db = empty_db, events = [], shoots = s, garden = g\<rparr>"

section \<open>Lemmas\<close>

text \<open>Every call is counted; a failed call changes nothing else.\<close>

definition called :: "('s, 'g) world \<Rightarrow> ('s, 'g) world" where
  "called w = w\<lparr>db_calls := Suc (db_calls w)\<rparr>"

lemma called_simps [simp]:
  "clock (called w) = clock w" "db_fault (called w) = db_fault w"
  "db_calls (called w) = Suc (db_calls w)" "new_uuid (called w) = new_uuid w"
  "n_uuids (called w) = n_uuids w" "outbox (called w) = outbox w" "locked (called w) = locked w"
  "db (called w) = db w" "events (called w) = events w" "shoots (called w) = shoots w"
  "garden (called w) = garden w"
  by (simp_all add: called_def)

lemma db_read_eq:
  "db_read f w = (case db_fault w (db_calls w) of Some e \<Rightarrow> Inl e | None \<Rightarrow> f (called w), called w)"
  by (simp add: db_read_def db_call_def called_def Let_def split: option.splits)

lemma db_exec_eq:
  "db_exec f w = (case db_fault w (db_calls w) of Some e \<Rightarrow> (Some e, called w) | None \<Rightarrow> (None, f (called w)))"
  by (simp add: db_exec_def db_call_def called_def Let_def split: option.splits)

lemma outbox_modify_frame [simp]:
  "clock (outbox_modify i f w) = clock w" "db_fault (outbox_modify i f w) = db_fault w"
  "db_calls (outbox_modify i f w) = db_calls w" "new_uuid (outbox_modify i f w) = new_uuid w"
  "n_uuids (outbox_modify i f w) = n_uuids w" "locked (outbox_modify i f w) = locked w"
  "events (outbox_modify i f w) = events w" "shoots (outbox_modify i f w) = shoots w"
  "garden (outbox_modify i f w) = garden w"
  by (simp_all add: outbox_modify_def Let_def)

lemma outbox_outbox_modify [simp]:
  "outbox (outbox_modify i f w) = update_where (\<lambda>r. ob_id r = i) f (outbox w)"
  by (simp add: outbox_modify_def Let_def)

lemma outbox_insert_frame [simp]:
  "clock (outbox_insert mk w) = clock w" "db_fault (outbox_insert mk w) = db_fault w"
  "locked (outbox_insert mk w) = locked w" "shoots (outbox_insert mk w) = shoots w"
  "garden (outbox_insert mk w) = garden w" "events (outbox_insert mk w) = events w"
  by (simp_all add: outbox_insert_def Let_def)

lemma outbox_outbox_insert [simp]:
  "outbox (outbox_insert mk w) = outbox w @ [mk (new_uuid w (n_uuids w))]"
  by (simp add: outbox_insert_def Let_def)

lemmas outbox_marks = OutboxMarkProcessed_def OutboxMarkRetry_def OutboxMarkFailed_def
  OutboxDeferWithoutRetry_def

lemma one_Inr_iff: "one xs = Inr x \<longleftrightarrow> (\<exists>ys. xs = x # ys)"
  by (cases xs) (auto simp: one_def)

lemma one_Inr_mem: "one xs = Inr x \<Longrightarrow> x \<in> set xs"
  by (auto simp: one_Inr_iff)

lemma one_Inl_iff: "one xs = Inl e \<longleftrightarrow> xs = [] \<and> e = ErrNoRows"
  by (cases xs) (auto simp: one_def)

text \<open>The exponential backoff is positive and capped for the first thirty retries: beyond them the
  shifted \<open>integer\<close> wraps.\<close>

lemma pg_shl1_small: "0 \<le> n \<Longrightarrow> n \<le> 30 \<Longrightarrow> pg_shl1 n = 2 ^ nat n"
proof -
  assume n: "0 \<le> n" "n \<le> 30"
  then have "(2 :: int) ^ nat n \<le> 2 ^ 30"
    by (intro power_increasing) auto
  moreover have "(0 :: int) \<le> 2 ^ nat n"
    by simp
  ultimately have "in32 (2 ^ nat n)"
    by (rule in32I [rotated])
  with n show ?thesis
    by (simp add: pg_shl1_def wrap32_id)
qed

lemma backoff_bounds:
  assumes "0 < base" "0 < cap" "0 \<le> n" "n \<le> 30"
  shows "0 < backoff base cap n" "backoff base cap n \<le> cap"
  using assms by (auto simp: backoff_def pg_shl1_small)

section \<open>What a handler may do to the outbox\<close>

text \<open>Handlers only append rows, under identifiers drawn in order from \<open>new_uuid\<close>, and leave the
  clock and the locks alone; a \<open>ready\<close> row they append is a cluster's. The relation is a preorder, so a handler keeps it when each of its
  calls does.\<close>

definition routable :: "obrow \<Rightarrow> bool" where
  "routable r \<longleftrightarrow> (ob_event r = Ready \<longrightarrow> ob_cluster r \<noteq> None)"

definition outbox_ext :: "('s, 'g) world \<Rightarrow> ('s, 'g) world \<Rightarrow> bool" where
  "outbox_ext w w' \<longleftrightarrow> clock w' = clock w \<and> locked w' = locked w \<and> new_uuid w' = new_uuid w \<and>
     n_uuids w \<le> n_uuids w' \<and>
     (\<exists>new. outbox w' = outbox w @ new \<and> map ob_id new = map (new_uuid w) [n_uuids w..<n_uuids w'] \<and>
        (\<forall>r\<in>set new. ob_status r = Pending \<and> ob_retries r = 0 \<and> ob_deferrals r = 0 \<and> routable r))"

named_theorems ext_intro \<open>steps that only append to the outbox\<close>

lemma outbox_ext_refl [ext_intro]: "outbox_ext w w"
  by (simp add: outbox_ext_def)

lemma outbox_ext_trans: "outbox_ext u v \<Longrightarrow> outbox_ext v w \<Longrightarrow> outbox_ext u w"
proof -
  assume uv: "outbox_ext u v" and vw: "outbox_ext v w"
  from uv obtain as where a: "outbox v = outbox u @ as"
      "map ob_id as = map (new_uuid u) [n_uuids u..<n_uuids v]"
      "\<forall>r\<in>set as. ob_status r = Pending \<and> ob_retries r = 0 \<and> ob_deferrals r = 0 \<and> routable r"
    by (auto simp: outbox_ext_def)
  from vw obtain bs where b: "outbox w = outbox v @ bs"
      "map ob_id bs = map (new_uuid v) [n_uuids v..<n_uuids w]"
      "\<forall>r\<in>set bs. ob_status r = Pending \<and> ob_retries r = 0 \<and> ob_deferrals r = 0 \<and> routable r"
    by (auto simp: outbox_ext_def)
  from uv vw have le: "n_uuids u \<le> n_uuids v" "n_uuids v \<le> n_uuids w"
    by (auto simp: outbox_ext_def)
  have split: "[n_uuids u..<n_uuids w] = [n_uuids u..<n_uuids v] @ [n_uuids v..<n_uuids w]"
    using le by (metis le_add_diff_inverse upt_add_eq_append)
  have "\<exists>new. outbox w = outbox u @ new \<and> map ob_id new = map (new_uuid u) [n_uuids u..<n_uuids w] \<and>
      (\<forall>r\<in>set new. ob_status r = Pending \<and> ob_retries r = 0 \<and> ob_deferrals r = 0 \<and> routable r)"
    using a b uv split by (intro exI [of _ "as @ bs"]) (auto simp: outbox_ext_def)
  with uv vw le show ?thesis
    by (simp add: outbox_ext_def)
qed

lemma outbox_ext_same:
  "clock w' = clock w \<Longrightarrow> locked w' = locked w \<Longrightarrow> new_uuid w' = new_uuid w \<Longrightarrow> n_uuids w' = n_uuids w \<Longrightarrow>
   outbox w' = outbox w \<Longrightarrow> outbox_ext w w'"
  by (simp add: outbox_ext_def)

lemma outbox_ext_called [ext_intro]: "outbox_ext w (called w)"
  by (rule outbox_ext_same) simp_all

lemma outbox_ext_shoots [ext_intro]: "outbox_ext w (w\<lparr>shoots := s\<rparr>)"
  by (rule outbox_ext_same) simp_all

lemma outbox_ext_garden [ext_intro]: "outbox_ext w (w\<lparr>garden := g\<rparr>)"
  by (rule outbox_ext_same) simp_all

lemma outbox_ext_event [ext_intro]: "outbox_ext w (ClusterCreateUserSyncEvent cid ty msg w)"
  by (rule outbox_ext_same) (simp_all add: ClusterCreateUserSyncEvent_def)

lemma outbox_ext_insert:
  "(\<And>i. ob_id (mk i) = i \<and> ob_status (mk i) = Pending \<and> ob_retries (mk i) = 0 \<and> ob_deferrals (mk i) = 0 \<and> routable (mk i))
   \<Longrightarrow> outbox_ext w (outbox_insert mk w)"
  by (simp add: outbox_ext_def outbox_insert_def Let_def)

lemma outbox_ext_inserts [ext_intro]:
  "outbox_ext w (OutboxInsertReady cid w)"
  "outbox_ext w (OutboxInsertReconcile cid maxr w)"
  "outbox_ext w (OutboxInsertReconcileForNamespace nid maxr w)"
  by (auto simp: OutboxInsertReady_def OutboxInsertReconcile_def OutboxInsertReconcileForNamespace_def
      new_obrow_def routable_def intro!: outbox_ext_refl outbox_ext_insert)

lemma db_read_ext: "db_read f w = (x, w') \<Longrightarrow> outbox_ext w w'"
  by (auto simp: db_read_eq intro: outbox_ext_called)

lemma db_exec_ext: "db_exec f w = (e, w') \<Longrightarrow> (\<And>v. outbox_ext v (f v)) \<Longrightarrow> outbox_ext w w'"
  by (auto simp: db_exec_eq split: option.splits
      intro: outbox_ext_called outbox_ext_trans [OF outbox_ext_called])

text \<open>Most handlers leave the outbox and the tables as they are.\<close>

definition quiet :: "('s, 'g) world \<Rightarrow> ('s, 'g) world \<Rightarrow> bool" where
  "quiet w w' \<longleftrightarrow> clock w' = clock w \<and> locked w' = locked w \<and> new_uuid w' = new_uuid w \<and>
     n_uuids w' = n_uuids w \<and> outbox w' = outbox w \<and> db w' = db w \<and> db_fault w' = db_fault w"

lemma quiet_refl [simp]: "quiet w w"
  by (simp add: quiet_def)

lemma quiet_trans: "quiet u v \<Longrightarrow> quiet v w \<Longrightarrow> quiet u w"
  by (simp add: quiet_def)

lemma quiet_ext: "quiet w w' \<Longrightarrow> outbox_ext w w'"
  by (simp add: quiet_def outbox_ext_same)

lemma quiet_called [simp]: "quiet w (called w)"
  by (simp add: quiet_def)

lemma quiet_shoots [simp]: "quiet w (w'\<lparr>shoots := s\<rparr>) = quiet w w'"
  by (simp add: quiet_def)

lemma quiet_garden [simp]: "quiet w (w'\<lparr>garden := s\<rparr>) = quiet w w'"
  by (simp add: quiet_def)

lemma quiet_called_iff [simp]: "quiet w (called w') = quiet w w'" "quiet (called w) w' = quiet w w'"
  by (auto simp: quiet_def)

lemma quiet_left [simp]: "quiet (w\<lparr>shoots := s\<rparr>) w' = quiet w w'" "quiet (w\<lparr>garden := g\<rparr>) w' = quiet w w'"
  by (auto simp: quiet_def)

text \<open>The handlers of shoot contents do not touch Gardener either.\<close>

definition calm :: "('s, 'g) world \<Rightarrow> ('s, 'g) world \<Rightarrow> bool" where
  "calm w w' \<longleftrightarrow> quiet w w' \<and> garden w' = garden w"

lemmas calm_defs = calm_def quiet_def

lemma calm_refl [simp]: "calm w w"
  by (simp add: calm_defs)

lemma calm_trans: "calm u v \<Longrightarrow> calm v w \<Longrightarrow> calm u w"
  by (simp add: calm_defs)

lemma calm_ext: "calm w w' \<Longrightarrow> outbox_ext w w'"
  by (simp add: calm_def quiet_ext)

lemma calm_simps [simp]:
  "calm w (called w)" "calm w (w'\<lparr>shoots := s\<rparr>) = calm w w'" "calm w (called w') = calm w w'"
  "calm (called w) w' = calm w w'" "calm (w\<lparr>shoots := s\<rparr>) w' = calm w w'"
  by (auto simp: calm_defs)

end
