(* ===== verification/Outbox.thy ===== *)
theory Outbox
  imports Tenant_Db "HOL-Library.Multiset"
begin

text \<open>
  The handler registry (\<open>cluster-worker/pkg/handler/mod.go\<close>) and the outbox worker
  (\<open>cluster-worker/pkg/outbox/worker.go\<close>): claim the next row, dispatch it to the handlers its
  entity and event are routed to, and complete it. The row-level state machine \<open>row_step\<close> is the
  abstract specification; \<open>processNextRow\<close> is shown to refine it. \<open>uuid.UUID.String\<close> is the
  parameter \<open>us\<close>. A result \<open>None\<close> of a step is a Go panic.
\<close>

section \<open>Registry\<close>

datatype entity_type = EntityNone | EntityCluster | EntityOrgUser | EntityProjectMember
  | EntityNodePool | EntityNamespace

fun entity_text :: "entity_type \<Rightarrow> string" where
  "entity_text EntityNone = ''''"
| "entity_text EntityCluster = ''cluster''"
| "entity_text EntityOrgUser = ''org_user''"
| "entity_text EntityProjectMember = ''project_member''"
| "entity_text EntityNodePool = ''node_pool''"
| "entity_text EntityNamespace = ''namespace''"

fun event_text :: "ob_event \<Rightarrow> string" where
  "event_text Created = ''created''"
| "event_text Updated = ''updated''"
| "event_text Deleted = ''deleted''"
| "event_text Reconcile = ''reconcile''"
| "event_text Ready = ''ready''"

record sync_context =
  sc_entity :: entity_type
  sc_event :: ob_event
  sc_source :: ob_source

type_synonym ('s, 'g) handler =
  "uuid \<Rightarrow> sync_context \<Rightarrow> ('s, 'g) world \<Rightarrow> (gerr option \<times> ('s, 'g) world) option"

type_synonym ('s, 'g) periodic = "('s, 'g) world \<Rightarrow> (gerr option \<times> ('s, 'g) world) option"

record ('s, 'g) registry =
  syncHandlers :: "entity_type \<rightharpoonup> ('s, 'g) handler"
  eventSyncHandlers :: "entity_type \<times> ob_event \<Rightarrow> ('s, 'g) handler list"
  statusHandlers :: "('s, 'g) periodic list"
  reconcileHandlers :: "('s, 'g) periodic list"

definition NewRegistry :: "('s, 'g) registry" where
  "NewRegistry = \<lparr>syncHandlers = Map.empty, eventSyncHandlers = (\<lambda>_. []), statusHandlers = [],
     reconcileHandlers = []\<rparr>"

definition RegisterSync ::
  "entity_type \<Rightarrow> ('s, 'g) handler \<Rightarrow> ('s, 'g) registry \<Rightarrow> ('s, 'g) registry option" where
  "RegisterSync e h r =
     (if syncHandlers r e \<noteq> None then None
      else Some (r\<lparr>syncHandlers := (syncHandlers r)(e \<mapsto> h)\<rparr>))"

definition RegisterStatus :: "('s, 'g) periodic \<Rightarrow> ('s, 'g) registry \<Rightarrow> ('s, 'g) registry" where
  "RegisterStatus h r = r\<lparr>statusHandlers := statusHandlers r @ [h]\<rparr>"

definition RegisterReconcile :: "('s, 'g) periodic \<Rightarrow> ('s, 'g) registry \<Rightarrow> ('s, 'g) registry" where
  "RegisterReconcile h r = r\<lparr>reconcileHandlers := reconcileHandlers r @ [h]\<rparr>"

definition RegisterSyncForEvent ::
  "entity_type \<Rightarrow> ob_event \<Rightarrow> ('s, 'g) handler \<Rightarrow> ('s, 'g) registry \<Rightarrow> ('s, 'g) registry" where
  "RegisterSyncForEvent e ev h r =
     r\<lparr>eventSyncHandlers := (eventSyncHandlers r)((e, ev) := eventSyncHandlers r (e, ev) @ [h])\<rparr>"

definition SyncHandlersFor ::
  "('s, 'g) registry \<Rightarrow> entity_type \<Rightarrow> ob_event \<Rightarrow> gerr + ('s, 'g) handler list" where
  "SyncHandlersFor r e ev =
     (if eventSyncHandlers r (e, ev) \<noteq> [] then Inr (eventSyncHandlers r (e, ev))
      else case syncHandlers r e of
             Some h \<Rightarrow> Inr [h]
           | None \<Rightarrow> Inl (ErrNew (''no sync handler registered for '' @ entity_text e @
               '' (event='' @ event_text ev @ '')'')))"

section \<open>Worker\<close>

record outbox_cfg =
  BaseBackoff :: micros
  MaxBackoff :: micros
  MaxRetries :: int
  PreconditionDelay :: micros
  MaxPreconditionDeferrals :: int

definition errNonRetryable :: gerr where
  "errNonRetryable = ErrNew ''non-retryable''"

definition entityFromRow :: "(uuid \<Rightarrow> string) \<Rightarrow> obrow \<Rightarrow> gerr + (entity_type \<times> uuid)" where
  "entityFromRow us row =
     (case ob_cluster row of Some i \<Rightarrow> Inr (EntityCluster, i) | None \<Rightarrow>
     (case ob_org_user row of Some i \<Rightarrow> Inr (EntityOrgUser, i) | None \<Rightarrow>
     (case ob_project_member row of Some i \<Rightarrow> Inr (EntityProjectMember, i) | None \<Rightarrow>
     (case ob_node_pool row of Some i \<Rightarrow> Inr (EntityNodePool, i) | None \<Rightarrow>
     (case ob_namespace row of Some i \<Rightarrow> Inr (EntityNamespace, i) | None \<Rightarrow>
      Inl (ErrNew (''no valid entity FK in outbox row '' @ us (ob_id row))))))))"

text \<open>\<open>claim\<close>: begin a transaction and select the next row for update. \<open>Inr None\<close> is "no row".\<close>

definition claim :: "('s, 'g) world \<Rightarrow> (gerr + obrow option) \<times> ('s, 'g) world" where
  "claim w =
     (case db_exec (\<lambda>w. w) w of
        (Some e, w) \<Rightarrow> (Inl (errorf ''begin transaction'' e), w)
      | (None, w) \<Rightarrow>
          (case db_read OutboxGetAndLock w of
             (Inl e, w) \<Rightarrow>
               (if errors_is ErrNoRows e then (Inr None, w)
                else (Inl (errorf ''get next outbox row'' e), w))
           | (Inr row, w) \<Rightarrow> (Inr (Some row), w)))"

text \<open>Every handler runs; hard errors and precondition errors are collected apart.\<close>

fun run_handlers ::
  "('s, 'g) handler list \<Rightarrow> uuid \<Rightarrow> sync_context \<Rightarrow> gerr list \<Rightarrow> gerr list \<Rightarrow> ('s, 'g) world \<Rightarrow>
   (gerr list \<times> gerr list \<times> ('s, 'g) world) option" where
  "run_handlers [] i sc hard pre w = Some (hard, pre, w)"
| "run_handlers (h # hs) i sc hard pre w =
     (case h i sc w of
        None \<Rightarrow> None
      | Some (None, w) \<Rightarrow> run_handlers hs i sc hard pre w
      | Some (Some e, w) \<Rightarrow>
          if as_precondition e \<noteq> None then run_handlers hs i sc hard (pre @ [e]) w
          else run_handlers hs i sc (hard @ [e]) pre w)"

definition process ::
  "(uuid \<Rightarrow> string) \<Rightarrow> ('s, 'g) registry \<Rightarrow> obrow \<Rightarrow> ('s, 'g) world \<Rightarrow>
   (entity_type \<times> gerr option \<times> ('s, 'g) world) option" where
  "process us reg row w =
     (case entityFromRow us row of
        Inl e \<Rightarrow> Some (EntityNone, Some (errorf2 errNonRetryable e), w)
      | Inr (ety, eid) \<Rightarrow>
          (case SyncHandlersFor reg ety (ob_event row) of
             Inl e \<Rightarrow> Some (ety, Some (errorf2 errNonRetryable e), w)
           | Inr hs \<Rightarrow>
               (case run_handlers hs eid
                       \<lparr>sc_entity = ety, sc_event = ob_event row, sc_source = ob_source row\<rparr> [] [] w of
                  None \<Rightarrow> None
                | Some (hard, pre, w) \<Rightarrow>
                    let ctx = ''sync '' @ entity_text ety @ '' '' @ us eid
                    in if hard \<noteq> [] then Some (ety, Some (errorf ctx (Joined hard)), w)
                       else if pre \<noteq> [] then Some (ety, Some (errorf ctx (Joined pre)), w)
                       else Some (ety, None, w))))"

definition handleRowError ::
  "outbox_cfg \<Rightarrow> obrow \<Rightarrow> gerr \<Rightarrow> ('s, 'g) world \<Rightarrow> gerr option \<times> ('s, 'g) world" where
  "handleRowError cfg row e w =
     (if MaxRetries cfg \<le> wrap32 (ob_retries row + 1)
      then (case db_exec (OutboxMarkFailed (ob_id row) (err_text e)) w of
              (Some me, w) \<Rightarrow> (Some (errorf ''mark outbox failed'' me), w)
            | (None, w) \<Rightarrow> (None, w))
      else (case db_exec (OutboxMarkRetry (ob_id row) (BaseBackoff cfg) (MaxBackoff cfg) (err_text e)) w of
              (Some me, w) \<Rightarrow> (Some (errorf ''mark outbox retry'' me), w)
            | (None, w) \<Rightarrow> (None, w)))"

definition handlePreconditionError ::
  "outbox_cfg \<Rightarrow> obrow \<Rightarrow> string \<Rightarrow> ('s, 'g) world \<Rightarrow> bool \<times> gerr option \<times> ('s, 'g) world" where
  "handlePreconditionError cfg row reason w =
     (if MaxPreconditionDeferrals cfg < wrap32 (ob_deferrals row + 1)
      then (case handleRowError cfg row (PreconditionError reason) w of
              (Some me, w) \<Rightarrow> (False, Some (errorf ''handle processing error'' me), w)
            | (None, w) \<Rightarrow> (True, None, w))
      else (case db_exec (OutboxDeferWithoutRetry (ob_id row) (PreconditionDelay cfg) reason) w of
              (Some me, w) \<Rightarrow> (False, Some (errorf ''defer outbox row'' me), w)
            | (None, w) \<Rightarrow> (True, None, w)))"

text \<open>On success the update and the commit share the transaction of the claim: the row changes
  when the commit succeeds and not before.\<close>

definition complete ::
  "outbox_cfg \<Rightarrow> obrow \<Rightarrow> gerr option \<Rightarrow> ('s, 'g) world \<Rightarrow> bool \<times> gerr option \<times> ('s, 'g) world" where
  "complete cfg row perr w =
     (case perr of
        Some e \<Rightarrow>
          if errors_is errNonRetryable e
          then (case db_exec (OutboxMarkFailed (ob_id row) (err_text e)) w of
                  (Some me, w) \<Rightarrow> (False, Some (errorf ''mark failed for non-retryable error'' me), w)
                | (None, w) \<Rightarrow> (True, None, w))
          else (case as_precondition e of
                  Some reason \<Rightarrow> handlePreconditionError cfg row reason w
                | None \<Rightarrow>
                    (case handleRowError cfg row e w of
                       (Some me, w) \<Rightarrow> (False, Some (errorf ''handle processing error'' me), w)
                     | (None, w) \<Rightarrow> (True, None, w)))
      | None \<Rightarrow>
          (case db_exec (\<lambda>w. w) w of
             (Some e, w) \<Rightarrow> (False, Some (errorf ''mark as processed'' e), w)
           | (None, w) \<Rightarrow>
               (case db_exec (OutboxMarkProcessed (ob_id row)) w of
                  (Some e, w) \<Rightarrow> (False, Some (errorf ''commit'' e), w)
                | (None, w) \<Rightarrow> (True, None, w))))"

definition processNextRow ::
  "(uuid \<Rightarrow> string) \<Rightarrow> outbox_cfg \<Rightarrow> ('s, 'g) registry \<Rightarrow> bool \<Rightarrow> ('s, 'g) world \<Rightarrow>
   (bool \<times> gerr option \<times> ('s, 'g) world) option" where
  "processNextRow us cfg reg cancelled w =
     (if cancelled then Some (False, None, w)
      else case claim w of
             (Inl e, w) \<Rightarrow> Some (False, Some e, w)
           | (Inr None, w) \<Rightarrow> Some (False, None, w)
           | (Inr (Some row), w) \<Rightarrow>
               (case process us reg row w of
                  None \<Rightarrow> None
                | Some (ety, perr, w) \<Rightarrow> Some (complete cfg row perr w)))"

text \<open>The drain loop, with fuel: \<open>cancelled k\<close> says whether the context is done at its \<open>k\<close>-th
  iteration.\<close>

datatype 'w drain = OutOfFuel | Panicked | Drained "gerr option" 'w

fun processAllRows ::
  "nat \<Rightarrow> (uuid \<Rightarrow> string) \<Rightarrow> outbox_cfg \<Rightarrow> ('s, 'g) registry \<Rightarrow> (nat \<Rightarrow> bool) \<Rightarrow> nat \<Rightarrow>
   ('s, 'g) world \<Rightarrow> ('s, 'g) world drain" where
  "processAllRows 0 us cfg reg cancelled k w = OutOfFuel"
| "processAllRows (Suc fuel) us cfg reg cancelled k w =
     (case processNextRow us cfg reg (cancelled k) w of
        None \<Rightarrow> Panicked
      | Some (hasNext, Some e, w) \<Rightarrow> Drained (Some e) w
      | Some (hasNext, None, w) \<Rightarrow>
          if hasNext then processAllRows fuel us cfg reg cancelled (Suc k) w else Drained None w)"

section \<open>The life of one row\<close>

text \<open>What one attempt does to the row it claimed, as a function of how the attempt ended: the
  abstract specification of \<open>complete\<close>.\<close>

datatype attempt = Succeeded | NonRetryable string | Deferred string string | FailedHard string

definition fail_row :: "outbox_cfg \<Rightarrow> micros \<Rightarrow> string \<Rightarrow> obrow \<Rightarrow> obrow" where
  "fail_row cfg now info r =
     (if MaxRetries cfg \<le> ob_retries r + 1
      then r\<lparr>ob_status := Failed, ob_failed := Some now, ob_status_info := Some info\<rparr>
      else r\<lparr>ob_retries := ob_retries r + 1,
             ob_retry_after := Some (now + backoff (BaseBackoff cfg) (MaxBackoff cfg) (ob_retries r + 1)),
             ob_status := Retrying, ob_status_info := Some info\<rparr>)"

fun row_step :: "outbox_cfg \<Rightarrow> micros \<Rightarrow> attempt \<Rightarrow> obrow \<Rightarrow> obrow" where
  "row_step cfg now Succeeded r =
     r\<lparr>ob_status := Completed, ob_processed := Some now, ob_status_info := None, ob_retry_after := None\<rparr>"
| "row_step cfg now (NonRetryable info) r =
     r\<lparr>ob_status := Failed, ob_failed := Some now, ob_status_info := Some info\<rparr>"
| "row_step cfg now (FailedHard info) r = fail_row cfg now info r"
| "row_step cfg now (Deferred reason info) r =
     (if MaxPreconditionDeferrals cfg < ob_deferrals r + 1 then fail_row cfg now info r
      else r\<lparr>ob_retry_after := Some (now + PreconditionDelay cfg),
             ob_deferrals := ob_deferrals r + 1, ob_status_info := Some reason\<rparr>)"

definition attempt_of :: "gerr option \<Rightarrow> attempt" where
  "attempt_of perr =
     (case perr of
        None \<Rightarrow> Succeeded
      | Some e \<Rightarrow>
          if errors_is errNonRetryable e then NonRetryable (err_text e)
          else (case as_precondition e of
                  Some reason \<Rightarrow> Deferred reason (err_text (PreconditionError reason))
                | None \<Rightarrow> FailedHard (err_text e)))"

text \<open>The counters of a row stay where 32-bit arithmetic is exact.\<close>

definition row_ok :: "outbox_cfg \<Rightarrow> obrow \<Rightarrow> bool" where
  "row_ok cfg r \<longleftrightarrow> 0 \<le> ob_retries r \<and> ob_retries r \<le> max 0 (MaxRetries cfg) \<and>
     0 \<le> ob_deferrals r \<and> ob_deferrals r \<le> max 0 (MaxPreconditionDeferrals cfg)"

definition cfg_ok :: "outbox_cfg \<Rightarrow> bool" where
  "cfg_ok cfg \<longleftrightarrow> MaxRetries cfg < 2 ^ 31 - 1 \<and> MaxPreconditionDeferrals cfg < 2 ^ 31 - 1"

definition terminal :: "obrow \<Rightarrow> bool" where
  "terminal r \<longleftrightarrow> \<not> active_status (ob_status r)"

definition attempts_left :: "outbox_cfg \<Rightarrow> obrow \<Rightarrow> nat" where
  "attempts_left cfg r = (if terminal r then 0
     else max 1 (nat (MaxRetries cfg - ob_retries r)) + nat (MaxPreconditionDeferrals cfg - ob_deferrals r))"

section \<open>Lemmas: claiming\<close>

lemma OutboxGetAndLock_InrD:
  assumes "OutboxGetAndLock w = Inr row"
  shows "row \<in> set (outbox w)" "eligible (clock w) row" "ob_id row \<notin> set (locked w)"
    "\<And>r. r \<in> set (outbox w) \<Longrightarrow> eligible (clock w) r \<Longrightarrow> ob_id r \<notin> set (locked w) \<Longrightarrow> ob_id row \<le> ob_id r"
proof -
  from assms have sel: "select_min ob_id (\<lambda>r. eligible (clock w) r \<and> ob_id r \<notin> set (locked w)) (outbox w) = Some row"
    by (auto simp: OutboxGetAndLock_def split: option.splits)
  from select_min_Some [OF sel] show "row \<in> set (outbox w)" "eligible (clock w) row" "ob_id row \<notin> set (locked w)"
    by auto
  show "ob_id row \<le> ob_id r" if "r \<in> set (outbox w)" "eligible (clock w) r" "ob_id r \<notin> set (locked w)" for r
    using select_min_least [OF sel] that by blast
qed

lemma claim_frame:
  "claim w = (x, w') \<Longrightarrow> outbox w' = outbox w \<and> clock w' = clock w \<and> locked w' = locked w \<and>
     new_uuid w' = new_uuid w \<and> n_uuids w' = n_uuids w"
  by (auto simp: claim_def db_exec_eq db_read_eq split: option.splits sum.splits if_splits)

lemma claim_row:
  assumes "claim w = (Inr (Some row), w')"
  shows "OutboxGetAndLock w = Inr row"
  using assms
  by (auto simp: claim_def db_exec_eq db_read_eq OutboxGetAndLock_def
      split: option.splits sum.splits if_splits)

lemma claim_none:
  assumes "claim w = (Inr None, w')" "db_fault w = (\<lambda>_. None)"
  shows "\<forall>r\<in>set (outbox w). eligible (clock w) r \<longrightarrow> ob_id r \<in> set (locked w)"
  using assms
  by (auto simp: claim_def db_exec_eq db_read_eq OutboxGetAndLock_def table_simps
      split: option.splits sum.splits if_splits)

section \<open>Lemmas: the row state machine\<close>

lemma row_ok_exact:
  assumes "cfg_ok cfg" "row_ok cfg r"
  shows "wrap32 (ob_retries r + 1) = ob_retries r + 1" "wrap32 (ob_deferrals r + 1) = ob_deferrals r + 1"
  using assms by (auto simp: cfg_ok_def row_ok_def in32_def intro!: wrap32_id)

lemma fail_row_ok: "row_ok cfg r \<Longrightarrow> row_ok cfg (fail_row cfg now info r)"
  by (auto simp: row_ok_def fail_row_def)

lemma row_step_ok: "row_ok cfg r \<Longrightarrow> row_ok cfg (row_step cfg now a r)"
  by (cases a) (auto simp: fail_row_ok, auto simp: row_ok_def)

lemma row_step_id [simp]: "ob_id (row_step cfg now a r) = ob_id r"
  by (cases a) (auto simp: fail_row_def)

lemma attempts_left_step:
  assumes "\<not> terminal r"
  shows "attempts_left cfg (row_step cfg now a r) < attempts_left cfg r"
proof -
  have hard: "attempts_left cfg (fail_row cfg now info r) < attempts_left cfg r" for info
    using assms by (auto simp: attempts_left_def fail_row_def terminal_def active_status_def)
  show ?thesis
  proof (cases a)
    case (Deferred reason info)
    show ?thesis
    proof (cases "MaxPreconditionDeferrals cfg < ob_deferrals r + 1")
      case False
      with assms show ?thesis by (simp add: Deferred attempts_left_def terminal_def)
    qed (simp add: Deferred hard)
  next
    case (FailedHard info)
    then show ?thesis by (simp add: hard)
  qed (use assms in \<open>auto simp: attempts_left_def terminal_def active_status_def\<close>)
qed

text \<open>A row is attempted until it is terminal.\<close>

fun attempts :: "outbox_cfg \<Rightarrow> (micros \<times> attempt) list \<Rightarrow> obrow \<Rightarrow> obrow" where
  "attempts cfg [] r = r"
| "attempts cfg ((now, a) # as) r = (if terminal r then r else attempts cfg as (row_step cfg now a r))"

lemma attempts_terminal: "terminal r \<Longrightarrow> attempts cfg as r = r"
  by (cases as) auto

lemma attempts_left_enough: "attempts_left cfg r \<le> length as \<Longrightarrow> terminal (attempts cfg as r)"
proof (induction as arbitrary: r)
  case Nil
  then show ?case by (auto simp: attempts_left_def split: if_splits)
next
  case (Cons x as)
  obtain now a where x: "x = (now, a)" by (cases x)
  show ?case
  proof (cases "terminal r")
    case False
    with attempts_left_step [of r cfg now a] Cons show ?thesis by (simp add: x)
  qed (simp add: x)
qed

text \<open>An eligible row is not eligible right after an attempt, whatever its outcome.\<close>

lemma row_step_not_eligible:
  assumes "0 < BaseBackoff cfg" "0 < MaxBackoff cfg" "0 < PreconditionDelay cfg"
    "MaxRetries cfg \<le> 30" "0 \<le> ob_retries r"
  shows "\<not> eligible now (row_step cfg now a r)"
proof -
  have hard: "\<not> eligible now (fail_row cfg now info r)" for info
    using assms backoff_bounds(1) [of "BaseBackoff cfg" "MaxBackoff cfg" "ob_retries r + 1"]
    by (auto simp: eligible_def fail_row_def active_status_def)
  show ?thesis
    using assms hard by (cases a) (auto simp: eligible_def active_status_def)
qed

section \<open>Lemmas: completing\<close>

lemma update_where_unique:
  assumes "distinct (map key rs)" "x \<in> set rs" "f x = g x"
  shows "update_where (\<lambda>r. key r = key x) f rs = update_where (\<lambda>r. key r = key x) g rs"
proof -
  have "key r = key x \<Longrightarrow> r = x" if "r \<in> set rs" for r
    using assms(1,2) that by (auto simp: distinct_map inj_on_def)
  with assms(3) show ?thesis
    by (auto simp: update_where_def)
qed

text \<open>\<open>complete\<close> reports \<open>hasNext\<close> exactly when it returns no error, and then it has applied one
  step of the row state machine to the claimed row; otherwise the outbox is as it was.\<close>

lemma complete_refines_row_step:
  assumes cfg: "cfg_ok cfg" and ok: "row_ok cfg row"
    and dist: "distinct (map ob_id (outbox w))" and mem: "row \<in> set (outbox w)"
    and eq: "complete cfg row perr w = (hasNext, err, w')"
  shows "hasNext = (err = None)"
    and "outbox w' = (if err = None
           then update_where (\<lambda>r. ob_id r = ob_id row) (row_step cfg (clock w) (attempt_of perr)) (outbox w)
           else outbox w)"
    and "clock w' = clock w \<and> locked w' = locked w \<and> new_uuid w' = new_uuid w \<and> n_uuids w' = n_uuids w"
proof -
  note exact = row_ok_exact [OF cfg ok]
  note unique = update_where_unique [OF dist mem]
  note defs = complete_def handlePreconditionError_def handleRowError_def db_exec_eq
  show "hasNext = (err = None)"
    using eq by (auto simp: defs split: option.splits if_splits)
  show "clock w' = clock w \<and> locked w' = locked w \<and> new_uuid w' = new_uuid w \<and> n_uuids w' = n_uuids w"
    using eq by (auto simp: defs outbox_marks split: option.splits if_splits)
  show "outbox w' = (if err = None
      then update_where (\<lambda>r. ob_id r = ob_id row) (row_step cfg (clock w) (attempt_of perr)) (outbox w)
      else outbox w)"
    using eq exact
    by (auto simp: defs outbox_marks attempt_of_def fail_row_def
        split: option.splits if_splits intro!: unique)
qed

section \<open>Lemmas: dispatching\<close>

text \<open>The fan-out as a reference definition: every handler in order, each result kept.\<close>

fun run_all ::
  "('s, 'g) handler list \<Rightarrow> uuid \<Rightarrow> sync_context \<Rightarrow> ('s, 'g) world \<Rightarrow>
   (gerr option list \<times> ('s, 'g) world) option" where
  "run_all [] i sc w = Some ([], w)"
| "run_all (h # hs) i sc w =
     (case h i sc w of
        None \<Rightarrow> None
      | Some (e, w) \<Rightarrow> map_option (\<lambda>(es, w). (e # es, w)) (run_all hs i sc w))"

definition hard_errors :: "gerr option list \<Rightarrow> gerr list" where
  "hard_errors es = filter (\<lambda>e. as_precondition e = None) (List.map_filter id es)"

definition precond_errors :: "gerr option list \<Rightarrow> gerr list" where
  "precond_errors es = filter (\<lambda>e. as_precondition e \<noteq> None) (List.map_filter id es)"

lemma run_handlers_run_all:
  "run_handlers hs i sc hard pre w =
   map_option (\<lambda>(es, w). (hard @ hard_errors es, pre @ precond_errors es, w)) (run_all hs i sc w)"
  by (induction hs arbitrary: hard pre w)
    (auto simp: hard_errors_def precond_errors_def List.map_filter_simps option.map_comp o_def
      split: option.splits intro!: option.map_cong)

lemma run_all_length: "run_all hs i sc w = Some (es, w') \<Longrightarrow> length es = length hs"
  by (induction hs arbitrary: w es) (auto split: option.splits)

lemma as_precondition_precond_errors:
  "precond_errors es \<noteq> [] \<Longrightarrow> \<exists>reason. as_precondition (Joined (precond_errors es)) = Some reason"
  by (cases "precond_errors es")
    (auto simp: precond_errors_def first_some_Cons filter_eq_Cons_iff split: option.splits)

lemma as_precondition_hard_errors: "as_precondition (Joined (hard_errors es)) = None"
  by (simp add: as_precondition_Joined_None hard_errors_def del: as_precondition.simps)

text \<open>Handlers that only append to the outbox.\<close>

definition appends :: "('s, 'g) handler \<Rightarrow> bool" where
  "appends h \<longleftrightarrow> (\<forall>i sc w e w'. h i sc w = Some (e, w') \<longrightarrow> outbox_ext w w')"

lemma run_handlers_ext:
  "(\<And>h. h \<in> set hs \<Longrightarrow> appends h) \<Longrightarrow> run_handlers hs i sc hard pre w = Some (hard', pre', w') \<Longrightarrow>
   outbox_ext w w'"
proof (induction hs arbitrary: hard pre w)
  case Nil
  then show ?case by (simp add: outbox_ext_refl)
next
  case (Cons h hs)
  from Cons.prems obtain e v where v: "h i sc w = Some (e, v)"
    by (auto split: option.splits)
  moreover have "outbox_ext w v"
    using Cons.prems(1) [of h] v unfolding appends_def by simp
  moreover have "outbox_ext v w'"
    using Cons.IH [where w = v] Cons.prems v by (auto split: option.splits if_splits)
  ultimately show ?case
    by (blast intro: outbox_ext_trans)
qed

section \<open>The contract between the worker and its handlers\<close>

text \<open>The tables the worker starts from: distinct identifiers, counters in range, and generated
  identifiers that are new.\<close>

definition wf_outbox :: "outbox_cfg \<Rightarrow> ('s, 'g) world \<Rightarrow> bool" where
  "wf_outbox cfg w \<longleftrightarrow> distinct (map ob_id (outbox w)) \<and> (\<forall>r\<in>set (outbox w). row_ok cfg r) \<and>
     inj (new_uuid w) \<and> (\<forall>k\<ge>n_uuids w. new_uuid w k \<notin> ob_id ` set (outbox w))"

lemma wf_outbox_ext:
  assumes wf: "wf_outbox cfg w" and ext: "outbox_ext w w'"
  shows "wf_outbox cfg w'"
proof -
  from ext obtain new where new: "outbox w' = outbox w @ new"
      "map ob_id new = map (new_uuid w) [n_uuids w..<n_uuids w']"
      "\<forall>r\<in>set new. ob_status r = Pending \<and> ob_retries r = 0 \<and> ob_deferrals r = 0"
      "new_uuid w' = new_uuid w" "n_uuids w \<le> n_uuids w'"
    by (auto simp: outbox_ext_def)
  have ids: "ob_id ` set new = new_uuid w ` {n_uuids w..<n_uuids w'}"
    using arg_cong [OF new(2), of set] by simp
  have inj: "inj (new_uuid w)" and old: "\<And>k. n_uuids w \<le> k \<Longrightarrow> new_uuid w k \<notin> ob_id ` set (outbox w)"
    using wf by (auto simp: wf_outbox_def)
  have "distinct (map ob_id new)"
    unfolding new(2) using inj_on_subset [OF inj subset_UNIV] by (simp add: distinct_map)
  moreover have "ob_id ` set (outbox w) \<inter> ob_id ` set new = {}"
    unfolding ids
  proof (intro equals0I)
    fix x assume "x \<in> ob_id ` set (outbox w) \<inter> new_uuid w ` {n_uuids w..<n_uuids w'}"
    then obtain k where "k \<in> {n_uuids w..<n_uuids w'}" "x = new_uuid w k" "x \<in> ob_id ` set (outbox w)"
      by blast
    with old [of k] show False by simp
  qed
  ultimately have "distinct (map ob_id (outbox w'))"
    using wf new(1) by (simp add: wf_outbox_def)
  moreover have "new_uuid w k \<notin> ob_id ` set (outbox w')" if "n_uuids w' \<le> k" for k
  proof -
    have "new_uuid w k \<notin> ob_id ` set new"
      unfolding ids using inj_eq [OF inj] that by (simp add: image_iff)
    moreover have "new_uuid w k \<notin> ob_id ` set (outbox w)"
      using old [of k] that new(5) by simp
    ultimately show ?thesis
      unfolding new(1) by (simp add: image_Un)
  qed
  moreover have "\<forall>r\<in>set (outbox w'). row_ok cfg r"
    using wf new(1,3) by (auto simp: wf_outbox_def row_ok_def)
  ultimately show ?thesis
    using inj new(4) by (simp add: wf_outbox_def)
qed

lemma wf_outbox_step:
  assumes "wf_outbox cfg w"
    and "outbox w' = update_where (\<lambda>r. ob_id r = i) (row_step cfg now a) (outbox w)"
    and "new_uuid w' = new_uuid w" "n_uuids w' = n_uuids w"
  shows "wf_outbox cfg w'"
proof -
  have "map ob_id (outbox w') = map ob_id (outbox w)"
    using assms(2) by simp
  then have "ob_id ` set (outbox w') = ob_id ` set (outbox w)" "distinct (map ob_id (outbox w')) = distinct (map ob_id (outbox w))"
    by (metis list.set_map, simp)
  with assms show ?thesis
    by (auto simp: wf_outbox_def set_update_where row_step_ok)
qed

locale outbox_client =
  fixes reg :: "('s, 'g) registry"
  assumes default_appends: "syncHandlers reg e = Some h \<Longrightarrow> appends h"
    and event_appends: "h \<in> set (eventSyncHandlers reg k) \<Longrightarrow> appends h"
begin

lemma handlers_append:
  "SyncHandlersFor reg e ev = Inr hs \<Longrightarrow> h \<in> set hs \<Longrightarrow> appends h"
  by (auto simp: SyncHandlersFor_def split: if_splits option.splits
      intro: default_appends event_appends)

lemma process_ext:
  assumes "process us reg row w = Some (ety, perr, w')"
  shows "outbox_ext w w'"
  using assms handlers_append
  by (auto simp: process_def Let_def outbox_ext_refl split: sum.splits option.splits prod.splits if_splits
      intro!: run_handlers_ext)

text \<open>One iteration: the claimed row takes one step of the row state machine, everything else in
  the outbox is kept, and only new rows are added.\<close>

lemma processNextRow_runs:
  assumes cfg: "cfg_ok cfg" and wf: "wf_outbox cfg w"
    and eq: "processNextRow us cfg reg False w = Some (True, err, w')"
  obtains row perr v u ety where
    "OutboxGetAndLock w = Inr row" "outbox_ext w v"
    "claim w = (Inr (Some row), u)" "process us reg row u = Some (ety, perr, v)"
    "outbox w' = update_where (\<lambda>r. ob_id r = ob_id row) (row_step cfg (clock w) (attempt_of perr)) (outbox v)"
    "err = None" "clock w' = clock w" "new_uuid w' = new_uuid v" "n_uuids w' = n_uuids v" "locked w' = locked w"
proof -
  from eq obtain row u ety perr v where cl: "claim w = (Inr (Some row), u)"
      and pr: "process us reg row u = Some (ety, perr, v)"
      and co: "complete cfg row perr v = (True, err, w')"
    by (auto simp: processNextRow_def split: prod.splits sum.splits option.splits)
  note fr = claim_frame [OF cl]
  have got: "OutboxGetAndLock w = Inr row"
    by (rule claim_row [OF cl])
  have wu: "outbox_ext w u"
    using fr by (auto intro: outbox_ext_same)
  have wv: "outbox_ext w v"
    using wu process_ext [OF pr] by (rule outbox_ext_trans)
  have wfv: "wf_outbox cfg v"
    using wf wv by (rule wf_outbox_ext)
  have "row \<in> set (outbox v)"
    using OutboxGetAndLock_InrD(1) [OF got] wv by (auto simp: outbox_ext_def)
  with wfv have dist: "distinct (map ob_id (outbox v))" "row \<in> set (outbox v)" "row_ok cfg row"
    by (auto simp: wf_outbox_def)
  note c = complete_refines_row_step [OF cfg dist(3,1,2) co]
  show ?thesis
    using c wv by (intro that [OF got wv cl pr]) (auto simp: outbox_ext_def)
qed

lemma processNextRow_refines:
  assumes "cfg_ok cfg" "wf_outbox cfg w" "processNextRow us cfg reg False w = Some (True, err, w')"
  obtains row perr v where
    "OutboxGetAndLock w = Inr row" "outbox_ext w v"
    "outbox w' = update_where (\<lambda>r. ob_id r = ob_id row) (row_step cfg (clock w) (attempt_of perr)) (outbox v)"
    "err = None" "clock w' = clock w" "new_uuid w' = new_uuid v" "n_uuids w' = n_uuids v" "locked w' = locked w"
  by (rule processNextRow_runs [OF assms]) (rule that)

lemma processNextRow_stop:
  assumes cfg: "cfg_ok cfg" and wf: "wf_outbox cfg w"
    and eq: "processNextRow us cfg reg c w = Some (False, err, w')"
  shows "outbox_ext w w'"
proof -
  have co: "outbox_ext w w'" if cl: "claim w = (Inr (Some row), u)"
    and pr: "process us reg row u = Some (ety, perr, v)"
    and co: "complete cfg row perr v = (False, err, w')" for row u ety perr v
  proof -
    have wv: "outbox_ext w v"
      using claim_frame [OF cl] process_ext [OF pr] outbox_ext_same outbox_ext_trans by metis
    have wfv: "wf_outbox cfg v"
      using wf wv by (rule wf_outbox_ext)
    have "row \<in> set (outbox v)"
      using OutboxGetAndLock_InrD(1) [OF claim_row [OF cl]] wv by (auto simp: outbox_ext_def)
    with wfv have dist: "distinct (map ob_id (outbox v))" "row \<in> set (outbox v)" "row_ok cfg row"
      by (auto simp: wf_outbox_def)
    have "outbox_ext v w'"
      using complete_refines_row_step [OF cfg dist(3,1,2) co] by (auto intro: outbox_ext_same)
    with wv show ?thesis by (rule outbox_ext_trans)
  qed
  show ?thesis
    using eq co
    by (auto simp: processNextRow_def outbox_ext_refl split: prod.splits sum.splits option.splits if_splits
        dest!: claim_frame intro: outbox_ext_same)
qed

lemma processNextRow_wf:
  assumes cfg: "cfg_ok cfg" and wf: "wf_outbox cfg w"
    and eq: "processNextRow us cfg reg c w = Some (b, err, w')"
  shows "wf_outbox cfg w'"
proof (cases b)
  case True
  with eq have "c = False"
    by (auto simp: processNextRow_def split: if_splits)
  with True eq have "processNextRow us cfg reg False w = Some (True, err, w')" by simp
  then show ?thesis
    by (rule processNextRow_refines [OF cfg wf]) (metis wf wf_outbox_ext wf_outbox_step)
next
  case False
  with eq have "processNextRow us cfg reg c w = Some (False, err, w')" by simp
  then have "outbox_ext w w'" by (rule processNextRow_stop [OF cfg wf])
  with wf show ?thesis by (rule wf_outbox_ext)
qed

lemma processNextRow_keeps_terminal:
  assumes cfg: "cfg_ok cfg" and wf: "wf_outbox cfg w"
    and eq: "processNextRow us cfg reg c w = Some (b, err, w')"
    and r: "r \<in> set (outbox w)" "terminal r"
  shows "r \<in> set (outbox w')"
proof (cases b)
  case True
  with eq have "processNextRow us cfg reg False w = Some (True, err, w')"
    by (auto simp: processNextRow_def split: if_splits)
  then obtain row perr v where got: "OutboxGetAndLock w = Inr row" and ext: "outbox_ext w v"
      and out: "outbox w' = update_where (\<lambda>r. ob_id r = ob_id row) (row_step cfg (clock w) (attempt_of perr)) (outbox v)"
    by (rule processNextRow_refines [OF cfg wf])
  have "eligible (clock w) row" "row \<in> set (outbox w)"
    using OutboxGetAndLock_InrD [OF got] by auto
  with r have "ob_id r \<noteq> ob_id row"
    using wf by (auto simp: wf_outbox_def distinct_map inj_on_def eligible_def terminal_def)
  moreover have "r \<in> set (outbox v)"
    using r ext by (auto simp: outbox_ext_def)
  ultimately show ?thesis
    unfolding out by (intro in_update_where_other)
next
  case False
  with eq processNextRow_stop [OF cfg wf, of us c err w'] r show ?thesis
    by (auto simp: outbox_ext_def)
qed

end

section \<open>Termination of the drain loop\<close>

text \<open>A handler may enqueue work while the loop runs, so the number of eligible rows need not
  shrink. It terminates because a row only ever spawns rows of a lower rank: the multiset of the
  ranks of the claimable rows decreases.\<close>

definition claimable :: "micros \<Rightarrow> uuid list \<Rightarrow> obrow \<Rightarrow> bool" where
  "claimable now lk r \<longleftrightarrow> eligible now r \<and> ob_id r \<notin> set lk"

lemma mset_filter_update_where:
  assumes "distinct (map key xs)" "x \<in> set xs" "P x" "\<not> P (f x)"
  shows "mset (filter P xs) = add_mset x (mset (filter P (update_where (\<lambda>r. key r = key x) f xs)))"
  using assms
proof (induction xs)
  case (Cons a xs)
  show ?case
  proof (cases "a = x")
    case True
    have "update_where (\<lambda>r. key r = key x) f xs = xs"
      using Cons.prems(1) True unfolding update_where_def
      by (intro map_idI) (auto simp: image_iff)
    with True Cons.prems show ?thesis by (simp add: table_simps)
  next
    case False
    with Cons.prems have "key a \<noteq> key x" by (auto simp: image_iff)
    with False Cons show ?thesis by (auto simp: table_simps)
  qed
qed simp

locale ranked_client = outbox_client reg
  for reg :: "('s, 'g) registry" +
  fixes rank :: "obrow \<Rightarrow> nat"
  assumes spawn_rank:
    "process us reg row w = Some (ety, perr, w') \<Longrightarrow> outbox w' = outbox w @ new \<Longrightarrow> r \<in> set new \<Longrightarrow>
     rank r < rank row"
begin

definition work :: "('s, 'g) world \<Rightarrow> nat multiset" where
  "work w = image_mset rank (mset (filter (claimable (clock w) (locked w)) (outbox w)))"

lemma work_decreases:
  assumes cfg: "cfg_ok cfg" "0 < BaseBackoff cfg" "0 < MaxBackoff cfg" "0 < PreconditionDelay cfg"
      "MaxRetries cfg \<le> 30"
    and wf: "wf_outbox cfg w"
    and eq: "processNextRow us cfg reg c w = Some (True, err, w')"
  shows "(work w', work w) \<in> mult {(x, y). x < y}"
proof -
  from eq have "\<not> c" by (auto simp: processNextRow_def split: if_splits)
  with eq obtain row u ety perr v where cl: "claim w = (Inr (Some row), u)"
      and pr: "process us reg row u = Some (ety, perr, v)"
      and co: "complete cfg row perr v = (True, err, w')"
    by (auto simp: processNextRow_def split: prod.splits sum.splits option.splits)
  note fr = claim_frame [OF cl]
  note got = OutboxGetAndLock_InrD [OF claim_row [OF cl]]
  from process_ext [OF pr] fr obtain new where new: "outbox v = outbox w @ new" "clock v = clock w"
      "locked v = locked w" and new_u: "outbox v = outbox u @ new"
    by (auto simp: outbox_ext_def)
  have uv: "outbox_ext w v"
    using outbox_ext_same [of u w] process_ext [OF pr] fr outbox_ext_trans by metis
  have wfv: "wf_outbox cfg v"
    using wf uv by (rule wf_outbox_ext)
  have mem: "row \<in> set (outbox v)"
    using got(1) new by simp
  have okr: "row_ok cfg row" and dist: "distinct (map ob_id (outbox v))"
    using wfv mem by (auto simp: wf_outbox_def)
  note cr = complete_refines_row_step [OF cfg(1) okr dist mem co]
  let ?P = "claimable (clock w) (locked w)"
  let ?f = "row_step cfg (clock w) (attempt_of perr)"
  have P: "?P row" and nP: "\<not> ?P (?f row)"
    using got row_step_not_eligible [OF cfg(2-5)] okr by (auto simp: claimable_def row_ok_def)
  have err: "err = None" using cr(1) by simp
  have out: "outbox w' = update_where (\<lambda>r. ob_id r = ob_id row) ?f (outbox v)"
    using cr(2) err new(2) by simp
  have "mset (filter ?P (outbox v)) = add_mset row (mset (filter ?P (outbox w')))"
    unfolding out using dist mem P nP by (rule mset_filter_update_where [where P = ?P and f = ?f])
  then have eqm: "add_mset (rank row) (work w') = work w + image_mset rank (mset (filter ?P new))"
    using new cr(3) unfolding work_def by (metis filter_append image_mset_add_mset image_mset_union mset_append)
  have small: "\<forall>k \<in># image_mset rank (mset (filter ?P new)). k < rank row"
    using spawn_rank [OF pr new_u] by auto
  have "rank row \<in># work w"
    using got(1) P by (auto simp: work_def)
  then obtain I where I: "work w = add_mset (rank row) I"
    by (metis multi_member_split)
  with eqm have "work w' = I + image_mset rank (mset (filter ?P new))"
    by simp
  moreover have "(I + image_mset rank (mset (filter ?P new)), I + {#rank row#}) \<in> mult {(x, y). x < y}"
    using small by (intro one_step_implies_mult) auto
  ultimately show ?thesis
    by (simp add: I)
qed

lemma processAllRows_terminates:
  assumes cfg: "cfg_ok cfg" "0 < BaseBackoff cfg" "0 < MaxBackoff cfg" "0 < PreconditionDelay cfg"
      "MaxRetries cfg \<le> 30"
    and wf: "wf_outbox cfg w"
  shows "\<exists>fuel. processAllRows fuel us cfg reg cancelled k w \<noteq> OutOfFuel"
proof -
  have "wf (inv_image (mult {(x, y :: nat). x < y}) work)"
    by (intro wf_inv_image wf_mult wf_less)
  then show ?thesis
    using wf
  proof (induction w arbitrary: k rule: wf_induct_rule)
    case (less w)
    show ?case
    proof (cases "processNextRow us cfg reg (cancelled k) w")
      case None
      then have "processAllRows 1 us cfg reg cancelled k w \<noteq> OutOfFuel" by simp
      then show ?thesis ..
    next
      case (Some res)
      obtain b err w' where res: "res = (b, err, w')" by (cases res)
      show ?thesis
      proof (cases "b \<and> err = None")
        case True
        with Some res have step: "processNextRow us cfg reg (cancelled k) w = Some (True, err, w')" by simp
        have "wf_outbox cfg w'"
          by (rule processNextRow_wf [OF cfg(1) less.prems step])
        with less.IH [of w' "Suc k"] work_decreases [OF cfg less.prems step]
        obtain fuel where "processAllRows fuel us cfg reg cancelled (Suc k) w' \<noteq> OutOfFuel"
          by auto
        with step True have "processAllRows (Suc fuel) us cfg reg cancelled k w \<noteq> OutOfFuel" by simp
        then show ?thesis ..
      next
        case False
        with Some res have "processAllRows 1 us cfg reg cancelled k w \<noteq> OutOfFuel"
          by (cases err) auto
        then show ?thesis ..
      qed
    qed
  qed
qed

end

section \<open>Retrying one row\<close>

text \<open>A row completed again and again, with the given processing results, until it is terminal.\<close>

fun retry_row :: "outbox_cfg \<Rightarrow> uuid \<Rightarrow> gerr option list \<Rightarrow> ('s, 'g) world \<Rightarrow> ('s, 'g) world" where
  "retry_row cfg i [] w = w"
| "retry_row cfg i (p # ps) w =
     (case lookup_row ob_id i (outbox w) of
        None \<Rightarrow> w
      | Some r \<Rightarrow> if terminal r then w else retry_row cfg i ps (snd (snd (complete cfg r p w))))"

lemma complete_no_fault:
  assumes "db_fault w = (\<lambda>_. None)"
  shows "fst (snd (complete cfg row perr w)) = None \<and> db_fault (snd (snd (complete cfg row perr w))) = (\<lambda>_. None)"
  using assms
  by (auto simp: complete_def handlePreconditionError_def handleRowError_def db_exec_eq outbox_marks
      split: option.splits)

lemma retry_row_attempts:
  assumes "cfg_ok cfg" "wf_outbox cfg w" "db_fault w = (\<lambda>_. None)" "lookup_row ob_id i (outbox w) = Some r"
  shows "lookup_row ob_id i (outbox (retry_row cfg i ps w)) =
    Some (attempts cfg (map (\<lambda>p. (clock w, attempt_of p)) ps) r)"
  using assms
proof (induction ps arbitrary: w r)
  case (Cons p ps)
  show ?case
  proof (cases "terminal r")
    case False
    obtain b err w' where co: "complete cfg r p w = (b, err, w')" by (cases "complete cfg r p w")
    have err: "err = None" "db_fault w' = (\<lambda>_. None)"
      using complete_no_fault [OF Cons.prems(3), of cfg r p] co by auto
    have mem: "r \<in> set (outbox w)" "ob_id r = i"
      using lookup_row_SomeD [OF Cons.prems(4)] by auto
    have ok: "row_ok cfg r" "distinct (map ob_id (outbox w))"
      using Cons.prems(2) mem by (auto simp: wf_outbox_def)
    note cr = complete_refines_row_step [OF Cons.prems(1) ok mem(1) co]
    have out: "outbox w' = update_where (\<lambda>r. ob_id r = i) (row_step cfg (clock w) (attempt_of p)) (outbox w)"
      using cr(2) err mem by simp
    have wf': "wf_outbox cfg w'"
      using wf_outbox_step [OF Cons.prems(2) out] cr(3) by simp
    have "lookup_row ob_id i (outbox w') = Some (row_step cfg (clock w) (attempt_of p) r)"
      unfolding out using Cons.prems(4) by (simp add: lookup_row_update_where)
    from Cons.IH [OF Cons.prems(1) wf' err(2) this] show ?thesis
      using Cons.prems(4) False co cr(3) by simp
  qed (simp add: Cons.prems)
qed simp

section \<open>Properties\<close>

text \<open>
  C1: one successful iteration of the outbox worker refines the row state machine. It claims the
  row \<open>OutboxGetAndLock\<close> selects; whatever the handlers do, at the end of the iteration exactly
  that row has taken one \<open>row_step\<close> (by the outcome of its handlers), every other row is as it
  was, and the rows the handlers enqueued are appended.
\<close>

theorem processNextRow_refines_row_step:
  assumes "outbox_client reg" "cfg_ok cfg" "wf_outbox cfg w"
    and "processNextRow us cfg reg False w = Some (True, err, w')"
  shows "\<exists>row ety perr u v new. OutboxGetAndLock w = Inr row \<and> claim w = (Inr (Some row), u) \<and>
     process us reg row u = Some (ety, perr, v) \<and> err = None \<and>
     outbox w' = update_where (\<lambda>r. ob_id r = ob_id row) (row_step cfg (clock w) (attempt_of perr))
                   (outbox w) @ new \<and>
     (\<forall>r\<in>set new. ob_status r = Pending \<and> ob_retries r = 0)"
proof -
  obtain row perr v u ety where got: "OutboxGetAndLock w = Inr row" and ext: "outbox_ext w v"
      and run: "claim w = (Inr (Some row), u)" "process us reg row u = Some (ety, perr, v)"
      and out: "outbox w' = update_where (\<lambda>r. ob_id r = ob_id row) (row_step cfg (clock w) (attempt_of perr)) (outbox v)"
      and err: "err = None"
    by (rule outbox_client.processNextRow_runs [OF assms])
  from ext obtain new where new: "outbox v = outbox w @ new"
      "\<forall>r\<in>set new. ob_status r = Pending \<and> ob_retries r = 0"
    by (auto simp: outbox_ext_def)
  have "distinct (map ob_id (outbox v))"
    using wf_outbox_ext [OF assms(3) ext] by (simp add: wf_outbox_def)
  then have "ob_id r \<noteq> ob_id row" if "r \<in> set new" for r
    using that OutboxGetAndLock_InrD(1) [OF got] new(1) by (auto simp: image_iff)
  then have "update_where (\<lambda>r. ob_id r = ob_id row) f new = new" for f
    unfolding update_where_def by (intro map_idI) auto
  with out new show ?thesis
    using got run err by (auto simp: update_where_def)
qed

definition sample_cfg :: outbox_cfg where
  "sample_cfg = \<lparr>BaseBackoff = 500000, MaxBackoff = 60000000, MaxRetries = 10,
     PreconditionDelay = 30000000, MaxPreconditionDeferrals = 100\<rparr>"

definition sample_registry :: "(unit, unit) registry" where
  "sample_registry = NewRegistry\<lparr>syncHandlers := [EntityCluster \<mapsto> (\<lambda>i sc w. Some (None, w))]\<rparr>"

definition sample_row :: obrow where
  "sample_row = (new_obrow 1 Created SrcTrigger)\<lparr>ob_cluster := Some 7\<rparr>"

definition sample_world :: "(unit, unit) world" where
  "sample_world = (blank_world () ())\<lparr>outbox := [sample_row]\<rparr>"

lemmas sample_defs = sample_cfg_def sample_registry_def sample_row_def sample_world_def blank_world_def
  new_obrow_def NewRegistry_def

lemma sample_ok: "outbox_client sample_registry" "cfg_ok sample_cfg" "wf_outbox sample_cfg sample_world"
    "db_fault sample_world = (\<lambda>_. None)"
  by (auto simp: sample_defs outbox_client_def appends_def outbox_ext_refl cfg_ok_def wf_outbox_def
      row_ok_def inj_def split: if_splits)

lemma sample_step:
  "\<exists>w'. processNextRow us sample_cfg sample_registry False sample_world = Some (True, None, w')"
  by (simp add: processNextRow_def claim_def db_exec_eq db_read_eq OutboxGetAndLock_def process_def
      entityFromRow_def SyncHandlersFor_def complete_def sample_defs called_def eligible_def
      active_status_def)

theorem processNextRow_refines_row_step_witness:
  "\<exists>w'. processNextRow (\<lambda>_. ''u'') sample_cfg sample_registry False sample_world = Some (True, None, w') \<and>
     (\<exists>row ety perr u v new. OutboxGetAndLock sample_world = Inr row \<and>
        process (\<lambda>_. ''u'') sample_registry row u = Some (ety, perr, v) \<and>
        outbox w' = update_where (\<lambda>r. ob_id r = ob_id row) (row_step sample_cfg (clock sample_world) (attempt_of perr))
                      (outbox sample_world) @ new)"
proof -
  obtain w' where w': "processNextRow (\<lambda>_. ''u'') sample_cfg sample_registry False sample_world = Some (True, None, w')"
    using sample_step by blast
  show ?thesis
    using processNextRow_refines_row_step [OF sample_ok(1-3) w'] w' by blast
qed

text \<open>
  C2: no row is attempted forever. However its attempts end, after at most
  \<open>MaxRetries + MaxPreconditionDeferrals\<close> of them (fewer when some have been made) the row is
  completed or failed.
\<close>

theorem row_attempts_bounded:
  assumes "cfg_ok cfg" "wf_outbox cfg w" "db_fault w = (\<lambda>_. None)" "lookup_row ob_id i (outbox w) = Some r"
    and "max 1 (nat (MaxRetries cfg - ob_retries r)) +
      nat (MaxPreconditionDeferrals cfg - ob_deferrals r) \<le> length ps"
  shows "\<exists>r'. lookup_row ob_id i (outbox (retry_row cfg i ps w)) = Some r' \<and>
     (ob_status r' = Completed \<or> ob_status r' = Failed)"
proof -
  have "terminal (attempts cfg (map (\<lambda>p. (clock w, attempt_of p)) ps) r)"
    using assms(5) by (intro attempts_left_enough) (simp add: attempts_left_def)
  then have "ob_status (attempts cfg (map (\<lambda>p. (clock w, attempt_of p)) ps) r) \<in> {Completed, Failed}"
    by (cases "ob_status (attempts cfg (map (\<lambda>p. (clock w, attempt_of p)) ps) r)")
      (auto simp: terminal_def active_status_def)
  then show ?thesis
    using retry_row_attempts [OF assms(1-4), of ps] by auto
qed

theorem row_attempts_bounded_witness:
  "\<exists>r'. lookup_row ob_id 1 (outbox (retry_row sample_cfg 1 (replicate 110 (Some (PreconditionError ''p''))) sample_world)) = Some r' \<and>
     (ob_status r' = Completed \<or> ob_status r' = Failed)"
proof -
  have row: "lookup_row ob_id 1 (outbox sample_world) = Some sample_row"
    by (simp add: sample_defs table_simps)
  show ?thesis
    by (rule row_attempts_bounded [OF sample_ok(2-4) row]) (simp add: sample_defs)
qed

text \<open>
  C3: an event fans out to every handler it is routed to. All of them run, in order, whatever the
  earlier ones return. If one fails hard the row counts a retry (its error text is recorded) even
  if others only miss a precondition; the row is deferred only when every failure is a missed
  precondition; and it succeeds only when every handler does.
\<close>

theorem process_fan_out:
  assumes "entityFromRow us row = Inr (ety, eid)" "SyncHandlersFor reg ety (ob_event row) = Inr hs"
    and "run_all hs eid \<lparr>sc_entity = ety, sc_event = ob_event row, sc_source = ob_source row\<rparr> w = Some (es, w')"
    and "\<And>e. Some e \<in> set es \<Longrightarrow> \<not> errors_is errNonRetryable e"
  shows "length es = length hs \<and> (\<exists>perr. process us reg row w = Some (ety, perr, w') \<and>
    (if hard_errors es \<noteq> [] then \<exists>info. attempt_of perr = FailedHard info
     else if precond_errors es \<noteq> [] then \<exists>reason info. attempt_of perr = Deferred reason info
     else attempt_of perr = Succeeded))"
proof -
  have sub: "set (hard_errors es) \<union> set (precond_errors es) \<subseteq> {e. Some e \<in> set es}"
    by (auto simp: hard_errors_def precond_errors_def List.map_filter_def)
  have nr: "\<not> errors_is errNonRetryable (Joined (hard_errors es))"
      "\<not> errors_is errNonRetryable (Joined (precond_errors es))"
    using sub assms(4) by (auto simp: errNonRetryable_def list_ex_iff)
  note pre = as_precondition_precond_errors [of es]
  have "length es = length hs"
    by (rule run_all_length [OF assms(3)])
  moreover have "\<exists>perr. process us reg row w = Some (ety, perr, w') \<and>
    (if hard_errors es \<noteq> [] then \<exists>info. attempt_of perr = FailedHard info
     else if precond_errors es \<noteq> [] then \<exists>reason info. attempt_of perr = Deferred reason info
     else attempt_of perr = Succeeded)"
    using assms(1-3) nr pre as_precondition_hard_errors [of es]
    by (auto simp: process_def run_handlers_run_all Let_def attempt_of_def errNonRetryable_def
        simp del: as_precondition.simps errors_is.simps)
  ultimately show ?thesis by blast
qed

theorem process_fan_out_witness:
  "\<exists>perr. process (\<lambda>_. ''u'') sample_registry sample_row sample_world = Some (EntityCluster, perr, sample_world) \<and>
     attempt_of perr = Succeeded"
proof -
  have "entityFromRow (\<lambda>_. ''u'') sample_row = Inr (EntityCluster, 7)"
    by (simp add: entityFromRow_def sample_defs)
  moreover have "SyncHandlersFor sample_registry EntityCluster (ob_event sample_row) = Inr [\<lambda>i sc w. Some (None, w)]"
    by (simp add: SyncHandlersFor_def sample_defs)
  moreover have "run_all [\<lambda>i sc w. Some (None, w)] 7 \<lparr>sc_entity = EntityCluster, sc_event = ob_event sample_row,
      sc_source = ob_source sample_row\<rparr> sample_world = Some ([None], sample_world)"
    by simp
  ultimately show ?thesis
    using process_fan_out [of "\<lambda>_. ''u''" sample_row EntityCluster 7 sample_registry "[\<lambda>i sc w. Some (None, w)]"
        sample_world "[None]" sample_world]
    by (simp add: hard_errors_def precond_errors_def List.map_filter_simps)
qed

end
