(* ===== verification/Workers.thy ===== *)
theory Workers
  imports Outbox "HOL-Library.Sublist"
begin

text \<open>
  The loops around the handlers: the status worker (\<open>cluster-worker/pkg/status/worker.go\<close>), the
  reconcile worker (\<open>reconcile/worker.go\<close>) with their circuit breakers, the connection loop of the
  outbox worker (\<open>outbox/worker.go\<close>) and the readiness endpoint (\<open>app/app.go\<close>). Time does not appear:
  what a \<open>select\<close> receives, and what the connection reports, is an input of the loop.
\<close>

section \<open>Running the periodic handlers\<close>

definition maxConsecutiveFailures :: int where "maxConsecutiveFailures = 3"

text \<open>\<open>cancelled k\<close> is the \<open>k\<close>-th answer of \<open>ctx.Err()\<close>. The result \<open>None\<close> in the first component is the
  early return of a graceful shutdown.\<close>

fun run_status_handlers ::
  "(nat \<Rightarrow> bool) \<Rightarrow> nat \<Rightarrow> ('s, 'g) periodic list \<Rightarrow> gerr list \<Rightarrow> ('s, 'g) world \<Rightarrow>
   (gerr list option \<times> ('s, 'g) world) option" where
  "run_status_handlers cancelled k [] errs w = Some (Some errs, w)"
| "run_status_handlers cancelled k (h # hs) errs w =
     (if cancelled k then Some (None, w)
      else case h w of
             None \<Rightarrow> None
           | Some (Some e, w) \<Rightarrow> run_status_handlers cancelled (Suc k) hs (errs @ [e]) w
           | Some (None, w) \<Rightarrow> run_status_handlers cancelled (Suc k) hs errs w)"

definition runAllHandlers :: "(nat \<Rightarrow> bool) \<Rightarrow> ('s, 'g) registry \<Rightarrow> ('s, 'g) periodic" where
  "runAllHandlers cancelled reg w =
     (if cancelled 0 then Some (None, w)
      else case run_status_handlers cancelled 1 (statusHandlers reg) [] w of
             None \<Rightarrow> None
           | Some (None, w) \<Rightarrow> Some (None, w)
           | Some (Some errs, w) \<Rightarrow> Some (map_option (errorf ''status'') (errors_join errs), w))"

fun run_reconcile_handlers ::
  "('s, 'g) periodic list \<Rightarrow> gerr list \<Rightarrow> ('s, 'g) world \<Rightarrow> (gerr list \<times> ('s, 'g) world) option" where
  "run_reconcile_handlers [] errs w = Some (errs, w)"
| "run_reconcile_handlers (h # hs) errs w =
     (case h w of
        None \<Rightarrow> None
      | Some (Some e, w) \<Rightarrow> run_reconcile_handlers hs (errs @ [e]) w
      | Some (None, w) \<Rightarrow> run_reconcile_handlers hs errs w)"

definition reconcileAll :: "bool \<Rightarrow> ('s, 'g) registry \<Rightarrow> ('s, 'g) periodic" where
  "reconcileAll cancelled reg w =
     (if cancelled then Some (None, w)
      else case run_reconcile_handlers (reconcileHandlers reg) [] w of
             None \<Rightarrow> None
           | Some (errs, w) \<Rightarrow> Some (map_option (errorf ''reconcile'') (errors_join errs), w))"

section \<open>The circuit breaker\<close>

text \<open>The error that ends the worker, and the new counter. The two workers differ only in \<open>name\<close>.\<close>

definition trackFails :: "string \<Rightarrow> gerr option \<Rightarrow> int \<Rightarrow> gerr option \<times> int" where
  "trackFails name e n =
     (case e of
        None \<Rightarrow> (None, 0)
      | Some e \<Rightarrow>
          (let n = n + 1
           in (if maxConsecutiveFailures \<le> n
               then Some (errorf (name @ '' worker fatal: '' @ int_str n @ '' consecutive failures, last'') e)
               else None, n)))"

datatype loop_event = Ticked | CtxDone gerr

text \<open>Where the loop stands: ended by a panic, returned with an error, or waiting in the \<open>select\<close> with
  its counter. The flag is \<open>ready\<close>.\<close>

datatype 'w loop_result = LoopPanicked | LoopReturned gerr bool 'w | LoopWaiting int bool 'w

fun periodic_loop ::
  "string \<Rightarrow> (nat \<Rightarrow> ('s, 'g) periodic) \<Rightarrow> nat \<Rightarrow> loop_event list \<Rightarrow> int \<Rightarrow> ('s, 'g) world \<Rightarrow>
   ('s, 'g) world loop_result" where
  "periodic_loop name tick k [] n w = LoopWaiting n True w"
| "periodic_loop name tick k (CtxDone e # evs) n w = LoopReturned (errorf (name @ '' loop stopped'') e) True w"
| "periodic_loop name tick k (Ticked # evs) n w =
     (case tick k w of
        None \<Rightarrow> LoopPanicked
      | Some (e, w) \<Rightarrow>
          (case trackFails name e n of
             (Some f, n) \<Rightarrow> LoopReturned f True w
           | (None, n) \<Rightarrow> periodic_loop name tick (Suc k) evs n w))"

text \<open>\<open>Run\<close>: one pass at once, then one per tick. \<open>tick k\<close> is the \<open>k\<close>-th pass.\<close>

definition periodic_run ::
  "string \<Rightarrow> (nat \<Rightarrow> ('s, 'g) periodic) \<Rightarrow> loop_event list \<Rightarrow> int \<Rightarrow> ('s, 'g) world \<Rightarrow> ('s, 'g) world loop_result" where
  "periodic_run name tick evs n w =
     (case tick 0 w of
        None \<Rightarrow> LoopPanicked
      | Some (e, w) \<Rightarrow>
          (case trackFails name e n of
             (Some f, n) \<Rightarrow> LoopReturned f False w
           | (None, n) \<Rightarrow> periodic_loop name tick 1 evs n w))"

definition StatusRun ::
  "(nat \<Rightarrow> nat \<Rightarrow> bool) \<Rightarrow> ('s, 'g) registry \<Rightarrow> loop_event list \<Rightarrow> ('s, 'g) world \<Rightarrow> ('s, 'g) world loop_result" where
  "StatusRun cancelled reg evs w = periodic_run ''status'' (\<lambda>k. runAllHandlers (cancelled k) reg) evs 0 w"

definition ReconcileRun ::
  "(nat \<Rightarrow> bool) \<Rightarrow> ('s, 'g) registry \<Rightarrow> loop_event list \<Rightarrow> ('s, 'g) world \<Rightarrow> ('s, 'g) world loop_result" where
  "ReconcileRun cancelled reg evs w = periodic_run ''reconcile'' (\<lambda>k. reconcileAll (cancelled k) reg) evs 0 w"

section \<open>The connection loop of the outbox worker\<close>

definition DeadlineExceeded :: gerr where "DeadlineExceeded = ErrNew ''context deadline exceeded''"
definition Canceled :: gerr where "Canceled = ErrNew ''context canceled''"

text \<open>What the wait reports: its error, \<open>ctx.Err()\<close>, and whether the connection is closed. \<open>%w\<close> of a nil
  error prints \<open>%!w(<nil>)\<close>.\<close>

record wait_report =
  wr_err :: "gerr option"
  wr_ctx :: "gerr option"
  wr_closed :: bool

definition shutdown_requested :: "gerr option \<Rightarrow> gerr" where
  "shutdown_requested e =
     (case e of Some e \<Rightarrow> errorf ''shutdown requested'' e | None \<Rightarrow> ErrNew ''shutdown requested: %!w(<nil>)'')"

definition waitForNotification :: "wait_report \<Rightarrow> gerr + bool" where
  "waitForNotification r =
     (case wr_err r of
        None \<Rightarrow> Inr True
      | Some e \<Rightarrow>
          if errors_is DeadlineExceeded e
          then (if wr_ctx r \<noteq> None then Inl (shutdown_requested (wr_ctx r)) else Inr False)
          else if errors_is Canceled e then Inl (shutdown_requested (wr_ctx r))
          else if wr_closed r then Inl (ErrNew ''connection closed'')
          else Inr False)"

datatype 'w conn_result = ConnOutOfFuel | ConnPanicked | ConnLost gerr 'w | ConnWaiting 'w

text \<open>One drain, its error (logged, followed by the pause) dropped; \<open>cancelled k\<close> is \<open>ctx.Err()\<close> in the
  drain's \<open>k\<close>-th iteration.\<close>

definition drain_then ::
  "nat \<Rightarrow> (uuid \<Rightarrow> string) \<Rightarrow> outbox_cfg \<Rightarrow> ('s, 'g) registry \<Rightarrow> (nat \<Rightarrow> bool) \<Rightarrow>
   (('s, 'g) world \<Rightarrow> ('s, 'g) world conn_result) \<Rightarrow> ('s, 'g) world \<Rightarrow> ('s, 'g) world conn_result" where
  "drain_then fuel us cfg reg cancelled cont w =
     (case processAllRows fuel us cfg reg cancelled 0 w of
        OutOfFuel \<Rightarrow> ConnOutOfFuel
      | Panicked \<Rightarrow> ConnPanicked
      | Drained e w \<Rightarrow> cont w)"

fun listen_loop ::
  "nat \<Rightarrow> (uuid \<Rightarrow> string) \<Rightarrow> outbox_cfg \<Rightarrow> ('s, 'g) registry \<Rightarrow> (wait_report \<times> (nat \<Rightarrow> bool)) list \<Rightarrow>
   ('s, 'g) world \<Rightarrow> ('s, 'g) world conn_result" where
  "listen_loop fuel us cfg reg [] w = ConnWaiting w"
| "listen_loop fuel us cfg reg ((r, cancelled) # rs) w =
     (case waitForNotification r of
        Inl e \<Rightarrow> ConnLost e w
      | Inr notified \<Rightarrow> drain_then fuel us cfg reg cancelled (listen_loop fuel us cfg reg rs) w)"

definition runWithConnection ::
  "nat \<Rightarrow> (uuid \<Rightarrow> string) \<Rightarrow> outbox_cfg \<Rightarrow> ('s, 'g) registry \<Rightarrow> (nat \<Rightarrow> bool) \<Rightarrow>
   (wait_report \<times> (nat \<Rightarrow> bool)) list \<Rightarrow> ('s, 'g) world \<Rightarrow> ('s, 'g) world conn_result" where
  "runWithConnection fuel us cfg reg cancelled rs w =
     (case db_exec (\<lambda>w. w) w of
        (Some e, w) \<Rightarrow> ConnLost (errorf ''acquire listen connection'' e) w
      | (None, w) \<Rightarrow>
     (case db_exec (\<lambda>w. w) w of
        (Some e, w) \<Rightarrow> ConnLost (errorf ''listen'' e) w
      | (None, w) \<Rightarrow> drain_then fuel us cfg reg cancelled (listen_loop fuel us cfg reg rs) w))"

text \<open>\<open>Run\<close> reconnects when a connection is lost. A session is one connection: what its drains and waits see,
  \<open>ctx.Err()\<close> when it is lost, and the error of a context that ends during the pause.\<close>

record conn_session =
  cn_cancelled :: "nat \<Rightarrow> bool"
  cn_waits :: "(wait_report \<times> (nat \<Rightarrow> bool)) list"
  cn_ctx :: "gerr option"
  cn_pause :: "gerr option"

datatype 'w run_result = RunOutOfFuel | RunPanicked | RunReturned gerr 'w | RunListening 'w | RunPausing 'w

fun OutboxRun ::
  "nat \<Rightarrow> (uuid \<Rightarrow> string) \<Rightarrow> outbox_cfg \<Rightarrow> ('s, 'g) registry \<Rightarrow> conn_session list \<Rightarrow> ('s, 'g) world \<Rightarrow>
   ('s, 'g) world run_result" where
  "OutboxRun fuel us cfg reg [] w = RunPausing w"
| "OutboxRun fuel us cfg reg (s # ss) w =
     (case runWithConnection fuel us cfg reg (cn_cancelled s) (cn_waits s) w of
        ConnOutOfFuel \<Rightarrow> RunOutOfFuel
      | ConnPanicked \<Rightarrow> RunPanicked
      | ConnWaiting w \<Rightarrow> RunListening w
      | ConnLost e w \<Rightarrow>
          (case cn_ctx s of
             Some c \<Rightarrow> RunReturned (errorf ''worker stopped'' c) w
           | None \<Rightarrow>
               (case cn_pause s of
                  Some c \<Rightarrow> RunReturned (errorf ''worker stopped'' c) w
                | None \<Rightarrow> OutboxRun fuel us cfg reg ss w)))"

section \<open>Readiness\<close>

text \<open>The answer of \<open>/readyz\<close> for the \<open>IsReady\<close> flags of its checkers: status code and body.\<close>

fun readyz :: "bool list \<Rightarrow> nat \<times> string" where
  "readyz [] = (200, ''ready'')"
| "readyz (c # cs) = (if \<not> c then (503, ''not ready'') else readyz cs)"

section \<open>Lemmas: the circuit breaker\<close>

text \<open>The passes without the breaker: which of the next \<open>n\<close> fail, and the world they end in.\<close>

fun outcomes :: "(nat \<Rightarrow> ('s, 'g) periodic) \<Rightarrow> nat \<Rightarrow> nat \<Rightarrow> ('s, 'g) world \<Rightarrow> bool list option" where
  "outcomes tick k 0 w = Some []"
| "outcomes tick k (Suc n) w =
     (case tick k w of
        None \<Rightarrow> None
      | Some (e, w) \<Rightarrow> map_option (\<lambda>l. (e \<noteq> None) # l) (outcomes tick (Suc k) n w))"

definition broken :: "bool list \<Rightarrow> bool" where
  "broken l = sublist [True, True, True] l"

lemma broken_simps [simp]:
  "broken (False # l) = broken l" "broken (True # False # l) = broken l" "broken (True # True # False # l) = broken l"
  "broken (True # True # True # l)" "\<not> broken []" "\<not> broken [True]" "\<not> broken [True, True]"
  by (simp_all add: broken_def sublist_Cons_right)

lemma counter_cases: "0 \<le> (n :: int) \<Longrightarrow> n < 3 \<Longrightarrow> n = 0 \<or> n = 1 \<or> n = 2"
  by arith

lemma periodic_loop_breaks:
  "0 \<le> c \<Longrightarrow> c < maxConsecutiveFailures \<Longrightarrow> outcomes tick k n w = Some l \<Longrightarrow>
   (if broken (replicate (nat c) True @ l)
    then \<exists>f w'. periodic_loop name tick k (replicate n Ticked) c w = LoopReturned f True w'
    else \<exists>c' w'. periodic_loop name tick k (replicate n Ticked) c w = LoopWaiting c' True w' \<and>
      0 \<le> c' \<and> c' < maxConsecutiveFailures)"
proof (induction n arbitrary: k c w l)
  case 0
  with counter_cases [of c] show ?case
    by (auto simp: maxConsecutiveFailures_def numeral_2_eq_2)
next
  case (Suc n)
  from Suc.prems(3) obtain e v l' where v: "tick k w = Some (e, v)" "outcomes tick (Suc k) n v = Some l'"
      "l = (e \<noteq> None) # l'"
    by (auto split: option.splits)
  have c: "c = 0 \<or> c = 1 \<or> c = 2"
    using Suc.prems(1,2) by (intro counter_cases) (simp_all add: maxConsecutiveFailures_def)
  show ?case
  proof (cases e)
    case None
    with v have "broken (replicate (nat c) True @ l) = broken l'"
      using c by (auto simp: numeral_2_eq_2)
    moreover have "0 < maxConsecutiveFailures" by (simp add: maxConsecutiveFailures_def)
    ultimately show ?thesis
      using Suc.IH [OF _ _ v(2), of 0] None v(1,3) by (auto simp: trackFails_def split: if_splits)
  next
    case (Some x)
    show ?thesis
    proof (cases "c = 2")
      case True
      with Some v show ?thesis
        by (simp add: trackFails_def maxConsecutiveFailures_def numeral_2_eq_2)
    next
      case False
      with c have c1: "0 \<le> c + 1" "c + 1 < maxConsecutiveFailures" "nat (c + 1) = Suc (nat c)"
        by (auto simp: maxConsecutiveFailures_def)
      have "replicate (nat (c + 1)) True @ l' = replicate (nat c) True @ l"
        using v(3) Some c1(3) by (simp add: replicate_app_Cons_same)
      with Suc.IH [OF c1(1,2) v(2)] Some v c1(2) show ?thesis
        by (auto simp: trackFails_def split: if_splits)
    qed
  qed
qed

section \<open>Properties\<close>

text \<open>
  C18: the circuit breaker of the status and reconcile workers. Fed by ticks only, \<open>Run\<close> returns exactly if
  three passes in a row have failed (the first pass, before the ticker, counts), however many failures
  there were before a success in between; until then it waits for the next tick and reports ready.
\<close>

theorem periodic_run_breaks_iff:
  assumes "outcomes tick 0 (Suc n) w = Some l"
  shows "if sublist [True, True, True] l
    then \<exists>f w'. periodic_run name tick (replicate n Ticked) 0 w = LoopReturned f True w'
    else \<exists>c w'. periodic_run name tick (replicate n Ticked) 0 w = LoopWaiting c True w' \<and> 0 \<le> c \<and> c < maxConsecutiveFailures"
proof -
  from assms obtain e v l' where v: "tick 0 w = Some (e, v)" "outcomes tick 1 n v = Some l'" "l = (e \<noteq> None) # l'"
    by (auto split: option.splits)
  let ?c = "if e = None then 0 else 1 :: int"
  have run: "periodic_run name tick (replicate n Ticked) 0 w = periodic_loop name tick 1 (replicate n Ticked) ?c v"
    using v(1) by (auto simp: periodic_run_def trackFails_def maxConsecutiveFailures_def split: option.splits)
  have br: "broken (replicate (nat ?c) True @ l') = sublist [True, True, True] l"
    unfolding broken_def [symmetric] by (auto simp: v(3))
  have c: "0 \<le> ?c" "?c < maxConsecutiveFailures"
    by (simp_all add: maxConsecutiveFailures_def)
  show ?thesis
    using periodic_loop_breaks [OF c v(2), of name] unfolding run br .
qed

theorem periodic_run_breaks_iff_witness:
  "\<exists>f w'. periodic_run ''status'' (\<lambda>k w. Some (if k = 1 then None else Some ErrNoRows, w)) (replicate 4 Ticked) 0 sample_world =
     LoopReturned f True w'"
proof -
  have o: "outcomes (\<lambda>k w. Some (if k = 1 then None else Some ErrNoRows, w)) 0 (Suc 4) sample_world =
      Some [True, False, True, True, True]"
    by (simp add: eval_nat_numeral)
  show ?thesis
    using periodic_run_breaks_iff [OF o, of "''status''"] by (simp add: sublist_Cons_right)
qed

end
