(* ===== verification/ShootAccess.thy ===== *)
theory ShootAccess
  imports Tenant_Db "HOL-Library.AList"
begin

text \<open>
  The \<open>ShootAccess\<close> interface of \<open>cluster-worker/pkg/client/shoot/access.go\<close>: the operations on
  the Kubernetes API of a shoot cluster, as a record of functions on the provider's state, the
  contract the handlers rely on as the locale \<open>shoot_access\<close>, and the in-memory provider of
  \<open>client/shoot/mock.go\<close> with its interpretation. A Go \<open>map[string]string\<close> is an association
  list without repeated keys. The text of a \<open>uuid.UUID\<close> is the parameter \<open>us\<close>.
\<close>

section \<open>Names and resources\<close>

type_synonym smap = "(string \<times> string) list"

definition FundamentNamespace :: string where "FundamentNamespace = ''fundament-system''"
definition LabelUserID :: string where "LabelUserID = ''fundament.io/user-id''"
definition AnnotationUserName :: string where "AnnotationUserName = ''fundament.io/user-name''"

definition SAName :: "(uuid \<Rightarrow> string) \<Rightarrow> uuid \<Rightarrow> string" where
  "SAName us u = ''fundament-'' @ us u"

definition CRBName :: "(uuid \<Rightarrow> string) \<Rightarrow> uuid \<Rightarrow> string" where
  "CRBName us u = ''fundament:admin:'' @ us u"

record limit_defaults =
  CPURequestMilli :: "int option"
  CPULimitMilli :: "int option"
  MemoryRequestMi :: "int option"
  MemoryLimitMi :: "int option"

record role_ref =
  rr_group :: string
  rr_kind :: string
  rr_name :: string

record subject =
  sj_kind :: string
  sj_group :: string
  sj_name :: string
  sj_namespace :: string

record resource =
  r_name :: string
  r_labels :: smap
  r_annotations :: smap
  r_role_ref :: role_ref
  r_subjects :: "subject list"

definition no_role_ref :: role_ref where
  "no_role_ref = \<lparr>rr_group = '''', rr_kind = '''', rr_name = ''''\<rparr>"

definition plain_resource :: "string \<Rightarrow> smap \<Rightarrow> smap \<Rightarrow> resource" where
  "plain_resource n l a = \<lparr>r_name = n, r_labels = l, r_annotations = a, r_role_ref = no_role_ref, r_subjects = []\<rparr>"

definition cluster_admin :: role_ref where
  "cluster_admin = \<lparr>rr_group = ''rbac.authorization.k8s.io'', rr_kind = ''ClusterRole'', rr_name = ''cluster-admin''\<rparr>"

definition sa_subject :: "string \<Rightarrow> string \<Rightarrow> subject" where
  "sa_subject ns n = \<lparr>sj_kind = ''ServiceAccount'', sj_group = '''', sj_name = n, sj_namespace = ns\<rparr>"

record limit_range =
  lr_defaults :: limit_defaults
  lr_labels :: smap

text \<open>\<open>maps.Copy\<close>, and indexing a \<open>map[string]string\<close> (a missing key reads as the empty string).\<close>

definition maps_copy :: "smap \<Rightarrow> smap \<Rightarrow> smap" where
  "maps_copy dst src = foldl (\<lambda>m kv. AList.update (fst kv) (snd kv) m) dst src"

definition sget :: "smap \<Rightarrow> string \<Rightarrow> string" where
  "sget m k = (case map_of m k of None \<Rightarrow> '''' | Some v \<Rightarrow> v)"

definition has_key :: "string \<Rightarrow> smap \<Rightarrow> bool" where
  "has_key k m \<longleftrightarrow> map_of m k \<noteq> None"

text \<open>Every entry of \<open>src\<close> is an entry of \<open>m\<close>.\<close>

definition submap :: "smap \<Rightarrow> smap \<Rightarrow> bool" where
  "submap src m \<longleftrightarrow> list_all (\<lambda>(k, v). map_of m k = Some v) src"

section \<open>The interface\<close>

record 's shoot_ops =
  EnsureNamespace :: "uuid \<Rightarrow> string \<Rightarrow> 's \<Rightarrow> gerr option \<times> 's"
  GetNamespace :: "uuid \<Rightarrow> string \<Rightarrow> 's \<Rightarrow> (gerr + resource option) \<times> 's"
  CreateNamespace :: "uuid \<Rightarrow> string \<Rightarrow> smap \<Rightarrow> 's \<Rightarrow> gerr option \<times> 's"
  UpdateNamespaceLabels :: "uuid \<Rightarrow> string \<Rightarrow> smap \<Rightarrow> 's \<Rightarrow> gerr option \<times> 's"
  DeleteNamespace :: "uuid \<Rightarrow> string \<Rightarrow> 's \<Rightarrow> gerr option \<times> 's"
  ListNamespaces :: "uuid \<Rightarrow> string \<Rightarrow> 's \<Rightarrow> (gerr + resource list) \<times> 's"
  EnsureLimitRange :: "uuid \<Rightarrow> string \<Rightarrow> limit_defaults \<Rightarrow> smap \<Rightarrow> 's \<Rightarrow> gerr option \<times> 's"
  DeleteLimitRange :: "uuid \<Rightarrow> string \<Rightarrow> 's \<Rightarrow> gerr option \<times> 's"
  EnsureServiceAccount :: "uuid \<Rightarrow> string \<Rightarrow> string \<Rightarrow> smap \<Rightarrow> smap \<Rightarrow> 's \<Rightarrow> gerr option \<times> 's"
  EnsureClusterRoleBinding ::
    "uuid \<Rightarrow> string \<Rightarrow> string \<Rightarrow> string \<Rightarrow> smap \<Rightarrow> smap \<Rightarrow> 's \<Rightarrow> gerr option \<times> 's"
  DeleteServiceAccount :: "uuid \<Rightarrow> string \<Rightarrow> string \<Rightarrow> 's \<Rightarrow> gerr option \<times> 's"
  DeleteClusterRoleBinding :: "uuid \<Rightarrow> string \<Rightarrow> 's \<Rightarrow> gerr option \<times> 's"
  ListServiceAccounts :: "uuid \<Rightarrow> string \<Rightarrow> string \<Rightarrow> 's \<Rightarrow> (gerr + resource list) \<times> 's"
  ListClusterRoleBindings :: "uuid \<Rightarrow> string \<Rightarrow> 's \<Rightarrow> (gerr + resource list) \<times> 's"

text \<open>What is in the shoots: the abstract view of a provider's state.\<close>

record shoot_view =
  v_sas :: "uuid \<times> string \<times> string \<Rightarrow> resource option"
  v_crbs :: "uuid \<times> string \<Rightarrow> resource option"
  v_nss :: "uuid \<times> string \<Rightarrow> resource option"
  v_lrs :: "uuid \<times> string \<Rightarrow> limit_range option"

text \<open>
  The contract. An operation touches the object it names and no other, whether it succeeds or
  fails; when it succeeds the object is as asked. A list is complete, has no repeated names and
  changes nothing. Ensured objects may keep labels and annotations they had before, as the
  Kubernetes-backed provider merges metadata. \<open>CreateNamespace\<close> never succeeds on a name that
  exists and never changes a namespace that exists; a deleted namespace may linger.
\<close>

locale shoot_access =
  fixes ops :: "'s shoot_ops"
    and inv :: "'s \<Rightarrow> bool"
    and view :: "'s \<Rightarrow> shoot_view"
  assumes inv_names:
      "inv s \<Longrightarrow> v_sas (view s) (cid, ns, n) = Some r \<Longrightarrow> r_name r = n"
      "inv s \<Longrightarrow> v_crbs (view s) (cid, n) = Some r \<Longrightarrow> r_name r = n"
      "inv s \<Longrightarrow> v_nss (view s) (cid, n) = Some r \<Longrightarrow> r_name r = n"
    and EnsureNamespace_law:
      "inv s \<Longrightarrow> EnsureNamespace ops cid n s = (e, s') \<Longrightarrow> inv s' \<and>
         (\<exists>x. view s' = (view s)\<lparr>v_nss := (v_nss (view s))((cid, n) := x)\<rparr> \<and>
           (v_nss (view s) (cid, n) \<noteq> None \<longrightarrow> x = v_nss (view s) (cid, n)) \<and> (e = None \<longrightarrow> x \<noteq> None))"
    and GetNamespace_law:
      "inv s \<Longrightarrow> GetNamespace ops cid n s = (g, s') \<Longrightarrow> inv s' \<and> view s' = view s \<and>
         (\<forall>x. g = Inr x \<longrightarrow> map_option r_labels x = map_option r_labels (v_nss (view s) (cid, n)) \<and>
            map_option r_name x = map_option r_name (v_nss (view s) (cid, n)))"
    and CreateNamespace_law:
      "inv s \<Longrightarrow> distinct (map fst l) \<Longrightarrow> CreateNamespace ops cid n l s = (e, s') \<Longrightarrow> inv s' \<and>
         (\<exists>x. view s' = (view s)\<lparr>v_nss := (v_nss (view s))((cid, n) := x)\<rparr> \<and>
           (v_nss (view s) (cid, n) \<noteq> None \<longrightarrow> e \<noteq> None \<and> x = v_nss (view s) (cid, n)) \<and>
           (e = None \<longrightarrow> (\<exists>r. x = Some r \<and> submap l (r_labels r))))"
    and UpdateNamespaceLabels_law:
      "inv s \<Longrightarrow> distinct (map fst l) \<Longrightarrow> UpdateNamespaceLabels ops cid n l s = (e, s') \<Longrightarrow> inv s' \<and>
         (\<exists>x. view s' = (view s)\<lparr>v_nss := (v_nss (view s))((cid, n) := x)\<rparr> \<and>
           (v_nss (view s) (cid, n) = None \<longrightarrow> x = None) \<and>
           (\<forall>r. e = None \<and> v_nss (view s) (cid, n) = Some r \<longrightarrow>
             (\<exists>r'. x = Some r' \<and> map_of (r_labels r') = map_of (r_labels r) ++ map_of l)))"
    and DeleteNamespace_law:
      "inv s \<Longrightarrow> DeleteNamespace ops cid n s = (e, s') \<Longrightarrow> inv s' \<and>
         (\<exists>x. view s' = (view s)\<lparr>v_nss := (v_nss (view s))((cid, n) := x)\<rparr> \<and>
           (v_nss (view s) (cid, n) = None \<longrightarrow> x = None))"
    and ListNamespaces_law:
      "inv s \<Longrightarrow> ListNamespaces ops cid lk s = (a, s') \<Longrightarrow> inv s' \<and> view s' = view s \<and>
         (\<forall>rs. a = Inr rs \<and> lk \<noteq> '''' \<longrightarrow> distinct (map r_name rs) \<and>
           (\<forall>n l. (\<exists>r\<in>set rs. r_name r = n \<and> r_labels r = l) \<longleftrightarrow>
              (\<exists>r. v_nss (view s) (cid, n) = Some r \<and> r_labels r = l \<and> has_key lk l)))"
    and EnsureLimitRange_law:
      "inv s \<Longrightarrow> distinct (map fst l) \<Longrightarrow> EnsureLimitRange ops cid n d l s = (e, s') \<Longrightarrow> inv s' \<and>
         (\<exists>x. view s' = (view s)\<lparr>v_lrs := (v_lrs (view s))((cid, n) := x)\<rparr> \<and>
           (e = None \<longrightarrow> (\<exists>lr. x = Some lr \<and> lr_defaults lr = d \<and> submap l (lr_labels lr))))"
    and DeleteLimitRange_law:
      "inv s \<Longrightarrow> DeleteLimitRange ops cid n s = (e, s') \<Longrightarrow> inv s' \<and>
         (\<exists>x. view s' = (view s)\<lparr>v_lrs := (v_lrs (view s))((cid, n) := x)\<rparr> \<and> (e = None \<longrightarrow> x = None))"
    and EnsureServiceAccount_law:
      "inv s \<Longrightarrow> distinct (map fst l) \<Longrightarrow> distinct (map fst an) \<Longrightarrow>
       EnsureServiceAccount ops cid ns n l an s = (e, s') \<Longrightarrow> inv s' \<and>
         (\<exists>x. view s' = (view s)\<lparr>v_sas := (v_sas (view s))((cid, ns, n) := x)\<rparr> \<and>
           (e = None \<longrightarrow> (\<exists>r. x = Some r \<and> submap l (r_labels r) \<and> submap an (r_annotations r))))"
    and EnsureClusterRoleBinding_law:
      "inv s \<Longrightarrow> distinct (map fst l) \<Longrightarrow> distinct (map fst an) \<Longrightarrow>
       EnsureClusterRoleBinding ops cid n sns sn l an s = (e, s') \<Longrightarrow> inv s' \<and>
         (\<exists>x. view s' = (view s)\<lparr>v_crbs := (v_crbs (view s))((cid, n) := x)\<rparr> \<and>
           (e = None \<longrightarrow> (\<exists>r. x = Some r \<and> submap l (r_labels r) \<and> submap an (r_annotations r) \<and>
              r_role_ref r = cluster_admin \<and> r_subjects r = [sa_subject sns sn])))"
    and DeleteServiceAccount_law:
      "inv s \<Longrightarrow> DeleteServiceAccount ops cid ns n s = (e, s') \<Longrightarrow> inv s' \<and>
         (\<exists>x. view s' = (view s)\<lparr>v_sas := (v_sas (view s))((cid, ns, n) := x)\<rparr> \<and> (e = None \<longrightarrow> x = None))"
    and DeleteClusterRoleBinding_law:
      "inv s \<Longrightarrow> DeleteClusterRoleBinding ops cid n s = (e, s') \<Longrightarrow> inv s' \<and>
         (\<exists>x. view s' = (view s)\<lparr>v_crbs := (v_crbs (view s))((cid, n) := x)\<rparr> \<and> (e = None \<longrightarrow> x = None))"
    and ListServiceAccounts_law:
      "inv s \<Longrightarrow> ListServiceAccounts ops cid ns lk s = (a, s') \<Longrightarrow> inv s' \<and> view s' = view s \<and>
         (\<forall>rs. a = Inr rs \<and> lk \<noteq> '''' \<longrightarrow> distinct (map r_name rs) \<and>
           set rs = {r. \<exists>n. v_sas (view s) (cid, ns, n) = Some r \<and> has_key lk (r_labels r)})"
    and ListClusterRoleBindings_law:
      "inv s \<Longrightarrow> ListClusterRoleBindings ops cid lk s = (a, s') \<Longrightarrow> inv s' \<and> view s' = view s \<and>
         (\<forall>rs. a = Inr rs \<and> lk \<noteq> '''' \<longrightarrow> distinct (map r_name rs) \<and>
           set rs = {r. \<exists>n. v_crbs (view s) (cid, n) = Some r \<and> has_key lk (r_labels r)})"

text \<open>A call on the provider, from a handler.\<close>

definition shoot_do :: "('s \<Rightarrow> 'a \<times> 's) \<Rightarrow> ('s, 'g) world \<Rightarrow> 'a \<times> ('s, 'g) world" where
  "shoot_do f w = (case f (shoots w) of (x, s) \<Rightarrow> (x, w\<lparr>shoots := s\<rparr>))"

section \<open>The in-memory provider (mock.go)\<close>

datatype shoot_op = OpEnsureNamespace | OpGetNamespace | OpCreateNamespace | OpUpdateNamespaceLabels
  | OpDeleteNamespace | OpListNamespaces | OpEnsureLimitRange | OpDeleteLimitRange
  | OpEnsureServiceAccount | OpEnsureClusterRoleBinding | OpDeleteServiceAccount
  | OpDeleteClusterRoleBinding | OpListServiceAccounts | OpListClusterRoleBindings

text \<open>The nested maps of the mock are flattened: the key of a ServiceAccount is its cluster,
  namespace and name. \<open>m_error\<close> holds the configurable errors.\<close>

record mock_shoot =
  m_sas :: "((uuid \<times> string \<times> string) \<times> resource) list"
  m_crbs :: "((uuid \<times> string) \<times> resource) list"
  m_nss :: "((uuid \<times> string) \<times> resource) list"
  m_lrs :: "((uuid \<times> string) \<times> limit_range) list"
  m_error :: "shoot_op \<Rightarrow> gerr option"

definition NewMockShootAccess :: mock_shoot where
  "NewMockShootAccess = \<lparr>m_sas = [], m_crbs = [], m_nss = [], m_lrs = [], m_error = (\<lambda>_. None)\<rparr>"

definition m_guard :: "shoot_op \<Rightarrow> (mock_shoot \<Rightarrow> gerr option \<times> mock_shoot) \<Rightarrow> mock_shoot \<Rightarrow> gerr option \<times> mock_shoot" where
  "m_guard p f m = (case m_error m p of Some e \<Rightarrow> (Some e, m) | None \<Rightarrow> f m)"

definition m_read :: "shoot_op \<Rightarrow> (mock_shoot \<Rightarrow> 'a) \<Rightarrow> mock_shoot \<Rightarrow> (gerr + 'a) \<times> mock_shoot" where
  "m_read p f m = (case m_error m p of Some e \<Rightarrow> (Inl e, m) | None \<Rightarrow> (Inr (f m), m))"

definition MockEnsureNamespace :: "uuid \<Rightarrow> string \<Rightarrow> mock_shoot \<Rightarrow> gerr option \<times> mock_shoot" where
  "MockEnsureNamespace cid n = m_guard OpEnsureNamespace (\<lambda>m.
     (None, if map_of (m_nss m) (cid, n) = None
            then m\<lparr>m_nss := AList.update (cid, n) (plain_resource n [] []) (m_nss m)\<rparr> else m))"

definition MockGetNamespace :: "uuid \<Rightarrow> string \<Rightarrow> mock_shoot \<Rightarrow> (gerr + resource option) \<times> mock_shoot" where
  "MockGetNamespace cid n = m_read OpGetNamespace (\<lambda>m.
     map_option (\<lambda>r. plain_resource (r_name r) (r_labels r) (r_annotations r)) (map_of (m_nss m) (cid, n)))"

definition MockCreateNamespace :: "uuid \<Rightarrow> string \<Rightarrow> smap \<Rightarrow> mock_shoot \<Rightarrow> gerr option \<times> mock_shoot" where
  "MockCreateNamespace cid n l = m_guard OpCreateNamespace (\<lambda>m.
     if map_of (m_nss m) (cid, n) \<noteq> None
     then (Some (AlreadyExists (''namespaces \"'' @ n @ ''\" already exists'')), m)
     else (None, m\<lparr>m_nss := AList.update (cid, n) (plain_resource n l []) (m_nss m)\<rparr>))"

definition MockUpdateNamespaceLabels :: "uuid \<Rightarrow> string \<Rightarrow> smap \<Rightarrow> mock_shoot \<Rightarrow> gerr option \<times> mock_shoot" where
  "MockUpdateNamespaceLabels cid n l = m_guard OpUpdateNamespaceLabels (\<lambda>m.
     case map_of (m_nss m) (cid, n) of
       None \<Rightarrow> (None, m)
     | Some r \<Rightarrow> (None, m\<lparr>m_nss := AList.update (cid, n) (r\<lparr>r_labels := maps_copy (r_labels r) l\<rparr>) (m_nss m)\<rparr>))"

definition MockDeleteNamespace :: "uuid \<Rightarrow> string \<Rightarrow> mock_shoot \<Rightarrow> gerr option \<times> mock_shoot" where
  "MockDeleteNamespace cid n = m_guard OpDeleteNamespace (\<lambda>m.
     (None, m\<lparr>m_nss := AList.delete (cid, n) (m_nss m)\<rparr>))"

definition MockListNamespaces :: "uuid \<Rightarrow> string \<Rightarrow> mock_shoot \<Rightarrow> (gerr + resource list) \<times> mock_shoot" where
  "MockListNamespaces cid lk = m_read OpListNamespaces (\<lambda>m.
     [plain_resource (r_name r) (r_labels r) (r_annotations r).
        (k, r) \<leftarrow> m_nss m, fst k = cid \<and> (lk = '''' \<or> has_key lk (r_labels r))])"

definition MockEnsureServiceAccount ::
  "uuid \<Rightarrow> string \<Rightarrow> string \<Rightarrow> smap \<Rightarrow> smap \<Rightarrow> mock_shoot \<Rightarrow> gerr option \<times> mock_shoot" where
  "MockEnsureServiceAccount cid ns n l a = m_guard OpEnsureServiceAccount (\<lambda>m.
     (None, m\<lparr>m_sas := AList.update (cid, ns, n) (plain_resource n l a) (m_sas m)\<rparr>))"

definition MockEnsureClusterRoleBinding ::
  "uuid \<Rightarrow> string \<Rightarrow> string \<Rightarrow> string \<Rightarrow> smap \<Rightarrow> smap \<Rightarrow> mock_shoot \<Rightarrow> gerr option \<times> mock_shoot" where
  "MockEnsureClusterRoleBinding cid n sns sn l a = m_guard OpEnsureClusterRoleBinding (\<lambda>m.
     (None, m\<lparr>m_crbs := AList.update (cid, n)
        \<lparr>r_name = n, r_labels = l, r_annotations = a, r_role_ref = cluster_admin, r_subjects = [sa_subject sns sn]\<rparr>
        (m_crbs m)\<rparr>))"

definition MockDeleteServiceAccount :: "uuid \<Rightarrow> string \<Rightarrow> string \<Rightarrow> mock_shoot \<Rightarrow> gerr option \<times> mock_shoot" where
  "MockDeleteServiceAccount cid ns n = m_guard OpDeleteServiceAccount (\<lambda>m.
     (None, m\<lparr>m_sas := AList.delete (cid, ns, n) (m_sas m)\<rparr>))"

definition MockDeleteClusterRoleBinding :: "uuid \<Rightarrow> string \<Rightarrow> mock_shoot \<Rightarrow> gerr option \<times> mock_shoot" where
  "MockDeleteClusterRoleBinding cid n = m_guard OpDeleteClusterRoleBinding (\<lambda>m.
     (None, m\<lparr>m_crbs := AList.delete (cid, n) (m_crbs m)\<rparr>))"

definition MockListServiceAccounts ::
  "uuid \<Rightarrow> string \<Rightarrow> string \<Rightarrow> mock_shoot \<Rightarrow> (gerr + resource list) \<times> mock_shoot" where
  "MockListServiceAccounts cid ns lk = m_read OpListServiceAccounts (\<lambda>m.
     [r. (k, r) \<leftarrow> m_sas m, fst k = cid \<and> fst (snd k) = ns \<and> (lk = '''' \<or> has_key lk (r_labels r))])"

definition MockListClusterRoleBindings :: "uuid \<Rightarrow> string \<Rightarrow> mock_shoot \<Rightarrow> (gerr + resource list) \<times> mock_shoot" where
  "MockListClusterRoleBindings cid lk = m_read OpListClusterRoleBindings (\<lambda>m.
     [r. (k, r) \<leftarrow> m_crbs m, fst k = cid \<and> (lk = '''' \<or> has_key lk (r_labels r))])"

definition HasSA :: "(uuid \<Rightarrow> string) \<Rightarrow> uuid \<Rightarrow> uuid \<Rightarrow> mock_shoot \<Rightarrow> bool" where
  "HasSA us cid u m \<longleftrightarrow> map_of (m_sas m) (cid, FundamentNamespace, SAName us u) \<noteq> None"

definition HasCRB :: "(uuid \<Rightarrow> string) \<Rightarrow> uuid \<Rightarrow> uuid \<Rightarrow> mock_shoot \<Rightarrow> bool" where
  "HasCRB us cid u m \<longleftrightarrow> map_of (m_crbs m) (cid, CRBName us u) \<noteq> None"

definition MockEnsureLimitRange ::
  "uuid \<Rightarrow> string \<Rightarrow> limit_defaults \<Rightarrow> smap \<Rightarrow> mock_shoot \<Rightarrow> gerr option \<times> mock_shoot" where
  "MockEnsureLimitRange cid n d l = m_guard OpEnsureLimitRange (\<lambda>m.
     (None, m\<lparr>m_lrs := AList.update (cid, n) \<lparr>lr_defaults = d, lr_labels = l\<rparr> (m_lrs m)\<rparr>))"

definition MockDeleteLimitRange :: "uuid \<Rightarrow> string \<Rightarrow> mock_shoot \<Rightarrow> gerr option \<times> mock_shoot" where
  "MockDeleteLimitRange cid n = m_guard OpDeleteLimitRange (\<lambda>m.
     (None, m\<lparr>m_lrs := AList.delete (cid, n) (m_lrs m)\<rparr>))"

definition GetLimitRange :: "uuid \<Rightarrow> string \<Rightarrow> mock_shoot \<Rightarrow> limit_range option" where
  "GetLimitRange cid n m = map_of (m_lrs m) (cid, n)"

definition ResetMock :: "mock_shoot \<Rightarrow> mock_shoot" where
  "ResetMock m = m\<lparr>m_sas := [], m_crbs := [], m_nss := [], m_lrs := []\<rparr>"

definition mock_ops :: "mock_shoot shoot_ops" where
  "mock_ops = \<lparr>EnsureNamespace = MockEnsureNamespace, GetNamespace = MockGetNamespace,
     CreateNamespace = MockCreateNamespace, UpdateNamespaceLabels = MockUpdateNamespaceLabels,
     DeleteNamespace = MockDeleteNamespace, ListNamespaces = MockListNamespaces,
     EnsureLimitRange = MockEnsureLimitRange, DeleteLimitRange = MockDeleteLimitRange,
     EnsureServiceAccount = MockEnsureServiceAccount, EnsureClusterRoleBinding = MockEnsureClusterRoleBinding,
     DeleteServiceAccount = MockDeleteServiceAccount, DeleteClusterRoleBinding = MockDeleteClusterRoleBinding,
     ListServiceAccounts = MockListServiceAccounts, ListClusterRoleBindings = MockListClusterRoleBindings\<rparr>"

section \<open>The mock keeps the contract\<close>

definition mock_inv :: "mock_shoot \<Rightarrow> bool" where
  "mock_inv m \<longleftrightarrow> distinct (map fst (m_sas m)) \<and> distinct (map fst (m_crbs m)) \<and>
     distinct (map fst (m_nss m)) \<and> distinct (map fst (m_lrs m)) \<and>
     (\<forall>(k, r)\<in>set (m_sas m). r_name r = snd (snd k)) \<and> (\<forall>(k, r)\<in>set (m_crbs m). r_name r = snd k) \<and>
     (\<forall>(k, r)\<in>set (m_nss m). r_name r = snd k)"

definition mock_view :: "mock_shoot \<Rightarrow> shoot_view" where
  "mock_view m = \<lparr>v_sas = map_of (m_sas m), v_crbs = map_of (m_crbs m), v_nss = map_of (m_nss m),
     v_lrs = map_of (m_lrs m)\<rparr>"

lemma map_of_update_eq [simp]: "map_of (AList.update k v al) = (map_of al)(k := Some v)"
  by (simp add: update_conv')

lemma map_of_delete_eq [simp]: "map_of (AList.delete k al) = (map_of al)(k := None)"
  by (simp add: delete_conv')

lemma set_AList_update: "set (AList.update k v al) \<subseteq> insert (k, v) (set al)"
  by (induction al) auto

lemma set_AList_delete: "set (AList.delete k al) \<subseteq> set al"
  by (auto simp: AList.delete_eq)

lemma map_of_maps_copy [simp]:
  "distinct (map fst src) \<Longrightarrow> map_of (maps_copy dst src) = map_of dst ++ map_of src"
  unfolding maps_copy_def
proof (induction src arbitrary: dst)
  case (Cons kv src)
  then have none: "map_of src (fst kv) = None"
    by (simp add: map_of_eq_None_iff)
  show ?case
  proof (rule ext)
    fix x
    show "map_of (foldl (\<lambda>m kv. AList.update (fst kv) (snd kv) m) dst (kv # src)) x =
        (map_of dst ++ map_of (kv # src)) x"
      using Cons none by (cases kv) (auto simp: map_add_def split: option.splits)
  qed
qed simp

lemma submap_refl: "distinct (map fst l) \<Longrightarrow> submap l l"
  by (auto simp: submap_def list_all_iff)

lemma mock_inv_simps:
  assumes "mock_inv m"
  shows "r_name r = n \<Longrightarrow> mock_inv (m\<lparr>m_sas := AList.update (cid, ns, n) r (m_sas m)\<rparr>)"
    "r_name r = n \<Longrightarrow> mock_inv (m\<lparr>m_crbs := AList.update (cid, n) r (m_crbs m)\<rparr>)"
    "r_name r = n \<Longrightarrow> mock_inv (m\<lparr>m_nss := AList.update (cid, n) r (m_nss m)\<rparr>)"
    "mock_inv (m\<lparr>m_lrs := AList.update k lr (m_lrs m)\<rparr>)"
    "mock_inv (m\<lparr>m_sas := AList.delete k1 (m_sas m)\<rparr>)" "mock_inv (m\<lparr>m_crbs := AList.delete k2 (m_crbs m)\<rparr>)"
    "mock_inv (m\<lparr>m_nss := AList.delete k3 (m_nss m)\<rparr>)" "mock_inv (m\<lparr>m_lrs := AList.delete k4 (m_lrs m)\<rparr>)"
  using assms set_AList_update set_AList_delete
  by (fastforce simp: mock_inv_def distinct_update distinct_delete)+

lemmas mock_op_defs = mock_ops_def m_guard_def m_read_def MockEnsureNamespace_def MockGetNamespace_def
  MockCreateNamespace_def MockUpdateNamespaceLabels_def MockDeleteNamespace_def MockListNamespaces_def
  MockEnsureLimitRange_def MockDeleteLimitRange_def MockEnsureServiceAccount_def
  MockEnsureClusterRoleBinding_def MockDeleteServiceAccount_def MockDeleteClusterRoleBinding_def
  MockListServiceAccounts_def MockListClusterRoleBindings_def

lemma plain_resource_simps [simp]:
  "r_name (plain_resource n l a) = n" "r_labels (plain_resource n l a) = l"
  "r_annotations (plain_resource n l a) = a"
  by (simp_all add: plain_resource_def)

text \<open>A map listed through a filter on its keys and its values.\<close>

lemma list_of_alist:
  "concat (map (\<lambda>(k, r). if P k r then [f r] else []) al) = map (f \<circ> snd) (filter (\<lambda>(k, r). P k r) al)"
  by (induction al) auto

lemma distinct_names_of_alist:
  assumes "distinct (map fst al)" "\<forall>(k, r)\<in>set al. nm r = key k"
    and "\<And>k k'. P k \<Longrightarrow> P k' \<Longrightarrow> key k = key k' \<Longrightarrow> k = k'"
  shows "distinct (map (nm \<circ> snd) (filter (\<lambda>(k, r). P k \<and> Q r) al))"
  using assms(1,2)
proof (induction al)
  case (Cons a al)
  obtain k r where a: "a = (k, r)" by (cases a)
  have "nm r \<noteq> nm r'" if "P k" "(k', r') \<in> set al" "P k'" for k' r'
    using Cons.prems a that assms(3) [of k k'] by (force simp: image_iff)
  then have "nm r \<notin> (nm \<circ> snd) ` set (filter (\<lambda>(k, r). P k \<and> Q r) al)" if "P k"
    using that by (clarsimp simp: image_iff)
  with Cons show ?case by (simp add: a)
qed simp

lemma set_of_alist:
  "distinct (map fst al) \<Longrightarrow>
   r \<in> snd ` set (filter (\<lambda>(k, r). P k \<and> Q r) al) \<longleftrightarrow> (\<exists>k. map_of al k = Some r \<and> P k \<and> Q r)"
  by (auto simp: image_iff)

lemmas mock_view_defs = mock_view_def mock_inv_simps submap_refl

lemma mock_EnsureNamespace_law:
  "mock_inv s \<Longrightarrow> EnsureNamespace mock_ops cid n s = (e, s') \<Longrightarrow> mock_inv s' \<and>
   (\<exists>x. mock_view s' = (mock_view s)\<lparr>v_nss := (v_nss (mock_view s))((cid, n) := x)\<rparr> \<and>
   (v_nss (mock_view s) (cid, n) \<noteq> None \<longrightarrow> x = v_nss (mock_view s) (cid, n)) \<and> (e = None \<longrightarrow> x \<noteq> None))"
  by (rule conjI, (auto simp: mock_op_defs mock_view_defs split: option.splits if_splits; fail)[1],
      rule exI [of _ "v_nss (mock_view s') (cid, n)"]) (auto simp: mock_op_defs mock_view_defs split: option.splits if_splits)

lemma mock_GetNamespace_law:
  "mock_inv s \<Longrightarrow> GetNamespace mock_ops cid n s = (g, s') \<Longrightarrow> mock_inv s' \<and> mock_view s' = mock_view s \<and>
   (\<forall>x. g = Inr x \<longrightarrow> map_option r_labels x = map_option r_labels (v_nss (mock_view s) (cid, n)) \<and>
   map_option r_name x = map_option r_name (v_nss (mock_view s) (cid, n)))"
  by (auto simp: mock_op_defs mock_view_defs option.map_comp comp_def split: option.splits if_splits)

lemma mock_CreateNamespace_law:
  "mock_inv s \<Longrightarrow> distinct (map fst l) \<Longrightarrow> CreateNamespace mock_ops cid n l s = (e, s') \<Longrightarrow> mock_inv s' \<and>
   (\<exists>x. mock_view s' = (mock_view s)\<lparr>v_nss := (v_nss (mock_view s))((cid, n) := x)\<rparr> \<and>
   (v_nss (mock_view s) (cid, n) \<noteq> None \<longrightarrow> e \<noteq> None \<and> x = v_nss (mock_view s) (cid, n)) \<and>
   (e = None \<longrightarrow> (\<exists>r. x = Some r \<and> submap l (r_labels r))))"
  by (rule conjI, (auto simp: mock_op_defs mock_view_defs split: option.splits if_splits; fail)[1],
      rule exI [of _ "v_nss (mock_view s') (cid, n)"], cases "m_error s OpCreateNamespace")
    (auto simp: mock_op_defs mock_view_defs split: if_splits dest: sym [of "Some _"])

lemma mock_ns_name: "mock_inv s \<Longrightarrow> map_of (m_nss s) (cid, n) = Some r \<Longrightarrow> r_name r = n"
  by (auto simp: mock_inv_def dest!: map_of_SomeD)

lemma mock_UpdateNamespaceLabels_law:
  "mock_inv s \<Longrightarrow> distinct (map fst l) \<Longrightarrow> UpdateNamespaceLabels mock_ops cid n l s = (e, s') \<Longrightarrow> mock_inv s' \<and>
   (\<exists>x. mock_view s' = (mock_view s)\<lparr>v_nss := (v_nss (mock_view s))((cid, n) := x)\<rparr> \<and>
   (v_nss (mock_view s) (cid, n) = None \<longrightarrow> x = None) \<and>
   (\<forall>r. e = None \<and> v_nss (mock_view s) (cid, n) = Some r \<longrightarrow>
   (\<exists>r'. x = Some r' \<and> map_of (r_labels r') = map_of (r_labels r) ++ map_of l)))"
  by (rule conjI, (auto simp: mock_op_defs mock_view_defs mock_ns_name split: option.splits; fail)[1],
      rule exI [of _ "v_nss (mock_view s') (cid, n)"])
    (auto simp: mock_op_defs mock_view_defs split: option.splits if_splits)

lemma mock_DeleteNamespace_law:
  "mock_inv s \<Longrightarrow> DeleteNamespace mock_ops cid n s = (e, s') \<Longrightarrow> mock_inv s' \<and>
   (\<exists>x. mock_view s' = (mock_view s)\<lparr>v_nss := (v_nss (mock_view s))((cid, n) := x)\<rparr> \<and>
   (v_nss (mock_view s) (cid, n) = None \<longrightarrow> x = None))"
  by (rule conjI, (auto simp: mock_op_defs mock_view_defs split: option.splits if_splits; fail)[1],
      rule exI [of _ "v_nss (mock_view s') (cid, n)"]) (auto simp: mock_op_defs mock_view_defs split: option.splits if_splits)

lemma mock_ListNamespaces_law:
  "mock_inv s \<Longrightarrow> ListNamespaces mock_ops cid lk s = (a, s') \<Longrightarrow> mock_inv s' \<and> mock_view s' = mock_view s \<and>
   (\<forall>rs. a = Inr rs \<and> lk \<noteq> '''' \<longrightarrow> distinct (map r_name rs) \<and>
   (\<forall>n l. (\<exists>r\<in>set rs. r_name r = n \<and> r_labels r = l) \<longleftrightarrow>
   (\<exists>r. v_nss (mock_view s) (cid, n) = Some r \<and> r_labels r = l \<and> has_key lk l)))"
proof -
  assume inv: "mock_inv s" and eq: "ListNamespaces mock_ops cid lk s = (a, s')"
  let ?P = "\<lambda>k. fst k = cid" and ?Q = "\<lambda>r. has_key lk (r_labels r)"
  let ?rs = "map (\<lambda>kr. plain_resource (r_name (snd kr)) (r_labels (snd kr)) (r_annotations (snd kr))) (filter (\<lambda>(k, r). ?P k \<and> ?Q r) (m_nss s))"
  have same: "s' = s" and a: "a = Inr rs \<Longrightarrow> lk \<noteq> [] \<Longrightarrow> rs = ?rs" for rs
    using eq by (auto simp: mock_op_defs list_of_alist comp_def split: option.splits)
  have dist: "distinct (map fst (m_nss s))" and names: "\<forall>(k, r)\<in>set (m_nss s). r_name r = snd k"
    using inv by (auto simp: mock_inv_def)
  have "distinct (map r_name ?rs)"
    using distinct_names_of_alist [OF dist names, of ?P ?Q] by (auto simp: comp_def)
  moreover have "(\<exists>r\<in>set ?rs. r_name r = n \<and> r_labels r = l) \<longleftrightarrow>
      (\<exists>r. v_nss (mock_view s) (cid, n) = Some r \<and> r_labels r = l \<and> has_key lk l)" for n l
    using dist mock_ns_name [OF inv] by (force simp: mock_view_def)
  ultimately show ?thesis
    using inv same a by blast
qed

lemma mock_EnsureLimitRange_law:
  "mock_inv s \<Longrightarrow> distinct (map fst l) \<Longrightarrow> EnsureLimitRange mock_ops cid n d l s = (e, s') \<Longrightarrow> mock_inv s' \<and>
   (\<exists>x. mock_view s' = (mock_view s)\<lparr>v_lrs := (v_lrs (mock_view s))((cid, n) := x)\<rparr> \<and>
   (e = None \<longrightarrow> (\<exists>lr. x = Some lr \<and> lr_defaults lr = d \<and> submap l (lr_labels lr))))"
  by (rule conjI, (auto simp: mock_op_defs mock_view_defs split: option.splits if_splits; fail)[1],
      rule exI [of _ "v_lrs (mock_view s') (cid, n)"]) (auto simp: mock_op_defs mock_view_defs split: option.splits if_splits)

lemma mock_DeleteLimitRange_law:
  "mock_inv s \<Longrightarrow> DeleteLimitRange mock_ops cid n s = (e, s') \<Longrightarrow> mock_inv s' \<and>
   (\<exists>x. mock_view s' = (mock_view s)\<lparr>v_lrs := (v_lrs (mock_view s))((cid, n) := x)\<rparr> \<and> (e = None \<longrightarrow> x = None))"
  by (rule conjI, (auto simp: mock_op_defs mock_view_defs split: option.splits if_splits; fail)[1],
      rule exI [of _ "v_lrs (mock_view s') (cid, n)"]) (auto simp: mock_op_defs mock_view_defs split: option.splits if_splits)

lemma mock_EnsureServiceAccount_law:
  "mock_inv s \<Longrightarrow> distinct (map fst l) \<Longrightarrow> distinct (map fst an) \<Longrightarrow>
   EnsureServiceAccount mock_ops cid ns n l an s = (e, s') \<Longrightarrow> mock_inv s' \<and>
   (\<exists>x. mock_view s' = (mock_view s)\<lparr>v_sas := (v_sas (mock_view s))((cid, ns, n) := x)\<rparr> \<and>
   (e = None \<longrightarrow> (\<exists>r. x = Some r \<and> submap l (r_labels r) \<and> submap an (r_annotations r))))"
  by (rule conjI, (auto simp: mock_op_defs mock_view_defs split: option.splits if_splits; fail)[1],
      rule exI [of _ "v_sas (mock_view s') (cid, ns, n)"]) (auto simp: mock_op_defs mock_view_defs split: option.splits if_splits)

lemma mock_EnsureClusterRoleBinding_law:
  "mock_inv s \<Longrightarrow> distinct (map fst l) \<Longrightarrow> distinct (map fst an) \<Longrightarrow>
   EnsureClusterRoleBinding mock_ops cid n sns sn l an s = (e, s') \<Longrightarrow> mock_inv s' \<and>
   (\<exists>x. mock_view s' = (mock_view s)\<lparr>v_crbs := (v_crbs (mock_view s))((cid, n) := x)\<rparr> \<and>
   (e = None \<longrightarrow> (\<exists>r. x = Some r \<and> submap l (r_labels r) \<and> submap an (r_annotations r) \<and>
   r_role_ref r = cluster_admin \<and> r_subjects r = [sa_subject sns sn])))"
  by (rule conjI, (auto simp: mock_op_defs mock_view_defs split: option.splits if_splits; fail)[1],
      rule exI [of _ "v_crbs (mock_view s') (cid, n)"]) (auto simp: mock_op_defs mock_view_defs split: option.splits if_splits)

lemma mock_DeleteServiceAccount_law:
  "mock_inv s \<Longrightarrow> DeleteServiceAccount mock_ops cid ns n s = (e, s') \<Longrightarrow> mock_inv s' \<and>
   (\<exists>x. mock_view s' = (mock_view s)\<lparr>v_sas := (v_sas (mock_view s))((cid, ns, n) := x)\<rparr> \<and> (e = None \<longrightarrow> x = None))"
  by (rule conjI, (auto simp: mock_op_defs mock_view_defs split: option.splits if_splits; fail)[1],
      rule exI [of _ "v_sas (mock_view s') (cid, ns, n)"]) (auto simp: mock_op_defs mock_view_defs split: option.splits if_splits)

lemma mock_DeleteClusterRoleBinding_law:
  "mock_inv s \<Longrightarrow> DeleteClusterRoleBinding mock_ops cid n s = (e, s') \<Longrightarrow> mock_inv s' \<and>
   (\<exists>x. mock_view s' = (mock_view s)\<lparr>v_crbs := (v_crbs (mock_view s))((cid, n) := x)\<rparr> \<and> (e = None \<longrightarrow> x = None))"
  by (rule conjI, (auto simp: mock_op_defs mock_view_defs split: option.splits if_splits; fail)[1],
      rule exI [of _ "v_crbs (mock_view s') (cid, n)"]) (auto simp: mock_op_defs mock_view_defs split: option.splits if_splits)

lemma mock_ListServiceAccounts_law:
  "mock_inv s \<Longrightarrow> ListServiceAccounts mock_ops cid ns lk s = (a, s') \<Longrightarrow> mock_inv s' \<and> mock_view s' = mock_view s \<and>
   (\<forall>rs. a = Inr rs \<and> lk \<noteq> '''' \<longrightarrow> distinct (map r_name rs) \<and>
   set rs = {r. \<exists>n. v_sas (mock_view s) (cid, ns, n) = Some r \<and> has_key lk (r_labels r)})"
proof -
  assume inv: "mock_inv s" and eq: "ListServiceAccounts mock_ops cid ns lk s = (a, s')"
  let ?P = "\<lambda>k. fst k = cid \<and> fst (snd k) = ns" and ?Q = "\<lambda>r. has_key lk (r_labels r)"
  let ?rs = "map snd (filter (\<lambda>(k, r). ?P k \<and> ?Q r) (m_sas s))"
  have same: "s' = s" and a: "a = Inr rs \<Longrightarrow> lk \<noteq> [] \<Longrightarrow> rs = ?rs" for rs
    using eq by (auto simp: mock_op_defs list_of_alist comp_def split: option.splits)
  have dist: "distinct (map fst (m_sas s))" and names: "\<forall>(k, r)\<in>set (m_sas s). r_name r = (\<lambda>k. snd (snd k)) k"
    using inv by (auto simp: mock_inv_def)
  have "distinct (map r_name ?rs)"
    using distinct_names_of_alist [OF dist names, of ?P ?Q] by (auto simp: comp_def)
  moreover have "set ?rs = {r. \<exists>n. v_sas (mock_view s) (cid, ns, n) = Some r \<and> ?Q r}"
    using dist by (auto simp: mock_view_def) force
  ultimately show ?thesis
    using inv same a by auto
qed

lemma mock_ListClusterRoleBindings_law:
  "mock_inv s \<Longrightarrow> ListClusterRoleBindings mock_ops cid lk s = (a, s') \<Longrightarrow> mock_inv s' \<and> mock_view s' = mock_view s \<and>
   (\<forall>rs. a = Inr rs \<and> lk \<noteq> '''' \<longrightarrow> distinct (map r_name rs) \<and>
   set rs = {r. \<exists>n. v_crbs (mock_view s) (cid, n) = Some r \<and> has_key lk (r_labels r)})"
proof -
  assume inv: "mock_inv s" and eq: "ListClusterRoleBindings mock_ops cid lk s = (a, s')"
  let ?P = "\<lambda>k. fst k = cid" and ?Q = "\<lambda>r. has_key lk (r_labels r)"
  let ?rs = "map snd (filter (\<lambda>(k, r). ?P k \<and> ?Q r) (m_crbs s))"
  have same: "s' = s" and a: "a = Inr rs \<Longrightarrow> lk \<noteq> [] \<Longrightarrow> rs = ?rs" for rs
    using eq by (auto simp: mock_op_defs list_of_alist comp_def split: option.splits)
  have dist: "distinct (map fst (m_crbs s))" and names: "\<forall>(k, r)\<in>set (m_crbs s). r_name r = snd k"
    using inv by (auto simp: mock_inv_def)
  have "distinct (map r_name ?rs)"
    using distinct_names_of_alist [OF dist names, of ?P ?Q] by (auto simp: comp_def)
  moreover have "set ?rs = {r. \<exists>n. v_crbs (mock_view s) (cid, n) = Some r \<and> ?Q r}"
    using dist by (auto simp: mock_view_def) force
  ultimately show ?thesis
    using inv same a by auto
qed

interpretation mock: shoot_access mock_ops mock_inv mock_view
proof unfold_locales
  fix s :: mock_shoot and cid :: uuid and ns n :: string and r :: resource
  assume inv: "mock_inv s"
  show "v_sas (mock_view s) (cid, ns, n) = Some r \<Longrightarrow> r_name r = n"
    "v_crbs (mock_view s) (cid, n) = Some r \<Longrightarrow> r_name r = n"
    "v_nss (mock_view s) (cid, n) = Some r \<Longrightarrow> r_name r = n"
    using inv by (auto simp: mock_inv_def mock_view_def dest!: map_of_SomeD)
qed (fact mock_EnsureNamespace_law
  mock_GetNamespace_law
  mock_CreateNamespace_law
  mock_UpdateNamespaceLabels_law
  mock_DeleteNamespace_law
  mock_ListNamespaces_law
  mock_EnsureLimitRange_law
  mock_DeleteLimitRange_law
  mock_EnsureServiceAccount_law
  mock_EnsureClusterRoleBinding_law
  mock_DeleteServiceAccount_law
  mock_DeleteClusterRoleBinding_law
  mock_ListServiceAccounts_law
  mock_ListClusterRoleBindings_law)+

end
