(* ===== verification/UserPlan.thy ===== *)
theory UserPlan
  imports ShootAccess "HOL-Library.List_Lexorder" "HOL-Library.Char_ord"
begin

text \<open>
  The pure part of user-access reconciliation: \<open>cluster-worker/pkg/handler/usersync/reconcile_plan.go\<close>
  and the helpers of \<open>usersync/mod.go\<close> it calls. \<open>uuid.Parse\<close> is the parameter \<open>up\<close>. Go ranges
  over a map in an unspecified order: \<open>ord i keys\<close> is the order in which the \<open>i\<close>-th range
  statement visits its keys. The abstract specification is \<open>converged\<close>: what the shoot should
  hold for a list of desired users.
\<close>

section \<open>Assumptions about the parameters\<close>

definition map_orders :: "(nat \<Rightarrow> uuid list \<Rightarrow> uuid list) \<Rightarrow> bool" where
  "map_orders ord \<longleftrightarrow> (\<forall>i xs. set (ord i xs) = set xs \<and> (distinct xs \<longrightarrow> distinct (ord i xs)))"

section \<open>Classification of resources (mod.go)\<close>

definition metadataContains :: "resource \<Rightarrow> smap \<Rightarrow> smap \<Rightarrow> bool" where
  "metadataContains r labels annotations \<longleftrightarrow>
     list_all (\<lambda>(k, v). sget (r_labels r) k = v) labels \<and>
     list_all (\<lambda>(k, v). sget (r_annotations r) k = v) annotations"

definition serviceAccountMatches :: "resource \<Rightarrow> smap \<Rightarrow> smap \<Rightarrow> bool" where
  "serviceAccountMatches r labels annotations = metadataContains r labels annotations"

definition clusterRoleBindingMatches ::
  "(uuid \<Rightarrow> string) \<Rightarrow> resource \<Rightarrow> uuid \<Rightarrow> smap \<Rightarrow> smap \<Rightarrow> bool" where
  "clusterRoleBindingMatches us r u labels annotations \<longleftrightarrow>
     metadataContains r labels annotations \<and> r_role_ref r = cluster_admin \<and>
     r_subjects r = [sa_subject FundamentNamespace (SAName us u)]"

fun classify :: "string \<Rightarrow> (resource \<Rightarrow> bool) \<Rightarrow> resource list \<Rightarrow> bool \<times> string list \<Rightarrow> bool \<times> string list" where
  "classify canonical ok [] (has, dups) = (has, dups)"
| "classify canonical ok (r # rs) (has, dups) =
     (if r_name r = canonical then classify canonical ok rs (ok r, dups)
      else classify canonical ok rs (has, dups @ [r_name r]))"

definition classifyServiceAccounts ::
  "(uuid \<Rightarrow> string) \<Rightarrow> resource list \<Rightarrow> uuid \<Rightarrow> smap \<Rightarrow> smap \<Rightarrow> bool \<times> string list" where
  "classifyServiceAccounts us rs u labels annotations =
     classify (SAName us u) (\<lambda>r. serviceAccountMatches r labels annotations) rs (False, [])"

definition classifyClusterRoleBindings ::
  "(uuid \<Rightarrow> string) \<Rightarrow> resource list \<Rightarrow> uuid \<Rightarrow> smap \<Rightarrow> smap \<Rightarrow> bool \<times> string list" where
  "classifyClusterRoleBindings us rs u labels annotations =
     classify (CRBName us u) (\<lambda>r. clusterRoleBindingMatches us r u labels annotations) rs (False, [])"

definition gget :: "(uuid \<times> resource list) list \<Rightarrow> uuid \<Rightarrow> resource list" where
  "gget g u = (case map_of g u of None \<Rightarrow> [] | Some rs \<Rightarrow> rs)"

definition label_user :: "(string \<Rightarrow> uuid option) \<Rightarrow> resource \<Rightarrow> uuid option" where
  "label_user up r = Option.bind (map_of (r_labels r) LabelUserID) up"

fun groupResourcesByUserID ::
  "(string \<Rightarrow> uuid option) \<Rightarrow> resource list \<Rightarrow> (uuid \<times> resource list) list \<times> string list \<Rightarrow>
   (uuid \<times> resource list) list \<times> string list" where
  "groupResourcesByUserID up [] (grouped, orphans) = (grouped, orphans)"
| "groupResourcesByUserID up (r # rs) (grouped, orphans) =
     (case map_of (r_labels r) LabelUserID of
        None \<Rightarrow> groupResourcesByUserID up rs (grouped, List.insert (r_name r) orphans)
      | Some uid \<Rightarrow>
          (case up uid of
             None \<Rightarrow> groupResourcesByUserID up rs (grouped, List.insert (r_name r) orphans)
           | Some u \<Rightarrow> groupResourcesByUserID up rs (AList.update u (gget grouped u @ [r]) grouped, orphans)))"

definition resourceNames :: "resource list \<Rightarrow> string list" where
  "resourceNames rs = sort (map r_name rs)"

definition sortedResourceNames :: "string list \<Rightarrow> string list" where
  "sortedResourceNames names = sort names"

section \<open>The plan (reconcile\_plan.go)\<close>

datatype reconcile_action =
    ActionEnsureSA uuid string string
  | ActionDeleteSA string
  | ActionEnsureCRB uuid string string
  | ActionDeleteCRB string

definition user_labels :: "(uuid \<Rightarrow> string) \<Rightarrow> uuid \<Rightarrow> smap" where
  "user_labels us u = [(LabelUserID, us u)]"

definition user_annotations :: "string \<Rightarrow> smap" where
  "user_annotations email = [(AnnotationUserName, email)]"

definition email_of :: "string option \<Rightarrow> string" where
  "email_of e = (case e of None \<Rightarrow> '''' | Some s \<Rightarrow> s)"

text \<open>The actions for one desired user, from the ServiceAccounts and ClusterRoleBindings that
  carry the user's label.\<close>

definition user_actions ::
  "(uuid \<Rightarrow> string) \<Rightarrow> uuid \<Rightarrow> user_access_row \<Rightarrow> resource list \<Rightarrow> resource list \<Rightarrow> reconcile_action list" where
  "user_actions us u row sas crbs =
     (let email = email_of (ua_email row);
          labels = user_labels us u;
          annotations = user_annotations email;
          (hasHealthySA, duplicateSANames) = classifyServiceAccounts us sas u labels annotations;
          (hasHealthyCRB, duplicateCRBNames) = classifyClusterRoleBindings us crbs u labels annotations
      in if ua_level row = ''admin''
         then (if hasHealthySA then [] else [ActionEnsureSA u email ''admin'']) @
              (if hasHealthyCRB then [] else [ActionEnsureCRB u email ''admin'']) @
              map ActionDeleteSA duplicateSANames @ map ActionDeleteCRB duplicateCRBNames
         else if ua_level row = ''member''
         then (if hasHealthySA then [] else [ActionEnsureSA u email ''member'']) @
              map ActionDeleteSA duplicateSANames @ map ActionDeleteCRB (resourceNames crbs)
         else [])"

record plan_state =
  ps_plan :: "reconcile_action list"
  ps_sas :: "(uuid \<times> resource list) list"
  ps_crbs :: "(uuid \<times> resource list) list"
  ps_orphan_sas :: "string list"
  ps_orphan_crbs :: "string list"

definition plan_user :: "(uuid \<Rightarrow> string) \<Rightarrow> uuid \<Rightarrow> user_access_row \<Rightarrow> plan_state \<Rightarrow> plan_state" where
  "plan_user us u row st =
     st\<lparr>ps_plan := ps_plan st @ user_actions us u row (gget (ps_sas st) u) (gget (ps_crbs st) u),
        ps_sas := AList.delete u (ps_sas st),
        ps_crbs := AList.delete u (ps_crbs st),
        ps_orphan_sas := removeAll (SAName us u) (ps_orphan_sas st),
        ps_orphan_crbs := (if ua_level row = ''admin'' then removeAll (CRBName us u) (ps_orphan_crbs st)
                           else ps_orphan_crbs st)\<rparr>"

definition desired_map :: "user_access_row list \<Rightarrow> (uuid \<times> user_access_row) list" where
  "desired_map desired = foldl (\<lambda>m r. AList.update (ua_user r) r m) [] desired"

fun plan_users ::
  "(uuid \<Rightarrow> string) \<Rightarrow> (uuid \<times> user_access_row) list \<Rightarrow> uuid list \<Rightarrow> plan_state \<Rightarrow> plan_state" where
  "plan_users us dm [] st = st"
| "plan_users us dm (u # ids) st =
     plan_users us dm ids (case map_of dm u of None \<Rightarrow> st | Some row \<Rightarrow> plan_user us u row st)"

definition buildReconcilePlan ::
  "(uuid \<Rightarrow> string) \<Rightarrow> (string \<Rightarrow> uuid option) \<Rightarrow> (nat \<Rightarrow> uuid list \<Rightarrow> uuid list) \<Rightarrow>
   user_access_row list \<Rightarrow> resource list \<Rightarrow> resource list \<Rightarrow> reconcile_action list" where
  "buildReconcilePlan us up ord desired actualSAs actualCRBs =
     (let dm = desired_map desired;
          (sas, orphanSAs) = groupResourcesByUserID up actualSAs ([], []);
          (crbs, orphanCRBs) = groupResourcesByUserID up actualCRBs ([], []);
          st = plan_users us dm (ord 0 (map fst dm))
                 \<lparr>ps_plan = [], ps_sas = sas, ps_crbs = crbs, ps_orphan_sas = orphanSAs, ps_orphan_crbs = orphanCRBs\<rparr>
      in ps_plan st @
         concat (map (\<lambda>u. map ActionDeleteSA (resourceNames (gget (ps_sas st) u))) (ord 1 (map fst (ps_sas st)))) @
         map ActionDeleteSA (sortedResourceNames (ps_orphan_sas st)) @
         concat (map (\<lambda>u. map ActionDeleteCRB (resourceNames (gget (ps_crbs st) u))) (ord 2 (map fst (ps_crbs st)))) @
         map ActionDeleteCRB (sortedResourceNames (ps_orphan_crbs st)))"

section \<open>What the shoot should hold\<close>

definition healthy_sa :: "(uuid \<Rightarrow> string) \<Rightarrow> uuid \<Rightarrow> string \<Rightarrow> resource option \<Rightarrow> bool" where
  "healthy_sa us u email x \<longleftrightarrow>
     (\<exists>r. x = Some r \<and> serviceAccountMatches r (user_labels us u) (user_annotations email))"

definition healthy_crb :: "(uuid \<Rightarrow> string) \<Rightarrow> uuid \<Rightarrow> string \<Rightarrow> resource option \<Rightarrow> bool" where
  "healthy_crb us u email x \<longleftrightarrow>
     (\<exists>r. x = Some r \<and> clusterRoleBindingMatches us r u (user_labels us u) (user_annotations email))"

definition converged ::
  "(uuid \<Rightarrow> string) \<Rightarrow> user_access_row list \<Rightarrow> uuid \<Rightarrow> shoot_view \<Rightarrow> bool" where
  "converged us desired cid v \<longleftrightarrow>
     (\<forall>u row. map_of (desired_map desired) u = Some row \<longrightarrow>
        healthy_sa us u (email_of (ua_email row)) (v_sas v (cid, FundamentNamespace, SAName us u)) \<and>
        (ua_level row = ''admin'' \<longrightarrow>
           healthy_crb us u (email_of (ua_email row)) (v_crbs v (cid, CRBName us u)))) \<and>
     (\<forall>n r. v_sas v (cid, FundamentNamespace, n) = Some r \<and> has_key LabelUserID (r_labels r) \<longrightarrow>
        (\<exists>u. map_of (desired_map desired) u \<noteq> None \<and> n = SAName us u)) \<and>
     (\<forall>n r. v_crbs v (cid, n) = Some r \<and> has_key LabelUserID (r_labels r) \<longrightarrow>
        (\<exists>u row. map_of (desired_map desired) u = Some row \<and> ua_level row = ''admin'' \<and> n = CRBName us u))"

text \<open>The known access levels, and the states in which no canonical name of a desired user is
  held by an object that carries the label of somebody else.\<close>

definition levels_ok :: "user_access_row list \<Rightarrow> bool" where
  "levels_ok desired \<longleftrightarrow> list_all (\<lambda>r. ua_level r = ''admin'' \<or> ua_level r = ''member'') desired"

definition no_swapped_labels ::
  "(uuid \<Rightarrow> string) \<Rightarrow> (string \<Rightarrow> uuid option) \<Rightarrow> user_access_row list \<Rightarrow> uuid \<Rightarrow> shoot_view \<Rightarrow> bool" where
  "no_swapped_labels us up desired cid v \<longleftrightarrow>
     (\<forall>u row. map_of (desired_map desired) u = Some row \<longrightarrow>
        (\<forall>r. v_sas v (cid, FundamentNamespace, SAName us u) = Some r \<longrightarrow>
           label_user up r = None \<or> label_user up r = Some u) \<and>
        (\<forall>r. ua_level row = ''admin'' \<and> v_crbs v (cid, CRBName us u) = Some r \<longrightarrow>
           label_user up r = None \<or> label_user up r = Some u))"

section \<open>Lemmas\<close>

lemma uuid_text_inj: "uuid_text us up \<Longrightarrow> us u = us u' \<longleftrightarrow> u = u'"
  by (metis option.inject uuid_text_def)

lemma uuid_text_nonempty: "uuid_text us up \<Longrightarrow> us u \<noteq> ''''"
  by (metis option.distinct(1) uuid_text_def)

lemma SAName_inj: "uuid_text us up \<Longrightarrow> SAName us u = SAName us u' \<longleftrightarrow> u = u'"
  by (simp add: SAName_def uuid_text_inj)

lemma CRBName_inj: "uuid_text us up \<Longrightarrow> CRBName us u = CRBName us u' \<longleftrightarrow> u = u'"
  by (simp add: CRBName_def uuid_text_inj)

lemma gget_update [simp]: "gget (AList.update u rs g) v = (if v = u then rs else gget g v)"
  by (simp add: gget_def)

lemma gget_delete [simp]: "gget (AList.delete u g) v = (if v = u then [] else gget g v)"
  by (simp add: gget_def)

lemma group_gget:
  "groupResourcesByUserID up rs (g, os) = (g', os') \<Longrightarrow>
   gget g' u = gget g u @ filter (\<lambda>r. label_user up r = Some u) rs"
  by (induction rs arbitrary: g os)
    (auto simp: label_user_def split: option.splits)

lemma group_orphans:
  "groupResourcesByUserID up rs (g, os) = (g', os') \<Longrightarrow>
   set os' = set os \<union> {r_name r | r. r \<in> set rs \<and> label_user up r = None}"
  by (induction rs arbitrary: g os)
    (auto simp: label_user_def split: option.splits)

lemma group_keys:
  "groupResourcesByUserID up rs (g, os) = (g', os') \<Longrightarrow> distinct (map fst g) \<Longrightarrow>
   distinct (map fst g') \<and> fst ` set g' = fst ` set g \<union> {u. \<exists>r\<in>set rs. label_user up r = Some u}"
  by (induction rs arbitrary: g os)
    (auto simp: label_user_def distinct_update dom_update split: option.splits)

lemma classify_dups:
  "snd (classify c ok rs (h, ds)) = ds @ filter (\<lambda>n. n \<noteq> c) (map r_name rs)"
  by (induction rs arbitrary: h ds) auto

lemma classify_has:
  "distinct (map r_name rs) \<Longrightarrow>
   fst (classify c ok rs (h, ds)) = (case lookup_row r_name c rs of None \<Rightarrow> h | Some r \<Rightarrow> ok r)"
proof (induction rs arbitrary: h ds)
  case (Cons r rs)
  have "lookup_row r_name c rs = None" if "r_name r = c"
    using Cons.prems that by (auto simp: lookup_row_None_iff)
  with Cons show ?case by (auto simp: table_simps)
qed (simp add: table_simps)

lemma classify_eq:
  assumes "distinct (map r_name rs)"
  shows "classify c ok rs (False, []) =
    (\<exists>r\<in>set rs. r_name r = c \<and> ok r, filter (\<lambda>n. n \<noteq> c) (map r_name rs))"
proof (rule prod_eqI)
  have "(case lookup_row r_name c rs of None \<Rightarrow> False | Some r \<Rightarrow> ok r) = (\<exists>r\<in>set rs. r_name r = c \<and> ok r)"
  proof (cases "lookup_row r_name c rs")
    case None
    then have "\<not> (\<exists>r\<in>set rs. r_name r = c)" by (auto simp: lookup_row_None_iff)
    with None show ?thesis by auto
  next
    case (Some a)
    then have "r = a" if "r \<in> set rs" "r_name r = c" for r
      using lookup_row_distinct [OF assms that(1)] that(2) by simp
    with lookup_row_SomeD [OF Some] Some show ?thesis by auto
  qed
  then show "fst (classify c ok rs (False, [])) =
      fst (\<exists>r\<in>set rs. r_name r = c \<and> ok r, filter (\<lambda>n. n \<noteq> c) (map r_name rs))"
    by (simp add: classify_has [OF assms])
qed (simp add: classify_dups)

text \<open>The loop over the desired users: the actions of each are computed from the groups of the
  start state, and the groups and orphans of the visited users are gone at the end.\<close>

lemma keys_delete [simp]: "fst ` set (AList.delete k al) = fst ` set al - {k}"
  by (force simp: AList.delete_eq)

lemma plan_users_groups:
  assumes "set ids \<subseteq> dom (map_of dm)"
  shows "gget (ps_sas (plan_users us dm ids st)) v = (if v \<in> set ids then [] else gget (ps_sas st) v)"
    "gget (ps_crbs (plan_users us dm ids st)) v = (if v \<in> set ids then [] else gget (ps_crbs st) v)"
    "fst ` set (ps_sas (plan_users us dm ids st)) = fst ` set (ps_sas st) - set ids"
    "fst ` set (ps_crbs (plan_users us dm ids st)) = fst ` set (ps_crbs st) - set ids"
  using assms
  by (induction ids arbitrary: st)
    (auto simp: plan_user_def dom_def simp del: image_iff split: option.splits)

lemma plan_users_orphans:
  assumes "set ids \<subseteq> dom (map_of dm)"
  shows "set (ps_orphan_sas (plan_users us dm ids st)) = set (ps_orphan_sas st) - SAName us ` set ids"
    "set (ps_orphan_crbs (plan_users us dm ids st)) = set (ps_orphan_crbs st) -
       CRBName us ` {u \<in> set ids. ua_level (the (map_of dm u)) = ''admin''}"
  using assms by (induction ids arbitrary: st) (auto simp: plan_user_def split: option.splits)

lemma plan_users_plan:
  assumes "set ids \<subseteq> dom (map_of dm)" "distinct ids"
  shows "set (ps_plan (plan_users us dm ids st)) = set (ps_plan st) \<union>
    (\<Union>u\<in>set ids. set (user_actions us u (the (map_of dm u)) (gget (ps_sas st) u) (gget (ps_crbs st) u)))"
  using assms
proof (induction ids arbitrary: st)
  case (Cons a ids)
  then obtain row where row: "map_of dm a = Some row" by auto
  have "(\<Union>u\<in>set ids. set (user_actions us u (the (map_of dm u)) (gget (ps_sas (plan_user us a row st)) u)
      (gget (ps_crbs (plan_user us a row st)) u))) =
    (\<Union>u\<in>set ids. set (user_actions us u (the (map_of dm u)) (gget (ps_sas st) u) (gget (ps_crbs st) u)))"
    using Cons.prems by (intro SUP_cong) (auto simp: plan_user_def)
  with Cons row show ?case
    by (auto simp: plan_user_def)
qed simp

text \<open>Which actions a plan has, as a function of the desired users and of the labelled
  resources.\<close>

definition stale_sa ::
  "(uuid \<Rightarrow> string) \<Rightarrow> (string \<Rightarrow> uuid option) \<Rightarrow> user_access_row list \<Rightarrow> resource \<Rightarrow> bool" where
  "stale_sa us up desired r \<longleftrightarrow>
     (case label_user up r of
        Some u \<Rightarrow> map_of (desired_map desired) u = None \<or> r_name r \<noteq> SAName us u
      | None \<Rightarrow> \<forall>u. map_of (desired_map desired) u \<noteq> None \<longrightarrow> r_name r \<noteq> SAName us u)"

definition stale_crb ::
  "(uuid \<Rightarrow> string) \<Rightarrow> (string \<Rightarrow> uuid option) \<Rightarrow> user_access_row list \<Rightarrow> resource \<Rightarrow> bool" where
  "stale_crb us up desired r \<longleftrightarrow>
     (case label_user up r of
        Some u \<Rightarrow> (case map_of (desired_map desired) u of
                     None \<Rightarrow> True
                   | Some row \<Rightarrow> ua_level row = ''member'' \<or> r_name r \<noteq> CRBName us u)
      | None \<Rightarrow> \<forall>u row. map_of (desired_map desired) u = Some row \<and> ua_level row = ''admin'' \<longrightarrow>
                  r_name r \<noteq> CRBName us u)"

lemma desired_map_snoc [simp]: "desired_map (ds @ [d]) = AList.update (ua_user d) d (desired_map ds)"
  by (simp add: desired_map_def)

lemma desired_map_Nil [simp]: "desired_map [] = []"
  by (simp add: desired_map_def)

lemma desired_map_values:
  "map_of (desired_map desired) u = Some row \<Longrightarrow> row \<in> set desired \<and> ua_user row = u"
  by (induction desired rule: rev_induct) (auto split: if_splits)

lemma distinct_desired_map: "distinct (map fst (desired_map desired))"
  by (induction desired rule: rev_induct) (auto simp: distinct_update)

lemma levels_okD:
  "levels_ok desired \<Longrightarrow> map_of (desired_map desired) u = Some row \<Longrightarrow>
   ua_level row = ''admin'' \<or> ua_level row = ''member''"
  by (auto simp: levels_ok_def list_all_iff dest!: desired_map_values)

lemma user_actions_set:
  assumes "distinct (map r_name sas)" "distinct (map r_name crbs)"
    and "ua_level row = ''admin'' \<or> ua_level row = ''member''"
  shows "ActionEnsureSA v e l \<in> set (user_actions us u row sas crbs) \<longleftrightarrow>
      v = u \<and> e = email_of (ua_email row) \<and> l = ua_level row \<and>
      \<not> (\<exists>r\<in>set sas. r_name r = SAName us u \<and> serviceAccountMatches r (user_labels us u) (user_annotations e))"
    "ActionEnsureCRB v e l \<in> set (user_actions us u row sas crbs) \<longleftrightarrow>
      v = u \<and> e = email_of (ua_email row) \<and> l = ''admin'' \<and> ua_level row = ''admin'' \<and>
      \<not> (\<exists>r\<in>set crbs. r_name r = CRBName us u \<and> clusterRoleBindingMatches us r u (user_labels us u) (user_annotations e))"
    "ActionDeleteSA n \<in> set (user_actions us u row sas crbs) \<longleftrightarrow>
      n \<noteq> SAName us u \<and> n \<in> r_name ` set sas"
    "ActionDeleteCRB n \<in> set (user_actions us u row sas crbs) \<longleftrightarrow>
      (ua_level row = ''member'' \<or> n \<noteq> CRBName us u) \<and> n \<in> r_name ` set crbs"
  using assms(3)
  by (auto simp: user_actions_def classifyServiceAccounts_def classifyClusterRoleBindings_def Let_def
      classify_eq [OF assms(1)] classify_eq [OF assms(2)] resourceNames_def split: if_splits)

lemma plan_set:
  assumes ord: "map_orders ord"
  shows "set (buildReconcilePlan us up ord desired sas crbs) =
    (\<Union>u\<in>dom (map_of (desired_map desired)). set (user_actions us u (the (map_of (desired_map desired) u))
        (filter (\<lambda>r. label_user up r = Some u) sas) (filter (\<lambda>r. label_user up r = Some u) crbs))) \<union>
    ActionDeleteSA ` {r_name r | r. r \<in> set sas \<and> (\<exists>u. label_user up r = Some u \<and> map_of (desired_map desired) u = None)} \<union>
    ActionDeleteSA ` {r_name r | r. r \<in> set sas \<and> label_user up r = None \<and>
      r_name r \<notin> SAName us ` dom (map_of (desired_map desired))} \<union>
    ActionDeleteCRB ` {r_name r | r. r \<in> set crbs \<and> (\<exists>u. label_user up r = Some u \<and> map_of (desired_map desired) u = None)} \<union>
    ActionDeleteCRB ` {r_name r | r. r \<in> set crbs \<and> label_user up r = None \<and>
      r_name r \<notin> CRBName us ` {u. \<exists>row. map_of (desired_map desired) u = Some row \<and> ua_level row = ''admin''}}"
proof -
  let ?dm = "desired_map desired"
  obtain gs os where gs: "groupResourcesByUserID up sas ([], []) = (gs, os)" by fastforce
  obtain gc oc where gc: "groupResourcesByUserID up crbs ([], []) = (gc, oc)" by fastforce
  let ?ids = "ord 0 (map fst ?dm)"
  let ?init = "\<lparr>ps_plan = [], ps_sas = gs, ps_crbs = gc, ps_orphan_sas = os, ps_orphan_crbs = oc\<rparr>"
  let ?st = "plan_users us ?dm ?ids ?init"
  have ids: "set ?ids = dom (map_of ?dm)" "distinct ?ids"
    using ord distinct_desired_map [of desired] by (auto simp: map_orders_def dom_map_of_conv_image_fst)
  note sub = eq_refl [OF ids(1)]
  have gg: "gget gs u = filter (\<lambda>r. label_user up r = Some u) sas"
    "gget gc u = filter (\<lambda>r. label_user up r = Some u) crbs" for u
    using group_gget [OF gs] group_gget [OF gc] by (simp_all add: gget_def)
  have keys: "fst ` set gs = {u. \<exists>r\<in>set sas. label_user up r = Some u}"
    "fst ` set gc = {u. \<exists>r\<in>set crbs. label_user up r = Some u}"
    using group_keys [OF gs] group_keys [OF gc] by auto
  have os: "set os = {r_name r | r. r \<in> set sas \<and> label_user up r = None}"
    "set oc = {r_name r | r. r \<in> set crbs \<and> label_user up r = None}"
    using group_orphans [OF gs] group_orphans [OF gc] by auto
  have ords: "set (ord i xs) = set xs" for i xs
    using ord by (simp add: map_orders_def)
  have left: "(\<Union>u\<in>fst ` set (ps_sas ?st). r_name ` set (gget (ps_sas ?st) u)) =
      {r_name r | r. r \<in> set sas \<and> (\<exists>u. label_user up r = Some u \<and> map_of ?dm u = None)}"
    "(\<Union>u\<in>fst ` set (ps_crbs ?st). r_name ` set (gget (ps_crbs ?st) u)) =
      {r_name r | r. r \<in> set crbs \<and> (\<exists>u. label_user up r = Some u \<and> map_of ?dm u = None)}"
    unfolding plan_users_groups(3,4) [OF sub] using ids keys
    by (auto simp: plan_users_groups [OF sub] gg domIff)
  have plan: "buildReconcilePlan us up ord desired sas crbs = ps_plan ?st @
      concat (map (\<lambda>u. map ActionDeleteSA (resourceNames (gget (ps_sas ?st) u))) (ord 1 (map fst (ps_sas ?st)))) @
      map ActionDeleteSA (sortedResourceNames (ps_orphan_sas ?st)) @
      concat (map (\<lambda>u. map ActionDeleteCRB (resourceNames (gget (ps_crbs ?st) u))) (ord 2 (map fst (ps_crbs ?st)))) @
      map ActionDeleteCRB (sortedResourceNames (ps_orphan_crbs ?st))"
    by (simp add: buildReconcilePlan_def gs gc Let_def)
  have admins: "{u \<in> dom (map_of ?dm). ua_level (the (map_of ?dm u)) = ''admin''} =
      {u. \<exists>row. map_of ?dm u = Some row \<and> ua_level row = ''admin''}"
    by auto
  have del: "set (concat (map (\<lambda>u. map f (resourceNames (gget g u))) (ord i (map fst h)))) =
      f ` (\<Union>u\<in>fst ` set h. r_name ` set (gget g u))" for f :: "string \<Rightarrow> reconcile_action" and g h i
    by (auto simp: ords resourceNames_def)
  have orph: "set (ps_orphan_sas ?st) = {r_name r | r. r \<in> set sas \<and> label_user up r = None \<and>
      r_name r \<notin> SAName us ` dom (map_of ?dm)}"
    "set (ps_orphan_crbs ?st) = {r_name r | r. r \<in> set crbs \<and> label_user up r = None \<and>
      r_name r \<notin> CRBName us ` {u. \<exists>row. map_of ?dm u = Some row \<and> ua_level row = ''admin''}}"
    unfolding plan_users_orphans [OF sub] using os by (auto simp: ids(1) admins)
  show ?thesis
    unfolding plan set_append del left
    using plan_users_plan [OF sub ids(2), where st = ?init and us = us]
    by (simp add: gg ids(1) orph sortedResourceNames_def Un_assoc)
qed

text \<open>The four kinds of action, for lists without repeated names.\<close>

lemma plan_actions:
  assumes ord: "map_orders ord" and lv: "levels_ok desired"
    and ds: "distinct (map r_name sas)" "distinct (map r_name crbs)"
  shows "ActionEnsureSA u e l \<in> set (buildReconcilePlan us up ord desired sas crbs) \<longleftrightarrow>
      (\<exists>row. map_of (desired_map desired) u = Some row \<and> e = email_of (ua_email row) \<and> l = ua_level row \<and>
        \<not> (\<exists>r\<in>set sas. label_user up r = Some u \<and> r_name r = SAName us u \<and>
             serviceAccountMatches r (user_labels us u) (user_annotations e)))"
    "ActionEnsureCRB u e l \<in> set (buildReconcilePlan us up ord desired sas crbs) \<longleftrightarrow>
      (\<exists>row. map_of (desired_map desired) u = Some row \<and> e = email_of (ua_email row) \<and> l = ''admin'' \<and>
        ua_level row = ''admin'' \<and>
        \<not> (\<exists>r\<in>set crbs. label_user up r = Some u \<and> r_name r = CRBName us u \<and>
             clusterRoleBindingMatches us r u (user_labels us u) (user_annotations e)))"
    "ActionDeleteSA n \<in> set (buildReconcilePlan us up ord desired sas crbs) \<longleftrightarrow>
      (\<exists>r\<in>set sas. r_name r = n \<and> stale_sa us up desired r)"
    "ActionDeleteCRB n \<in> set (buildReconcilePlan us up ord desired sas crbs) \<longleftrightarrow>
      (\<exists>r\<in>set crbs. r_name r = n \<and> stale_crb us up desired r)"
proof -
  have fs: "distinct (map r_name (filter P sas))" "distinct (map r_name (filter P crbs))" for P
    using ds by (auto simp: distinct_map inj_on_def)
  let ?on = "\<lambda>u. filter (\<lambda>r. label_user up r = Some u)"
  have ua: "x \<in> (\<Union>u\<in>dom (map_of (desired_map desired)).
        set (user_actions us u (the (map_of (desired_map desired) u)) (?on u sas) (?on u crbs))) \<longleftrightarrow>
      (\<exists>u row. map_of (desired_map desired) u = Some row \<and> x \<in> set (user_actions us u row (?on u sas) (?on u crbs)))"
    for x
    by force
  have sa: "stale_sa us up desired r \<longleftrightarrow>
      (\<exists>u row. label_user up r = Some u \<and> map_of (desired_map desired) u = Some row \<and> r_name r \<noteq> SAName us u) \<or>
      (\<exists>u. label_user up r = Some u \<and> map_of (desired_map desired) u = None) \<or>
      (label_user up r = None \<and> (\<forall>u\<in>dom (map_of (desired_map desired)). r_name r \<noteq> SAName us u))" for r
    by (cases "label_user up r") (auto simp: stale_sa_def)
  have crb: "stale_crb us up desired r \<longleftrightarrow>
      (\<exists>u row. label_user up r = Some u \<and> map_of (desired_map desired) u = Some row \<and>
        (ua_level row = ''member'' \<or> r_name r \<noteq> CRBName us u)) \<or>
      (\<exists>u. label_user up r = Some u \<and> map_of (desired_map desired) u = None) \<or>
      (label_user up r = None \<and>
        (\<forall>u row. map_of (desired_map desired) u = Some row \<and> ua_level row = ''admin'' \<longrightarrow> r_name r \<noteq> CRBName us u))" for r
    by (cases "label_user up r") (auto simp: stale_crb_def split: option.splits)
  note acts = user_actions_set [OF fs levels_okD [OF lv]]
  note mem = plan_set [OF ord, of us up desired sas crbs]
  show "ActionEnsureSA u e l \<in> set (buildReconcilePlan us up ord desired sas crbs) \<longleftrightarrow>
      (\<exists>row. map_of (desired_map desired) u = Some row \<and> e = email_of (ua_email row) \<and> l = ua_level row \<and>
        \<not> (\<exists>r\<in>set sas. label_user up r = Some u \<and> r_name r = SAName us u \<and>
             serviceAccountMatches r (user_labels us u) (user_annotations e)))"
    unfolding mem Un_iff ua by (simp add: acts(1) image_iff cong: conj_cong) blast
  show "ActionEnsureCRB u e l \<in> set (buildReconcilePlan us up ord desired sas crbs) \<longleftrightarrow>
      (\<exists>row. map_of (desired_map desired) u = Some row \<and> e = email_of (ua_email row) \<and> l = ''admin'' \<and>
        ua_level row = ''admin'' \<and>
        \<not> (\<exists>r\<in>set crbs. label_user up r = Some u \<and> r_name r = CRBName us u \<and>
             clusterRoleBindingMatches us r u (user_labels us u) (user_annotations e)))"
    unfolding mem Un_iff ua by (simp add: acts(2) image_iff cong: conj_cong) blast
  show "ActionDeleteSA n \<in> set (buildReconcilePlan us up ord desired sas crbs) \<longleftrightarrow>
      (\<exists>r\<in>set sas. r_name r = n \<and> stale_sa us up desired r)"
    unfolding mem Un_iff ua by (simp add: acts(3) image_iff sa cong: conj_cong) blast
  show "ActionDeleteCRB n \<in> set (buildReconcilePlan us up ord desired sas crbs) \<longleftrightarrow>
      (\<exists>r\<in>set crbs. r_name r = n \<and> stale_crb us up desired r)"
    unfolding mem Un_iff ua by (simp add: acts(4) image_iff crb cong: conj_cong) blast
qed

end
