(* ===== verification/UserSync.thy ===== *)
theory UserSync
  imports UserPlan Outbox
begin

text \<open>
  The user-access handler \<open>cluster-worker/pkg/handler/usersync/mod.go\<close>: it keeps the
  ServiceAccounts and ClusterRoleBindings of the users of an organization converged on its ready
  shoot clusters, per event (\<open>Sync\<close>) and periodically (\<open>Reconcile\<close>). The provider of the
  \<open>ShootAccess\<close> interface is the parameter \<open>ops\<close>; its state is the \<open>shoots\<close> field of the world.
  A result \<open>None\<close> is a panic. \<open>cancelled k\<close> is the answer of the \<open>k\<close>-th test of \<open>ctx.Err()\<close>.
\<close>

section \<open>Events on the cluster\<close>

definition UserSyncSucceeded :: string where "UserSyncSucceeded = ''user_sync_succeeded''"
definition UserSyncFailed :: string where "UserSyncFailed = ''user_sync_failed''"

text \<open>Event creation is best-effort: its error is dropped.\<close>

definition createUserSyncEvent :: "uuid \<Rightarrow> string \<Rightarrow> string \<Rightarrow> ('s, 'g) world \<Rightarrow> ('s, 'g) world" where
  "createUserSyncEvent cid ty msg w = snd (db_exec (ClusterCreateUserSyncEvent cid ty msg) w)"

section \<open>Converging one user\<close>

definition applyUserAccess ::
  "'s shoot_ops \<Rightarrow> (uuid \<Rightarrow> string) \<Rightarrow> uuid \<Rightarrow> uuid \<Rightarrow> string \<Rightarrow> string \<Rightarrow> 's \<Rightarrow> (gerr option \<times> 's) option" where
  "applyUserAccess ops us cid u email level s =
     (let sa = SAName us u; crb = CRBName us u; labels = user_labels us u; annotations = user_annotations email
      in if level = ''admin'' then
           (case EnsureServiceAccount ops cid FundamentNamespace sa labels annotations s of
              (Some e, s) \<Rightarrow> Some (Some (errorf ''ensure SA for admin'' e), s)
            | (None, s) \<Rightarrow>
                (case EnsureClusterRoleBinding ops cid crb FundamentNamespace sa labels annotations s of
                   (Some e, s) \<Rightarrow> Some (Some (errorf ''ensure CRB for admin'' e), s)
                 | (None, s) \<Rightarrow> Some (None, s)))
         else if level = ''member'' then
           (case EnsureServiceAccount ops cid FundamentNamespace sa labels annotations s of
              (Some e, s) \<Rightarrow> Some (Some (errorf ''ensure SA for member'' e), s)
            | (None, s) \<Rightarrow>
                (case DeleteClusterRoleBinding ops cid crb s of
                   (Some e, s) \<Rightarrow> Some (Some (errorf ''delete CRB for member'' e), s)
                 | (None, s) \<Rightarrow> Some (None, s)))
         else if level = ''none'' then
           (case DeleteServiceAccount ops cid FundamentNamespace sa s of
              (Some e, s) \<Rightarrow> Some (Some (errorf ''delete SA'' e), s)
            | (None, s) \<Rightarrow>
                (case DeleteClusterRoleBinding ops cid crb s of
                   (Some e, s) \<Rightarrow> Some (Some (errorf ''delete CRB'' e), s)
                 | (None, s) \<Rightarrow> Some (None, s)))
         else None)"

definition apply_access ::
  "'s shoot_ops \<Rightarrow> (uuid \<Rightarrow> string) \<Rightarrow> uuid \<Rightarrow> uuid \<Rightarrow> string \<Rightarrow> string \<Rightarrow> ('s, 'g) world \<Rightarrow>
   (gerr option \<times> ('s, 'g) world) option" where
  "apply_access ops us cid u email level w =
     map_option (\<lambda>(e, s). (e, w\<lparr>shoots := s\<rparr>)) (applyUserAccess ops us cid u email level (shoots w))"

definition syncUserToCluster ::
  "'s shoot_ops \<Rightarrow> (uuid \<Rightarrow> string) \<Rightarrow> uuid \<Rightarrow> uuid \<Rightarrow> ('s, 'g) world \<Rightarrow> (gerr option \<times> ('s, 'g) world) option" where
  "syncUserToCluster ops us u cid w =
     (case db_read (\<lambda>w. ResolveUserAccess u cid (db w)) w of
        (Inl e, w) \<Rightarrow>
          if errors_is ErrNoRows e then Some (None, w) else Some (Some (errorf ''resolve user access'' e), w)
      | (Inr level, w) \<Rightarrow>
          (case db_read (\<lambda>w. UserGetEmail u (db w)) w of
             (Inl e, w) \<Rightarrow>
               if errors_is ErrNoRows e then Some (None, w) else Some (Some (errorf ''get user email'' e), w)
           | (Inr email, w) \<Rightarrow>
               if level \<noteq> ''none''
               then (case shoot_do (EnsureNamespace ops cid FundamentNamespace) w of
                       (Some e, w) \<Rightarrow> Some (Some (errorf ''ensure namespace'' e), w)
                     | (None, w) \<Rightarrow> apply_access ops us cid u (email_of email) level w)
               else apply_access ops us cid u (email_of email) level w))"

section \<open>Events\<close>

fun sync_user_to_clusters ::
  "'s shoot_ops \<Rightarrow> (uuid \<Rightarrow> string) \<Rightarrow> uuid \<Rightarrow> uuid list \<Rightarrow> gerr list \<Rightarrow> ('s, 'g) world \<Rightarrow>
   (gerr list \<times> ('s, 'g) world) option" where
  "sync_user_to_clusters ops us u [] errs w = Some (errs, w)"
| "sync_user_to_clusters ops us u (cid # cids) errs w =
     (case syncUserToCluster ops us u cid w of
        None \<Rightarrow> None
      | Some (Some e, w) \<Rightarrow>
          sync_user_to_clusters ops us u cids (errs @ [e])
            (createUserSyncEvent cid UserSyncFailed
               (''Org user sync failed for user '' @ us u @ '': '' @ err_text e) w)
      | Some (None, w) \<Rightarrow>
          sync_user_to_clusters ops us u cids errs
            (createUserSyncEvent cid UserSyncSucceeded (''Org user synced: '' @ us u) w))"

definition syncOrgUser ::
  "'s shoot_ops \<Rightarrow> (uuid \<Rightarrow> string) \<Rightarrow> uuid \<Rightarrow> ('s, 'g) world \<Rightarrow> (gerr option \<times> ('s, 'g) world) option" where
  "syncOrgUser ops us i w =
     (case db_read (\<lambda>w. OrgUserGetForSync i (db w)) w of
        (Inl e, w) \<Rightarrow>
          if errors_is ErrNoRows e then Some (None, w) else Some (Some (errorf ''get org user'' e), w)
      | (Inr (u, org), w) \<Rightarrow>
          (case db_read (\<lambda>w. Inr (ClusterListReadyForOrg org (db w))) w of
             (Inl e, w) \<Rightarrow> Some (Some (errorf ''list ready clusters for org'' e), w)
           | (Inr cids, w) \<Rightarrow>
               (case sync_user_to_clusters ops us u cids [] w of
                  None \<Rightarrow> None
                | Some (errs, w) \<Rightarrow>
                    Some (map_option (errorf (''sync org user '' @ us i)) (errors_join errs), w))))"

definition syncProjectMember ::
  "'s shoot_ops \<Rightarrow> (uuid \<Rightarrow> string) \<Rightarrow> uuid \<Rightarrow> ('s, 'g) world \<Rightarrow> (gerr option \<times> ('s, 'g) world) option" where
  "syncProjectMember ops us i w =
     (case db_read (\<lambda>w. ProjectMemberGetForSync i (db w)) w of
        (Inl e, w) \<Rightarrow>
          if errors_is ErrNoRows e then Some (None, w) else Some (Some (errorf ''get project member'' e), w)
      | (Inr (u, cid), w) \<Rightarrow>
          (case syncUserToCluster ops us u cid w of
             None \<Rightarrow> None
           | Some (Some e, w) \<Rightarrow>
               Some (Some e, createUserSyncEvent cid UserSyncFailed
                 (''Project member sync failed for user '' @ us u @ '': '' @ err_text e) w)
           | Some (None, w) \<Rightarrow>
               Some (None, createUserSyncEvent cid UserSyncSucceeded (''Project member synced: '' @ us u) w)))"

fun provision_users ::
  "'s shoot_ops \<Rightarrow> (uuid \<Rightarrow> string) \<Rightarrow> uuid \<Rightarrow> user_access_row list \<Rightarrow> gerr list \<Rightarrow> nat \<Rightarrow> ('s, 'g) world \<Rightarrow>
   (gerr list \<times> nat \<times> ('s, 'g) world) option" where
  "provision_users ops us cid [] errs synced w = Some (errs, synced, w)"
| "provision_users ops us cid (r # rs) errs synced w =
     (case apply_access ops us cid (ua_user r) (email_of (ua_email r)) (ua_level r) w of
        None \<Rightarrow> None
      | Some (Some e, w) \<Rightarrow> provision_users ops us cid rs (errs @ [e]) synced w
      | Some (None, w) \<Rightarrow> provision_users ops us cid rs errs (Suc synced) w)"

definition syncClusterReady ::
  "'s shoot_ops \<Rightarrow> (uuid \<Rightarrow> string) \<Rightarrow> uuid \<Rightarrow> ('s, 'g) world \<Rightarrow> (gerr option \<times> ('s, 'g) world) option" where
  "syncClusterReady ops us cid w =
     (case db_read (\<lambda>w. Inr (UserListForCluster cid (db w))) w of
        (Inl e, w) \<Rightarrow> Some (Some (errorf ''list users for cluster'' e), w)
      | (Inr rows, w) \<Rightarrow>
          if rows = []
          then (case shoot_do (EnsureNamespace ops cid FundamentNamespace) w of
                  (Some e, w) \<Rightarrow> Some (Some (errorf ''ensure namespace'' e), w)
                | (None, w) \<Rightarrow> Some (None, createUserSyncEvent cid UserSyncSucceeded ''No users to provision'' w))
          else (case shoot_do (EnsureNamespace ops cid FundamentNamespace) w of
                  (Some e, w) \<Rightarrow>
                    Some (Some (errorf ''ensure namespace'' e),
                      createUserSyncEvent cid UserSyncFailed (''ensure namespace: '' @ err_text e) w)
                | (None, w) \<Rightarrow>
                    (case provision_users ops us cid rows [] 0 w of
                       None \<Rightarrow> None
                     | Some (errs, synced, w) \<Rightarrow>
                         (case errors_join errs of
                            Some e \<Rightarrow>
                              Some (Some (errorf (''sync cluster ready '' @ us cid) e),
                                createUserSyncEvent cid UserSyncFailed
                                  (''Provisioned '' @ nat_str synced @ ''/'' @ nat_str (length rows) @
                                   '' users, '' @ nat_str (length errs) @ '' failed'') w)
                          | None \<Rightarrow>
                              Some (None, createUserSyncEvent cid UserSyncSucceeded
                                (''Provisioned '' @ nat_str synced @ '' user(s)'') w)))))"

definition Sync :: "'s shoot_ops \<Rightarrow> (uuid \<Rightarrow> string) \<Rightarrow> ('s, 'g) handler" where
  "Sync ops us i sc w =
     (case sc_entity sc of
        EntityOrgUser \<Rightarrow> syncOrgUser ops us i w
      | EntityProjectMember \<Rightarrow> syncProjectMember ops us i w
      | EntityCluster \<Rightarrow> syncClusterReady ops us i w
      | _ \<Rightarrow> Some (Some (ErrNew (''unexpected entity type '' @ entity_text (sc_entity sc) @
               '' for user sync handler'')), w))"

section \<open>Reconciliation\<close>

definition apply_action ::
  "'s shoot_ops \<Rightarrow> (uuid \<Rightarrow> string) \<Rightarrow> uuid \<Rightarrow> reconcile_action \<Rightarrow> 's \<Rightarrow> gerr option \<times> 's" where
  "apply_action ops us cid a s =
     (case a of
        ActionEnsureSA u email level \<Rightarrow>
          EnsureServiceAccount ops cid FundamentNamespace (SAName us u) (user_labels us u) (user_annotations email) s
      | ActionDeleteSA n \<Rightarrow> DeleteServiceAccount ops cid FundamentNamespace n s
      | ActionEnsureCRB u email level \<Rightarrow>
          EnsureClusterRoleBinding ops cid (CRBName us u) FundamentNamespace (SAName us u)
            (user_labels us u) (user_annotations email) s
      | ActionDeleteCRB n \<Rightarrow> DeleteClusterRoleBinding ops cid n s)"

fun apply_actions ::
  "'s shoot_ops \<Rightarrow> (uuid \<Rightarrow> string) \<Rightarrow> uuid \<Rightarrow> reconcile_action list \<Rightarrow> gerr list \<Rightarrow> 's \<Rightarrow> gerr list \<times> 's" where
  "apply_actions ops us cid [] errs s = (errs, s)"
| "apply_actions ops us cid (a # as) errs s =
     (case apply_action ops us cid a s of
        (Some e, s) \<Rightarrow> apply_actions ops us cid as (errs @ [e]) s
      | (None, s) \<Rightarrow> apply_actions ops us cid as errs s)"

definition applyReconcilePlan ::
  "'s shoot_ops \<Rightarrow> (uuid \<Rightarrow> string) \<Rightarrow> uuid \<Rightarrow> reconcile_action list \<Rightarrow> 's \<Rightarrow> gerr option \<times> 's" where
  "applyReconcilePlan ops us cid plan s =
     (case apply_actions ops us cid plan [] s of
        (errs, s) \<Rightarrow> (map_option (errorf ''apply reconcile plan'') (errors_join errs), s))"

definition reconcileCluster ::
  "'s shoot_ops \<Rightarrow> (uuid \<Rightarrow> string) \<Rightarrow> (string \<Rightarrow> uuid option) \<Rightarrow> (nat \<Rightarrow> uuid list \<Rightarrow> uuid list) \<Rightarrow> uuid \<Rightarrow>
   ('s, 'g) world \<Rightarrow> gerr option \<times> ('s, 'g) world" where
  "reconcileCluster ops us up ord cid w =
     (case shoot_do (EnsureNamespace ops cid FundamentNamespace) w of
        (Some e, w) \<Rightarrow> (Some (errorf ''ensure namespace'' e), w)
      | (None, w) \<Rightarrow>
     (case db_read (\<lambda>w. Inr (UserListForCluster cid (db w))) w of
        (Inl e, w) \<Rightarrow> (Some (errorf ''list users for cluster'' e), w)
      | (Inr desired, w) \<Rightarrow>
     (case shoot_do (ListServiceAccounts ops cid FundamentNamespace LabelUserID) w of
        (Inl e, w) \<Rightarrow> (Some (errorf ''list SAs'' e), w)
      | (Inr sas, w) \<Rightarrow>
     (case shoot_do (ListClusterRoleBindings ops cid LabelUserID) w of
        (Inl e, w) \<Rightarrow> (Some (errorf ''list CRBs'' e), w)
      | (Inr crbs, w) \<Rightarrow>
     (case shoot_do (applyReconcilePlan ops us cid (buildReconcilePlan us up ord desired sas crbs)) w of
        (Some e, w) \<Rightarrow> (Some (errorf (''reconcile cluster '' @ us cid) e), w)
      | (None, w) \<Rightarrow> (None, w))))))"

fun reconcile_clusters ::
  "'s shoot_ops \<Rightarrow> (uuid \<Rightarrow> string) \<Rightarrow> (string \<Rightarrow> uuid option) \<Rightarrow> (nat \<Rightarrow> uuid list \<Rightarrow> uuid list) \<Rightarrow>
   (nat \<Rightarrow> bool) \<Rightarrow> nat \<Rightarrow> uuid list \<Rightarrow> gerr list \<Rightarrow> ('s, 'g) world \<Rightarrow> gerr list option \<times> ('s, 'g) world" where
  "reconcile_clusters ops us up ord cancelled k [] errs w = (Some errs, w)"
| "reconcile_clusters ops us up ord cancelled k (cid # cids) errs w =
     (if cancelled k then (None, w)
      else case reconcileCluster ops us up ord cid w of
             (Some e, w) \<Rightarrow> reconcile_clusters ops us up ord cancelled (Suc k) cids (errs @ [e]) w
           | (None, w) \<Rightarrow> reconcile_clusters ops us up ord cancelled (Suc k) cids errs w)"

definition UserReconcile ::
  "'s shoot_ops \<Rightarrow> (uuid \<Rightarrow> string) \<Rightarrow> (string \<Rightarrow> uuid option) \<Rightarrow> (nat \<Rightarrow> uuid list \<Rightarrow> uuid list) \<Rightarrow>
   (nat \<Rightarrow> bool) \<Rightarrow> ('s, 'g) periodic" where
  "UserReconcile ops us up ord cancelled w =
     (if cancelled 0 then Some (None, w)
      else case db_read (\<lambda>w. Inr (ClusterListReady (db w))) w of
             (Inl e, w) \<Rightarrow> Some (Some (errorf ''list ready clusters'' e), w)
           | (Inr cids, w) \<Rightarrow>
               (case reconcile_clusters ops us up ord cancelled 1 cids [] w of
                  (None, w) \<Rightarrow> Some (None, w)
                | (Some errs, w) \<Rightarrow> Some (map_option (errorf ''user sync reconcile'') (errors_join errs), w)))"

section \<open>What a user should have\<close>

definition access_ok ::
  "(uuid \<Rightarrow> string) \<Rightarrow> uuid \<Rightarrow> uuid \<Rightarrow> string \<Rightarrow> string \<Rightarrow> shoot_view \<Rightarrow> bool" where
  "access_ok us cid u email level v \<longleftrightarrow>
     (if level = ''none'' then v_sas v (cid, FundamentNamespace, SAName us u) = None
      else healthy_sa us u email (v_sas v (cid, FundamentNamespace, SAName us u))) \<and>
     (if level = ''admin'' then healthy_crb us u email (v_crbs v (cid, CRBName us u))
      else v_crbs v (cid, CRBName us u) = None)"

section \<open>Lemmas\<close>

lemma user_meta_distinct [simp]: "distinct (map fst (user_labels us u))" "distinct (map fst (user_annotations e))"
  by (simp_all add: user_labels_def user_annotations_def)

lemma submap_matches:
  "submap l (r_labels r) \<Longrightarrow> submap a (r_annotations r) \<Longrightarrow> metadataContains r l a"
  by (auto simp: submap_def metadataContains_def sget_def list_all_iff)

lemma matches_label:
  assumes "uuid_text us up" "metadataContains r (user_labels us u) a"
  shows "label_user up r = Some u" "has_key LabelUserID (r_labels r)"
  using assms uuid_text_nonempty [OF assms(1), of u]
  by (auto simp: metadataContains_def user_labels_def sget_def label_user_def has_key_def uuid_text_def
      split: option.splits)

lemma healthy_sa_label:
  "uuid_text us up \<Longrightarrow> healthy_sa us u e (Some r) \<Longrightarrow> label_user up r = Some u \<and> has_key LabelUserID (r_labels r)"
  by (auto simp: healthy_sa_def serviceAccountMatches_def dest: matches_label)

lemma healthy_crb_label:
  "uuid_text us up \<Longrightarrow> healthy_crb us u e (Some r) \<Longrightarrow> label_user up r = Some u \<and> has_key LabelUserID (r_labels r)"
  by (auto simp: healthy_crb_def clusterRoleBindingMatches_def dest: matches_label)

lemma label_user_has_key: "label_user up r = Some u \<Longrightarrow> has_key LabelUserID (r_labels r)"
  by (cases "map_of (r_labels r) LabelUserID") (auto simp: label_user_def has_key_def)

text \<open>\<open>applyUserAccess\<close> is one step on the ServiceAccount and, when that succeeds, one on the
  ClusterRoleBinding.\<close>

definition first_access_step ::
  "'s shoot_ops \<Rightarrow> (uuid \<Rightarrow> string) \<Rightarrow> uuid \<Rightarrow> uuid \<Rightarrow> string \<Rightarrow> string \<Rightarrow> 's \<Rightarrow> gerr option \<times> 's" where
  "first_access_step ops us cid u email level s =
     (if level = ''none'' then DeleteServiceAccount ops cid FundamentNamespace (SAName us u) s
      else EnsureServiceAccount ops cid FundamentNamespace (SAName us u) (user_labels us u) (user_annotations email) s)"

definition second_access_step ::
  "'s shoot_ops \<Rightarrow> (uuid \<Rightarrow> string) \<Rightarrow> uuid \<Rightarrow> uuid \<Rightarrow> string \<Rightarrow> string \<Rightarrow> 's \<Rightarrow> gerr option \<times> 's" where
  "second_access_step ops us cid u email level s =
     (if level = ''admin''
      then EnsureClusterRoleBinding ops cid (CRBName us u) FundamentNamespace (SAName us u)
             (user_labels us u) (user_annotations email) s
      else DeleteClusterRoleBinding ops cid (CRBName us u) s)"

lemma applyUserAccess_steps:
  assumes "applyUserAccess ops us cid u email level s = Some (e, s')"
  obtains e1 s1 e2 where "first_access_step ops us cid u email level s = (e1, s1)"
    "if e1 = None then second_access_step ops us cid u email level s1 = (e2, s') \<and> (e = None \<longleftrightarrow> e2 = None)
     else e \<noteq> None \<and> s' = s1"
proof -
  obtain e1 s1 where 1: "first_access_step ops us cid u email level s = (e1, s1)" by fastforce
  obtain e2 s2 where 2: "second_access_step ops us cid u email level s1 = (e2, s2)" by fastforce
  have "if e1 = None then s2 = s' \<and> (e = None \<longleftrightarrow> e2 = None) else e \<noteq> None \<and> s' = s1"
    using assms 1 2
    by (auto simp: applyUserAccess_def first_access_step_def second_access_step_def Let_def
        split: if_splits option.splits prod.splits)
  with that [OF 1, of e2] 2 show thesis by (auto split: if_splits)
qed

text \<open>\<open>touches A B v v'\<close>: from \<open>v\<close> to \<open>v'\<close> only the ServiceAccounts in \<open>A\<close> and the
  ClusterRoleBindings in \<open>B\<close> may have changed.\<close>

definition touches ::
  "(uuid \<times> string \<times> string) set \<Rightarrow> (uuid \<times> string) set \<Rightarrow> shoot_view \<Rightarrow> shoot_view \<Rightarrow> bool" where
  "touches A B v v' \<longleftrightarrow> (\<forall>k. k \<notin> A \<longrightarrow> v_sas v' k = v_sas v k) \<and> (\<forall>k. k \<notin> B \<longrightarrow> v_crbs v' k = v_crbs v k) \<and>
     v_nss v' = v_nss v \<and> v_lrs v' = v_lrs v"

lemma touches_refl [simp]: "touches A B v v"
  by (simp add: touches_def)

lemma touches_mono: "touches A B v v' \<Longrightarrow> A \<subseteq> A' \<Longrightarrow> B \<subseteq> B' \<Longrightarrow> touches A' B' v v'"
  unfolding touches_def by blast

lemma touches_trans: "touches A B u v \<Longrightarrow> touches A B v w \<Longrightarrow> touches A B u w"
  by (simp add: touches_def)

lemma touches_trans2: "touches A B u v \<Longrightarrow> touches A' B' v w \<Longrightarrow> A \<union> A' \<subseteq> A2 \<Longrightarrow> B \<union> B' \<subseteq> B2 \<Longrightarrow> touches A2 B2 u w"
  by (rule touches_trans [of _ _ _ v]; rule touches_mono, assumption; blast)

text \<open>The labelled objects of a cluster, as the two list calls return them.\<close>

definition listed :: "shoot_view \<Rightarrow> uuid \<Rightarrow> resource list \<Rightarrow> resource list \<Rightarrow> bool" where
  "listed v cid sas crbs \<longleftrightarrow> distinct (map r_name sas) \<and> distinct (map r_name crbs) \<and>
     set sas = {r. \<exists>n. v_sas v (cid, FundamentNamespace, n) = Some r \<and> has_key LabelUserID (r_labels r)} \<and>
     set crbs = {r. \<exists>n. v_crbs v (cid, n) = Some r \<and> has_key LabelUserID (r_labels r)}"

context shoot_access
begin

lemma ensure_sa_healthy:
  assumes "inv s" "EnsureServiceAccount ops cid FundamentNamespace (SAName us u) (user_labels us u) (user_annotations e) s = (None, s')"
  shows "inv s' \<and> (\<exists>x. view s' = (view s)\<lparr>v_sas := (v_sas (view s))((cid, FundamentNamespace, SAName us u) := x)\<rparr> \<and>
    healthy_sa us u e x)"
  using EnsureServiceAccount_law [OF assms(1) _ _ assms(2)]
  by (auto simp: healthy_sa_def serviceAccountMatches_def dest!: submap_matches)

lemma ensure_crb_healthy:
  assumes "inv s" "EnsureClusterRoleBinding ops cid (CRBName us u) FundamentNamespace (SAName us u)
    (user_labels us u) (user_annotations e) s = (None, s')"
  shows "inv s' \<and> (\<exists>x. view s' = (view s)\<lparr>v_crbs := (v_crbs (view s))((cid, CRBName us u) := x)\<rparr> \<and>
    healthy_crb us u e x)"
  using EnsureClusterRoleBinding_law [OF assms(1) _ _ assms(2)]
  by (auto simp: healthy_crb_def clusterRoleBindingMatches_def dest!: submap_matches)

text \<open>What \<open>applyUserAccess\<close> may touch, whether it succeeds or not, and what it has achieved when
  it succeeds.\<close>

lemma sa_op_touches:
  "inv s \<Longrightarrow> EnsureServiceAccount ops cid ns n (user_labels us u) (user_annotations em) s = (e, s') \<Longrightarrow>
     inv s' \<and> touches {(cid, ns, n)} {} (view s) (view s')"
  "inv s \<Longrightarrow> DeleteServiceAccount ops cid ns n s = (e, s') \<Longrightarrow> inv s' \<and> touches {(cid, ns, n)} {} (view s) (view s')"
  using EnsureServiceAccount_law [of s "user_labels us u" "user_annotations em" cid ns n e s']
    DeleteServiceAccount_law [of s cid ns n e s']
  by (auto simp: touches_def)

lemma crb_op_touches:
  "inv s \<Longrightarrow> EnsureClusterRoleBinding ops cid n sns sn (user_labels us u) (user_annotations em) s = (e, s') \<Longrightarrow>
     inv s' \<and> touches {} {(cid, n)} (view s) (view s')"
  "inv s \<Longrightarrow> DeleteClusterRoleBinding ops cid n s = (e, s') \<Longrightarrow> inv s' \<and> touches {} {(cid, n)} (view s) (view s')"
  using EnsureClusterRoleBinding_law [of s "user_labels us u" "user_annotations em" cid n sns sn e s']
    DeleteClusterRoleBinding_law [of s cid n e s']
  by (auto simp: touches_def)

lemma applyUserAccess_touches:
  assumes "inv s" "applyUserAccess ops us cid u email level s = Some (e, s')"
  shows "inv s' \<and> touches {(cid, FundamentNamespace, SAName us u)} {(cid, CRBName us u)} (view s) (view s')"
  using assms(2)
proof (rule applyUserAccess_steps)
  fix e1 s1 e2
  assume first: "first_access_step ops us cid u email level s = (e1, s1)"
    and second: "if e1 = None then second_access_step ops us cid u email level s1 = (e2, s') \<and> (e = None \<longleftrightarrow> e2 = None)
      else e \<noteq> None \<and> s' = s1"
  have 1: "inv s1 \<and> touches {(cid, FundamentNamespace, SAName us u)} {} (view s) (view s1)"
    using first sa_op_touches [OF assms(1)] by (auto simp: first_access_step_def split: if_splits)
  have "inv s' \<and> touches {} {(cid, CRBName us u)} (view s1) (view s')"
  proof (cases e1)
    case None
    with second have "second_access_step ops us cid u email level s1 = (e2, s')" by simp
    then show ?thesis
      unfolding second_access_step_def
      by (cases "level = ''admin''"; simp only: if_True if_False simp_thms)
        (rule crb_op_touches [OF conjunct1 [OF 1]], assumption)+
  next
    case (Some x)
    with second 1 show ?thesis by simp
  qed
  then have 2: "inv s'" "touches {} {(cid, CRBName us u)} (view s1) (view s')" by simp_all
  show ?thesis
    by (rule conjI [OF 2(1) touches_trans2 [OF conjunct2 [OF 1] 2(2)]]) simp_all
qed

lemma applyUserAccess_converges:
  assumes "inv s" "applyUserAccess ops us cid u email level s = Some (None, s')"
  shows "access_ok us cid u email level (view s')"
  using assms(2)
proof (rule applyUserAccess_steps)
  fix e1 s1 e2
  assume first: "first_access_step ops us cid u email level s = (e1, s1)"
    and "if e1 = None then second_access_step ops us cid u email level s1 = (e2, s') \<and> ((None :: gerr option) = None \<longleftrightarrow> e2 = None)
      else (None :: gerr option) \<noteq> None \<and> s' = s1"
  then have second: "e1 = None" "second_access_step ops us cid u email level s1 = (None, s')"
    by (auto split: if_splits)
  let ?k = "(cid, FundamentNamespace, SAName us u)"
  have 1: "inv s1 \<and> (if level = ''none'' then v_sas (view s1) ?k = None else healthy_sa us u email (v_sas (view s1) ?k))"
    using first second(1) ensure_sa_healthy [OF assms(1), of cid us u email s1]
      DeleteServiceAccount_law [OF assms(1), of cid FundamentNamespace "SAName us u" None s1]
    by (auto simp: first_access_step_def split: if_splits)
  then have "v_sas (view s') = v_sas (view s1) \<and>
      (if level = ''admin'' then healthy_crb us u email (v_crbs (view s') (cid, CRBName us u))
       else v_crbs (view s') (cid, CRBName us u) = None)"
    using second(2) ensure_crb_healthy [of s1 cid us u email s']
      DeleteClusterRoleBinding_law [of s1 cid "CRBName us u" None s']
    by (auto simp: second_access_step_def split: if_splits)
  with 1 show ?thesis
    by (simp add: access_ok_def)
qed

text \<open>One action of a plan.\<close>

lemma apply_action_sa:
  assumes "inv s" "apply_action ops us cid a s = (None, s')"
  shows "inv s' \<and> (case a of
      ActionEnsureSA u e l \<Rightarrow>
        if n = SAName us u then healthy_sa us u e (v_sas (view s') (cid, FundamentNamespace, n))
        else v_sas (view s') (cid, FundamentNamespace, n) = v_sas (view s) (cid, FundamentNamespace, n)
    | ActionDeleteSA m \<Rightarrow>
        v_sas (view s') (cid, FundamentNamespace, n) =
          (if n = m then None else v_sas (view s) (cid, FundamentNamespace, n))
    | _ \<Rightarrow> v_sas (view s') = v_sas (view s))"
proof (cases a)
  case (ActionEnsureSA u e l)
  then show ?thesis
    using ensure_sa_healthy [OF assms(1), of cid us u e s'] assms(2) by (auto simp: apply_action_def)
next
  case (ActionDeleteSA m)
  then show ?thesis
    using DeleteServiceAccount_law [OF assms(1), of cid FundamentNamespace m None s'] assms(2)
    by (auto simp: apply_action_def)
next
  case (ActionEnsureCRB u e l)
  then show ?thesis
    using ensure_crb_healthy [OF assms(1), of cid us u e s'] assms(2) by (auto simp: apply_action_def)
next
  case (ActionDeleteCRB m)
  then show ?thesis
    using DeleteClusterRoleBinding_law [OF assms(1), of cid m None s'] assms(2) by (auto simp: apply_action_def)
qed

lemma apply_action_crb:
  assumes "inv s" "apply_action ops us cid a s = (None, s')"
  shows "inv s' \<and> (case a of
      ActionEnsureCRB u e l \<Rightarrow>
        if n = CRBName us u then healthy_crb us u e (v_crbs (view s') (cid, n))
        else v_crbs (view s') (cid, n) = v_crbs (view s) (cid, n)
    | ActionDeleteCRB m \<Rightarrow> v_crbs (view s') (cid, n) = (if n = m then None else v_crbs (view s) (cid, n))
    | _ \<Rightarrow> v_crbs (view s') = v_crbs (view s))"
proof (cases a)
  case (ActionEnsureSA u e l)
  then show ?thesis
    using ensure_sa_healthy [OF assms(1), of cid us u e s'] assms(2) by (auto simp: apply_action_def)
next
  case (ActionDeleteSA m)
  then show ?thesis
    using DeleteServiceAccount_law [OF assms(1), of cid FundamentNamespace m None s'] assms(2)
    by (auto simp: apply_action_def)
next
  case (ActionEnsureCRB u e l)
  then show ?thesis
    using ensure_crb_healthy [OF assms(1), of cid us u e s'] assms(2) by (auto simp: apply_action_def)
next
  case (ActionDeleteCRB m)
  then show ?thesis
    using DeleteClusterRoleBinding_law [OF assms(1), of cid m None s'] assms(2) by (auto simp: apply_action_def)
qed

text \<open>A plan that ran without errors: the last action on a name decides what is there.\<close>

lemma apply_actions_errs: "apply_actions ops us cid as errs s = (errs', s') \<Longrightarrow> \<exists>new. errs' = errs @ new"
  by (induction as arbitrary: errs s) (fastforce split: prod.splits option.splits)+

lemma apply_actions_sa:
  assumes "inv s" "apply_actions ops us cid as [] s = ([], s')"
  shows "inv s' \<and> (
    (\<forall>u e l. ActionEnsureSA u e l \<in> set as \<longrightarrow> SAName us u \<noteq> n) \<and> ActionDeleteSA n \<notin> set as \<and>
      v_sas (view s') (cid, FundamentNamespace, n) = v_sas (view s) (cid, FundamentNamespace, n) \<or>
    ActionDeleteSA n \<in> set as \<and> v_sas (view s') (cid, FundamentNamespace, n) = None \<or>
    (\<exists>u e l. ActionEnsureSA u e l \<in> set as \<and> n = SAName us u \<and>
      healthy_sa us u e (v_sas (view s') (cid, FundamentNamespace, n))))"
  using assms
proof (induction as arbitrary: s)
  case (Cons a as)
  from Cons.prems(2) obtain s1 where 1: "apply_action ops us cid a s = (None, s1)"
      and rest: "apply_actions ops us cid as [] s1 = ([], s')"
    by (auto split: prod.splits option.splits dest: apply_actions_errs)
  note step = apply_action_sa [OF Cons.prems(1) 1, of n]
  from Cons.IH [OF conjunct1 [OF step] rest] step show ?case
    by (cases a; elim disjE conjE exE; simp split: if_splits; blast)
qed simp

lemma apply_actions_crb:
  assumes "inv s" "apply_actions ops us cid as [] s = ([], s')"
  shows "inv s' \<and> (
    (\<forall>u e l. ActionEnsureCRB u e l \<in> set as \<longrightarrow> CRBName us u \<noteq> n) \<and> ActionDeleteCRB n \<notin> set as \<and>
      v_crbs (view s') (cid, n) = v_crbs (view s) (cid, n) \<or>
    ActionDeleteCRB n \<in> set as \<and> v_crbs (view s') (cid, n) = None \<or>
    (\<exists>u e l. ActionEnsureCRB u e l \<in> set as \<and> n = CRBName us u \<and> healthy_crb us u e (v_crbs (view s') (cid, n))))"
  using assms
proof (induction as arbitrary: s)
  case (Cons a as)
  from Cons.prems(2) obtain s1 where 1: "apply_action ops us cid a s = (None, s1)"
      and rest: "apply_actions ops us cid as [] s1 = ([], s')"
    by (auto split: prod.splits option.splits dest: apply_actions_errs)
  note step = apply_action_crb [OF Cons.prems(1) 1, of n]
  from Cons.IH [OF conjunct1 [OF step] rest] step show ?case
    by (cases a; elim disjE conjE exE; simp split: if_splits; blast)
qed simp

text \<open>From here on: one reconciliation pass from a state \<open>s\<close> whose labelled objects have been
  listed.\<close>

lemma listed_sa:
  assumes "inv s" "listed (view s) cid sas crbs"
  shows "r \<in> set sas \<longleftrightarrow> v_sas (view s) (cid, FundamentNamespace, r_name r) = Some r \<and> has_key LabelUserID (r_labels r)"
  using assms inv_names(1) [OF assms(1)] by (auto simp: listed_def)

lemma listed_crb:
  assumes "inv s" "listed (view s) cid sas crbs"
  shows "r \<in> set crbs \<longleftrightarrow> v_crbs (view s) (cid, r_name r) = Some r \<and> has_key LabelUserID (r_labels r)"
  using assms inv_names(2) [OF assms(1)] by (auto simp: listed_def)

lemma plan_ensure_sa:
  assumes "inv s" "uuid_text us up" "map_orders ord" "levels_ok desired" "listed (view s) cid sas crbs"
  shows "ActionEnsureSA u e l \<in> set (buildReconcilePlan us up ord desired sas crbs) \<longleftrightarrow>
    (\<exists>row. map_of (desired_map desired) u = Some row \<and> e = email_of (ua_email row) \<and> l = ua_level row \<and>
      \<not> healthy_sa us u e (v_sas (view s) (cid, FundamentNamespace, SAName us u)))"
proof -
  have ds: "distinct (map r_name sas)" "distinct (map r_name crbs)"
    using assms(5) by (auto simp: listed_def)
  have "(\<exists>r\<in>set sas. label_user up r = Some u \<and> r_name r = SAName us u \<and>
      serviceAccountMatches r (user_labels us u) (user_annotations e)) \<longleftrightarrow>
      healthy_sa us u e (v_sas (view s) (cid, FundamentNamespace, SAName us u))"
    using listed_sa [OF assms(1,5)] matches_label [OF assms(2)] inv_names(1) [OF assms(1)]
    unfolding healthy_sa_def serviceAccountMatches_def by metis
  with plan_actions(1) [OF assms(3,4) ds, of u e l us up] show ?thesis by simp
qed

lemma plan_ensure_crb:
  assumes "inv s" "uuid_text us up" "map_orders ord" "levels_ok desired" "listed (view s) cid sas crbs"
  shows "ActionEnsureCRB u e l \<in> set (buildReconcilePlan us up ord desired sas crbs) \<longleftrightarrow>
    (\<exists>row. map_of (desired_map desired) u = Some row \<and> e = email_of (ua_email row) \<and> l = ''admin'' \<and>
      ua_level row = ''admin'' \<and> \<not> healthy_crb us u e (v_crbs (view s) (cid, CRBName us u)))"
proof -
  have ds: "distinct (map r_name sas)" "distinct (map r_name crbs)"
    using assms(5) by (auto simp: listed_def)
  have "(\<exists>r\<in>set crbs. label_user up r = Some u \<and> r_name r = CRBName us u \<and>
      clusterRoleBindingMatches us r u (user_labels us u) (user_annotations e)) \<longleftrightarrow>
      healthy_crb us u e (v_crbs (view s) (cid, CRBName us u))"
    using listed_crb [OF assms(1,5)] matches_label [OF assms(2)] inv_names(2) [OF assms(1)]
    unfolding healthy_crb_def clusterRoleBindingMatches_def by metis
  with plan_actions(2) [OF assms(3,4) ds, of u e l us up] show ?thesis by simp
qed

lemma plan_delete:
  assumes "inv s" "map_orders ord" "levels_ok desired" "listed (view s) cid sas crbs"
  shows "ActionDeleteSA n \<in> set (buildReconcilePlan us up ord desired sas crbs) \<longleftrightarrow>
      (\<exists>r. v_sas (view s) (cid, FundamentNamespace, n) = Some r \<and> has_key LabelUserID (r_labels r) \<and> stale_sa us up desired r)"
    "ActionDeleteCRB n \<in> set (buildReconcilePlan us up ord desired sas crbs) \<longleftrightarrow>
      (\<exists>r. v_crbs (view s) (cid, n) = Some r \<and> has_key LabelUserID (r_labels r) \<and> stale_crb us up desired r)"
proof -
  have ds: "distinct (map r_name sas)" "distinct (map r_name crbs)"
    using assms(4) by (auto simp: listed_def)
  show "ActionDeleteSA n \<in> set (buildReconcilePlan us up ord desired sas crbs) \<longleftrightarrow>
      (\<exists>r. v_sas (view s) (cid, FundamentNamespace, n) = Some r \<and> has_key LabelUserID (r_labels r) \<and> stale_sa us up desired r)"
    using listed_sa [OF assms(1,4)] inv_names(1) [OF assms(1)] unfolding plan_actions(3) [OF assms(2,3) ds] by metis
  show "ActionDeleteCRB n \<in> set (buildReconcilePlan us up ord desired sas crbs) \<longleftrightarrow>
      (\<exists>r. v_crbs (view s) (cid, n) = Some r \<and> has_key LabelUserID (r_labels r) \<and> stale_crb us up desired r)"
    using listed_crb [OF assms(1,4)] inv_names(2) [OF assms(1)] unfolding plan_actions(4) [OF assms(2,3) ds] by metis
qed

lemma not_stale_sa:
  assumes "uuid_text us up" "\<not> stale_sa us up desired r"
  shows "\<exists>u. map_of (desired_map desired) u \<noteq> None \<and> r_name r = SAName us u \<and>
    (label_user up r = None \<or> label_user up r = Some u)"
  using assms by (auto simp: stale_sa_def split: option.splits)

lemma not_stale_crb:
  assumes "uuid_text us up" "levels_ok desired" "\<not> stale_crb us up desired r"
  shows "\<exists>u row. map_of (desired_map desired) u = Some row \<and> ua_level row = ''admin'' \<and> r_name r = CRBName us u \<and>
    (label_user up r = None \<or> label_user up r = Some u)"
  using assms levels_okD [OF assms(2)] by (fastforce simp: stale_crb_def split: option.splits)

lemma canonical_not_stale:
  "map_of (desired_map desired) u = Some row \<Longrightarrow> r_name r = SAName us u \<Longrightarrow>
   label_user up r = None \<or> label_user up r = Some u \<Longrightarrow> \<not> stale_sa us up desired r"
  "map_of (desired_map desired) u = Some row \<Longrightarrow> ua_level row = ''admin'' \<Longrightarrow> r_name r = CRBName us u \<Longrightarrow>
   label_user up r = None \<or> label_user up r = Some u \<Longrightarrow> \<not> stale_crb us up desired r"
  by (auto simp: stale_sa_def stale_crb_def) blast+

text \<open>What a pass leaves at a name, whatever was there before.\<close>

lemma pass_sa:
  assumes "inv s" "uuid_text us up" "map_orders ord" "levels_ok desired" "listed (view s) cid sas crbs"
    and run: "apply_actions ops us cid (buildReconcilePlan us up ord desired sas crbs) [] s = ([], s')"
    and r: "v_sas (view s') (cid, FundamentNamespace, n) = Some r" "has_key LabelUserID (r_labels r)"
  shows "\<exists>u. map_of (desired_map desired) u \<noteq> None \<and> n = SAName us u \<and>
    (label_user up r = None \<or> label_user up r = Some u)"
proof -
  note del = plan_delete(1) [OF assms(1,3-5), of n us up]
  from conjunct2 [OF apply_actions_sa [OF assms(1) run, of n]] consider
      (same) "ActionDeleteSA n \<notin> set (buildReconcilePlan us up ord desired sas crbs)"
        "v_sas (view s) (cid, FundamentNamespace, n) = Some r"
    | (ensured) u e l where "ActionEnsureSA u e l \<in> set (buildReconcilePlan us up ord desired sas crbs)"
        "n = SAName us u" "healthy_sa us u e (Some r)"
    using r(1) by auto
  then show ?thesis
  proof cases
    case same
    with del r(2) have "\<not> stale_sa us up desired r" by auto
    then show ?thesis
      using not_stale_sa [OF assms(2)] inv_names(1) [OF assms(1) same(2)] by metis
  next
    case ensured
    then show ?thesis
      using plan_ensure_sa [OF assms(1-5)] healthy_sa_label [OF assms(2)] by auto
  qed
qed

lemma pass_crb:
  assumes "inv s" "uuid_text us up" "map_orders ord" "levels_ok desired" "listed (view s) cid sas crbs"
    and run: "apply_actions ops us cid (buildReconcilePlan us up ord desired sas crbs) [] s = ([], s')"
    and r: "v_crbs (view s') (cid, n) = Some r" "has_key LabelUserID (r_labels r)"
  shows "\<exists>u row. map_of (desired_map desired) u = Some row \<and> ua_level row = ''admin'' \<and> n = CRBName us u \<and>
    (label_user up r = None \<or> label_user up r = Some u)"
proof -
  note del = plan_delete(2) [OF assms(1,3-5), of n us up]
  from conjunct2 [OF apply_actions_crb [OF assms(1) run, of n]] consider
      (same) "ActionDeleteCRB n \<notin> set (buildReconcilePlan us up ord desired sas crbs)" "v_crbs (view s) (cid, n) = Some r"
    | (ensured) u e l where "ActionEnsureCRB u e l \<in> set (buildReconcilePlan us up ord desired sas crbs)"
        "n = CRBName us u" "healthy_crb us u e (Some r)"
    using r(1) by auto
  then show ?thesis
  proof cases
    case same
    with del r(2) have "\<not> stale_crb us up desired r" by auto
    then show ?thesis
      using not_stale_crb [OF assms(2,4)] inv_names(2) [OF assms(1) same(2)] by metis
  next
    case ensured
    then show ?thesis
      using plan_ensure_crb [OF assms(1-5)] healthy_crb_label [OF assms(2)] by auto
  qed
qed

lemma pass_unswaps:
  assumes "inv s" "uuid_text us up" "map_orders ord" "levels_ok desired" "listed (view s) cid sas crbs"
    and run: "apply_actions ops us cid (buildReconcilePlan us up ord desired sas crbs) [] s = ([], s')"
  shows "no_swapped_labels us up desired cid (view s')"
proof -
  have "label_user up r = None \<or> label_user up r = Some u"
    if "v_sas (view s') (cid, FundamentNamespace, SAName us u) = Some r" for u r
    using pass_sa [OF assms that] label_user_has_key [of up r] SAName_inj [OF assms(2)]
    by (cases "label_user up r") auto
  moreover have "label_user up r = None \<or> label_user up r = Some u"
    if "v_crbs (view s') (cid, CRBName us u) = Some r" for u r
    using pass_crb [OF assms that] label_user_has_key [of up r] CRBName_inj [OF assms(2)]
    by (cases "label_user up r") auto
  ultimately show ?thesis
    by (auto simp: no_swapped_labels_def)
qed

lemma pass_converges:
  assumes "inv s" "uuid_text us up" "map_orders ord" "levels_ok desired" "listed (view s) cid sas crbs"
    and run: "apply_actions ops us cid (buildReconcilePlan us up ord desired sas crbs) [] s = ([], s')"
    and ns: "no_swapped_labels us up desired cid (view s)"
  shows "converged us desired cid (view s')"
proof -
  let ?plan = "buildReconcilePlan us up ord desired sas crbs"
  have sa: "healthy_sa us u (email_of (ua_email row)) (v_sas (view s') (cid, FundamentNamespace, SAName us u))"
    if row: "map_of (desired_map desired) u = Some row" for u row
  proof -
    have "\<not> stale_sa us up desired r" if "v_sas (view s) (cid, FundamentNamespace, SAName us u) = Some r" for r
      using ns row that inv_names(1) [OF assms(1) that] canonical_not_stale(1) [OF row]
      by (auto simp: no_swapped_labels_def)
    then have "ActionDeleteSA (SAName us u) \<notin> set ?plan"
      using plan_delete(1) [OF assms(1,3-5), of "SAName us u" us up] by auto
    then show ?thesis
      using conjunct2 [OF apply_actions_sa [OF assms(1) run, of "SAName us u"]] row
      unfolding plan_ensure_sa [OF assms(1-5)] SAName_inj [OF assms(2)] by (auto; blast)
  qed
  have crb: "healthy_crb us u (email_of (ua_email row)) (v_crbs (view s') (cid, CRBName us u))"
    if row: "map_of (desired_map desired) u = Some row" "ua_level row = ''admin''" for u row
  proof -
    have "\<not> stale_crb us up desired r" if "v_crbs (view s) (cid, CRBName us u) = Some r" for r
      using ns row that inv_names(2) [OF assms(1) that] canonical_not_stale(2) [OF row]
      by (auto simp: no_swapped_labels_def)
    then have "ActionDeleteCRB (CRBName us u) \<notin> set ?plan"
      using plan_delete(2) [OF assms(1,3-5), of "CRBName us u" us up] by auto
    then show ?thesis
      using conjunct2 [OF apply_actions_crb [OF assms(1) run, of "CRBName us u"]] row
      unfolding plan_ensure_crb [OF assms(1-5)] CRBName_inj [OF assms(2)] by (auto; blast)
  qed
  show ?thesis
    unfolding converged_def
    using sa crb pass_sa [OF assms(1-6)] pass_crb [OF assms(1-6)] by (intro conjI allI impI) blast+
qed

lemma plan_empty_iff_converged:
  assumes "inv s" "uuid_text us up" "map_orders ord" "levels_ok desired" "listed (view s) cid sas crbs"
  shows "buildReconcilePlan us up ord desired sas crbs = [] \<longleftrightarrow> converged us desired cid (view s)"
proof
  let ?plan = "buildReconcilePlan us up ord desired sas crbs"
  assume empty: "?plan = []"
  then have run: "apply_actions ops us cid ?plan [] s = ([], s)" by simp
  have "no_swapped_labels us up desired cid (view s)"
    by (rule pass_unswaps [OF assms run])
  then show "converged us desired cid (view s)"
    by (rule pass_converges [OF assms run])
next
  let ?plan = "buildReconcilePlan us up ord desired sas crbs"
  assume conv: "converged us desired cid (view s)"
  have "\<not> stale_sa us up desired r"
    if r: "v_sas (view s) (cid, FundamentNamespace, n) = Some r" "has_key LabelUserID (r_labels r)" for n r
  proof -
    from conv r obtain u row where u: "map_of (desired_map desired) u = Some row" "n = SAName us u"
      unfolding converged_def by blast
    with conv have "healthy_sa us u (email_of (ua_email row)) (v_sas (view s) (cid, FundamentNamespace, SAName us u))"
      unfolding converged_def by blast
    then have "label_user up r = Some u"
      using healthy_sa_label [OF assms(2)] r u by auto
    then show ?thesis
      using canonical_not_stale(1) [OF u(1)] inv_names(1) [OF assms(1) r(1)] u by simp
  qed
  then have "ActionDeleteSA n \<notin> set ?plan" for n
    using plan_delete(1) [OF assms(1,3-5), of n us up] by auto
  moreover have "\<not> stale_crb us up desired r"
    if r: "v_crbs (view s) (cid, n) = Some r" "has_key LabelUserID (r_labels r)" for n r
  proof -
    from conv r obtain u row where u: "map_of (desired_map desired) u = Some row" "n = CRBName us u" "ua_level row = ''admin''"
      unfolding converged_def by blast
    with conv have "healthy_crb us u (email_of (ua_email row)) (v_crbs (view s) (cid, CRBName us u))"
      unfolding converged_def by blast
    then have "label_user up r = Some u"
      using healthy_crb_label [OF assms(2)] r u by auto
    then show ?thesis
      using canonical_not_stale(2) [OF u(1)] inv_names(2) [OF assms(1) r(1)] u by simp
  qed
  then have "ActionDeleteCRB n \<notin> set ?plan" for n
    using plan_delete(2) [OF assms(1,3-5), of n us up] by auto
  moreover have "ActionEnsureSA u e l \<notin> set ?plan" "ActionEnsureCRB u e l \<notin> set ?plan" for u e l
    using plan_ensure_sa [OF assms] plan_ensure_crb [OF assms] conv by (auto simp: converged_def)
  ultimately have "a \<notin> set ?plan" for a
    by (cases a) auto
  then show "?plan = []"
    by (metis list.set_intros(1) neq_Nil_conv)
qed

text \<open>A reconciliation of one cluster that returns no error is one pass.\<close>

lemma reconcileCluster_pass:
  assumes inv: "inv (shoots w)" and eq: "reconcileCluster ops us up ord cid w = (None, w')"
  obtains s sas crbs where "inv s" "v_sas (view s) = v_sas (view (shoots w))" "v_crbs (view s) = v_crbs (view (shoots w))"
    "listed (view s) cid sas crbs" "db w' = db w"
    "apply_actions ops us cid (buildReconcilePlan us up ord (UserListForCluster cid (db w)) sas crbs) [] s = ([], shoots w')"
proof -
  from eq obtain s1 s2 s3 sas crbs where
      ns: "EnsureNamespace ops cid FundamentNamespace (shoots w) = (None, s1)"
      and sa: "ListServiceAccounts ops cid FundamentNamespace LabelUserID s1 = (Inr sas, s2)"
      and cr: "ListClusterRoleBindings ops cid LabelUserID s2 = (Inr crbs, s3)"
      and ap: "applyReconcilePlan ops us cid (buildReconcilePlan us up ord (UserListForCluster cid (db w)) sas crbs) s3 =
        (None, shoots w')"
      and db: "db w' = db w"
    by (auto simp: reconcileCluster_def shoot_do_def db_read_eq split: prod.splits option.splits sum.splits)
  note 1 = EnsureNamespace_law [OF inv ns]
  note 2 = ListServiceAccounts_law [OF conjunct1 [OF 1] sa]
  note 3 = ListClusterRoleBindings_law [OF conjunct1 [OF 2] cr]
  have v: "view s3 = view s1" "inv s3" "v_sas (view s1) = v_sas (view (shoots w))" "v_crbs (view s1) = v_crbs (view (shoots w))"
    using 1 2 3 by auto
  have "listed (view s3) cid sas crbs"
    using 2 3 v(1) by (auto simp: listed_def LabelUserID_def)
  moreover have "apply_actions ops us cid (buildReconcilePlan us up ord (UserListForCluster cid (db w)) sas crbs) [] s3 =
      ([], shoots w')"
    using ap by (auto simp: applyReconcilePlan_def errors_join_def split: prod.splits if_splits)
  ultimately show thesis
    using that v db by metis
qed

lemma reconcileCluster_converges:
  assumes inv: "inv (shoots w)" and par: "uuid_text us up" "map_orders ord" "levels_ok (UserListForCluster cid (db w))"
    and eq: "reconcileCluster ops us up ord cid w = (None, w')"
    and ns: "no_swapped_labels us up (UserListForCluster cid (db w)) cid (view (shoots w))"
  shows "converged us (UserListForCluster cid (db w)) cid (view (shoots w'))"
proof -
  from reconcileCluster_pass [OF inv eq] obtain s sas crbs where s: "inv s"
      "v_sas (view s) = v_sas (view (shoots w))" "v_crbs (view s) = v_crbs (view (shoots w))"
      "listed (view s) cid sas crbs"
      "apply_actions ops us cid (buildReconcilePlan us up ord (UserListForCluster cid (db w)) sas crbs) [] s = ([], shoots w')"
    by metis
  with ns have "no_swapped_labels us up (UserListForCluster cid (db w)) cid (view s)"
    by (simp add: no_swapped_labels_def)
  with pass_converges [OF s(1) par s(4,5)] show ?thesis by simp
qed

lemma reconcileCluster_unswaps:
  assumes inv: "inv (shoots w)" and par: "uuid_text us up" "map_orders ord" "levels_ok (UserListForCluster cid (db w))"
    and eq: "reconcileCluster ops us up ord cid w = (None, w')"
  shows "inv (shoots w') \<and> db w' = db w \<and>
    no_swapped_labels us up (UserListForCluster cid (db w)) cid (view (shoots w'))"
proof -
  from reconcileCluster_pass [OF inv eq] obtain s sas crbs where s: "inv s" "listed (view s) cid sas crbs" "db w' = db w"
      "apply_actions ops us cid (buildReconcilePlan us up ord (UserListForCluster cid (db w)) sas crbs) [] s = ([], shoots w')"
    by metis
  then show ?thesis
    using pass_unswaps [OF s(1) par s(2,4)] apply_actions_sa [OF s(1,4)] by simp
qed

lemma syncUserToCluster_spec:
  assumes inv: "inv (shoots w)" and nf: "db_fault w = (\<lambda>_. None)"
    and lv: "ResolveUserAccess u cid (db w) = Inr level" and em: "UserGetEmail u (db w) = Inr email"
    and eq: "syncUserToCluster ops us u cid w = Some (e, w')"
  shows "touches {(cid, FundamentNamespace, SAName us u)} {(cid, CRBName us u)}
      ((view (shoots w))\<lparr>v_nss := v_nss (view (shoots w'))\<rparr>) (view (shoots w'))"
    and "e = None \<Longrightarrow> access_ok us cid u (email_of email) level (view (shoots w'))"
proof -
  obtain s1 where s1: "inv s1" "v_sas (view s1) = v_sas (view (shoots w))" "v_crbs (view s1) = v_crbs (view (shoots w))"
      "v_lrs (view s1) = v_lrs (view (shoots w))"
      and res: "applyUserAccess ops us cid u (email_of email) level s1 = Some (e, shoots w') \<or> e \<noteq> None \<and> shoots w' = s1"
  proof (cases "level = ''none''")
    case True
    with eq nf lv em inv that [of "shoots w"] show ?thesis
      by (auto simp: syncUserToCluster_def db_read_eq apply_access_def)
  next
    case False
    obtain e1 s1 where ns: "EnsureNamespace ops cid FundamentNamespace (shoots w) = (e1, s1)" by fastforce
    with False eq nf lv em EnsureNamespace_law [OF inv ns] that [of s1] show ?thesis
      by (auto simp: syncUserToCluster_def db_read_eq apply_access_def shoot_do_def split: option.splits)
  qed
  have "touches {(cid, FundamentNamespace, SAName us u)} {(cid, CRBName us u)} (view s1) (view (shoots w'))"
    using res applyUserAccess_touches [OF s1(1)] by auto
  then show "touches {(cid, FundamentNamespace, SAName us u)} {(cid, CRBName us u)}
      ((view (shoots w))\<lparr>v_nss := v_nss (view (shoots w'))\<rparr>) (view (shoots w'))"
    using s1 by (simp add: touches_def)
  show "e = None \<Longrightarrow> access_ok us cid u (email_of email) level (view (shoots w'))"
    using res applyUserAccess_converges [OF s1(1)] by auto
qed

end

section \<open>The two access queries\<close>

lemma UserListForCluster_levels: "levels_ok (UserListForCluster cid d)"
  by (auto simp: levels_ok_def UserListForCluster_def list_all_iff split: if_splits)

lemma ResolveUserAccess_InrD:
  assumes "ResolveUserAccess u cid d = Inr level"
  obtains c where "c \<in> set (clusters d)" "c_id c = cid"
    "level = (if is_org_admin d (c_org c) u then ''admin'' else if is_project_member d cid u then ''member'' else ''none'')"
proof -
  from one_Inr_mem [OF assms [unfolded ResolveUserAccess_def]] that show thesis
    by (auto split: if_splits)
qed

lemma ResolveUserAccess_levels:
  "ResolveUserAccess u cid d = Inr level \<Longrightarrow> level = ''admin'' \<or> level = ''member'' \<or> level = ''none''"
  by (erule ResolveUserAccess_InrD) simp

text \<open>Who is on the list of a cluster, when cluster and user identifiers are unique.\<close>

lemma UserListForCluster_mem:
  assumes c: "c \<in> set (clusters d)" "c_id c = cid" "distinct (map c_id (clusters d))"
    and ur: "ur \<in> set (users d)" "u_deleted ur = None" "distinct (map u_id (users d))"
  shows "row \<in> set (UserListForCluster cid d) \<and> ua_user row = u_id ur \<longleftrightarrow>
    row = \<lparr>ua_user = u_id ur, ua_email = u_email ur, ua_level = ''admin''\<rparr> \<and> is_org_admin d (c_org c) (u_id ur) \<or>
    row = \<lparr>ua_user = u_id ur, ua_email = u_email ur, ua_level = ''member''\<rparr> \<and>
      \<not> is_org_admin d (c_org c) (u_id ur) \<and> is_project_member d cid (u_id ur)"
proof -
  have uc: "c' = c" if "c' \<in> set (clusters d)" "c_id c' = cid" for c'
    using c that by (auto simp: distinct_map inj_on_def)
  have uu: "u' = ur" if "u' \<in> set (users d)" "u_id u' = u_id ur" for u'
    using ur that by (auto simp: distinct_map inj_on_def)
  have admin: "row \<in> set [\<lparr>ua_user = u_id u, ua_email = u_email u,
       ua_level = (if ou_permission ou = ''admin'' \<and> ou_status ou = ''accepted'' \<and> ou_deleted ou = None
                   then ''admin'' else ''member'')\<rparr>.
       c \<leftarrow> clusters d, c_id c = cid,
       ou \<leftarrow> org_users d, ou_org ou = c_org c \<and> ou_status ou = ''accepted'' \<and> ou_deleted ou = None,
       u \<leftarrow> users d, u_id u = ou_user ou \<and> u_deleted u = None,
       ou_permission ou = ''admin''] \<and> ua_user row = u_id ur \<longleftrightarrow>
    row = \<lparr>ua_user = u_id ur, ua_email = u_email ur, ua_level = ''admin''\<rparr> \<and> is_org_admin d (c_org c) (u_id ur)"
    using c ur by (auto simp: is_org_admin_def list_ex_iff dest: uc uu split: if_splits) (force intro!: bexI [of _ c])
  have mem: "row \<in> set [\<lparr>ua_user = u_id u, ua_email = u_email u, ua_level = ''member''\<rparr>.
       c \<leftarrow> clusters d, c_id c = cid,
       p \<leftarrow> projects d, p_cluster p = c_id c \<and> p_deleted p = None,
       m \<leftarrow> project_members d, pm_project m = p_id p \<and> pm_deleted m = None,
       u \<leftarrow> users d, u_id u = pm_user m \<and> u_deleted u = None,
       \<not> is_org_admin d (c_org c) (pm_user m)] \<and> ua_user row = u_id ur \<longleftrightarrow>
    row = \<lparr>ua_user = u_id ur, ua_email = u_email ur, ua_level = ''member''\<rparr> \<and>
      \<not> is_org_admin d (c_org c) (u_id ur) \<and> is_project_member d cid (u_id ur)"
    (is "row \<in> set ?ms \<and> _ \<longleftrightarrow> ?rhs")
  proof
    assume "row \<in> set ?ms \<and> ua_user row = u_id ur"
    then show ?rhs
      using c(2) by (auto simp: is_project_member_def list_ex_iff dest!: uc uu split: if_splits) (metis (full_types))
  next
    assume r: ?rhs
    then obtain p m where "p \<in> set (projects d)" "p_cluster p = cid" "p_deleted p = None"
        "m \<in> set (project_members d)" "pm_project m = p_id p" "pm_user m = u_id ur" "pm_deleted m = None"
      by (auto simp: is_project_member_def list_ex_iff)
    with r c(1,2) ur(1,2) show "row \<in> set ?ms \<and> ua_user row = u_id ur"
      by (auto intro!: bexI [of _ c] bexI [of _ p] bexI [of _ m] bexI [of _ ur])
  qed
  show ?thesis
    unfolding UserListForCluster_def set_append set_remdups Un_iff using admin mem by blast
qed

section \<open>The handler as a client of the outbox\<close>

lemma createUserSyncEvent_calm [simp]:
  "calm w (createUserSyncEvent cid ty msg w') = calm w w'"
  "calm (createUserSyncEvent cid ty msg w) w' = calm w w'"
  by (auto simp: createUserSyncEvent_def db_exec_eq ClusterCreateUserSyncEvent_def calm_defs split: option.splits)

lemma apply_access_calm: "apply_access ops us cid u email level w = Some (e, w') \<Longrightarrow> calm w w'"
  by (auto simp: apply_access_def)

lemma syncUserToCluster_calm: "syncUserToCluster ops us u cid w = Some (e, w') \<Longrightarrow> calm w w'"
  by (auto simp: syncUserToCluster_def db_read_eq shoot_do_def split: prod.splits sum.splits option.splits if_splits
      dest!: apply_access_calm intro: calm_trans)

lemma sync_user_to_clusters_calm:
  "sync_user_to_clusters ops us u cids errs w = Some (errs', w') \<Longrightarrow> calm w w'"
proof (induction cids arbitrary: errs w)
  case (Cons cid cids)
  then obtain e v where v: "syncUserToCluster ops us u cid w = Some (e, v)"
    by (auto split: option.splits prod.splits)
  have "calm v w'"
    using Cons.prems v by (cases e) (auto dest!: Cons.IH)
  with syncUserToCluster_calm [OF v] show ?case by (rule calm_trans)
qed simp

lemma provision_users_calm:
  "provision_users ops us cid rs errs n w = Some (errs', n', w') \<Longrightarrow> calm w w'"
proof (induction rs arbitrary: errs n w)
  case (Cons r rs)
  then obtain e v where v: "apply_access ops us cid (ua_user r) (email_of (ua_email r)) (ua_level r) w = Some (e, v)"
    by (auto split: option.splits prod.splits)
  have "calm v w'"
    using Cons.prems v by (cases e) (auto dest!: Cons.IH)
  with apply_access_calm [OF v] show ?case by (rule calm_trans)
qed simp

lemma Sync_calm: "Sync ops us i sc w = Some (e, w') \<Longrightarrow> calm w w'"
  by (auto simp: Sync_def syncOrgUser_def syncProjectMember_def syncClusterReady_def db_read_eq shoot_do_def
      split: entity_type.splits prod.splits sum.splits option.splits if_splits
      dest!: syncUserToCluster_calm sync_user_to_clusters_calm provision_users_calm intro: calm_trans)

lemma Sync_appends: "appends (Sync ops us)"
  by (auto simp: appends_def intro: calm_ext Sync_calm)

text \<open>The \<open>default\<close> branch of \<open>applyUserAccess\<close>, which panics, is not reached: the two queries
  return only known access levels.\<close>

lemma apply_access_total:
  "level = ''admin'' \<or> level = ''member'' \<or> level = ''none'' \<Longrightarrow>
   \<exists>e w'. apply_access ops us cid u email level w = Some (e, w')"
  by (auto simp: apply_access_def applyUserAccess_def Let_def split: prod.splits option.splits)

lemma syncUserToCluster_total: "\<exists>e w'. syncUserToCluster ops us u cid w = Some (e, w')"
  using ResolveUserAccess_levels [of u cid "db w"] apply_access_total
  by (auto simp: syncUserToCluster_def db_read_eq shoot_do_def split: prod.splits sum.splits option.splits) blast+

lemma sync_user_to_clusters_total: "\<exists>errs' w'. sync_user_to_clusters ops us u cids errs w = Some (errs', w')"
proof (induction cids arbitrary: errs w)
  case (Cons cid cids)
  obtain e v where "syncUserToCluster ops us u cid w = Some (e, v)"
    using syncUserToCluster_total by blast
  with Cons show ?case by (cases e) auto
qed simp

lemma provision_users_total:
  "levels_ok rs \<Longrightarrow> \<exists>errs' n' w'. provision_users ops us cid rs errs n w = Some (errs', n', w')"
proof (induction rs arbitrary: errs n w)
  case (Cons r rs)
  obtain e v where "apply_access ops us cid (ua_user r) (email_of (ua_email r)) (ua_level r) w = Some (e, v)"
    using apply_access_total [of "ua_level r" ops us cid "ua_user r" "email_of (ua_email r)" w] Cons.prems
    by (auto simp: levels_ok_def)
  with Cons show ?case by (cases e) (auto simp: levels_ok_def)
qed simp

lemma syncClusterReady_total: "\<exists>e w'. syncClusterReady ops us cid w = Some (e, w')"
proof -
  obtain errs n v where "provision_users ops us cid (UserListForCluster cid (db w)) [] 0
      (snd (shoot_do (EnsureNamespace ops cid FundamentNamespace) (called w))) = Some (errs, n, v)"
    using provision_users_total [OF UserListForCluster_levels] by metis
  then show ?thesis
    by (auto simp: syncClusterReady_def db_read_eq shoot_do_def split: prod.splits option.splits)
qed

lemma Sync_total: "\<exists>e w'. Sync ops us i sc w = Some (e, w')"
proof -
  have "\<exists>e w'. syncOrgUser ops us i w = Some (e, w')"
  proof -
    obtain x v where x: "db_read (\<lambda>w. OrgUserGetForSync i (db w)) w = (x, v)" by fastforce
    show ?thesis
    proof (cases x)
      case (Inr p)
      obtain u org where p: "p = (u, org)" by fastforce
      obtain y v' where y: "db_read (\<lambda>w. Inr (ClusterListReadyForOrg org (db w))) v = (y, v')" by fastforce
      show ?thesis
      proof (cases y)
        case (Inr cids)
        obtain errs v'' where "sync_user_to_clusters ops us u cids [] v' = Some (errs, v'')"
          using sync_user_to_clusters_total by blast
        with x y Inr \<open>x = Inr p\<close> p show ?thesis by (simp add: syncOrgUser_def)
      qed (use x y Inr p in \<open>simp add: syncOrgUser_def\<close>)
    qed (use x in \<open>simp add: syncOrgUser_def\<close>)
  qed
  moreover have "\<exists>e w'. syncProjectMember ops us i w = Some (e, w')"
  proof -
    obtain x v where x: "db_read (\<lambda>w. ProjectMemberGetForSync i (db w)) w = (x, v)" by fastforce
    show ?thesis
    proof (cases x)
      case (Inr p)
      obtain u cid where p: "p = (u, cid)" by fastforce
      obtain e v' where "syncUserToCluster ops us u cid v = Some (e, v')"
        using syncUserToCluster_total by blast
      with x Inr p show ?thesis by (cases e) (simp_all add: syncProjectMember_def)
    qed (use x in \<open>simp add: syncProjectMember_def\<close>)
  qed
  ultimately show ?thesis
    using syncClusterReady_total by (auto simp: Sync_def split: entity_type.splits)
qed

section \<open>The in-memory provider without configured errors\<close>

lemma mock_apply_actions_ok:
  "m_error m = (\<lambda>_. None) \<Longrightarrow>
   fst (apply_actions mock_ops us cid as errs m) = errs \<and> m_error (snd (apply_actions mock_ops us cid as errs m)) = (\<lambda>_. None)"
proof (induction as arbitrary: m)
  case (Cons a as)
  obtain m' where "apply_action mock_ops us cid a m = (None, m')" "m_error m' = (\<lambda>_. None)"
    using Cons.prems by (cases a) (auto simp: apply_action_def mock_op_defs)
  with Cons.IH [of m'] show ?case by simp
qed simp

lemma mock_reconcileCluster_ok:
  assumes "db_fault w = (\<lambda>_. None)" "m_error (shoots w) = (\<lambda>_. None)"
  shows "\<exists>w'. reconcileCluster mock_ops us up ord cid w = (None, w') \<and> db_fault w' = (\<lambda>_. None) \<and>
    m_error (shoots w') = (\<lambda>_. None)"
proof -
  have "\<exists>m'. applyReconcilePlan mock_ops us cid plan m = (None, m') \<and> m_error m' = (\<lambda>_. None)"
    if "m_error m = (\<lambda>_. None)" for plan and m :: mock_shoot
    using mock_apply_actions_ok [OF that, of us cid plan "[]"]
    by (cases "apply_actions mock_ops us cid plan [] m") (auto simp: applyReconcilePlan_def errors_join_def)
  note plan = this
  obtain m1 where ns: "EnsureNamespace mock_ops cid FundamentNamespace (shoots w) = (None, m1)" "m_error m1 = (\<lambda>_. None)"
    using assms(2) by (auto simp: mock_op_defs)
  obtain sas where sas: "ListServiceAccounts mock_ops cid FundamentNamespace LabelUserID m1 = (Inr sas, m1)"
    using ns(2) by (auto simp: mock_op_defs)
  obtain crbs where crbs: "ListClusterRoleBindings mock_ops cid LabelUserID m1 = (Inr crbs, m1)"
    using ns(2) by (auto simp: mock_op_defs)
  obtain m2 where m2: "applyReconcilePlan mock_ops us cid
      (buildReconcilePlan us up ord (UserListForCluster cid (db w)) sas crbs) m1 = (None, m2)" "m_error m2 = (\<lambda>_. None)"
    using plan [OF ns(2)] by blast
  show ?thesis
    using assms(1) ns(1) sas crbs m2
    by (simp add: reconcileCluster_def shoot_do_def db_read_eq)
qed

section \<open>Properties\<close>

text \<open>
  C4: syncing one user to one cluster converges. When \<open>syncUserToCluster\<close> returns no error, the
  shoot holds for that user exactly what the access level resolved from the database asks for: an
  admin has a ServiceAccount and a ClusterRoleBinding to \<open>cluster-admin\<close> with the user's label and
  email, a member the ServiceAccount only, anybody else neither. The objects of every other user
  and cluster are untouched.
\<close>

theorem syncUserToCluster_converges:
  assumes "shoot_access ops ok view" "ok (shoots w)" "uuid_text us up" "db_fault w = (\<lambda>_. None)"
    and "ResolveUserAccess u cid (db w) = Inr level" "UserGetEmail u (db w) = Inr email"
    and "syncUserToCluster ops us u cid w = Some (None, w')"
  shows "access_ok us cid u (email_of email) level (view (shoots w')) \<and>
    (\<forall>cid' u'. (cid', u') \<noteq> (cid, u) \<longrightarrow>
       v_sas (view (shoots w')) (cid', FundamentNamespace, SAName us u') =
         v_sas (view (shoots w)) (cid', FundamentNamespace, SAName us u') \<and>
       v_crbs (view (shoots w')) (cid', CRBName us u') = v_crbs (view (shoots w)) (cid', CRBName us u'))"
proof -
  note spec = shoot_access.syncUserToCluster_spec [OF assms(1,2,4-7)]
  have "access_ok us cid u (email_of email) level (view (shoots w'))"
    by (rule spec(2)) simp
  with spec(1) show ?thesis
    by (auto simp: touches_def SAName_inj [OF assms(3)] CRBName_inj [OF assms(3)])
qed

definition sample_us :: "uuid \<Rightarrow> string" where
  "sample_us u = replicate (Suc u) (CHR ''x'')"

definition sample_up :: "string \<Rightarrow> uuid option" where
  "sample_up s = (if s = '''' then None else Some (length s - 1))"

lemma sample_uuid_text: "uuid_text sample_us sample_up"
  by (simp add: uuid_text_def sample_us_def sample_up_def)

lemma sample_map_orders: "map_orders (\<lambda>_ xs. xs)"
  by (simp add: map_orders_def)

text \<open>Cluster 7 of organization 5, with the accepted admin 3 (user row \<open>a@b\<close>) and the project
  member 2.\<close>

definition sample_users_db :: tenant_db where
  "sample_users_db = empty_db\<lparr>
     users := [\<lparr>u_id = 3, u_email = Some ''a@b'', u_deleted = None\<rparr>, \<lparr>u_id = 2, u_email = None, u_deleted = None\<rparr>],
     org_users := [\<lparr>ou_id = 31, ou_org = 5, ou_user = 3, ou_permission = ''admin'', ou_status = ''accepted'', ou_deleted = None\<rparr>],
     projects := [\<lparr>p_id = 41, p_cluster = 7, p_name = ''p'', p_deleted = None\<rparr>],
     project_members := [\<lparr>pm_id = 51, pm_project = 41, pm_user = 2, pm_role = ''viewer'', pm_deleted = None\<rparr>],
     clusters := [\<lparr>c_id = 7, c_org = 5, c_name = ''c'', c_region = ''r'', c_version = ''v'', c_deleted = None,
       c_shoot_status = Some ''ready'', c_shoot_message = None, c_shoot_updated = None, c_outbox_status = None,
       c_outbox_retries = 0, c_outbox_error = None, c_region_id = None\<rparr>]\<rparr>"

definition sample_users_world :: "mock_shoot \<Rightarrow> (mock_shoot, unit) world" where
  "sample_users_world m = (blank_world m ())\<lparr>db := sample_users_db\<rparr>"

lemma sample_users_simps [simp]:
  "db (sample_users_world m) = sample_users_db" "db_fault (sample_users_world m) = (\<lambda>_. None)"
  "shoots (sample_users_world m) = m" "mock_inv NewMockShootAccess" "m_error NewMockShootAccess = (\<lambda>_. None)"
  by (simp_all add: sample_users_world_def blank_world_def mock_inv_def NewMockShootAccess_def)

lemma sample_users_access:
  "ResolveUserAccess 3 7 sample_users_db = Inr ''admin''" "UserGetEmail 3 sample_users_db = Inr (Some ''a@b'')"
  by (simp_all add: ResolveUserAccess_def UserGetEmail_def one_def sample_users_db_def empty_db_def is_org_admin_def)

lemma sample_users_list:
  "UserListForCluster 7 sample_users_db =
     [\<lparr>ua_user = 3, ua_email = Some ''a@b'', ua_level = ''admin''\<rparr>, \<lparr>ua_user = 2, ua_email = None, ua_level = ''member''\<rparr>]"
  by (simp add: UserListForCluster_def sample_users_db_def empty_db_def is_org_admin_def)

theorem syncUserToCluster_converges_witness:
  "\<exists>w'. syncUserToCluster mock_ops sample_us 3 7 (sample_users_world NewMockShootAccess) = Some (None, w') \<and>
     access_ok sample_us 7 3 ''a@b'' ''admin'' (mock_view (shoots w'))"
proof -
  let ?w = "sample_users_world NewMockShootAccess"
  obtain w' where w': "syncUserToCluster mock_ops sample_us 3 7 ?w = Some (None, w')"
    by (simp add: syncUserToCluster_def db_read_eq sample_users_access shoot_do_def apply_access_def
        applyUserAccess_def mock_op_defs NewMockShootAccess_def Let_def)
  have acc: "ResolveUserAccess 3 7 (db ?w) = Inr ''admin''" "UserGetEmail 3 (db ?w) = Inr (Some ''a@b'')"
    by (simp_all add: sample_users_access)
  have ok: "mock_inv (shoots ?w)" "db_fault ?w = (\<lambda>_. None)" by simp_all
  show ?thesis
    using syncUserToCluster_converges [OF mock.shoot_access_axioms ok(1) sample_uuid_text ok(2) acc w'] w'
    by (auto simp: email_of_def)
qed

text \<open>
  C5: reconciliation converges a cluster in one pass. When \<open>reconcileCluster\<close> returns no error and
  no object under a desired user's canonical name carries somebody else's label, then afterwards
  every desired user has a healthy ServiceAccount, every desired admin a healthy
  ClusterRoleBinding, and no other labelled ServiceAccount or ClusterRoleBinding is left - in
  whatever order the maps are ranged over.
\<close>

theorem reconcileCluster_one_pass:
  assumes "shoot_access ops ok view" "ok (shoots w)" "uuid_text us up" "map_orders ord"
    and "no_swapped_labels us up (UserListForCluster cid (db w)) cid (view (shoots w))"
    and "reconcileCluster ops us up ord cid w = (None, w')"
  shows "converged us (UserListForCluster cid (db w)) cid (view (shoots w'))"
  by (rule shoot_access.reconcileCluster_converges [OF assms(1-4) UserListForCluster_levels assms(6,5)])

theorem reconcileCluster_one_pass_witness:
  "\<exists>w'. reconcileCluster mock_ops sample_us sample_up (\<lambda>_ xs. xs) 7 (sample_users_world NewMockShootAccess) = (None, w') \<and>
     converged sample_us (UserListForCluster 7 sample_users_db) 7 (mock_view (shoots w'))"
proof -
  let ?w = "sample_users_world NewMockShootAccess"
  obtain w' where w': "reconcileCluster mock_ops sample_us sample_up (\<lambda>_ xs. xs) 7 ?w = (None, w')"
    using mock_reconcileCluster_ok [of ?w sample_us sample_up "\<lambda>_ xs. xs" 7] by auto
  have ns: "no_swapped_labels sample_us sample_up (UserListForCluster 7 (db ?w)) 7 (mock_view (shoots ?w))"
    by (simp add: no_swapped_labels_def mock_view_def NewMockShootAccess_def)
  have ok: "mock_inv (shoots ?w)" by simp
  show ?thesis
    using reconcileCluster_one_pass [OF mock.shoot_access_axioms ok sample_uuid_text sample_map_orders ns w'] w' by auto
qed

text \<open>
  Two passes converge a cluster from any state, also one with swapped labels: the first pass
  removes or repairs every object that carries a wrong label.
\<close>

theorem reconcileCluster_two_passes:
  assumes "shoot_access ops ok view" "ok (shoots w)" "uuid_text us up" "map_orders ord"
    and "reconcileCluster ops us up ord cid w = (None, w1)" "reconcileCluster ops us up ord cid w1 = (None, w2)"
  shows "converged us (UserListForCluster cid (db w)) cid (view (shoots w2))"
proof -
  note first = shoot_access.reconcileCluster_unswaps [OF assms(1-4) UserListForCluster_levels assms(5)]
  then have db: "db w1 = db w" and ok: "ok (shoots w1)"
    and ns: "no_swapped_labels us up (UserListForCluster cid (db w1)) cid (view (shoots w1))" by simp_all
  from shoot_access.reconcileCluster_converges [OF assms(1) ok assms(3,4) UserListForCluster_levels assms(6) ns] db
  show ?thesis by simp
qed

text \<open>A shoot in which the ServiceAccount of user 2 carries the label of user 9.\<close>

definition swapped_shoot :: mock_shoot where
  "swapped_shoot = NewMockShootAccess\<lparr>m_sas := [((7, FundamentNamespace, SAName sample_us 2),
     plain_resource (SAName sample_us 2) [(LabelUserID, sample_us 9)] [])]\<rparr>"

lemma swapped_shoot_ok [simp]: "mock_inv swapped_shoot" "m_error swapped_shoot = (\<lambda>_. None)"
  by (simp_all add: swapped_shoot_def mock_inv_def NewMockShootAccess_def)

theorem reconcileCluster_two_passes_witness:
  "\<exists>w1 w2. reconcileCluster mock_ops sample_us sample_up (\<lambda>_ xs. xs) 7 (sample_users_world swapped_shoot) = (None, w1) \<and>
     reconcileCluster mock_ops sample_us sample_up (\<lambda>_ xs. xs) 7 w1 = (None, w2) \<and>
     converged sample_us (UserListForCluster 7 sample_users_db) 7 (mock_view (shoots w2))"
proof -
  let ?w = "sample_users_world swapped_shoot"
  obtain w1 where w1: "reconcileCluster mock_ops sample_us sample_up (\<lambda>_ xs. xs) 7 ?w = (None, w1)"
      "db_fault w1 = (\<lambda>_. None)" "m_error (shoots w1) = (\<lambda>_. None)"
    using mock_reconcileCluster_ok [of ?w sample_us sample_up "\<lambda>_ xs. xs" 7] by auto
  obtain w2 where w2: "reconcileCluster mock_ops sample_us sample_up (\<lambda>_ xs. xs) 7 w1 = (None, w2)"
    using mock_reconcileCluster_ok [OF w1(2,3)] by blast
  have ok: "mock_inv (shoots ?w)" by simp
  show ?thesis
    using reconcileCluster_two_passes [OF mock.shoot_access_axioms ok sample_uuid_text sample_map_orders w1(1) w2] w1(1) w2
    by auto
qed


text \<open>
  The plan is empty exactly when the cluster is converged, so a healthy cluster is never
  written to and an unhealthy one always gets at least one action.
\<close>

theorem buildReconcilePlan_empty_iff:
  assumes "shoot_access ops ok view" "ok s" "uuid_text us up" "map_orders ord" "levels_ok desired"
    and "listed (view s) cid sas crbs"
  shows "buildReconcilePlan us up ord desired sas crbs = [] \<longleftrightarrow> converged us desired cid (view s)"
  by (rule shoot_access.plan_empty_iff_converged [OF assms])

theorem buildReconcilePlan_empty_iff_witness:
  "buildReconcilePlan sample_us sample_up (\<lambda>_ xs. xs) [] [] [] = [] \<longleftrightarrow>
     converged sample_us [] 7 (mock_view NewMockShootAccess)"
proof -
  have "listed (mock_view NewMockShootAccess) 7 [] []"
    by (simp add: listed_def mock_view_def NewMockShootAccess_def)
  moreover have "mock_inv NewMockShootAccess" "levels_ok []"
    by (simp_all add: levels_ok_def)
  ultimately show ?thesis
    using buildReconcilePlan_empty_iff [OF mock.shoot_access_axioms _ sample_uuid_text sample_map_orders] by blast
qed

text \<open>
  The two access queries agree on users that are not deleted: the level \<open>ResolveUserAccess\<close>
  computes for one user is the level (and email) with which \<open>UserListForCluster\<close> lists the user,
  and a user without access is not listed. So event-driven sync and reconciliation want the same.
\<close>

theorem access_queries_agree:
  assumes "distinct (map c_id (clusters d))" "distinct (map u_id (users d))" "ur \<in> set (users d)"
    and "u_deleted ur = None" "ResolveUserAccess (u_id ur) cid d = Inr level"
  shows "{row \<in> set (UserListForCluster cid d). ua_user row = u_id ur} =
    (if level = ''none'' then {} else {\<lparr>ua_user = u_id ur, ua_email = u_email ur, ua_level = level\<rparr>})"
proof -
  obtain c where c: "c \<in> set (clusters d)" "c_id c = cid"
      and level: "level = (if is_org_admin d (c_org c) (u_id ur) then ''admin''
        else if is_project_member d cid (u_id ur) then ''member'' else ''none'')"
    using ResolveUserAccess_InrD [OF assms(5)] by metis
  note mem = UserListForCluster_mem [OF c assms(1,3,4,2)]
  show ?thesis
    unfolding mem by (auto simp: level)
qed

theorem access_queries_agree_witness:
  "{row \<in> set (UserListForCluster 7 sample_users_db). ua_user row = 3} =
     {\<lparr>ua_user = 3, ua_email = Some ''a@b'', ua_level = ''admin''\<rparr>}"
  using access_queries_agree [of sample_users_db "\<lparr>u_id = 3, u_email = Some ''a@b'', u_deleted = None\<rparr>" 7 "''admin''"]
    sample_users_access
  by (simp add: sample_users_db_def empty_db_def)

end
