(* ===== verification/Sha256.thy ===== *)
theory Sha256
  imports Prelude "HOL-Library.Char_ord"
begin

text \<open>
  The parts of Go's standard library that \<open>common/kubename\<close> and \<open>common/apitoken\<close> call:
  \<open>crypto/sha256.Sum256\<close> (FIPS 180-4), \<open>encoding/hex.EncodeToString\<close> and the sixteen bytes of a
  \<open>uuid.UUID\<close>. Bytes are \<open>8 word\<close>s, a Go string is the list of its bytes as characters.
\<close>

unbundle bit_operations_syntax

type_synonym byte = "8 word"

definition bytes_of :: "string \<Rightarrow> byte list" where
  "bytes_of = map (\<lambda>c. word_of_nat (of_char c))"

definition uuid_bytes :: "uuid \<Rightarrow> byte list" where
  "uuid_bytes u = map (\<lambda>i. ucast (drop_bit (8 * (15 - i)) (word_of_nat u :: 128 word))) [0..<16]"

section \<open>Hexadecimal\<close>

definition hex_digit :: "nat \<Rightarrow> char" where
  "hex_digit n = char_of (if n < 10 then 48 + n else 87 + n)"

definition hex_encode :: "byte list \<Rightarrow> string" where
  "hex_encode bs = concat (map (\<lambda>b. [hex_digit (unat b div 16), hex_digit (unat b mod 16)]) bs)"

section \<open>SHA-256\<close>

type_synonym w32 = "32 word"

text \<open>The round constants: the first 32 bits of the fractional parts of the cube roots of the first 64
  primes, in decimal.\<close>

definition sha_K :: "w32 list" where
  "sha_K = [
     1116352408, 1899447441, 3049323471, 3921009573, 961987163, 1508970993,
     2453635748, 2870763221, 3624381080, 310598401, 607225278, 1426881987,
     1925078388, 2162078206, 2614888103, 3248222580, 3835390401, 4022224774,
     264347078, 604807628, 770255983, 1249150122, 1555081692, 1996064986,
     2554220882, 2821834349, 2952996808, 3210313671, 3336571891, 3584528711,
     113926993, 338241895, 666307205, 773529912, 1294757372, 1396182291,
     1695183700, 1986661051, 2177026350, 2456956037, 2730485921, 2820302411,
     3259730800, 3345764771, 3516065817, 3600352804, 4094571909, 275423344,
     430227734, 506948616, 659060556, 883997877, 958139571, 1322822218,
     1537002063, 1747873779, 1955562222, 2024104815, 2227730452, 2361852424,
     2428436474, 2756734187, 3204031479, 3329325298]"

record sha_state =
  sA :: w32
  sB :: w32
  sC :: w32
  sD :: w32
  sE :: w32
  sF :: w32
  sG :: w32
  sH :: w32

definition sha_init :: sha_state where
  "sha_init = \<lparr>sA = 1779033703, sB = 3144134277, sC = 1013904242, sD = 2773480762,
     sE = 1359893119, sF = 2600822924, sG = 528734635, sH = 1541459225\<rparr>"

definition rotr :: "nat \<Rightarrow> w32 \<Rightarrow> w32" where
  "rotr n x = (drop_bit n x OR push_bit (32 - n) x)"

definition sha_round :: "w32 \<times> w32 \<Rightarrow> sha_state \<Rightarrow> sha_state" where
  "sha_round kw st =
     (let e = sE st; a = sA st;
          s1 = rotr 6 e XOR rotr 11 e XOR rotr 25 e;
          ch = (e AND sF st) XOR (NOT e AND sG st);
          t1 = sH st + s1 + ch + fst kw + snd kw;
          s0 = rotr 2 a XOR rotr 13 a XOR rotr 22 a;
          maj = (a AND sB st) XOR (a AND sC st) XOR (sB st AND sC st)
      in \<lparr>sA = t1 + (s0 + maj), sB = a, sC = sB st, sD = sC st, sE = sD st + t1, sF = e, sG = sF st, sH = sG st\<rparr>)"

text \<open>The message schedule is kept reversed: the newest word first.\<close>

fun sha_schedule :: "nat \<Rightarrow> w32 list \<Rightarrow> w32 list" where
  "sha_schedule 0 ws = rev ws"
| "sha_schedule (Suc n) ws =
     (let w2 = ws ! 1; w7 = ws ! 6; w15 = ws ! 14; w16 = ws ! 15;
          s0 = rotr 7 w15 XOR rotr 18 w15 XOR drop_bit 3 w15;
          s1 = rotr 17 w2 XOR rotr 19 w2 XOR drop_bit 10 w2
      in sha_schedule n ((s1 + w7 + s0 + w16) # ws))"

fun be_words :: "byte list \<Rightarrow> w32 list" where
  "be_words (a # b # c # d # bs) =
     (push_bit 24 (ucast a) OR push_bit 16 (ucast b) OR push_bit 8 (ucast c) OR ucast d) # be_words bs"
| "be_words _ = []"

definition sha_block :: "sha_state \<Rightarrow> byte list \<Rightarrow> sha_state" where
  "sha_block st bs =
     (let st' = fold sha_round (zip sha_K (sha_schedule 48 (rev (be_words bs)))) st
      in \<lparr>sA = sA st + sA st', sB = sB st + sB st', sC = sC st + sC st', sD = sD st + sD st',
          sE = sE st + sE st', sF = sF st + sF st', sG = sG st + sG st', sH = sH st + sH st'\<rparr>)"

definition sha_pad :: "byte list \<Rightarrow> byte list" where
  "sha_pad bs = bs @ [0x80] @ replicate ((119 - length bs mod 64) mod 64) 0 @
     map (\<lambda>i. ucast (drop_bit (8 * (7 - i)) (push_bit 3 (word_of_nat (length bs) :: 64 word)))) [0..<8]"

text \<open>The blocks of 64 bytes, the first \<open>n\<close> of them.\<close>

fun sha_blocks :: "nat \<Rightarrow> byte list \<Rightarrow> sha_state \<Rightarrow> sha_state" where
  "sha_blocks 0 bs st = st"
| "sha_blocks (Suc n) bs st = sha_blocks n (drop 64 bs) (sha_block st (take 64 bs))"

definition be_bytes :: "w32 \<Rightarrow> byte list" where
  "be_bytes w = [ucast (drop_bit 24 w), ucast (drop_bit 16 w), ucast (drop_bit 8 w), ucast w]"

definition Sum256 :: "byte list \<Rightarrow> byte list" where
  "Sum256 bs =
     (let p = sha_pad bs; st = sha_blocks (length p div 64) p sha_init
      in concat (map be_bytes [sA st, sB st, sC st, sD st, sE st, sF st, sG st, sH st]))"

section \<open>Lemmas\<close>

lemma length_sha_pad: "length (sha_pad bs) mod 64 = 0"
proof -
  define r where "r = length bs mod 64"
  have r: "r < 64" by (simp add: r_def)
  have len: "length (sha_pad bs) = length bs + 9 + (119 - r) mod 64"
    by (simp add: sha_pad_def r_def)
  have "(119 - r) mod 64 = (if r \<le> 55 then 55 - r else 119 - r)"
    using r by (auto simp: le_mod_geq)
  then have "(r + 9 + (119 - r) mod 64) mod 64 = 0"
    using r by (simp split: if_splits)
  then show ?thesis
    unfolding len by (metis add.assoc mod_add_left_eq r_def)
qed

lemma length_Sum256 [simp]: "length (Sum256 bs) = 32"
  by (simp add: Sum256_def be_bytes_def Let_def)

lemma length_hex_encode [simp]: "length (hex_encode bs) = 2 * length bs"
  by (induction bs) (simp_all add: hex_encode_def)

lemma length_uuid_bytes [simp]: "length (uuid_bytes u) = 16"
  by (simp add: uuid_bytes_def)

definition is_hex :: "char \<Rightarrow> bool" where
  "is_hex c \<longleftrightarrow> (CHR ''0'' \<le> c \<and> c \<le> CHR ''9'') \<or> (CHR ''a'' \<le> c \<and> c \<le> CHR ''f'')"

end
