(* ===== verification/Kubename.thy ===== *)
theory Kubename
  imports Sha256 Go_Errors
begin

text \<open>
  Names for Kubernetes and Gardener resources: \<open>common/kubename/kubename.go\<close>, \<open>gardener.go\<close> and
  \<open>namespace.go\<close>. A Go string is the list of its bytes. A slice expression out of range panics:
  \<open>None\<close>. The third-party \<open>validation.IsDNS1123Label\<close> (the list of error texts it returns) is the
  parameter \<open>dns\<close>; what it documents is the executable predicate \<open>dns1123_label\<close>.
\<close>

section \<open>Generic helpers (kubename.go)\<close>

definition HashHex :: "byte list \<Rightarrow> string" where
  "HashHex data = hex_encode (Sum256 data)"

definition lower_char :: "char \<Rightarrow> bool" where
  "lower_char c \<longleftrightarrow> CHR ''a'' \<le> c \<and> c \<le> CHR ''z''"

definition digit_char :: "char \<Rightarrow> bool" where
  "digit_char c \<longleftrightarrow> CHR ''0'' \<le> c \<and> c \<le> CHR ''9''"

definition upper_char :: "char \<Rightarrow> bool" where
  "upper_char c \<longleftrightarrow> CHR ''A'' \<le> c \<and> c \<le> CHR ''Z''"

definition label_char :: "char \<Rightarrow> bool" where
  "label_char c \<longleftrightarrow> lower_char c \<or> digit_char c"

text \<open>\<open>strings.ToLower\<close> followed by dropping every rune outside \<open>[a-z0-9]\<close>. Outside ASCII two
  runes have an ASCII lower case: U+0130 (bytes C4 B0) gives \<open>i\<close> and U+212A (bytes E2 84 AA) gives
  \<open>k\<close>; every other byte from 80 on is dropped.\<close>

fun Sanitize :: "string \<Rightarrow> string" where
  "Sanitize [] = []"
| "Sanitize (c # cs) =
     (if label_char c then c # Sanitize cs
      else if upper_char c then char_of (of_char c + 32 :: nat) # Sanitize cs
      else if c = CHR 0xC4 \<and> take 1 cs = [CHR 0xB0] then CHR ''i'' # Sanitize cs
      else if c = CHR 0xE2 \<and> take 2 cs = [CHR 0x84, CHR 0xAA] then CHR ''k'' # Sanitize cs
      else Sanitize cs)"

definition SanitizeDNS1035 :: "string \<Rightarrow> string" where
  "SanitizeDNS1035 s =
     (let t = Sanitize s in if t \<noteq> [] \<and> digit_char (hd t) then CHR ''x'' # t else t)"

text \<open>\<open>s[i:j]\<close>.\<close>

definition slice :: "string \<Rightarrow> nat \<Rightarrow> nat \<Rightarrow> string option" where
  "slice s i j = (if i \<le> j \<and> j \<le> length s then Some (take (j - i) (drop i s)) else None)"

definition Bounded :: "string \<Rightarrow> string \<Rightarrow> nat \<Rightarrow> nat \<Rightarrow> nat \<Rightarrow> string option" where
  "Bounded sanitized hashHex prefixLen hashLen hashOffset =
     (let s = (if prefixLen < length sanitized then take prefixLen sanitized else sanitized)
      in case (if length s < prefixLen
               then map_option (\<lambda>pad. s @ pad) (slice hashHex 0 (prefixLen - length s)) else Some s) of
           None \<Rightarrow> None
         | Some p \<Rightarrow> map_option (\<lambda>h. p @ h) (slice hashHex hashOffset (hashOffset + hashLen)))"

section \<open>Gardener names (gardener.go)\<close>

definition ProjectNamePrefixLength :: nat where "ProjectNamePrefixLength = 6"
definition ProjectNameHashLength :: nat where "ProjectNameHashLength = 4"
definition ShootNamePrefixLength :: nat where "ShootNamePrefixLength = 8"
definition ShootNameHashLength :: nat where "ShootNameHashLength = 3"
definition MaxCombinedLength :: nat where "MaxCombinedLength = 21"
definition WorkerNamePrefixLength :: nat where "WorkerNamePrefixLength = 4"
definition WorkerNameHashLength :: nat where "WorkerNameHashLength = 4"

definition ProjectName :: "string \<Rightarrow> string option" where
  "ProjectName orgName = Bounded (SanitizeDNS1035 orgName) (HashHex (bytes_of orgName))
     ProjectNamePrefixLength ProjectNameHashLength ProjectNamePrefixLength"

definition GenerateWorkerName :: "string \<Rightarrow> string option" where
  "GenerateWorkerName poolName = Bounded (SanitizeDNS1035 poolName) (HashHex (bytes_of poolName))
     WorkerNamePrefixLength WorkerNameHashLength WorkerNamePrefixLength"

definition GenerateShootName :: "string \<Rightarrow> uuid \<Rightarrow> string option" where
  "GenerateShootName clusterName clusterID = Bounded (SanitizeDNS1035 clusterName) (HashHex (uuid_bytes clusterID))
     ShootNamePrefixLength ShootNameHashLength 0"

section \<open>Namespace names (namespace.go)\<close>

definition ProjectPrefixLen :: nat where "ProjectPrefixLen = 8"
definition ProjectHashLen :: nat where "ProjectHashLen = 4"
definition namespacePrefixLen :: nat where "namespacePrefixLen = ProjectPrefixLen + ProjectHashLen + 1"
definition MaxNamespaceNameLength :: nat where "MaxNamespaceNameLength = 63 - namespacePrefixLen"

definition reservedNamespaces :: "string list" where
  "reservedNamespaces = [''default'', ''kube-system'', ''kube-public'', ''kube-node-lease'', ''fundament-system'']"

text \<open>The four errors of \<open>ValidateNamespace\<close>, with what their texts are made of.\<close>

datatype ns_error = NsTooLong string nat nat | NsInvalid string "string list" | NsReserved string | NsKubePrefix string

definition ValidateNamespace :: "(string \<Rightarrow> string list) \<Rightarrow> string \<Rightarrow> ns_error option" where
  "ValidateNamespace dns name =
     (if MaxNamespaceNameLength < length name then Some (NsTooLong name (length name) MaxNamespaceNameLength)
      else if dns name \<noteq> [] then Some (NsInvalid name (dns name))
      else if name \<in> set reservedNamespaces then Some (NsReserved name)
      else if take 5 name = ''kube-'' then Some (NsKubePrefix name)
      else None)"

definition GenerateNamespace :: "string \<Rightarrow> uuid \<Rightarrow> string \<Rightarrow> string option" where
  "GenerateNamespace projectName projectID name =
     map_option (\<lambda>prefix. prefix @ ''-'' @ name)
       (Bounded (Sanitize projectName) (HashHex (uuid_bytes projectID)) ProjectPrefixLen ProjectHashLen ProjectPrefixLen)"

section \<open>Labels\<close>

text \<open>\<open>[a-z0-9]([-a-z0-9]*[a-z0-9])?\<close>, at most 63 bytes; and RFC 1035, which asks for a leading
  letter.\<close>

definition dns1123_label :: "string \<Rightarrow> bool" where
  "dns1123_label s \<longleftrightarrow> s \<noteq> [] \<and> length s \<le> 63 \<and> label_char (hd s) \<and> label_char (last s) \<and>
     list_all (\<lambda>c. label_char c \<or> c = CHR ''-'') s"

definition dns1035_label :: "string \<Rightarrow> bool" where
  "dns1035_label s \<longleftrightarrow> dns1123_label s \<and> lower_char (hd s)"

section \<open>Lemmas\<close>

lemma hex_digit_label: "n < 16 \<Longrightarrow> label_char (hex_digit n)"
proof -
  assume n: "n < 16"
  have "list_all (\<lambda>n. label_char (hex_digit n)) [0..<16]" by code_simp
  with n show ?thesis by (auto simp: list_all_iff)
qed

lemma unat_byte_div: "unat (b :: byte) div 16 < 16"
  using unsigned_less [of b, where ?'a = nat] by simp

lemma hex_encode_label: "c \<in> set (hex_encode bs) \<Longrightarrow> label_char c"
  by (auto simp: hex_encode_def unat_byte_div intro!: hex_digit_label)

lemma length_HashHex [simp]: "length (HashHex bs) = 64"
  by (simp add: HashHex_def)

lemma HashHex_label: "c \<in> set (HashHex bs) \<Longrightarrow> label_char c"
  by (simp add: HashHex_def hex_encode_label)

lemma upper_lower_table: "list_all (\<lambda>n. label_char (char_of (n + 32 :: nat))) [65..<91]"
  by code_simp

lemma upper_to_lower: "upper_char c \<Longrightarrow> label_char (char_of (of_char c + 32 :: nat))"
proof -
  assume "upper_char c"
  then have "65 \<le> (of_char c :: nat)" "(of_char c :: nat) \<le> 90"
    by (simp_all add: upper_char_def less_eq_char_def)
  then have "of_char c \<in> set [65..<91 :: nat]" unfolding set_upt by simp
  with upper_lower_table show ?thesis
    unfolding list_all_iff by blast
qed

lemma Sanitize_label: "c \<in> set (Sanitize s) \<Longrightarrow> label_char c"
  by (induction s) (auto simp: upper_to_lower split: if_splits, code_simp+)

lemma SanitizeDNS1035_label: "c \<in> set (SanitizeDNS1035 s) \<Longrightarrow> label_char c"
proof -
  have "label_char (CHR ''x'')" by code_simp
  then show "c \<in> set (SanitizeDNS1035 s) \<Longrightarrow> label_char c"
    by (auto simp: SanitizeDNS1035_def Let_def Sanitize_label split: if_splits)
qed

lemma SanitizeDNS1035_hd: "Sanitize s \<noteq> [] \<Longrightarrow> SanitizeDNS1035 s \<noteq> [] \<and> lower_char (hd (SanitizeDNS1035 s))"
proof -
  assume ne: "Sanitize s \<noteq> []"
  then have "label_char (hd (Sanitize s))" by (intro Sanitize_label [of _ s] hd_in_set)
  moreover have "lower_char (CHR ''x'')" by code_simp
  ultimately show ?thesis
    using ne by (auto simp: SanitizeDNS1035_def Let_def label_char_def)
qed

text \<open>With a digest of 64 characters \<open>Bounded\<close> never slices out of range.\<close>

lemma Bounded_HashHex:
  assumes "pl \<le> 64" "off + hl \<le> 64"
  shows "Bounded s (HashHex bs) pl hl off =
    Some (take pl (s @ HashHex bs) @ take hl (drop off (HashHex bs)))"
  using assms by (auto simp: Bounded_def slice_def Let_def)

lemmas name_lengths = ProjectNamePrefixLength_def ProjectNameHashLength_def ShootNamePrefixLength_def
  ShootNameHashLength_def WorkerNamePrefixLength_def WorkerNameHashLength_def ProjectPrefixLen_def
  ProjectHashLen_def namespacePrefixLen_def MaxNamespaceNameLength_def MaxCombinedLength_def

text \<open>The shape of every bounded name: fixed length, only \<open>[a-z0-9]\<close>, and it starts as the
  sanitized text does.\<close>

lemma bounded_shape:
  assumes "Bounded s (HashHex bs) pl hl off = Some n" "0 < pl" "pl \<le> 64" "off + hl \<le> 64"
    and "\<And>c. c \<in> set s \<Longrightarrow> label_char c"
  shows "length n = pl + hl \<and> list_all label_char n \<and> (s \<noteq> [] \<longrightarrow> hd n = hd s)"
proof -
  have n: "n = take pl (s @ HashHex bs) @ take hl (drop off (HashHex bs))"
    using assms(1) by (simp add: Bounded_HashHex [OF assms(3,4)])
  have "length n = pl + hl"
    using assms(3,4) by (simp add: n)
  moreover have "label_char c" if "c \<in> set n" for c
    using that assms(5) HashHex_label [of c bs]
    by (auto simp: n dest!: in_set_takeD in_set_dropD)
  moreover have "hd n = hd s" if "s \<noteq> []"
    using that assms(2) by (cases s) (auto simp: n take_Cons')
  ultimately show ?thesis by (simp add: list_all_iff)
qed

lemma label_list_dns1123:
  "n \<noteq> [] \<Longrightarrow> length n \<le> 63 \<Longrightarrow> list_all label_char n \<Longrightarrow> dns1123_label n"
  by (auto simp: dns1123_label_def list_all_iff)

section \<open>Properties\<close>

text \<open>
  Gardener names. Project, shoot and worker names are produced for every input (no slice is
  out of range), have exactly 10, 11 and 8 characters of \<open>[a-z0-9]\<close>, so that a project and a shoot
  name together use the 21 characters Gardener allows, and are RFC 1035 labels (start with a
  letter) whenever the human name has at least one letter or digit.
\<close>

theorem gardener_names_valid:
  "\<exists>p s w. ProjectName org = Some p \<and> GenerateShootName cname cid = Some s \<and> GenerateWorkerName pool = Some w \<and>
     length p = 10 \<and> length s = 11 \<and> length w = 8 \<and> length p + length s = MaxCombinedLength \<and>
     list_all label_char p \<and> list_all label_char s \<and> list_all label_char w \<and>
     (if Sanitize org \<noteq> [] then dns1035_label p else True) \<and>
     (if Sanitize cname \<noteq> [] then dns1035_label s else True) \<and>
     (if Sanitize pool \<noteq> [] then dns1035_label w else True)"
proof -
  obtain p s w where names: "ProjectName org = Some p" "GenerateShootName cname cid = Some s" "GenerateWorkerName pool = Some w"
    by (simp add: ProjectName_def GenerateShootName_def GenerateWorkerName_def name_lengths Bounded_HashHex)
  have p: "length p = 6 + 4 \<and> list_all label_char p \<and> (SanitizeDNS1035 org \<noteq> [] \<longrightarrow> hd p = hd (SanitizeDNS1035 org))"
    using names(1) unfolding ProjectName_def name_lengths
    by (rule bounded_shape) (simp_all add: SanitizeDNS1035_label)
  have s: "length s = 8 + 3 \<and> list_all label_char s \<and> (SanitizeDNS1035 cname \<noteq> [] \<longrightarrow> hd s = hd (SanitizeDNS1035 cname))"
    using names(2) unfolding GenerateShootName_def name_lengths
    by (rule bounded_shape) (simp_all add: SanitizeDNS1035_label)
  have w: "length w = 4 + 4 \<and> list_all label_char w \<and> (SanitizeDNS1035 pool \<noteq> [] \<longrightarrow> hd w = hd (SanitizeDNS1035 pool))"
    using names(3) unfolding GenerateWorkerName_def name_lengths
    by (rule bounded_shape) (simp_all add: SanitizeDNS1035_label)
  have "dns1123_label p" "dns1123_label s" "dns1123_label w"
    using p s w by (auto intro!: label_list_dns1123)
  then show ?thesis
    using names p s w SanitizeDNS1035_hd [of org] SanitizeDNS1035_hd [of cname] SanitizeDNS1035_hd [of pool]
    by (simp add: dns1035_label_def MaxCombinedLength_def)
qed

text \<open>
  C7: namespace names. A name \<open>ValidateNamespace\<close> accepts gives, with any project, a
  cluster-side namespace name that is a DNS-1123 label of at most 63 characters and not a reserved
  name; the thirteen characters in front leave no room for a longer name.
\<close>

theorem namespace_name_valid:
  assumes "\<And>s. dns s = [] \<longleftrightarrow> dns1123_label s" "ValidateNamespace dns name = None"
  shows "\<exists>n. GenerateNamespace pname pid name = Some n \<and> dns1123_label n \<and> length n = length name + 13 \<and>
    n \<notin> set reservedNamespaces"
proof -
  obtain p where p: "Bounded (Sanitize pname) (HashHex (uuid_bytes pid)) 8 4 8 = Some p"
    by (simp add: Bounded_HashHex)
  then have shape: "length p = 8 + 4 \<and> list_all label_char p \<and> (Sanitize pname \<noteq> [] \<longrightarrow> hd p = hd (Sanitize pname))"
    by (rule bounded_shape) (simp_all add: Sanitize_label)
  from assms have name: "dns1123_label name" "length name \<le> 50"
    by (auto simp: ValidateNamespace_def name_lengths split: if_splits)
  have gen: "GenerateNamespace pname pid name = Some (p @ ''-'' @ name)"
    by (simp add: GenerateNamespace_def name_lengths p)
  have "p \<noteq> []" "label_char (hd p)"
    using shape by (cases p; auto)+
  with shape name have "dns1123_label (p @ ''-'' @ name)"
    by (auto simp: dns1123_label_def list_all_iff)
  moreover have "p @ ''-'' @ name \<notin> set reservedNamespaces"
  proof -
    have tab: "list_all (\<lambda>r. length r \<le> 12 \<or> \<not> list_all label_char (take 12 r)) reservedNamespaces"
      by code_simp
    have "take 12 (p @ ''-'' @ name) = p" "12 < length (p @ ''-'' @ name)"
      using shape by simp_all
    with tab shape show ?thesis
      unfolding list_all_iff by (metis linorder_not_le)
  qed
  ultimately show ?thesis
    using gen shape by simp
qed

theorem namespace_name_valid_witness:
  "\<exists>n. GenerateNamespace ''Team'' 3 ''team-a'' = Some n \<and> dns1123_label n \<and> length n = 19"
proof -
  let ?dns = "\<lambda>s. if dns1123_label s then [] else [''invalid label'']"
  have ok: "ValidateNamespace ?dns ''team-a'' = None" by code_simp
  have "\<And>s. ?dns s = [] \<longleftrightarrow> dns1123_label s" by simp
  from namespace_name_valid [OF this ok, of "''Team''" 3] show ?thesis by auto
qed

text \<open>
  Two namespaces get the same cluster-side name only when their own names are equal and the
  twelve-character prefixes of their projects coincide; within one project the mapping is
  injective.
\<close>

theorem namespace_name_injective:
  "GenerateNamespace pname pid name = GenerateNamespace pname' pid' name' \<longleftrightarrow>
    name = name' \<and>
    Bounded (Sanitize pname) (HashHex (uuid_bytes pid)) ProjectPrefixLen ProjectHashLen ProjectPrefixLen =
    Bounded (Sanitize pname') (HashHex (uuid_bytes pid')) ProjectPrefixLen ProjectHashLen ProjectPrefixLen"
proof -
  obtain p where p: "Bounded (Sanitize pname) (HashHex (uuid_bytes pid)) 8 4 8 = Some p" "length p = 12"
    by (simp add: Bounded_HashHex)
  obtain p' where p': "Bounded (Sanitize pname') (HashHex (uuid_bytes pid')) 8 4 8 = Some p'" "length p' = 12"
    by (simp add: Bounded_HashHex)
  from p p' show ?thesis by (auto simp: GenerateNamespace_def name_lengths)
qed

end
