(* ===== verification/NamespaceSync.thy ===== *)
theory NamespaceSync
  imports ShootAccess Outbox Kubename
begin

text \<open>
  The namespace handler \<open>cluster-worker/pkg/handler/namespace\<close> (\<open>mod.go\<close>, \<open>reconcile_plan.go\<close>,
  \<open>limitrange.go\<close>): it materializes the rows of \<open>tenant.namespaces\<close> as Kubernetes namespaces on
  their shoot, with a managed LimitRange, and deletes what is orphaned. It must never adopt or
  delete a namespace that does not carry the identifier of the row in its label. \<open>us\<close> and \<open>up\<close> are
  \<open>uuid.UUID.String\<close> and \<open>uuid.Parse\<close>; a result \<open>None\<close> is a panic.
\<close>

section \<open>Labels\<close>

definition LabelNamespaceID :: string where "LabelNamespaceID = ''fundament.io/namespace-id''"
definition LabelNamespaceName :: string where "LabelNamespaceName = ''fundament.io/namespace-name''"
definition LabelProjectID :: string where "LabelProjectID = ''fundament.io/project-id''"
definition LabelOrganizationID :: string where "LabelOrganizationID = ''fundament.io/organization-id''"
definition LabelClusterID :: string where "LabelClusterID = ''fundament.io/cluster-id''"
definition LabelManagedBy :: string where "LabelManagedBy = ''fundament.io/managed-by''"
definition ManagedByValue :: string where "ManagedByValue = ''cluster-worker''"

definition desiredLabels :: "(uuid \<Rightarrow> string) \<Rightarrow> ns_sync_row \<Rightarrow> smap" where
  "desiredLabels us row =
     [(LabelNamespaceID, us (ns_id row)), (LabelNamespaceName, ns_name row), (LabelProjectID, us (ns_project row)),
      (LabelOrganizationID, us (ns_org row)), (LabelClusterID, us (ns_cluster row)), (LabelManagedBy, ManagedByValue)]"

section \<open>The managed LimitRange (limitrange.go)\<close>

definition leastInt4 :: "int option \<Rightarrow> int option \<Rightarrow> int option" where
  "leastInt4 a b =
     (case (a, b) of
        (Some x, Some y) \<Rightarrow> if x \<le> y then Some x else Some y
      | (Some x, None) \<Rightarrow> Some x
      | (None, Some y) \<Rightarrow> Some y
      | (None, None) \<Rightarrow> None)"

definition exceeds :: "int option \<Rightarrow> int option \<Rightarrow> bool" where
  "exceeds r l = (case (r, l) of (Some x, Some y) \<Rightarrow> y < x | _ \<Rightarrow> False)"

definition mergedLimitDefaults :: "ns_sync_row \<Rightarrow> gerr + (limit_defaults \<times> bool)" where
  "mergedLimitDefaults row =
     (let least = (\<lambda>f. leastInt4 (Option.bind (ns_project_limits row) f) (Option.bind (ns_org_limits row) f));
          d = \<lparr>CPURequestMilli = least l_cpu_request, CPULimitMilli = least l_cpu_limit,
               MemoryRequestMi = least l_memory_request, MemoryLimitMi = least l_memory_limit\<rparr>
      in if exceeds (CPURequestMilli d) (CPULimitMilli d)
         then Inl (ErrNew (''invalid merged resource defaults: cpu request '' @ int_str (the (CPURequestMilli d)) @
                ''m exceeds cpu limit '' @ int_str (the (CPULimitMilli d)) @ ''m''))
         else if exceeds (MemoryRequestMi d) (MemoryLimitMi d)
         then Inl (ErrNew (''invalid merged resource defaults: memory request '' @ int_str (the (MemoryRequestMi d)) @
                ''Mi exceeds memory limit '' @ int_str (the (MemoryLimitMi d)) @ ''Mi''))
         else Inr (d, CPURequestMilli d \<noteq> None \<or> CPULimitMilli d \<noteq> None \<or>
                      MemoryRequestMi d \<noteq> None \<or> MemoryLimitMi d \<noteq> None))"

definition reconcileLimitRange ::
  "'s shoot_ops \<Rightarrow> (uuid \<Rightarrow> string) \<Rightarrow> ns_sync_row \<Rightarrow> string \<Rightarrow> 's \<Rightarrow> gerr option \<times> 's" where
  "reconcileLimitRange ops us row name s =
     (case mergedLimitDefaults row of
        Inl e \<Rightarrow> (Some (errorf (''namespace '' @ name) e), s)
      | Inr (defaults, hasAny) \<Rightarrow>
          if \<not> hasAny
          then (case DeleteLimitRange ops (ns_cluster row) name s of
                  (Some e, s) \<Rightarrow> (Some (errorf (''delete limit range in namespace '' @ name) e), s)
                | (None, s) \<Rightarrow> (None, s))
          else (case EnsureLimitRange ops (ns_cluster row) name defaults (desiredLabels us row) s of
                  (Some e, s) \<Rightarrow> (Some (errorf (''ensure limit range in namespace '' @ name) e), s)
                | (None, s) \<Rightarrow> (None, s)))"

section \<open>One namespace (mod.go)\<close>

definition nameTakenError :: "string \<Rightarrow> resource \<Rightarrow> gerr" where
  "nameTakenError name existing =
     (if sget (r_labels existing) LabelManagedBy = ManagedByValue
      then PreconditionError (''namespace '' @ name @ '' held by another managed namespace, awaiting cleanup'')
      else ErrNew (''namespace name collision: '' @ name @ '' already exists on shoot without matching label''))"

definition reconcileLabels ::
  "'s shoot_ops \<Rightarrow> ns_sync_row \<Rightarrow> string \<Rightarrow> smap \<Rightarrow> 's \<Rightarrow> gerr option \<times> 's" where
  "reconcileLabels ops row name desired s =
     (case UpdateNamespaceLabels ops (ns_cluster row) name desired s of
        (Some e, s) \<Rightarrow> (Some (errorf (''update namespace '' @ name @ '' labels'') e), s)
      | (None, s) \<Rightarrow> (None, s))"

definition ensureNamespace ::
  "'s shoot_ops \<Rightarrow> (uuid \<Rightarrow> string) \<Rightarrow> ns_sync_row \<Rightarrow> string \<Rightarrow> 's \<Rightarrow> gerr option \<times> 's" where
  "ensureNamespace ops us row name s =
     (let desired = desiredLabels us row; own = (\<lambda>r. sget (r_labels r) LabelNamespaceID = us (ns_id row))
      in case GetNamespace ops (ns_cluster row) name s of
           (Inl e, s) \<Rightarrow> (Some (errorf (''get namespace '' @ name) e), s)
         | (Inr (Some existing), s) \<Rightarrow>
             if own existing then reconcileLabels ops row name desired s
             else (Some (nameTakenError name existing), s)
         | (Inr None, s) \<Rightarrow>
             (case CreateNamespace ops (ns_cluster row) name desired s of
                (None, s) \<Rightarrow> (None, s)
              | (Some e, s) \<Rightarrow>
                  if \<not> is_already_exists e then (Some (errorf (''create namespace '' @ name) e), s)
                  else (case GetNamespace ops (ns_cluster row) name s of
                          (Inl ge, s) \<Rightarrow> (Some (errorf (''get namespace '' @ name @ '' after create conflict'') ge), s)
                        | (Inr None, s) \<Rightarrow>
                            (Some (PreconditionError (''namespace '' @ name @ '' create raced, retrying'')), s)
                        | (Inr (Some raced), s) \<Rightarrow>
                            if own raced then reconcileLabels ops row name desired s
                            else (Some (nameTakenError name raced), s))))"

definition ensure ::
  "'s shoot_ops \<Rightarrow> (uuid \<Rightarrow> string) \<Rightarrow> ns_sync_row \<Rightarrow> 's \<Rightarrow> (gerr option \<times> 's) option" where
  "ensure ops us row s =
     (case GenerateNamespace (ns_project_name row) (ns_project row) (ns_name row) of
        None \<Rightarrow> None
      | Some name \<Rightarrow>
          (case ensureNamespace ops us row name s of
             (Some e, s) \<Rightarrow> Some (Some e, s)
           | (None, s) \<Rightarrow> Some (reconcileLimitRange ops us row name s)))"

definition delete_namespace ::
  "'s shoot_ops \<Rightarrow> (uuid \<Rightarrow> string) \<Rightarrow> ns_sync_row \<Rightarrow> 's \<Rightarrow> (gerr option \<times> 's) option" where
  "delete_namespace ops us row s =
     (case GenerateNamespace (ns_project_name row) (ns_project row) (ns_name row) of
        None \<Rightarrow> None
      | Some name \<Rightarrow>
          (case GetNamespace ops (ns_cluster row) name s of
             (Inl e, s) \<Rightarrow> Some (Some (errorf (''get namespace '' @ name) e), s)
           | (Inr None, s) \<Rightarrow> Some (None, s)
           | (Inr (Some existing), s) \<Rightarrow>
               if sget (r_labels existing) LabelNamespaceID \<noteq> us (ns_id row) then Some (None, s)
               else (case DeleteNamespace ops (ns_cluster row) name s of
                       (Some e, s) \<Rightarrow> Some (Some (errorf (''delete namespace '' @ name) e), s)
                     | (None, s) \<Rightarrow> Some (None, s))))"

definition shoot_opt :: "('s \<Rightarrow> ('a \<times> 's) option) \<Rightarrow> ('s, 'g) world \<Rightarrow> ('a \<times> ('s, 'g) world) option" where
  "shoot_opt f w = map_option (\<lambda>(x, s). (x, w\<lparr>shoots := s\<rparr>)) (f (shoots w))"

definition syncNamespace ::
  "'s shoot_ops \<Rightarrow> (uuid \<Rightarrow> string) \<Rightarrow> uuid \<Rightarrow> ('s, 'g) world \<Rightarrow> (gerr option \<times> ('s, 'g) world) option" where
  "syncNamespace ops us i w =
     (case db_read (\<lambda>w. NamespaceGetForSync i (db w)) w of
        (Inl e, w) \<Rightarrow>
          if errors_is ErrNoRows e then Some (None, w) else Some (Some (errorf ''get namespace for sync'' e), w)
      | (Inr row, w) \<Rightarrow>
          if ns_shoot_status row \<noteq> Some ''ready'' then Some (Some (PreconditionError ''shoot not ready''), w)
          else if ns_deleted row \<noteq> None then shoot_opt (delete_namespace ops us row) w
          else shoot_opt (ensure ops us row) w)"

fun enqueue_namespaces ::
  "(uuid \<Rightarrow> string) \<Rightarrow> int \<Rightarrow> uuid list \<Rightarrow> gerr list \<Rightarrow> ('s, 'g) world \<Rightarrow> gerr list \<times> ('s, 'g) world" where
  "enqueue_namespaces us maxRetries [] errs w = (errs, w)"
| "enqueue_namespaces us maxRetries (i # is) errs w =
     (case db_exec (OutboxInsertReconcileForNamespace i maxRetries) w of
        (Some e, w) \<Rightarrow> enqueue_namespaces us maxRetries is (errs @ [errorf (''enqueue namespace '' @ us i) e]) w
      | (None, w) \<Rightarrow> enqueue_namespaces us maxRetries is errs w)"

definition enqueueClusterNamespaces ::
  "(uuid \<Rightarrow> string) \<Rightarrow> int \<Rightarrow> uuid \<Rightarrow> ('s, 'g) world \<Rightarrow> gerr option \<times> ('s, 'g) world" where
  "enqueueClusterNamespaces us maxRetries cid w =
     (case db_read (\<lambda>w. Inr (NamespaceListActiveForCluster cid (db w))) w of
        (Inl e, w) \<Rightarrow> (Some (errorf ''list active namespaces'' e), w)
      | (Inr ids, w) \<Rightarrow>
          (case enqueue_namespaces us maxRetries ids [] w of
             (errs, w) \<Rightarrow>
               (map_option (errorf (''enqueue cluster namespaces for '' @ us cid)) (errors_join errs), w)))"

definition NamespaceSync :: "'s shoot_ops \<Rightarrow> (uuid \<Rightarrow> string) \<Rightarrow> int \<Rightarrow> ('s, 'g) handler" where
  "NamespaceSync ops us maxRetries i sc w =
     (case sc_entity sc of
        EntityNamespace \<Rightarrow> syncNamespace ops us i w
      | EntityCluster \<Rightarrow> Some (enqueueClusterNamespaces us maxRetries i w)
      | _ \<Rightarrow> Some (Some (ErrNew (''unexpected entity type '' @ entity_text (sc_entity sc) @
               '' for namespace sync handler'')), w))"

section \<open>Reconciliation (mod.go, reconcile\_plan.go)\<close>

text \<open>The identifier in the ownership label.\<close>

definition label_ns :: "(string \<Rightarrow> uuid option) \<Rightarrow> resource \<Rightarrow> uuid option" where
  "label_ns up r = Option.bind (map_of (r_labels r) LabelNamespaceID) up"

fun scan_namespaces ::
  "(string \<Rightarrow> uuid option) \<Rightarrow> uuid list \<Rightarrow> resource list \<Rightarrow> uuid list \<Rightarrow> string list \<Rightarrow> uuid list \<times> string list" where
  "scan_namespaces up active [] onCluster deleteNames = (onCluster, deleteNames)"
| "scan_namespaces up active (r # rs) onCluster deleteNames =
     (case map_of (r_labels r) LabelNamespaceID of
        None \<Rightarrow> scan_namespaces up active rs onCluster deleteNames
      | Some raw \<Rightarrow>
          (case up raw of
             None \<Rightarrow> scan_namespaces up active rs onCluster deleteNames
           | Some i \<Rightarrow>
               if i \<notin> set active then scan_namespaces up active rs onCluster (deleteNames @ [r_name r])
               else scan_namespaces up active rs (List.insert i onCluster) deleteNames))"

definition BuildPlan ::
  "(string \<Rightarrow> uuid option) \<Rightarrow> uuid list \<Rightarrow> resource list \<Rightarrow> uuid list \<times> string list" where
  "BuildPlan up activeIDs clusterNamespaces =
     (case scan_namespaces up activeIDs clusterNamespaces [] [] of
        (onCluster, deleteNames) \<Rightarrow> (filter (\<lambda>i. i \<notin> set onCluster) activeIDs, deleteNames))"

text \<open>One orphan: re-read the label and the row, and delete only what is still orphaned.\<close>

definition delete_orphan ::
  "'s shoot_ops \<Rightarrow> (string \<Rightarrow> uuid option) \<Rightarrow> uuid \<Rightarrow> string \<Rightarrow> ('s, 'g) world \<Rightarrow> gerr option \<times> ('s, 'g) world" where
  "delete_orphan ops up cid name w =
     (case shoot_do (GetNamespace ops cid name) w of
        (Inl e, w) \<Rightarrow> (Some (errorf (''recheck orphan namespace '' @ name) e), w)
      | (Inr None, w) \<Rightarrow> (None, w)
      | (Inr (Some current), w) \<Rightarrow>
          (case map_of (r_labels current) LabelNamespaceID of
             None \<Rightarrow> (None, w)
           | Some raw \<Rightarrow>
               (case up raw of
                  None \<Rightarrow> (None, w)
                | Some i \<Rightarrow>
                    (case db_read (\<lambda>w. NamespaceGetForSync i (db w)) w of
                       (a, w) \<Rightarrow>
                         if (case a of Inl ge \<Rightarrow> \<not> errors_is ErrNoRows ge | Inr _ \<Rightarrow> False)
                         then (Some (errorf (''recheck orphan namespace '' @ name) (projl a)), w)
                         else if (case a of Inl _ \<Rightarrow> False | Inr row \<Rightarrow> ns_deleted row = None) then (None, w)
                         else (case shoot_do (DeleteNamespace ops cid name) w of
                                 (Some e, w) \<Rightarrow> (Some (errorf (''delete orphan namespace '' @ name) e), w)
                               | (None, w) \<Rightarrow> (None, w))))))"

fun delete_orphans ::
  "'s shoot_ops \<Rightarrow> (string \<Rightarrow> uuid option) \<Rightarrow> uuid \<Rightarrow> string list \<Rightarrow> gerr list \<Rightarrow> ('s, 'g) world \<Rightarrow> gerr list \<times> ('s, 'g) world" where
  "delete_orphans ops up cid [] errs w = (errs, w)"
| "delete_orphans ops up cid (n # ns) errs w =
     (case delete_orphan ops up cid n w of
        (Some e, w) \<Rightarrow> delete_orphans ops up cid ns (errs @ [e]) w
      | (None, w) \<Rightarrow> delete_orphans ops up cid ns errs w)"

definition ns_reconcileCluster ::
  "'s shoot_ops \<Rightarrow> (uuid \<Rightarrow> string) \<Rightarrow> (string \<Rightarrow> uuid option) \<Rightarrow> int \<Rightarrow> uuid \<Rightarrow> ('s, 'g) world \<Rightarrow>
   gerr option \<times> ('s, 'g) world" where
  "ns_reconcileCluster ops us up maxRetries cid w =
     (case db_read (\<lambda>w. Inr (NamespaceListActiveForCluster cid (db w))) w of
        (Inl e, w) \<Rightarrow> (Some (errorf ''list active namespaces'' e), w)
      | (Inr active, w) \<Rightarrow>
          (case shoot_do (ListNamespaces ops cid LabelNamespaceID) w of
             (Inl e, w) \<Rightarrow> (Some (errorf ''list cluster namespaces'' e), w)
           | (Inr nss, w) \<Rightarrow>
               (case BuildPlan up active nss of
                  (createIDs, deleteNames) \<Rightarrow>
                    (case enqueue_namespaces us maxRetries createIDs [] w of
                       (errs, w) \<Rightarrow>
                         (case delete_orphans ops up cid deleteNames errs w of
                            (errs, w) \<Rightarrow>
                              (map_option (errorf (''reconcile cluster '' @ us cid)) (errors_join errs), w))))))"

fun ns_reconcile_clusters ::
  "'s shoot_ops \<Rightarrow> (uuid \<Rightarrow> string) \<Rightarrow> (string \<Rightarrow> uuid option) \<Rightarrow> int \<Rightarrow>
   (nat \<Rightarrow> bool) \<Rightarrow> nat \<Rightarrow> uuid list \<Rightarrow> gerr list \<Rightarrow> ('s, 'g) world \<Rightarrow> gerr list option \<times> ('s, 'g) world" where
  "ns_reconcile_clusters ops us up maxRetries cancelled k [] errs w = (Some errs, w)"
| "ns_reconcile_clusters ops us up maxRetries cancelled k (cid # cids) errs w =
     (if cancelled k then (None, w)
      else case ns_reconcileCluster ops us up maxRetries cid w of
             (Some e, w) \<Rightarrow> ns_reconcile_clusters ops us up maxRetries cancelled (Suc k) cids (errs @ [e]) w
           | (None, w) \<Rightarrow> ns_reconcile_clusters ops us up maxRetries cancelled (Suc k) cids errs w)"

definition NamespaceReconcile ::
  "'s shoot_ops \<Rightarrow> (uuid \<Rightarrow> string) \<Rightarrow> (string \<Rightarrow> uuid option) \<Rightarrow> int \<Rightarrow> (nat \<Rightarrow> bool) \<Rightarrow> ('s, 'g) periodic" where
  "NamespaceReconcile ops us up maxRetries cancelled w =
     (if cancelled 0 then Some (None, w)
      else case db_read (\<lambda>w. Inr (ClusterListReady (db w))) w of
             (Inl e, w) \<Rightarrow> Some (Some (errorf ''list ready clusters'' e), w)
           | (Inr cids, w) \<Rightarrow>
               (case ns_reconcile_clusters ops us up maxRetries cancelled 1 cids [] w of
                  (None, w) \<Rightarrow> Some (None, w)
                | (Some errs, w) \<Rightarrow> Some (map_option (errorf ''namespace sync reconcile'') (errors_join errs), w)))"

section \<open>Lemmas: what one namespace sync may touch\<close>

text \<open>\<open>only_ns k v v'\<close>: from \<open>v\<close> to \<open>v'\<close> at most the namespace \<open>k\<close> and its LimitRange have
  changed.\<close>

definition only_ns :: "uuid \<times> string \<Rightarrow> shoot_view \<Rightarrow> shoot_view \<Rightarrow> bool" where
  "only_ns k v v' \<longleftrightarrow> v_sas v' = v_sas v \<and> v_crbs v' = v_crbs v \<and>
     (\<forall>k'. k' \<noteq> k \<longrightarrow> v_nss v' k' = v_nss v k' \<and> v_lrs v' k' = v_lrs v k')"

lemma only_ns_refl [simp]: "only_ns k v v"
  by (simp add: only_ns_def)

lemma only_ns_trans: "only_ns k u v \<Longrightarrow> only_ns k v w \<Longrightarrow> only_ns k u w"
  by (simp add: only_ns_def)

text \<open>A namespace of the row, by its label.\<close>

definition owned :: "(uuid \<Rightarrow> string) \<Rightarrow> ns_sync_row \<Rightarrow> resource \<Rightarrow> bool" where
  "owned us row r \<longleftrightarrow> sget (r_labels r) LabelNamespaceID = us (ns_id row)"

lemma distinct_desiredLabels [simp]: "distinct (map fst (desiredLabels us row))"
  by (simp add: desiredLabels_def LabelNamespaceID_def LabelNamespaceName_def LabelProjectID_def
      LabelOrganizationID_def LabelClusterID_def LabelManagedBy_def)

lemma map_add_submap: "distinct (map fst l) \<Longrightarrow> map_of m = f ++ map_of l \<Longrightarrow> submap l m"
  by (auto simp: submap_def list_all_iff map_add_Some_iff)

text \<open>The outcome at the name: a foreign namespace is left as it is and the call fails; on success
  the namespace carries the desired labels, and an owned one keeps its other labels.\<close>

definition ns_outcome ::
  "(uuid \<Rightarrow> string) \<Rightarrow> ns_sync_row \<Rightarrow> resource option \<Rightarrow> gerr option \<Rightarrow> resource option \<Rightarrow> bool" where
  "ns_outcome us row x e x' \<longleftrightarrow>
     (\<forall>r. x = Some r \<and> \<not> owned us row r \<longrightarrow> x' = Some r \<and> e \<noteq> None) \<and>
     (e = None \<longrightarrow> (\<exists>r'. x' = Some r' \<and> submap (desiredLabels us row) (r_labels r'))) \<and>
     (\<forall>r. e = None \<and> x = Some r \<longrightarrow>
        (\<exists>r'. x' = Some r' \<and> map_of (r_labels r') = map_of (r_labels r) ++ map_of (desiredLabels us row)))"

text \<open>The LimitRange the merged defaults ask for.\<close>

definition limits_applied :: "ns_sync_row \<Rightarrow> limit_range option \<Rightarrow> bool" where
  "limits_applied row x \<longleftrightarrow>
     (case mergedLimitDefaults row of
        Inl _ \<Rightarrow> False
      | Inr (d, hasAny) \<Rightarrow> if hasAny then map_option lr_defaults x = Some d else x = None)"

lemma GenerateNamespace_total: "\<exists>n. GenerateNamespace p i m = Some n"
  by (simp add: GenerateNamespace_def name_lengths Bounded_HashHex)

text \<open>A database fault is never the sentinel "no rows".\<close>

definition faults_ok :: "('s, 'g) world \<Rightarrow> bool" where
  "faults_ok w \<longleftrightarrow> (\<forall>k e. db_fault w k = Some e \<longrightarrow> \<not> errors_is ErrNoRows e)"

text \<open>The identifier in the label of the namespace has no row, or a soft-deleted one.\<close>

definition orphaned :: "(string \<Rightarrow> uuid option) \<Rightarrow> tenant_db \<Rightarrow> resource option \<Rightarrow> bool" where
  "orphaned up d x \<longleftrightarrow>
     (\<exists>r i. x = Some r \<and> label_ns up r = Some i \<and>
        (case NamespaceGetForSync i d of Inl _ \<Rightarrow> True | Inr row \<Rightarrow> ns_deleted row \<noteq> None))"

lemma OutboxInsertReconcileForNamespace_frame [simp]:
  "db (OutboxInsertReconcileForNamespace i m w) = db w"
  "shoots (OutboxInsertReconcileForNamespace i m w) = shoots w"
  "db_fault (OutboxInsertReconcileForNamespace i m w) = db_fault w"
  by (simp_all add: OutboxInsertReconcileForNamespace_def outbox_insert_def update_cluster_status_trigger_def
      new_obrow_def Let_def)

lemma enqueue_namespaces_frame:
  "enqueue_namespaces us m is errs w = (errs', w') \<Longrightarrow>
   db w' = db w \<and> shoots w' = shoots w \<and> db_fault w' = db_fault w \<and> outbox_ext w w'"
proof (induction "is" arbitrary: errs w)
  case (Cons i "is")
  obtain e w1 where 1: "db_exec (OutboxInsertReconcileForNamespace i m) w = (e, w1)" by fastforce
  then have f: "db w1 = db w" "shoots w1 = shoots w" "db_fault w1 = db_fault w"
    by (auto simp: db_exec_eq split: option.splits)
  have "outbox_ext w w1"
    using db_exec_ext [OF 1] outbox_ext_inserts(3) by blast
  moreover obtain errs1 where "enqueue_namespaces us m is errs1 w1 = (errs', w')"
    using Cons.prems 1 by (cases e) auto
  ultimately show ?case
    using Cons.IH f outbox_ext_trans by metis
qed (simp add: outbox_ext_refl)

lemma delete_orphan_calm: "delete_orphan ops up cid n w = (e, w') \<Longrightarrow> calm w w'"
  by (auto simp: delete_orphan_def shoot_do_def db_read_eq split: sum.splits option.splits if_splits prod.splits)

context shoot_access
begin

lemma GetNamespace_spec:
  assumes "inv s" "GetNamespace ops cid n s = (Inr x, s')"
  shows "inv s'" "view s' = view s"
    "x = None \<longleftrightarrow> v_nss (view s) (cid, n) = None"
    "x = Some r \<Longrightarrow> \<exists>r0. v_nss (view s) (cid, n) = Some r0 \<and> r_labels r0 = r_labels r"
  using GetNamespace_law [OF assms]
  by (auto simp: map_option_case split: option.splits)

lemma reconcileLabels_spec:
  assumes "inv s" "reconcileLabels ops row name (desiredLabels us row) s = (e, s')"
    and "v_nss (view s) (ns_cluster row, name) = Some r"
  shows "inv s' \<and> only_ns (ns_cluster row, name) (view s) (view s') \<and> v_lrs (view s') = v_lrs (view s) \<and>
    (e = None \<longrightarrow> (\<exists>r'. v_nss (view s') (ns_cluster row, name) = Some r' \<and>
       map_of (r_labels r') = map_of (r_labels r) ++ map_of (desiredLabels us row)))"
proof -
  obtain e1 where up: "UpdateNamespaceLabels ops (ns_cluster row) name (desiredLabels us row) s = (e1, s')"
      and e: "e = None \<longleftrightarrow> e1 = None"
    using assms(2) by (auto simp: reconcileLabels_def split: prod.splits option.splits)
  from UpdateNamespaceLabels_law [OF assms(1) distinct_desiredLabels up] assms(3) e show ?thesis
    by (auto simp: only_ns_def)
qed

lemma ensureNamespace_present:
  assumes "inv s" "v_nss (view s) (ns_cluster row, name) = Some r0" "r_labels r0 = r_labels r"
    and "(if sget (r_labels r) LabelNamespaceID = us (ns_id row)
          then reconcileLabels ops row name (desiredLabels us row) s
          else (Some (nameTakenError name r), s)) = (e, s')"
  shows "inv s' \<and> only_ns (ns_cluster row, name) (view s) (view s') \<and> v_lrs (view s') = v_lrs (view s) \<and>
    ns_outcome us row (Some r0) e (v_nss (view s') (ns_cluster row, name))"
proof (cases "owned us row r0")
  case True
  then have "reconcileLabels ops row name (desiredLabels us row) s = (e, s')"
    using assms(3,4) by (simp add: owned_def)
  from reconcileLabels_spec [OF assms(1) this assms(2)] True show ?thesis
    using map_add_submap [OF distinct_desiredLabels] by (auto simp: ns_outcome_def)
next
  case False
  then show ?thesis
    using assms by (auto simp: owned_def ns_outcome_def)
qed

lemma ensureNamespace_spec:
  assumes inv: "inv s" and eq: "ensureNamespace ops us row name s = (e, s')"
  shows "inv s' \<and> only_ns (ns_cluster row, name) (view s) (view s') \<and> v_lrs (view s') = v_lrs (view s) \<and>
    ns_outcome us row (v_nss (view s) (ns_cluster row, name)) e (v_nss (view s') (ns_cluster row, name))"
proof -
  let ?k = "(ns_cluster row, name)"
  obtain a s1 where g: "GetNamespace ops (ns_cluster row) name s = (a, s1)" by fastforce
  have fail: ?thesis if "inv s'" "view s' = view s" "e \<noteq> None"
    using that by (auto simp: ns_outcome_def)
  consider (err) ge where "a = Inl ge" | (there) r where "a = Inr (Some r)" | (absent) "a = Inr None"
    by (metis option.exhaust sum.exhaust)
  then show ?thesis
  proof cases
    case err
    with eq g GetNamespace_law [OF inv g] show ?thesis
      by (intro fail) (auto simp: ensureNamespace_def Let_def)
  next
    case (there r)
    note get = GetNamespace_spec [OF inv g [unfolded there]]
    obtain r0 where r0: "v_nss (view s) ?k = Some r0" "r_labels r0 = r_labels r"
      using get(4) by blast
    have r1: "v_nss (view s1) ?k = Some r0" using r0 get(2) by simp
    from eq g there have "(if sget (r_labels r) LabelNamespaceID = us (ns_id row)
          then reconcileLabels ops row name (desiredLabels us row) s1
          else (Some (nameTakenError name r), s1)) = (e, s')"
      by (simp add: ensureNamespace_def Let_def)
    from ensureNamespace_present [OF get(1) r1 r0(2) this] r0(1) get(2) show ?thesis by simp
  next
    case absent
    note get = GetNamespace_spec [OF inv g [unfolded absent]]
    obtain e2 s2 where c: "CreateNamespace ops (ns_cluster row) name (desiredLabels us row) s1 = (e2, s2)" by fastforce
    have none: "v_nss (view s1) ?k = None" "v_nss (view s) ?k = None" using get(2,3) by simp_all
    note cl = CreateNamespace_law [OF get(1) distinct_desiredLabels c]
    have s2: "inv s2" "only_ns ?k (view s) (view s2)" "v_lrs (view s2) = v_lrs (view s)"
      using cl get(2) by (auto simp: only_ns_def)
    show ?thesis
    proof (cases "e2 = None")
      case True
      with eq g absent c have "e = None" "s' = s2" by (auto simp: ensureNamespace_def Let_def)
      with s2 cl True none show ?thesis by (auto simp: ns_outcome_def)
    next
      case False
      then obtain e2' where e2: "e2 = Some e2'" by auto
      show ?thesis
      proof (cases "is_already_exists e2'")
        case False
        with eq g absent c e2 s2 none show ?thesis by (auto simp: ensureNamespace_def Let_def ns_outcome_def)
      next
        case True
        obtain a3 s3 where g3: "GetNamespace ops (ns_cluster row) name s2 = (a3, s3)" by fastforce
        note l3 = GetNamespace_law [OF s2(1) g3]
        show ?thesis
        proof (cases "\<exists>r. a3 = Inr (Some r)")
          case False
          with eq g absent c e2 True g3 have "e \<noteq> None" "s' = s3"
            by (auto simp: ensureNamespace_def Let_def split: sum.splits option.splits)
          with l3 s2 none show ?thesis by (auto simp: ns_outcome_def)
        next
          case True
          then obtain r where r: "a3 = Inr (Some r)" by blast
          note get3 = GetNamespace_spec [OF s2(1) g3 [unfolded r]]
          obtain r0 where r0: "v_nss (view s2) ?k = Some r0" "r_labels r0 = r_labels r"
            using get3(4) by blast
          have r1: "v_nss (view s3) ?k = Some r0" using r0 get3(2) by simp
          from eq g absent c e2 \<open>is_already_exists e2'\<close> g3 r have
            "(if sget (r_labels r) LabelNamespaceID = us (ns_id row)
              then reconcileLabels ops row name (desiredLabels us row) s3
              else (Some (nameTakenError name r), s3)) = (e, s')"
            by (simp add: ensureNamespace_def Let_def)
          from ensureNamespace_present [OF get3(1) r1 r0(2) this] get3(2) s2 none show ?thesis
            by (auto simp: ns_outcome_def intro: only_ns_trans)
        qed
      qed
    qed
  qed
qed

lemma reconcileLimitRange_spec:
  assumes inv: "inv s" and eq: "reconcileLimitRange ops us row name s = (e, s')"
  shows "inv s' \<and> only_ns (ns_cluster row, name) (view s) (view s') \<and> v_nss (view s') = v_nss (view s) \<and>
    (e = None \<longrightarrow> limits_applied row (v_lrs (view s') (ns_cluster row, name)))"
proof (cases "mergedLimitDefaults row")
  case (Inl err)
  with eq inv show ?thesis by (auto simp: reconcileLimitRange_def)
next
  case (Inr p)
  obtain d hasAny where p: "p = (d, hasAny)" by (cases p)
  show ?thesis
  proof (cases hasAny)
    case True
    obtain e1 s1 where "EnsureLimitRange ops (ns_cluster row) name d (desiredLabels us row) s = (e1, s1)" by fastforce
    with EnsureLimitRange_law [OF inv distinct_desiredLabels this] eq Inr p True show ?thesis
      by (auto simp: reconcileLimitRange_def only_ns_def limits_applied_def split: option.splits)
  next
    case False
    obtain e1 s1 where "DeleteLimitRange ops (ns_cluster row) name s = (e1, s1)" by fastforce
    with DeleteLimitRange_law [OF inv this] eq Inr p False show ?thesis
      by (auto simp: reconcileLimitRange_def only_ns_def limits_applied_def split: option.splits)
  qed
qed

lemma ensure_spec:
  assumes inv: "inv s" and eq: "ensure ops us row s = Some (e, s')"
    and name: "GenerateNamespace (ns_project_name row) (ns_project row) (ns_name row) = Some name"
  shows "inv s' \<and> only_ns (ns_cluster row, name) (view s) (view s') \<and>
    (\<forall>r. v_nss (view s) (ns_cluster row, name) = Some r \<and> \<not> owned us row r \<longrightarrow>
       v_nss (view s') (ns_cluster row, name) = Some r \<and>
       v_lrs (view s') (ns_cluster row, name) = v_lrs (view s) (ns_cluster row, name)) \<and>
    (e = None \<longrightarrow> ns_outcome us row (v_nss (view s) (ns_cluster row, name)) e (v_nss (view s') (ns_cluster row, name)) \<and>
       limits_applied row (v_lrs (view s') (ns_cluster row, name)))"
proof -
  obtain e1 s1 where en: "ensureNamespace ops us row name s = (e1, s1)" by fastforce
  note 1 = ensureNamespace_spec [OF inv en]
  show ?thesis
  proof (cases e1)
    case (Some x)
    with eq name en 1 show ?thesis by (auto simp: ensure_def ns_outcome_def)
  next
    case None
    with eq name en have rl: "reconcileLimitRange ops us row name s1 = (e, s')" by (simp add: ensure_def)
    from reconcileLimitRange_spec [OF conjunct1 [OF 1] rl] 1 None show ?thesis
      by (auto simp: ns_outcome_def intro: only_ns_trans)
  qed
qed

lemma delete_namespace_spec:
  assumes inv: "inv s" and eq: "delete_namespace ops us row s = Some (e, s')"
    and name: "GenerateNamespace (ns_project_name row) (ns_project row) (ns_name row) = Some name"
  shows "inv s' \<and> only_ns (ns_cluster row, name) (view s) (view s') \<and> v_lrs (view s') = v_lrs (view s) \<and>
    (\<forall>r. v_nss (view s) (ns_cluster row, name) = Some r \<and> \<not> owned us row r \<longrightarrow>
       v_nss (view s') (ns_cluster row, name) = Some r)"
proof -
  obtain a s1 where g: "GetNamespace ops (ns_cluster row) name s = (a, s1)" by fastforce
  note law = GetNamespace_law [OF inv g]
  show ?thesis
  proof (cases "\<exists>r. a = Inr (Some r) \<and> sget (r_labels r) LabelNamespaceID = us (ns_id row)")
    case False
    with eq name g have "s' = s1"
      by (auto simp: delete_namespace_def split: sum.splits option.splits if_splits)
    with law show ?thesis by simp
  next
    case True
    then obtain r where r: "a = Inr (Some r)" "sget (r_labels r) LabelNamespaceID = us (ns_id row)" by blast
    note get = GetNamespace_spec [OF inv g [unfolded r(1)]]
    obtain r0 where r0: "v_nss (view s) (ns_cluster row, name) = Some r0" "r_labels r0 = r_labels r"
      using get(4) by blast
    obtain e2 s2 where d: "DeleteNamespace ops (ns_cluster row) name s1 = (e2, s2)" by fastforce
    with eq name g r have "s' = s2"
      by (auto simp: delete_namespace_def split: option.splits)
    with DeleteNamespace_law [OF get(1) d] get(2) r0 r show ?thesis
      by (auto simp: only_ns_def owned_def)
  qed
qed

lemma syncNamespace_row:
  assumes inv: "inv (shoots w)" and eq: "syncNamespace ops us i w = Some (e, w')"
  obtains (untouched) "shoots w' = shoots w"
  | (row) row where "NamespaceGetForSync i (db w) = Inr row" "ns_shoot_status row = Some ''ready''"
      "if ns_deleted row = None then ensure ops us row (shoots w) = Some (e, shoots w')
       else delete_namespace ops us row (shoots w) = Some (e, shoots w')"
  using eq that
  by (auto simp: syncNamespace_def db_read_eq shoot_opt_def split: option.splits sum.splits if_splits)

lemma syncNamespace_safe:
  assumes inv: "inv (shoots w)" and eq: "syncNamespace ops us i w = Some (e, w')"
  shows "v_sas (view (shoots w')) = v_sas (view (shoots w)) \<and> v_crbs (view (shoots w')) = v_crbs (view (shoots w)) \<and>
    (\<forall>k r. v_nss (view (shoots w)) k = Some r \<and> sget (r_labels r) LabelNamespaceID \<noteq> us i \<longrightarrow>
       v_nss (view (shoots w')) k = Some r \<and> v_lrs (view (shoots w')) k = v_lrs (view (shoots w)) k)"
  using inv eq
proof (cases rule: syncNamespace_row)
  case (row row)
  have id: "ns_id row = i"
    using one_Inr_mem [OF row(1) [unfolded NamespaceGetForSync_def]] by (auto split: if_splits)
  obtain name where name: "GenerateNamespace (ns_project_name row) (ns_project row) (ns_name row) = Some name"
    using GenerateNamespace_total by blast
  show ?thesis
  proof (cases "ns_deleted row = None")
    case True
    with row(3) have "ensure ops us row (shoots w) = Some (e, shoots w')" by simp
    from ensure_spec [OF inv this name] id show ?thesis
      by (auto simp: only_ns_def owned_def) metis+
  next
    case False
    with row(3) have "delete_namespace ops us row (shoots w) = Some (e, shoots w')" by simp
    from delete_namespace_spec [OF inv this name] id show ?thesis
      by (auto simp: only_ns_def owned_def) metis+
  qed
qed simp

lemma delete_orphan_spec:
  assumes inv: "inv (shoots w)" and nf: "faults_ok w" and eq: "delete_orphan ops up cid n w = (e, w')"
  shows "inv (shoots w') \<and> calm w w' \<and> v_sas (view (shoots w')) = v_sas (view (shoots w)) \<and>
    v_crbs (view (shoots w')) = v_crbs (view (shoots w)) \<and> v_lrs (view (shoots w')) = v_lrs (view (shoots w)) \<and>
    (\<forall>k. v_nss (view (shoots w')) k \<noteq> v_nss (view (shoots w)) k \<longrightarrow> orphaned up (db w) (v_nss (view (shoots w)) k))"
proof -
  obtain a s1 where g: "GetNamespace ops cid n (shoots w) = (a, s1)" by fastforce
  note law = GetNamespace_law [OF inv g]
  show ?thesis
  proof (cases "shoots w' = s1")
    case True
    with law delete_orphan_calm [OF eq] show ?thesis by simp
  next
    case False
    with eq g obtain r i e2 s2 where r: "a = Inr (Some r)" "label_ns up r = Some i"
        and d: "DeleteNamespace ops cid n s1 = (e2, s2)" "shoots w' = s2" "calm w w'"
        and gone: "case NamespaceGetForSync i (db w) of Inl _ \<Rightarrow> True | Inr row \<Rightarrow> ns_deleted row \<noteq> None"
      using nf
      by (auto simp: delete_orphan_def shoot_do_def db_read_eq label_ns_def faults_ok_def
          split: sum.splits option.splits if_splits prod.splits)
    note get = GetNamespace_spec [OF inv g [unfolded r(1)]]
    obtain r0 where r0: "v_nss (view (shoots w)) (cid, n) = Some r0" "r_labels r0 = r_labels r"
      using get(4) by blast
    have orp: "orphaned up (db w) (v_nss (view (shoots w)) (cid, n))"
      using r(2) r0 gone by (auto simp: orphaned_def label_ns_def)
    from DeleteNamespace_law [OF get(1) d(1)] get(2) d(2,3) orp show ?thesis by (auto split: if_splits)
  qed
qed

lemma delete_orphans_spec:
  assumes "inv (shoots w)" "faults_ok w" "delete_orphans ops up cid ns errs w = (errs', w')"
  shows "inv (shoots w') \<and> calm w w' \<and> v_sas (view (shoots w')) = v_sas (view (shoots w)) \<and>
    v_crbs (view (shoots w')) = v_crbs (view (shoots w)) \<and> v_lrs (view (shoots w')) = v_lrs (view (shoots w)) \<and>
    (\<forall>k. v_nss (view (shoots w')) k \<noteq> v_nss (view (shoots w)) k \<longrightarrow> orphaned up (db w) (v_nss (view (shoots w)) k))"
  using assms
proof (induction ns arbitrary: errs w)
  case (Cons n ns)
  obtain e w1 where 1: "delete_orphan ops up cid n w = (e, w1)" by fastforce
  note s1 = delete_orphan_spec [OF Cons.prems(1,2) 1]
  have f1: "faults_ok w1" "db w1 = db w"
    using s1 Cons.prems(2) by (auto simp: faults_ok_def calm_defs)
  obtain errs1 where "delete_orphans ops up cid ns errs1 w1 = (errs', w')"
    using Cons.prems(3) 1 by (cases e) auto
  from Cons.IH [OF conjunct1 [OF s1] f1(1) this] s1 f1(2) show ?case
    by (auto intro: calm_trans) metis+
qed simp

lemma ns_reconcileCluster_safe:
  assumes inv: "inv (shoots w)" and nf: "faults_ok w" and eq: "ns_reconcileCluster ops us up maxRetries cid w = (e, w')"
  shows "v_sas (view (shoots w')) = v_sas (view (shoots w)) \<and>
    v_crbs (view (shoots w')) = v_crbs (view (shoots w)) \<and> v_lrs (view (shoots w')) = v_lrs (view (shoots w)) \<and>
    (\<forall>k. v_nss (view (shoots w')) k \<noteq> v_nss (view (shoots w)) k \<longrightarrow> orphaned up (db w) (v_nss (view (shoots w)) k))"
proof (cases "\<exists>e. fst (ListNamespaces ops cid LabelNamespaceID (shoots w)) = Inl e")
  case True
  then obtain x s1 where l: "ListNamespaces ops cid LabelNamespaceID (shoots w) = (Inl x, s1)"
    by (cases "ListNamespaces ops cid LabelNamespaceID (shoots w)") auto
  with eq have "shoots w' = shoots w \<or> shoots w' = s1"
    by (auto simp: ns_reconcileCluster_def db_read_eq shoot_do_def split: option.splits)
  with ListNamespaces_law [OF inv l] show ?thesis by auto
next
  case False
  then obtain nss s1 where l: "ListNamespaces ops cid LabelNamespaceID (shoots w) = (Inr nss, s1)"
    by (cases "ListNamespaces ops cid LabelNamespaceID (shoots w)") (metis fst_conv sum.exhaust)
  note law = ListNamespaces_law [OF inv l]
  consider (none) "shoots w' = shoots w" | (run) ids errs w1 errs1 names where
      "enqueue_namespaces us maxRetries ids [] (called w\<lparr>shoots := s1\<rparr>) = (errs, w1)"
      "delete_orphans ops up cid names errs w1 = (errs1, w')"
    using eq l by (auto simp: ns_reconcileCluster_def db_read_eq shoot_do_def split: option.splits prod.splits)
  then show ?thesis
  proof cases
    case run
    note en = enqueue_namespaces_frame [OF run(1)]
    have "inv (shoots w1)" "faults_ok w1" "db w1 = db w" "shoots w1 = s1"
      using law en nf by (auto simp: faults_ok_def)
    from delete_orphans_spec [OF this(1,2) run(2)] this law show ?thesis by simp
  qed simp
qed

end

section \<open>Lemmas: planning, limits, and the handler as a client of the outbox\<close>

lemma scan_namespaces_eq:
  "scan_namespaces up active rs on del = (on', del') \<Longrightarrow>
   set on' = set on \<union> {i \<in> set active. \<exists>r\<in>set rs. label_ns up r = Some i} \<and>
   del' = del @ map r_name (filter (\<lambda>r. \<exists>i. label_ns up r = Some i \<and> i \<notin> set active) rs)"
proof (induction rs arbitrary: on del)
  case (Cons r rs)
  show ?case
  proof (cases "label_ns up r")
    case None
    then have "scan_namespaces up active rs on del = (on', del')"
      using Cons.prems by (auto simp: label_ns_def split: option.splits)
    from Cons.IH [OF this] None show ?thesis by auto
  next
    case (Some i)
    then obtain raw where raw: "map_of (r_labels r) LabelNamespaceID = Some raw" "up raw = Some i"
      by (auto simp: label_ns_def bind_eq_Some_conv)
    show ?thesis
    proof (cases "i \<in> set active")
      case True
      with Cons.prems raw have "scan_namespaces up active rs (List.insert i on) del = (on', del')" by simp
      from Cons.IH [OF this] Some True show ?thesis by auto
    next
      case False
      with Cons.prems raw have "scan_namespaces up active rs on (del @ [r_name r]) = (on', del')" by simp
      from Cons.IH [OF this] Some False show ?thesis by auto
    qed
  qed
qed simp

lemma BuildPlan_eq:
  "BuildPlan up active nss =
    (filter (\<lambda>i. \<not> (\<exists>r\<in>set nss. label_ns up r = Some i)) active,
     map r_name (filter (\<lambda>r. \<exists>i. label_ns up r = Some i \<and> i \<notin> set active) nss))"
proof -
  obtain on del where sc: "scan_namespaces up active nss [] [] = (on, del)" by fastforce
  have "filter (\<lambda>i. i \<notin> set on) active = filter (\<lambda>i. \<not> (\<exists>r\<in>set nss. label_ns up r = Some i)) active"
    using scan_namespaces_eq [OF sc] by (intro filter_cong) auto
  with scan_namespaces_eq [OF sc] sc show ?thesis by (simp add: BuildPlan_def)
qed

lemma leastInt4_Some_iff:
  "leastInt4 a b = Some x \<longleftrightarrow> (a = Some x \<or> b = Some x) \<and> (\<forall>y. a = Some y \<or> b = Some y \<longrightarrow> x \<le> y)"
  by (cases a; cases b) (auto simp: leastInt4_def)

lemma leastInt4_None_iff [simp]: "leastInt4 a b = None \<longleftrightarrow> a = None \<and> b = None"
  by (cases a; cases b) (auto simp: leastInt4_def)

lemma leastInt4_simps [simp]: "leastInt4 (Some x) (Some y) = Some (min x y)"
  "leastInt4 None b = b" "leastInt4 a None = a"
  by (auto simp: leastInt4_def split: option.splits)

lemma syncNamespace_calm: "syncNamespace ops us i w = Some (e, w') \<Longrightarrow> calm w w'"
  by (auto simp: syncNamespace_def db_read_eq shoot_opt_def split: sum.splits option.splits if_splits)

lemma enqueueClusterNamespaces_ext: "enqueueClusterNamespaces us m cid w = (e, w') \<Longrightarrow> outbox_ext w w'"
proof -
  assume eq: "enqueueClusterNamespaces us m cid w = (e, w')"
  then consider "w' = called w" | errs where
      "enqueue_namespaces us m (NamespaceListActiveForCluster cid (db w)) [] (called w) = (errs, w')"
    by (auto simp: enqueueClusterNamespaces_def db_read_eq split: option.splits prod.splits)
  then show ?thesis
    by cases (auto intro: outbox_ext_called outbox_ext_trans [OF outbox_ext_called] dest: enqueue_namespaces_frame)
qed

lemma NamespaceSync_appends: "appends (NamespaceSync ops us m)"
  by (auto simp: appends_def NamespaceSync_def split: entity_type.splits
      intro: calm_ext syncNamespace_calm enqueueClusterNamespaces_ext outbox_ext_refl)

lemma ensure_total: "\<exists>e s'. ensure ops us row s = Some (e, s')"
  using GenerateNamespace_total [of "ns_project_name row" "ns_project row" "ns_name row"]
  by (auto simp: ensure_def split: prod.splits option.splits)

lemma delete_namespace_total: "\<exists>e s'. delete_namespace ops us row s = Some (e, s')"
  using GenerateNamespace_total [of "ns_project_name row" "ns_project row" "ns_name row"]
  by (auto simp: delete_namespace_def split: prod.splits sum.splits option.splits)

lemma NamespaceSync_total:
  fixes ops :: "'s shoot_ops" and w :: "('s, 'g) world"
  shows "\<exists>e w'. NamespaceSync ops us m i sc w = Some (e, w')"
proof -
  have "\<exists>e w'. shoot_opt (ensure ops us row) w = Some (e, w')" for row and w :: "('s, 'g) world"
    using ensure_total [of ops us row "shoots w"] by (auto simp: shoot_opt_def)
  moreover have "\<exists>e w'. shoot_opt (delete_namespace ops us row) w = Some (e, w')" for row and w :: "('s, 'g) world"
    using delete_namespace_total [of ops us row "shoots w"] by (auto simp: shoot_opt_def)
  ultimately have "\<exists>e w'. syncNamespace ops us i w = Some (e, w')"
    by (auto simp: syncNamespace_def db_read_eq split: sum.splits option.splits)
  then show ?thesis
    by (auto simp: NamespaceSync_def split: entity_type.splits)
qed

section \<open>Properties\<close>

text \<open>
  C8: the handler never adopts, relabels, limits or deletes a namespace that is not its own.
  Whatever \<open>syncNamespace\<close> returns, every namespace whose ownership label is not the identifier of
  the row - on any cluster - is as it was, and so is its LimitRange; ServiceAccounts and
  ClusterRoleBindings are never touched.
\<close>

theorem syncNamespace_never_touches_foreign:
  assumes "shoot_access ops ok view" "ok (shoots w)" "syncNamespace ops us i w = Some (e, w')"
    and "v_nss (view (shoots w)) k = Some r" "sget (r_labels r) LabelNamespaceID \<noteq> us i"
  shows "v_nss (view (shoots w')) k = Some r \<and> v_lrs (view (shoots w')) k = v_lrs (view (shoots w)) k \<and>
    v_sas (view (shoots w')) = v_sas (view (shoots w)) \<and> v_crbs (view (shoots w')) = v_crbs (view (shoots w))"
  using shoot_access.syncNamespace_safe [OF assms(1-3)] assms(4,5) by blast

text \<open>A project namespace on the ready cluster 7, and a foreign namespace \<open>x\<close> there.\<close>

definition sample_ns_db :: tenant_db where
  "sample_ns_db = empty_db\<lparr>
     projects := [\<lparr>p_id = 41, p_cluster = 7, p_name = ''Team'', p_deleted = None\<rparr>],
     namespaces := [\<lparr>n_id = 61, n_project = 41, n_name = ''a'', n_deleted = None\<rparr>],
     org_limits := [\<lparr>l_owner = 5, l_max_nodes_per_cluster = None, l_max_node_pools_per_cluster = None,
       l_max_nodes_per_node_pool = None, l_memory_request = Some 64, l_memory_limit = Some 128,
       l_cpu_request = None, l_cpu_limit = None, l_deleted = None\<rparr>],
     clusters := [\<lparr>c_id = 7, c_org = 5, c_name = ''c'', c_region = ''r'', c_version = ''v'', c_deleted = None,
       c_shoot_status = Some ''ready'', c_shoot_message = None, c_shoot_updated = None, c_outbox_status = None,
       c_outbox_retries = 0, c_outbox_error = None, c_region_id = None\<rparr>]\<rparr>"

definition sample_ns_world :: "(mock_shoot, unit) world" where
  "sample_ns_world = (blank_world (NewMockShootAccess\<lparr>m_nss := [((7, ''x''), plain_resource ''x'' [] [])]\<rparr>) ())
     \<lparr>db := sample_ns_db\<rparr>"

definition sample_ns_us :: "uuid \<Rightarrow> string" where
  "sample_ns_us u = replicate (Suc u) (CHR ''x'')"

definition sample_ns_row :: ns_sync_row where
  "sample_ns_row = \<lparr>ns_id = 61, ns_project = 41, ns_cluster = 7, ns_project_name = ''Team'', ns_org = 5, ns_name = ''a'',
     ns_deleted = None, ns_shoot_status = Some ''ready'', ns_org_limits = Some (hd (org_limits sample_ns_db)),
     ns_project_limits = None\<rparr>"

lemma sample_ns_row: "NamespaceGetForSync 61 sample_ns_db = Inr sample_ns_row"
  by (simp add: NamespaceGetForSync_def one_def sample_ns_db_def empty_db_def active_limits_def sample_ns_row_def)

lemma sample_ns_simps [simp]:
  "db sample_ns_world = sample_ns_db" "db_fault sample_ns_world = (\<lambda>_. None)" "mock_inv (shoots sample_ns_world)"
  "m_error (shoots sample_ns_world) = (\<lambda>_. None)"
  "v_nss (mock_view (shoots sample_ns_world)) (7, ''x'') = Some (plain_resource ''x'' [] [])"
  by (simp_all add: sample_ns_world_def blank_world_def mock_inv_def NewMockShootAccess_def mock_view_def)

theorem syncNamespace_never_touches_foreign_witness:
  "\<exists>e w'. syncNamespace mock_ops sample_ns_us 61 sample_ns_world = Some (e, w') \<and>
     v_nss (mock_view (shoots w')) (7, ''x'') = Some (plain_resource ''x'' [] [])"
proof -
  obtain e w' where w': "syncNamespace mock_ops sample_ns_us 61 sample_ns_world = Some (e, w')"
    using NamespaceSync_total [of mock_ops sample_ns_us 10 61 "\<lparr>sc_entity = EntityNamespace, sc_event = Created, sc_source = SrcTrigger\<rparr>"
        sample_ns_world]
    by (auto simp: NamespaceSync_def)
  have lab: "sget (r_labels (plain_resource ''x'' [] [])) LabelNamespaceID \<noteq> sample_ns_us 61"
    by (simp add: sget_def sample_ns_us_def)
  have ok: "mock_inv (shoots sample_ns_world)" "v_nss (mock_view (shoots sample_ns_world)) (7, ''x'') = Some (plain_resource ''x'' [] [])"
    by simp_all
  show ?thesis
    using syncNamespace_never_touches_foreign [OF mock.shoot_access_axioms ok(1) w' ok(2) lab] w' by blast
qed

text \<open>
  C9: a sync of an active namespace of a ready cluster that returns no error has materialized it:
  the namespace exists under the generated name with the managed labels, a namespace that was there
  already keeps its other labels, and the managed LimitRange holds the merged defaults (or is absent
  when there are none). While the shoot is not ready the row is deferred and nothing is called.
\<close>

theorem syncNamespace_converges:
  assumes "shoot_access ops ok view" "ok (shoots w)" "db_fault w = (\<lambda>_. None)"
    and "NamespaceGetForSync i (db w) = Inr row" "ns_deleted row = None"
    and "GenerateNamespace (ns_project_name row) (ns_project row) (ns_name row) = Some name"
    and "syncNamespace ops us i w = Some (e, w')"
  shows "if ns_shoot_status row \<noteq> Some ''ready''
    then e = Some (PreconditionError ''shoot not ready'') \<and> shoots w' = shoots w
    else if e = None
    then limits_applied row (v_lrs (view (shoots w')) (ns_cluster row, name)) \<and>
      (\<exists>r'. v_nss (view (shoots w')) (ns_cluster row, name) = Some r' \<and>
         submap (desiredLabels us row) (r_labels r') \<and>
         (case v_nss (view (shoots w)) (ns_cluster row, name) of
            None \<Rightarrow> True
          | Some r \<Rightarrow> map_of (r_labels r') = map_of (r_labels r) ++ map_of (desiredLabels us row)))
    else True"
proof (cases "ns_shoot_status row = Some ''ready''")
  case True
  with assms(3-5,7) have en: "ensure ops us row (shoots w) = Some (e, shoots w')"
    by (auto simp: syncNamespace_def db_read_eq shoot_opt_def)
  from shoot_access.ensure_spec [OF assms(1,2) en assms(6)] True show ?thesis
    by (auto simp: ns_outcome_def split: option.splits)
next
  case False
  with assms(3-5,7) show ?thesis
    by (auto simp: syncNamespace_def db_read_eq)
qed

theorem syncNamespace_converges_witness:
  "\<exists>name w'. GenerateNamespace ''Team'' 41 ''a'' = Some name \<and>
     syncNamespace mock_ops sample_ns_us 61 sample_ns_world = Some (None, w') \<and>
     (\<exists>r'. v_nss (mock_view (shoots w')) (7, name) = Some r' \<and> submap (desiredLabels sample_ns_us sample_ns_row) (r_labels r')) \<and>
     limits_applied sample_ns_row (v_lrs (mock_view (shoots w')) (7, name))"
proof -
  obtain name where name: "GenerateNamespace ''Team'' 41 ''a'' = Some name" "length name = 14"
    by (auto simp: GenerateNamespace_def name_lengths Bounded_HashHex)
  have lim: "mergedLimitDefaults sample_ns_row =
      Inr (\<lparr>CPURequestMilli = None, CPULimitMilli = None, MemoryRequestMi = Some 64, MemoryLimitMi = Some 128\<rparr>, True)"
    by (simp add: mergedLimitDefaults_def sample_ns_row_def sample_ns_db_def exceeds_def)
  have "name \<noteq> ''x''" using name(2) by auto
  then have "map_of (m_nss (shoots sample_ns_world)) (7, name) = None"
    by (simp add: sample_ns_world_def blank_world_def)
  then obtain m1 where m1: "ensureNamespace mock_ops sample_ns_us sample_ns_row name (shoots sample_ns_world) = (None, m1)"
      "m_error m1 = (\<lambda>_. None)"
    by (simp add: ensureNamespace_def Let_def mock_op_defs sample_ns_row_def)
  obtain m2 where m2: "reconcileLimitRange mock_ops sample_ns_us sample_ns_row name m1 = (None, m2)"
    using lim m1(2) by (simp add: reconcileLimitRange_def mock_op_defs)
  have "ensure mock_ops sample_ns_us sample_ns_row (shoots sample_ns_world) = Some (None, m2)"
    using name(1) m1(1) m2 by (simp add: ensure_def sample_ns_row_def)
  moreover have "ns_shoot_status sample_ns_row = Some ''ready''" "ns_deleted sample_ns_row = None"
    by (simp_all add: sample_ns_row_def)
  ultimately obtain w' where w': "syncNamespace mock_ops sample_ns_us 61 sample_ns_world = Some (None, w')"
    by (simp add: syncNamespace_def db_read_eq sample_ns_row shoot_opt_def)
  have ok: "mock_inv (shoots sample_ns_world)" "db_fault sample_ns_world = (\<lambda>_. None)" by simp_all
  have row: "NamespaceGetForSync 61 (db sample_ns_world) = Inr sample_ns_row" by (simp add: sample_ns_row)
  have act: "ns_deleted sample_ns_row = None" by (simp add: sample_ns_row_def)
  have gen: "GenerateNamespace (ns_project_name sample_ns_row) (ns_project sample_ns_row) (ns_name sample_ns_row) = Some name"
    using name(1) by (simp add: sample_ns_row_def)
  have "ns_shoot_status sample_ns_row = Some ''ready''" "ns_cluster sample_ns_row = 7" by (simp_all add: sample_ns_row_def)
  with syncNamespace_converges [OF mock.shoot_access_axioms ok row act gen w'] w' name(1) show ?thesis
    by auto
qed

text \<open>
  C10: reconciliation deletes orphans only. Whatever \<open>reconcileCluster\<close> returns, a namespace of a
  shoot has changed only if its label named a row that does not exist or is soft-deleted in the
  database at the time of the check; a namespace whose row is active is never deleted, and nothing
  else on the shoot is touched.
\<close>

theorem ns_reconcile_deletes_orphans_only:
  assumes "shoot_access ops ok view" "ok (shoots w)"
    and "\<And>k e. db_fault w k = Some e \<Longrightarrow> \<not> errors_is ErrNoRows e"
    and "ns_reconcileCluster ops us up maxRetries cid w = (e, w')"
  shows "v_sas (view (shoots w')) = v_sas (view (shoots w)) \<and> v_crbs (view (shoots w')) = v_crbs (view (shoots w)) \<and>
    v_lrs (view (shoots w')) = v_lrs (view (shoots w)) \<and>
    {k. v_nss (view (shoots w')) k \<noteq> v_nss (view (shoots w)) k} \<subseteq>
      {k. orphaned up (db w) (v_nss (view (shoots w)) k)}"
proof -
  have "faults_ok w" using assms(3) by (simp add: faults_ok_def)
  from shoot_access.ns_reconcileCluster_safe [OF assms(1,2) this assms(4)] show ?thesis by auto
qed

theorem ns_reconcile_deletes_orphans_only_witness:
  "\<exists>e w'. ns_reconcileCluster mock_ops sample_ns_us (\<lambda>s. Some (length s - 1)) 10 7 sample_ns_world = (e, w') \<and>
     {k. v_nss (mock_view (shoots w')) k \<noteq> v_nss (mock_view (shoots sample_ns_world)) k} \<subseteq>
       {k. orphaned (\<lambda>s. Some (length s - 1)) sample_ns_db (v_nss (mock_view (shoots sample_ns_world)) k)}"
proof -
  obtain e w' where w': "ns_reconcileCluster mock_ops sample_ns_us (\<lambda>s. Some (length s - 1)) 10 7 sample_ns_world = (e, w')"
    by fastforce
  have ok: "mock_inv (shoots sample_ns_world)" by simp
  have nf: "\<And>k e. db_fault sample_ns_world k = Some e \<Longrightarrow> \<not> errors_is ErrNoRows e" by simp
  from ns_reconcile_deletes_orphans_only [OF mock.shoot_access_axioms ok nf w'] w' show ?thesis by auto
qed

text \<open>
  The plan of a namespace reconciliation: exactly the active rows without a namespace are
  enqueued, in their order, and exactly the namespaces with a readable label of an inactive row are
  candidates for deletion; unlabelled and unreadable ones never are.
\<close>

theorem BuildPlan_exact:
  "BuildPlan up active nss =
    (filter (\<lambda>i. \<not> (\<exists>r\<in>set nss. label_ns up r = Some i)) active,
     map r_name (filter (\<lambda>r. \<exists>i. label_ns up r = Some i \<and> i \<notin> set active) nss))"
  by (rule BuildPlan_eq)

text \<open>
  Merged defaults. When the organization and the project both set both bounds of a resource and
  each is consistent (request at most limit), merging cannot fail, and each merged value is the
  lower of the two: a project can only tighten its organization's defaults.
\<close>

theorem mergedLimitDefaults_tightens:
  assumes "ns_org_limits row = Some lo" "ns_project_limits row = Some lp"
    and "l_cpu_request lo = Some a" "l_cpu_limit lo = Some b" "l_cpu_request lp = Some c" "l_cpu_limit lp = Some d"
    and "l_memory_request lo = Some a'" "l_memory_limit lo = Some b'" "l_memory_request lp = Some c'" "l_memory_limit lp = Some d'"
    and "a \<le> b" "c \<le> d" "a' \<le> b'" "c' \<le> d'"
  shows "mergedLimitDefaults row = Inr (\<lparr>CPURequestMilli = Some (min c a), CPULimitMilli = Some (min d b),
    MemoryRequestMi = Some (min c' a'), MemoryLimitMi = Some (min d' b')\<rparr>, True)"
  using assms by (simp add: mergedLimitDefaults_def exceeds_def Let_def min_def)

theorem mergedLimitDefaults_tightens_witness:
  "mergedLimitDefaults (sample_ns_row
     \<lparr>ns_org_limits := Some ((hd (org_limits sample_ns_db))\<lparr>l_cpu_request := Some 100, l_cpu_limit := Some 500\<rparr>),
      ns_project_limits := Some ((hd (org_limits sample_ns_db))\<lparr>l_cpu_request := Some 200, l_cpu_limit := Some 300\<rparr>)\<rparr>) =
   Inr (\<lparr>CPURequestMilli = Some 100, CPULimitMilli = Some 300, MemoryRequestMi = Some 64, MemoryLimitMi = Some 128\<rparr>, True)"
proof -
  let ?l = "hd (org_limits sample_ns_db)"
  have l: "l_memory_request ?l = Some 64" "l_memory_limit ?l = Some 128"
    by (simp_all add: sample_ns_db_def)
  show ?thesis
    using mergedLimitDefaults_tightens [of "sample_ns_row
        \<lparr>ns_org_limits := Some (?l\<lparr>l_cpu_request := Some 100, l_cpu_limit := Some 500\<rparr>),
         ns_project_limits := Some (?l\<lparr>l_cpu_request := Some 200, l_cpu_limit := Some 300\<rparr>)\<rparr>"
        "?l\<lparr>l_cpu_request := Some 100, l_cpu_limit := Some 500\<rparr>" "?l\<lparr>l_cpu_request := Some 200, l_cpu_limit := Some 300\<rparr>"
        100 500 200 300 64 128 64 128] l
    by simp
qed

end
