(* ===== verification/Cluster_Db.thy ===== *)
theory Cluster_Db
  imports Tenant_Db
begin

text \<open>
  The queries of the cluster handler: \<open>cluster-worker/pkg/db/gen/cluster.sql.go\<close>, \<open>common.sql.go\<close> and
  \<open>limits.sql.go\<close>, over the tables of \<open>Tenant_Db\<close>. Rows that a query leaves unordered come in the
  order of the table.
\<close>

section \<open>Reading\<close>

definition region_row_of :: "tenant_db \<Rightarrow> cluster_row \<Rightarrow> region_row option" where
  "region_row_of d c = (case c_region_id c of None \<Rightarrow> None | Some r \<Rightarrow> lookup_row rg_id r (regions d))"

definition cloud_profile_of :: "tenant_db \<Rightarrow> cluster_row \<Rightarrow> string option" where
  "cloud_profile_of d c = Option.bind (region_row_of d c) rg_cloud_profile"

definition cloud_profile_region_of :: "tenant_db \<Rightarrow> cluster_row \<Rightarrow> string option" where
  "cloud_profile_region_of d c = Option.bind (region_row_of d c) rg_cloud_profile_region"

record cluster_sync_row =
  cg_id :: uuid
  cg_name :: string
  cg_region :: string
  cg_version :: string
  cg_deleted :: "micros option"
  cg_org :: uuid
  cg_org_name :: string
  cg_cloud_profile :: "string option"
  cg_cloud_profile_region :: "string option"

definition sync_row_of :: "tenant_db \<Rightarrow> cluster_row \<Rightarrow> org_row \<Rightarrow> cluster_sync_row" where
  "sync_row_of d c org = \<lparr>cg_id = c_id c, cg_name = c_name c, cg_region = c_region c, cg_version = c_version c,
     cg_deleted = c_deleted c, cg_org = c_org c, cg_org_name = o_name org,
     cg_cloud_profile = cloud_profile_of d c, cg_cloud_profile_region = cloud_profile_region_of d c\<rparr>"

definition ClusterGetForSync :: "uuid \<Rightarrow> tenant_db \<Rightarrow> gerr + cluster_sync_row" where
  "ClusterGetForSync i d = one
     [sync_row_of d c org. c \<leftarrow> clusters d, c_id c = i, org \<leftarrow> orgs d, o_id org = c_org c]"

definition ClusterHasEverBeenSynced :: "uuid \<Rightarrow> ('s, 'g) world \<Rightarrow> bool" where
  "ClusterHasEverBeenSynced cid w = list_ex (\<lambda>r. ob_cluster r = Some cid \<and> ob_status r = Completed) (outbox w)"

record active_row =
  ca_id :: uuid
  ca_name :: string
  ca_deleted :: "micros option"
  ca_org_name :: string
  ca_completed :: bool

definition ClusterListActive :: "tenant_db \<Rightarrow> active_row list" where
  "ClusterListActive d = sort_key ca_id
     [\<lparr>ca_id = c_id c, ca_name = c_name c, ca_deleted = c_deleted c, ca_org_name = o_name org,
       ca_completed = (c_outbox_status c = Some Completed)\<rparr>.
       c \<leftarrow> clusters d, org \<leftarrow> orgs d, o_id org = c_org c \<and> c_deleted c = None]"

text \<open>The rows of the two status queries: the columns of \<open>ClusterGetForSync\<close> and the status.\<close>

record status_row = cluster_sync_row +
  cs_status :: "string option"
  cs_updated :: "micros option"

definition status_row_of :: "tenant_db \<Rightarrow> cluster_row \<Rightarrow> org_row \<Rightarrow> status_row" where
  "status_row_of d c org = cluster_sync_row.extend (sync_row_of d c org)
     \<lparr>cs_status = c_shoot_status c, cs_updated = c_shoot_updated c\<rparr>"

text \<open>\<open>ORDER BY shoot_status_updated NULLS FIRST LIMIT n\<close>.\<close>

definition oldest_first :: "int \<Rightarrow> status_row list \<Rightarrow> status_row list" where
  "oldest_first n rows = take (nat n)
     (filter (\<lambda>r. cs_updated r = None) rows @
      sort_key (\<lambda>r. the (cs_updated r)) (filter (\<lambda>r. cs_updated r \<noteq> None) rows))"

definition not_recent :: "micros \<Rightarrow> cluster_row \<Rightarrow> bool" where
  "not_recent now c = (case c_shoot_updated c of None \<Rightarrow> True | Some t \<Rightarrow> t < now - 30000000)"

definition needs_check :: "micros \<Rightarrow> cluster_row \<Rightarrow> bool" where
  "needs_check now c \<longleftrightarrow> (c_shoot_status c \<noteq> None \<or> c_outbox_status c = Some Completed) \<and> c_deleted c = None \<and>
     (c_shoot_status c = None \<or> c_shoot_status c = Some ''pending'' \<or> c_shoot_status c = Some ''progressing'' \<or>
      c_shoot_status c = Some ''error'') \<and> not_recent now c"

definition ClusterListNeedingStatusCheck :: "int \<Rightarrow> ('s, 'g) world \<Rightarrow> status_row list" where
  "ClusterListNeedingStatusCheck n w = oldest_first n
     [status_row_of (db w) c org. c \<leftarrow> clusters (db w), org \<leftarrow> orgs (db w),
        o_id org = c_org c \<and> needs_check (clock w) c]"

definition needs_verification :: "micros \<Rightarrow> cluster_row \<Rightarrow> bool" where
  "needs_verification now c \<longleftrightarrow> (c_shoot_status c \<noteq> None \<or> c_outbox_status c = Some Completed) \<and> c_deleted c \<noteq> None \<and>
     (c_shoot_status c = None \<or> c_shoot_status c \<noteq> Some ''deleted'') \<and> not_recent now c"

definition ClusterListDeletedNeedingVerification :: "int \<Rightarrow> ('s, 'g) world \<Rightarrow> status_row list" where
  "ClusterListDeletedNeedingVerification n w = oldest_first n
     [status_row_of (db w) c org. c \<leftarrow> clusters (db w), org \<leftarrow> orgs (db w),
        o_id org = c_org c \<and> needs_verification (clock w) c]"

definition NodePoolGetClusterID :: "uuid \<Rightarrow> tenant_db \<Rightarrow> gerr + uuid" where
  "NodePoolGetClusterID i d = one [np_cluster np. np \<leftarrow> node_pools d, np_id np = i]"

record pool_row =
  pr_id :: uuid
  pr_name :: string
  pr_machine_type :: string
  pr_min :: int
  pr_max :: int
  pr_created :: micros

definition machine_type_name :: "tenant_db \<Rightarrow> node_pool_row \<Rightarrow> string" where
  "machine_type_name d np =
     (case Option.bind (np_machine_type_id np) (map_of (catalog_machine d)) of
        None \<Rightarrow> np_machine_type np
      | Some n \<Rightarrow> n)"

text \<open>Ordered by creation time, then by id: two stable sorts.\<close>

definition NodePoolListByClusterID :: "uuid \<Rightarrow> tenant_db \<Rightarrow> pool_row list" where
  "NodePoolListByClusterID cid d = sort_key pr_created (sort_key pr_id
     [\<lparr>pr_id = np_id np, pr_name = np_name np, pr_machine_type = machine_type_name d np, pr_min = np_min np,
       pr_max = np_max np, pr_created = np_created np\<rparr>.
       np \<leftarrow> node_pools d, np_cluster np = cid \<and> np_deleted np = None])"

definition OrganizationLimitsGetByOrgID :: "uuid \<Rightarrow> tenant_db \<Rightarrow> gerr + (int option \<times> int option \<times> int option)" where
  "OrganizationLimitsGetByOrgID org d = one
     [(l_max_nodes_per_cluster l, l_max_node_pools_per_cluster l, l_max_nodes_per_node_pool l).
       l \<leftarrow> org_limits d, l_owner l = org \<and> l_deleted l = None]"

section \<open>Writing\<close>

definition add_event :: "cluster_event \<Rightarrow> ('s, 'g) world \<Rightarrow> ('s, 'g) world" where
  "add_event e w = w\<lparr>events := events w @ [e]\<rparr>"

definition ClusterCreateStatusEvent :: "uuid \<Rightarrow> string \<Rightarrow> string \<Rightarrow> ('s, 'g) world \<Rightarrow> ('s, 'g) world" where
  "ClusterCreateStatusEvent cid ty msg =
     add_event \<lparr>ev_cluster = cid, ev_type = ty, ev_sync_action = None, ev_message = Some msg\<rparr>"

definition ClusterCreateSyncFailedEvent :: "uuid \<Rightarrow> string \<Rightarrow> string \<Rightarrow> ('s, 'g) world \<Rightarrow> ('s, 'g) world" where
  "ClusterCreateSyncFailedEvent cid action msg =
     add_event \<lparr>ev_cluster = cid, ev_type = ''sync_failed'', ev_sync_action = Some action, ev_message = Some msg\<rparr>"

definition ClusterCreateSyncSucceededEvent :: "uuid \<Rightarrow> string \<Rightarrow> string option \<Rightarrow> ('s, 'g) world \<Rightarrow> ('s, 'g) world" where
  "ClusterCreateSyncSucceededEvent cid action msg =
     add_event \<lparr>ev_cluster = cid, ev_type = ''sync_succeeded'', ev_sync_action = Some action, ev_message = msg\<rparr>"

definition set_shoot_status :: "micros \<Rightarrow> string \<Rightarrow> string \<Rightarrow> cluster_row \<Rightarrow> cluster_row" where
  "set_shoot_status now st msg c =
     c\<lparr>c_shoot_status := Some st, c_shoot_message := Some msg, c_shoot_updated := Some now\<rparr>"

definition ClusterUpdateShootStatus :: "uuid \<Rightarrow> string \<Rightarrow> string \<Rightarrow> ('s, 'g) world \<Rightarrow> ('s, 'g) world" where
  "ClusterUpdateShootStatus cid st msg w =
     w\<lparr>db := (db w)\<lparr>clusters := update_where (\<lambda>c. c_id c = cid) (set_shoot_status (clock w) st msg) (clusters (db w))\<rparr>\<rparr>"

section \<open>Lemmas\<close>

lemma add_event_frame [simp]:
  "clock (add_event e w) = clock w" "db_fault (add_event e w) = db_fault w" "db_calls (add_event e w) = db_calls w"
  "new_uuid (add_event e w) = new_uuid w" "n_uuids (add_event e w) = n_uuids w" "outbox (add_event e w) = outbox w"
  "locked (add_event e w) = locked w" "db (add_event e w) = db w" "shoots (add_event e w) = shoots w"
  "garden (add_event e w) = garden w" "events (add_event e w) = events w @ [e]"
  by (simp_all add: add_event_def)

lemma quiet_add_event [simp]: "quiet w (add_event e w') = quiet w w'"
  by (simp add: quiet_def)

lemmas cluster_events_defs = ClusterCreateStatusEvent_def ClusterCreateSyncFailedEvent_def ClusterCreateSyncSucceededEvent_def

lemma ClusterUpdateShootStatus_frame [simp]:
  "clock (ClusterUpdateShootStatus c st msg w) = clock w" "db_fault (ClusterUpdateShootStatus c st msg w) = db_fault w"
  "db_calls (ClusterUpdateShootStatus c st msg w) = db_calls w"
  "new_uuid (ClusterUpdateShootStatus c st msg w) = new_uuid w" "n_uuids (ClusterUpdateShootStatus c st msg w) = n_uuids w"
  "outbox (ClusterUpdateShootStatus c st msg w) = outbox w" "locked (ClusterUpdateShootStatus c st msg w) = locked w"
  "events (ClusterUpdateShootStatus c st msg w) = events w" "shoots (ClusterUpdateShootStatus c st msg w) = shoots w"
  "garden (ClusterUpdateShootStatus c st msg w) = garden w"
  by (simp_all add: ClusterUpdateShootStatus_def)

lemma outbox_ext_update_status [ext_intro]: "outbox_ext w (ClusterUpdateShootStatus c st msg w)"
  by (rule outbox_ext_same) simp_all

lemma outbox_ext_add_event [ext_intro]: "outbox_ext w (add_event e w)"
  by (rule outbox_ext_same) simp_all

text \<open>The rows of the status queries come from clusters in the table.\<close>

lemma set_oldest_first: "set (oldest_first n rows) \<subseteq> set rows"
  unfolding oldest_first_def by (rule order_trans [OF set_take_subset]) auto

lemma status_row_of_simps [simp]:
  "cg_id (status_row_of d c org) = c_id c" "cg_name (status_row_of d c org) = c_name c"
  "cg_deleted (status_row_of d c org) = c_deleted c" "cg_org (status_row_of d c org) = c_org c"
  "cg_org_name (status_row_of d c org) = o_name org" "cs_status (status_row_of d c org) = c_shoot_status c"
  "cs_updated (status_row_of d c org) = c_shoot_updated c"
  by (simp_all add: status_row_of_def sync_row_of_def cluster_sync_row.defs)

lemma NeedingStatusCheck_sound:
  "r \<in> set (ClusterListNeedingStatusCheck n w) \<Longrightarrow>
   \<exists>c\<in>set (clusters (db w)). cg_id r = c_id c \<and> cs_status r = c_shoot_status c \<and> needs_check (clock w) c"
  unfolding ClusterListNeedingStatusCheck_def by (drule subsetD [OF set_oldest_first]) fastforce

lemma NeedingVerification_sound:
  "r \<in> set (ClusterListDeletedNeedingVerification n w) \<Longrightarrow>
   \<exists>c\<in>set (clusters (db w)). cg_id r = c_id c \<and> cg_deleted r = c_deleted c \<and> needs_verification (clock w) c"
  unfolding ClusterListDeletedNeedingVerification_def by (drule subsetD [OF set_oldest_first]) fastforce

end
