(* ===== verification/Gardener.thy ===== *)
theory Gardener
  imports Kubename ShootAccess
begin

text \<open>
  The Gardener client of the cluster-worker (\<open>cluster-worker/pkg/client/gardener\<close>): its types
  (\<open>client.go\<close>), the organization node caps (\<open>limits.go\<close>), the \<open>Client\<close> interface as the record
  \<open>gardener_ops\<close> with the locale \<open>gardener\<close> for what the cluster handler relies on. Every operation
  takes the time its clock shows. The in-memory provider is in \<open>GardenMock\<close>, the Kubernetes-backed
  one in \<open>GardenReal\<close>; both satisfy the locale.
\<close>

section \<open>Types (client.go, labels.go, naming.go)\<close>

type_synonym shoot_status_type = string

definition StatusPending :: shoot_status_type where "StatusPending = ''pending''"
definition StatusProgressing :: shoot_status_type where "StatusProgressing = ''progressing''"
definition StatusReady :: shoot_status_type where "StatusReady = ''ready''"
definition StatusError :: shoot_status_type where "StatusError = ''error''"
definition StatusDeleting :: shoot_status_type where "StatusDeleting = ''deleting''"
definition StatusDeleted :: shoot_status_type where "StatusDeleted = ''deleted''"

lemmas status_defs = StatusPending_def StatusProgressing_def StatusReady_def StatusError_def
  StatusDeleting_def StatusDeleted_def

record shoot_status =
  st_status :: shoot_status_type
  st_message :: string

definition MsgShootNotFound :: string where "MsgShootNotFound = ''Shoot not found in Gardener''"
definition MsgShootReady :: string where "MsgShootReady = ''Shoot is ready''"

record admin_kubeconfig =
  ak_kubeconfig :: string
  ak_expires_at :: micros

record node_pool =
  pool_name :: string
  pool_machine_type :: string
  AutoscaleMin :: int
  AutoscaleMax :: int
  pool_zone :: string

record node_limits =
  MaxNodesPerCluster :: "int option"
  MaxNodePoolsPerCluster :: "int option"
  MaxNodesPerNodePool :: "int option"

record cluster_to_sync =
  cs_id :: uuid
  cs_org :: uuid
  cs_org_name :: string
  cs_name :: string
  cs_shoot_name :: string
  cs_namespace :: string
  cs_region :: string
  cs_version :: string
  cs_cloud_profile :: string
  cs_cloud_profile_region :: string
  cs_deleted :: "micros option"
  cs_pools :: "node_pool list"
  cs_limits :: node_limits

record shoot_info =
  si_name :: string
  si_namespace :: string
  si_cluster :: uuid
  si_labels :: smap

definition LabelPrefix :: string where "LabelPrefix = ''fundament.io''"
definition LabelClusterID :: string where "LabelClusterID = LabelPrefix @ ''/cluster-id''"
definition LabelOrganizationID :: string where "LabelOrganizationID = LabelPrefix @ ''/organization-id''"
definition AnnotationClusterName :: string where "AnnotationClusterName = LabelPrefix @ ''/cluster-name''"

definition NamespaceFromProjectName :: "string \<Rightarrow> string" where
  "NamespaceFromProjectName projectName = ''garden-'' @ projectName"

text \<open>The \<open>%q\<close> verb on ASCII text; the bytes of other characters are kept.\<close>

definition quote_char :: "char \<Rightarrow> string" where
  "quote_char c =
     (let n = (of_char c :: nat); bs = CHR 0x5C
      in if n = 34 \<or> n = 92 then [bs, c]
         else if n = 7 then [bs, CHR ''a''] else if n = 8 then [bs, CHR ''b'']
         else if n = 12 then [bs, CHR ''f''] else if n = 10 then [bs, CHR ''n'']
         else if n = 13 then [bs, CHR ''r''] else if n = 9 then [bs, CHR ''t'']
         else if n = 11 then [bs, CHR ''v'']
         else if n < 32 \<or> n = 127 then [bs, CHR ''x'', hex_digit (n div 16), hex_digit (n mod 16)]
         else [c])"

definition go_quote :: "string \<Rightarrow> string" where
  "go_quote s = [CHR 0x22] @ concat (map quote_char s) @ [CHR 0x22]"

section \<open>Node caps (limits.go)\<close>

definition defaultWorkerMinimum :: int where "defaultWorkerMinimum = 1"
definition defaultWorkerMaximum :: int where "defaultWorkerMaximum = 3"

text \<open>The fields of a \<open>gardencorev1beta1.Worker\<close> the client sets.\<close>

record worker =
  wk_name :: string
  wk_machine_type :: string
  wk_image_name :: string
  wk_image_version :: string
  wk_minimum :: int
  wk_maximum :: int
  wk_max_surge :: int
  wk_max_unavailable :: int
  wk_zones :: "string list"

definition clamp_worker :: "int \<Rightarrow> worker \<Rightarrow> worker" where
  "clamp_worker cap w =
     (let w1 = (if cap < wk_maximum w then w\<lparr>wk_maximum := cap\<rparr> else w)
      in if wk_maximum w1 < wk_minimum w1 then w1\<lparr>wk_minimum := wk_maximum w1\<rparr> else w1)"

definition clampWorkerMaxima :: "worker list \<Rightarrow> int option \<Rightarrow> worker list" where
  "clampWorkerMaxima workers cap = (case cap of None \<Rightarrow> workers | Some c \<Rightarrow> map (clamp_worker c) workers)"

definition clampedNodePoolMaximum :: "int \<Rightarrow> int option \<Rightarrow> int" where
  "clampedNodePoolMaximum autoscaleMax cap =
     (case cap of None \<Rightarrow> autoscaleMax | Some c \<Rightarrow> if c < autoscaleMax then c else autoscaleMax)"

text \<open>The sum of the maxima is an \<open>int32\<close>.\<close>

fun sum_maxima :: "node_pool list \<Rightarrow> int option \<Rightarrow> int \<Rightarrow> int" where
  "sum_maxima [] cap acc = acc"
| "sum_maxima (np # nps) cap acc =
     sum_maxima nps cap (wrap32 (acc + clampedNodePoolMaximum (AutoscaleMax np) cap))"

definition effectiveWorkerCounts :: "node_pool list \<Rightarrow> int option \<Rightarrow> int \<times> int" where
  "effectiveWorkerCounts pools cap =
     (if pools = [] then (1, clampedNodePoolMaximum defaultWorkerMaximum cap)
      else (int (length pools), sum_maxima pools cap 0))"

text \<open>A \<open>nil\<close> cap is never exceeded.\<close>

definition exceeds_cap :: "int option \<Rightarrow> int \<Rightarrow> bool" where
  "exceeds_cap cap n = (case cap of None \<Rightarrow> False | Some c \<Rightarrow> c < n)"

definition validateNodeLimits :: "node_pool list \<Rightarrow> node_limits \<Rightarrow> gerr option" where
  "validateNodeLimits pools limits =
     (case effectiveWorkerCounts pools (MaxNodesPerNodePool limits) of
        (poolCount, totalMaximum) \<Rightarrow>
          if exceeds_cap (MaxNodePoolsPerCluster limits) poolCount
          then Some (ErrNew (''organization node limit exceeded: max_node_pools_per_cluster is '' @
            int_str (the (MaxNodePoolsPerCluster limits)) @ '' but the cluster defines '' @
            int_str poolCount @ '' worker pools''))
          else if exceeds_cap (MaxNodesPerCluster limits) totalMaximum
          then Some (ErrNew (''organization node limit exceeded: max_nodes_per_cluster is '' @
            int_str (the (MaxNodesPerCluster limits)) @ '' but the worker pool maxima sum to '' @
            int_str totalMaximum))
          else None)"

section \<open>The interface\<close>

record 'g gardener_ops =
  EnsureProject :: "micros \<Rightarrow> string \<Rightarrow> uuid \<Rightarrow> 'g \<Rightarrow> (gerr + string) \<times> 'g"
  ApplyShoot :: "micros \<Rightarrow> cluster_to_sync \<Rightarrow> 'g \<Rightarrow> gerr option \<times> 'g"
  DeleteShootByClusterID :: "micros \<Rightarrow> uuid \<Rightarrow> 'g \<Rightarrow> gerr option \<times> 'g"
  ListShoots :: "micros \<Rightarrow> 'g \<Rightarrow> (gerr + shoot_info list) \<times> 'g"
  GetShootStatus :: "micros \<Rightarrow> cluster_to_sync \<Rightarrow> 'g \<Rightarrow> (gerr + shoot_status) \<times> 'g"
  RequestAdminKubeconfig :: "micros \<Rightarrow> uuid \<Rightarrow> int \<Rightarrow> 'g \<Rightarrow> (gerr + admin_kubeconfig) \<times> 'g"

text \<open>A call on the client, from a handler.\<close>

definition garden_do :: "(micros \<Rightarrow> 'g \<Rightarrow> 'a \<times> 'g) \<Rightarrow> ('s, 'g) world \<Rightarrow> 'a \<times> ('s, 'g) world" where
  "garden_do f w = (case f (clock w) (garden w) of (x, g) \<Rightarrow> (x, w\<lparr>garden := g\<rparr>))"

text \<open>The statuses a client reports.\<close>

definition known_status :: "shoot_status_type \<Rightarrow> bool" where
  "known_status t \<longleftrightarrow> t \<in> {StatusPending, StatusProgressing, StatusReady, StatusError, StatusDeleting, StatusDeleted}"

definition not_found_status :: "shoot_status \<Rightarrow> bool" where
  "not_found_status st \<longleftrightarrow> st_status st = StatusPending \<and> st_message st = MsgShootNotFound"

text \<open>
  The contract. \<open>live g c\<close>: a shoot that carries the identifier of cluster \<open>c\<close> exists;
  \<open>going g c\<close>: it is marked for deletion; \<open>reflects g cs\<close>: the shoot of the cluster has the
  specification \<open>cs\<close> asks for. A shoot that disappears by itself was marked for deletion; only
  \<open>ApplyShoot\<close> makes one appear, for the cluster it is given, and then the organization's aggregate
  caps hold of it. A list is complete. \<open>MsgShootNotFound\<close> is reported only when there is no shoot.
\<close>

locale gardener =
  fixes ops :: "'g gardener_ops"
    and up :: "string \<Rightarrow> uuid option"
    and ok :: "'g \<Rightarrow> bool"
    and live :: "'g \<Rightarrow> uuid \<Rightarrow> bool"
    and going :: "'g \<Rightarrow> uuid \<Rightarrow> bool"
    and reflects :: "'g \<Rightarrow> cluster_to_sync \<Rightarrow> bool"
  assumes EnsureProject_law:
      "ok g \<Longrightarrow> EnsureProject ops now p org g = (n, g') \<Longrightarrow> ok g' \<and> live g' = live g \<and> going g' = going g"
    and ApplyShoot_law:
      "ok g \<Longrightarrow> ApplyShoot ops now cs g = (e, g') \<Longrightarrow> ok g' \<and>
         (\<forall>d. d \<noteq> cs_id cs \<longrightarrow> live g' d \<longrightarrow> live g d \<and> going g' d = going g d) \<and>
         (e = None \<longrightarrow> live g' (cs_id cs) \<and> reflects g' cs \<and> validateNodeLimits (cs_pools cs) (cs_limits cs) = None)"
    and DeleteShoot_law:
      "ok g \<Longrightarrow> DeleteShootByClusterID ops now c g = (e, g') \<Longrightarrow> ok g' \<and>
         (\<forall>d. d \<noteq> c \<longrightarrow> live g' d = live g d \<and> going g' d = going g d) \<and>
         (live g' c \<longrightarrow> live g c \<and> (going g c \<longrightarrow> going g' c)) \<and>
         (e = None \<longrightarrow> live g' c \<longrightarrow> going g' c)"
    and ListShoots_law:
      "ok g \<Longrightarrow> ListShoots ops now g = (l, g') \<Longrightarrow> ok g' \<and>
         (\<forall>d. if live g' d then live g d \<and> going g' d = going g d else live g d \<longrightarrow> going g d) \<and>
         (\<forall>is. l = Inr is \<longrightarrow> {d. live g' d} =
            {d. \<exists>i\<in>set is. \<exists>t. map_of (si_labels i) LabelClusterID = Some t \<and> up t = Some d})"
    and GetShootStatus_law:
      "ok g \<Longrightarrow> GetShootStatus ops now cs g = (r, g') \<Longrightarrow> ok g' \<and>
         (\<forall>d. if live g' d then live g d \<and> going g' d = going g d else live g d \<longrightarrow> going g d) \<and>
         (\<forall>st. r = Inr st \<longrightarrow> known_status (st_status st) \<and> (not_found_status st \<longrightarrow> \<not> live g' (cs_id cs)))"

text \<open>A client keeps its contract on every part of its states that its operations do not leave.\<close>

context gardener
begin

lemma restricted:
  assumes "\<And>g now p org. ok g \<Longrightarrow> P g \<Longrightarrow> P (snd (EnsureProject ops now p org g))"
    and "\<And>g now cs. ok g \<Longrightarrow> P g \<Longrightarrow> P (snd (ApplyShoot ops now cs g))"
    and "\<And>g now c. ok g \<Longrightarrow> P g \<Longrightarrow> P (snd (DeleteShootByClusterID ops now c g))"
    and "\<And>g now. ok g \<Longrightarrow> P g \<Longrightarrow> P (snd (ListShoots ops now g))"
    and "\<And>g now cs. ok g \<Longrightarrow> P g \<Longrightarrow> P (snd (GetShootStatus ops now cs g))"
  shows "gardener ops up (\<lambda>g. ok g \<and> P g) live going reflects"
proof (unfold_locales, goal_cases)
  case (1 g now p org n g')
  then show ?case using EnsureProject_law [of g now p org n g'] assms(1) [of g now p org] by simp
next
  case (2 g now cs e g')
  then show ?case using ApplyShoot_law [of g now cs e g'] assms(2) [of g now cs] by simp
next
  case (3 g now c e g')
  then show ?case using DeleteShoot_law [of g now c e g'] assms(3) [of g now c] by simp
next
  case (4 g now l g')
  then show ?case using ListShoots_law [of g now l g'] assms(4) [of g now] by simp
next
  case (5 g now cs r g')
  then show ?case using GetShootStatus_law [of g now cs r g'] assms(5) [of g now cs] by simp
qed

end

end
