(* ===== verification/ClusterHandler.thy ===== *)
theory ClusterHandler
  imports Cluster_Db Outbox Gardener UserPlan
begin

text \<open>
  The cluster handler \<open>cluster-worker/pkg/handler/cluster\<close>: it keeps one Gardener Shoot per cluster
  (\<open>sync.go\<close>), guards its work by preconditions (\<open>mod.go\<close>), polls the status of Shoots (\<open>status.go\<close>) and
  repairs drift and orphans (\<open>reconcile.go\<close>). The Gardener client is the parameter \<open>gops\<close>; its state is
  the \<open>garden\<close> field of the world. A result \<open>None\<close> is a panic. \<open>cancelled k\<close> is the answer of the \<open>k\<close>-th
  test of \<open>ctx.Err()\<close>.
\<close>

record cluster_cfg =
  StatusBatchSize :: int
  cc_MaxRetries :: int

section \<open>Helpers (helpers.go)\<close>

definition textOrEmpty :: "string option \<Rightarrow> string" where
  "textOrEmpty t = (case t of None \<Rightarrow> '''' | Some s \<Rightarrow> s)"

definition resolveProjectNamespace ::
  "'g gardener_ops \<Rightarrow> string \<Rightarrow> uuid \<Rightarrow> ('s, 'g) world \<Rightarrow> ((gerr + string) \<times> ('s, 'g) world) option" where
  "resolveProjectNamespace gops orgName org w =
     (case ProjectName orgName of
        None \<Rightarrow> None
      | Some projectName \<Rightarrow>
          (case garden_do (\<lambda>now. EnsureProject gops now projectName org) w of
             (Inl e, w) \<Rightarrow> Some (Inl (errorf (''ensure project '' @ projectName) e), w)
           | (Inr namespace, w) \<Rightarrow> Some (Inr namespace, w)))"

definition clusterToSyncBase ::
  "uuid \<Rightarrow> string \<Rightarrow> string \<Rightarrow> uuid \<Rightarrow> string \<Rightarrow> string \<Rightarrow> string \<Rightarrow> string option \<Rightarrow> string option \<Rightarrow> cluster_to_sync" where
  "clusterToSyncBase i name orgName org namespace region version cloudProfile cloudProfileRegion =
     \<lparr>cs_id = i, cs_org = org, cs_org_name = orgName, cs_name = name, cs_shoot_name = '''',
      cs_namespace = namespace, cs_region = region, cs_version = version,
      cs_cloud_profile = textOrEmpty cloudProfile, cs_cloud_profile_region = textOrEmpty cloudProfileRegion,
      cs_deleted = None, cs_pools = [],
      cs_limits = \<lparr>MaxNodesPerCluster = None, MaxNodePoolsPerCluster = None, MaxNodesPerNodePool = None\<rparr>\<rparr>"

definition base_of :: "'b cluster_sync_row_scheme \<Rightarrow> string \<Rightarrow> cluster_to_sync" where
  "base_of r namespace = clusterToSyncBase (cg_id r) (cg_name r) (cg_org_name r) (cg_org r) namespace (cg_region r)
     (cg_version r) (cg_cloud_profile r) (cg_cloud_profile_region r)"

section \<open>Preconditions (mod.go)\<close>

type_synonym ('s, 'g) check = "uuid \<Rightarrow> ('s, 'g) world \<Rightarrow> (gerr option \<times> ('s, 'g) world) option"

definition node_pool_check :: "('s, 'g) check" where
  "node_pool_check npid w =
     (case db_read (\<lambda>w. NodePoolGetClusterID npid (db w)) w of
        (Inl e, w) \<Rightarrow>
          if errors_is ErrNoRows e then Some (None, w)
          else Some (Some (errorf (''resolve node_pool_id '' @ [CHR 0xE2, CHR 0x86, CHR 0x92] @ '' cluster_id'') e), w)
      | (Inr cid, w) \<Rightarrow>
          (case db_read (\<lambda>w. Inr (ClusterHasEverBeenSynced cid w)) w of
             (Inl e, w) \<Rightarrow> Some (Some (errorf ''check cluster ever synced'' e), w)
           | (Inr synced, w) \<Rightarrow>
               Some (if \<not> synced then Some (PreconditionError ''parent cluster not synced to Gardener'') else None, w)))"

definition cluster_check :: "'g gardener_ops \<Rightarrow> ('s, 'g) check" where
  "cluster_check gops cid w =
     (case db_read (\<lambda>w. ClusterGetForSync cid (db w)) w of
        (Inl e, w) \<Rightarrow>
          if errors_is ErrNoRows e then Some (None, w)
          else Some (Some (errorf ''get cluster for precondition check'' e), w)
      | (Inr c, w) \<Rightarrow>
          if cg_deleted c \<noteq> None then Some (None, w)
          else (case ProjectName (cg_org_name c) of
                  None \<Rightarrow> None
                | Some p \<Rightarrow>
                    (case garden_do (\<lambda>now. EnsureProject gops now p (cg_org c)) w of
                       (Inl e, w) \<Rightarrow> Some (Some (errorf ''ensure project'' e), w)
                     | (Inr namespace, w) \<Rightarrow>
                         Some (if namespace = '''' then Some (PreconditionError ''project namespace not ready'') else None, w))))"

definition preconditions :: "'g gardener_ops \<Rightarrow> entity_type \<Rightarrow> (string \<times> ('s, 'g) check) list" where
  "preconditions gops e =
     (case e of
        EntityNodePool \<Rightarrow> [(''parent cluster must have been synced to Gardener at least once'', node_pool_check)]
      | EntityCluster \<Rightarrow> [(''Gardener project namespace must be ready'', cluster_check gops)]
      | _ \<Rightarrow> [])"

fun run_checks :: "(string \<times> ('s, 'g) check) list \<Rightarrow> ('s, 'g) check" where
  "run_checks [] i w = Some (None, w)"
| "run_checks ((desc, chk) # ps) i w =
     (case chk i w of
        None \<Rightarrow> None
      | Some (Some e, w) \<Rightarrow> Some (Some (errorf (''precondition '' @ go_quote desc) e), w)
      | Some (None, w) \<Rightarrow> run_checks ps i w)"

definition checkPreconditions :: "'g gardener_ops \<Rightarrow> entity_type \<Rightarrow> ('s, 'g) check" where
  "checkPreconditions gops e = run_checks (preconditions gops e)"

section \<open>Syncing (sync.go)\<close>

definition ActionSync :: string where "ActionSync = ''sync''"
definition ActionDelete :: string where "ActionDelete = ''delete''"

definition syncMessage :: "ob_event \<Rightarrow> entity_type \<Rightarrow> string option" where
  "syncMessage event ety =
     (let entity = (if ety = EntityNodePool then ''Node pool'' else ''Cluster'')
      in case event of
           Created \<Rightarrow> Some (entity @ '' created'')
         | Updated \<Rightarrow> Some (entity @ '' updated'')
         | Deleted \<Rightarrow> Some (entity @ '' deleted'')
         | Reconcile \<Rightarrow> Some (entity @ '' reconciled'')
         | Ready \<Rightarrow> None)"

text \<open>Events are best-effort: their errors are dropped.\<close>

definition createSyncSucceededEvent :: "uuid \<Rightarrow> string \<Rightarrow> string \<Rightarrow> ('s, 'g) world \<Rightarrow> ('s, 'g) world" where
  "createSyncSucceededEvent cid action msg w =
     snd (db_exec (ClusterCreateSyncSucceededEvent cid action (if msg \<noteq> '''' then Some msg else None)) w)"

definition createSyncFailedEvent :: "uuid \<Rightarrow> string \<Rightarrow> string \<Rightarrow> ('s, 'g) world \<Rightarrow> ('s, 'g) world" where
  "createSyncFailedEvent cid action msg w = snd (db_exec (ClusterCreateSyncFailedEvent cid action msg) w)"

definition syncError ::
  "uuid \<Rightarrow> string \<Rightarrow> string \<Rightarrow> gerr \<Rightarrow> ('s, 'g) world \<Rightarrow> gerr option \<times> ('s, 'g) world" where
  "syncError cid action operation e w =
     (Some (errorf operation e), createSyncFailedEvent cid action (operation @ '': '' @ err_text e) w)"

definition toGardenerNodePools :: "pool_row list \<Rightarrow> node_pool list" where
  "toGardenerNodePools = map (\<lambda>np. \<lparr>pool_name = pr_name np, pool_machine_type = pr_machine_type np,
     AutoscaleMin = pr_min np, AutoscaleMax = pr_max np, pool_zone = ''''\<rparr>)"

text \<open>\<open>int4Ptr\<close> is the identity on nullable integers: a \<open>pgtype.Int4\<close> and a \<open>*int32\<close> are both
  \<open>int option\<close>.\<close>

definition int4Ptr :: "int option \<Rightarrow> int option" where
  "int4Ptr v = (case v of None \<Rightarrow> None | Some i \<Rightarrow> Some i)"

definition toGardenerNodeLimits :: "int option \<times> int option \<times> int option \<Rightarrow> node_limits" where
  "toGardenerNodeLimits row =
     (case row of (nodes, pools, perPool) \<Rightarrow>
        \<lparr>MaxNodesPerCluster = int4Ptr nodes, MaxNodePoolsPerCluster = int4Ptr pools,
         MaxNodesPerNodePool = int4Ptr perPool\<rparr>)"

definition finish_sync ::
  "sync_context \<Rightarrow> uuid \<Rightarrow> string \<Rightarrow> ('s, 'g) world \<Rightarrow> (gerr option \<times> ('s, 'g) world) option" where
  "finish_sync sc cid action w =
     (case syncMessage (sc_event sc) (sc_entity sc) of
        None \<Rightarrow> None
      | Some msg \<Rightarrow> Some (None, createSyncSucceededEvent cid action msg w))"

text \<open>The Shoot the database asks for.\<close>

definition wanted_shoot ::
  "cluster_sync_row \<Rightarrow> string \<Rightarrow> string \<Rightarrow> pool_row list \<Rightarrow> int option \<times> int option \<times> int option \<Rightarrow> cluster_to_sync" where
  "wanted_shoot c namespace shootName pools limits =
     (base_of c namespace)\<lparr>cs_shoot_name := shootName, cs_deleted := cg_deleted c,
        cs_pools := toGardenerNodePools pools, cs_limits := toGardenerNodeLimits limits\<rparr>"

definition syncCluster ::
  "'g gardener_ops \<Rightarrow> uuid \<Rightarrow> sync_context \<Rightarrow> ('s, 'g) world \<Rightarrow> (gerr option \<times> ('s, 'g) world) option" where
  "syncCluster gops i sc w =
     (case db_read (\<lambda>w. ClusterGetForSync i (db w)) w of
        (Inl e, w) \<Rightarrow>
          if errors_is ErrNoRows e then Some (None, w) else Some (Some (errorf ''get cluster for sync'' e), w)
      | (Inr c, w) \<Rightarrow>
          if cg_deleted c \<noteq> None
          then (case garden_do (\<lambda>now. DeleteShootByClusterID gops now (cg_id c)) w of
                  (Some e, w) \<Rightarrow> Some (syncError (cg_id c) ActionDelete ''delete shoot'' e w)
                | (None, w) \<Rightarrow> finish_sync sc (cg_id c) ActionDelete w)
          else
     (case resolveProjectNamespace gops (cg_org_name c) (cg_org c) w of
        None \<Rightarrow> None
      | Some (Inl e, w) \<Rightarrow> Some (syncError (cg_id c) ActionSync ''ensure project'' e w)
      | Some (Inr namespace, w) \<Rightarrow>
     (case db_read (\<lambda>w. Inr (NodePoolListByClusterID (cg_id c) (db w))) w of
        (Inl e, w) \<Rightarrow> Some (syncError (cg_id c) ActionSync ''load node pools'' e w)
      | (Inr pools, w) \<Rightarrow>
     (case db_read (\<lambda>w. OrganizationLimitsGetByOrgID (cg_org c) (db w)) w of
        (l, w) \<Rightarrow>
     (case (case l of Inr row \<Rightarrow> Inr row
                    | Inl e \<Rightarrow> if errors_is ErrNoRows e then Inr (None, None, None) else Inl e) of
        Inl e \<Rightarrow> Some (syncError (cg_id c) ActionSync ''load organization limits'' e w)
      | Inr limits \<Rightarrow>
     (case GenerateShootName (cg_name c) (cg_id c) of
        None \<Rightarrow> None
      | Some shootName \<Rightarrow>
     (case garden_do (\<lambda>now. ApplyShoot gops now (wanted_shoot c namespace shootName pools limits)) w of
        (Some e, w) \<Rightarrow> Some (syncError (cg_id c) ActionSync ''apply shoot'' e w)
      | (None, w) \<Rightarrow> finish_sync sc (cg_id c) ActionSync w)))))))"

definition syncNodePool ::
  "'g gardener_ops \<Rightarrow> (uuid \<Rightarrow> string) \<Rightarrow> uuid \<Rightarrow> sync_context \<Rightarrow> ('s, 'g) world \<Rightarrow> (gerr option \<times> ('s, 'g) world) option" where
  "syncNodePool gops us npid sc w =
     (case db_read (\<lambda>w. NodePoolGetClusterID npid (db w)) w of
        (Inl e, w) \<Rightarrow>
          if errors_is ErrNoRows e then Some (None, w)
          else Some (Some (errorf (''get cluster_id for node pool '' @ us npid) e), w)
      | (Inr cid, w) \<Rightarrow> syncCluster gops cid sc w)"

definition ClusterSync :: "'g gardener_ops \<Rightarrow> (uuid \<Rightarrow> string) \<Rightarrow> ('s, 'g) handler" where
  "ClusterSync gops us i sc w =
     (case checkPreconditions gops (sc_entity sc) i w of
        None \<Rightarrow> None
      | Some (Some e, w) \<Rightarrow> Some (Some e, w)
      | Some (None, w) \<Rightarrow>
          (case sc_entity sc of
             EntityCluster \<Rightarrow> syncCluster gops i sc w
           | EntityNodePool \<Rightarrow> syncNodePool gops us i sc w
           | _ \<Rightarrow> None))"

section \<open>Polling (status.go)\<close>

text \<open>The event a status change is recorded with, \<open>''''\<close> for none; \<open>None\<close> is the panic on an unknown
  status.\<close>

definition status_event :: "shoot_status_type \<Rightarrow> string option" where
  "status_event t =
     (if t = StatusProgressing then Some ''status_progressing''
      else if t = StatusReady then Some ''status_ready''
      else if t = StatusError then Some ''status_error''
      else if t = StatusPending \<or> t = StatusDeleting \<or> t = StatusDeleted then Some ''''
      else None)"

definition record_transition ::
  "uuid \<Rightarrow> shoot_status \<Rightarrow> ('s, 'g) world \<Rightarrow> ('s, 'g) world option" where
  "record_transition cid st w =
     (case status_event (st_status st) of
        None \<Rightarrow> None
      | Some ty \<Rightarrow>
          let w = (if ty \<noteq> '''' then snd (db_exec (ClusterCreateStatusEvent cid ty (st_message st)) w) else w)
          in Some (if st_status st = StatusReady then snd (db_exec (OutboxInsertReady cid) w) else w))"

definition poll_active :: "'g gardener_ops \<Rightarrow> status_row \<Rightarrow> ('s, 'g) world \<Rightarrow> ('s, 'g) world option" where
  "poll_active gops r w =
     (case resolveProjectNamespace gops (cg_org_name r) (cg_org r) w of
        None \<Rightarrow> None
      | Some (Inl e, w) \<Rightarrow> Some w
      | Some (Inr namespace, w) \<Rightarrow>
          if namespace = '''' then Some w
          else
     (case garden_do (\<lambda>now. GetShootStatus gops now (base_of r namespace)) w of
        (Inl e, w) \<Rightarrow> Some w
      | (Inr st, w) \<Rightarrow>
     (case db_exec (ClusterUpdateShootStatus (cg_id r) (st_status st) (st_message st)) w of
        (Some e, w) \<Rightarrow> Some w
      | (None, w) \<Rightarrow>
          if st_status st \<noteq> textOrEmpty (cs_status r) then record_transition (cg_id r) st w else Some w)))"

definition poll_deleted :: "'g gardener_ops \<Rightarrow> status_row \<Rightarrow> ('s, 'g) world \<Rightarrow> ('s, 'g) world option" where
  "poll_deleted gops r w =
     (case resolveProjectNamespace gops (cg_org_name r) (cg_org r) w of
        None \<Rightarrow> None
      | Some (Inl e, w) \<Rightarrow> Some w
      | Some (Inr namespace, w) \<Rightarrow>
          if namespace = '''' then Some w
          else
     (case garden_do (\<lambda>now. GetShootStatus gops now ((base_of r namespace)\<lparr>cs_deleted := cg_deleted r\<rparr>)) w of
        (Inl e, w) \<Rightarrow> Some w
      | (Inr st, w) \<Rightarrow>
          if st_status st = StatusPending \<and> st_message st = MsgShootNotFound
          then (case db_exec (ClusterUpdateShootStatus (cg_id r) StatusDeleted ''Shoot confirmed deleted'') w of
                  (Some e, w) \<Rightarrow> Some w
                | (None, w) \<Rightarrow>
                    Some (snd (db_exec (ClusterCreateStatusEvent (cg_id r) ''status_deleted'' ''Shoot confirmed deleted'') w)))
          else Some (snd (db_exec (ClusterUpdateShootStatus (cg_id r) StatusDeleting (st_message st)) w))))"

fun poll_rows ::
  "(status_row \<Rightarrow> ('s, 'g) world \<Rightarrow> ('s, 'g) world option) \<Rightarrow> (nat \<Rightarrow> bool) \<Rightarrow> nat \<Rightarrow> status_row list \<Rightarrow>
   ('s, 'g) world \<Rightarrow> ('s, 'g) world option" where
  "poll_rows poll cancelled k [] w = Some w"
| "poll_rows poll cancelled k (r # rs) w =
     (if cancelled k then Some w
      else case poll r w of None \<Rightarrow> None | Some w \<Rightarrow> poll_rows poll cancelled (Suc k) rs w)"

definition pollActiveClusters ::
  "'g gardener_ops \<Rightarrow> cluster_cfg \<Rightarrow> (nat \<Rightarrow> bool) \<Rightarrow> ('s, 'g) world \<Rightarrow> (gerr option \<times> ('s, 'g) world) option" where
  "pollActiveClusters gops cfg cancelled w =
     (case db_read (\<lambda>w. Inr (ClusterListNeedingStatusCheck (StatusBatchSize cfg) w)) w of
        (Inl e, w) \<Rightarrow> Some (Some (errorf ''list clusters for status check'' e), w)
      | (Inr rows, w) \<Rightarrow> map_option (\<lambda>w. (None, w)) (poll_rows (poll_active gops) cancelled 0 rows w))"

definition pollDeletedClusters ::
  "'g gardener_ops \<Rightarrow> cluster_cfg \<Rightarrow> (nat \<Rightarrow> bool) \<Rightarrow> ('s, 'g) world \<Rightarrow> (gerr option \<times> ('s, 'g) world) option" where
  "pollDeletedClusters gops cfg cancelled w =
     (case db_read (\<lambda>w. Inr (ClusterListDeletedNeedingVerification (StatusBatchSize cfg) w)) w of
        (Inl e, w) \<Rightarrow> Some (Some (errorf ''list deleted clusters for verification'' e), w)
      | (Inr rows, w) \<Rightarrow> map_option (\<lambda>w. (None, w)) (poll_rows (poll_deleted gops) cancelled 0 rows w))"

text \<open>\<open>cancelled\<close> and \<open>cancelled'\<close> are the answers of \<open>ctx.Err()\<close> in the two loops.\<close>

definition CheckStatus ::
  "'g gardener_ops \<Rightarrow> cluster_cfg \<Rightarrow> (nat \<Rightarrow> bool) \<Rightarrow> (nat \<Rightarrow> bool) \<Rightarrow> ('s, 'g) periodic" where
  "CheckStatus gops cfg cancelled cancelled' w =
     (case pollActiveClusters gops cfg cancelled w of
        None \<Rightarrow> None
      | Some (e1, w) \<Rightarrow>
          (case pollDeletedClusters gops cfg cancelled' w of
             None \<Rightarrow> None
           | Some (e2, w) \<Rightarrow>
               Some (map_option (errorf ''check status'') (errors_join (List.map_filter id [e1, e2])), w)))"

section \<open>Reconciliation (reconcile.go)\<close>

text \<open>The Shoots by the cluster identifier in their label; a later Shoot replaces an earlier one.\<close>

definition shoots_by_cluster :: "(string \<Rightarrow> uuid option) \<Rightarrow> shoot_info list \<Rightarrow> (uuid \<times> shoot_info) list" where
  "shoots_by_cluster up infos = foldl (\<lambda>m s.
     case map_of (si_labels s) LabelClusterID of
       None \<Rightarrow> m
     | Some t \<Rightarrow> (case up t of None \<Rightarrow> m | Some c \<Rightarrow> AList.update c s m)) [] infos"

fun enqueue_drifted ::
  "int \<Rightarrow> uuid list \<Rightarrow> active_row list \<Rightarrow> ('s, 'g) world \<Rightarrow> ('s, 'g) world" where
  "enqueue_drifted maxr present [] w = w"
| "enqueue_drifted maxr present (c # cs) w =
     enqueue_drifted maxr present cs
       (if ca_completed c \<and> ca_id c \<notin> set present then snd (db_exec (OutboxInsertReconcile (ca_id c) maxr) w) else w)"

fun delete_orphan_shoots ::
  "'g gardener_ops \<Rightarrow> uuid list \<Rightarrow> uuid list \<Rightarrow> ('s, 'g) world \<Rightarrow> ('s, 'g) world" where
  "delete_orphan_shoots gops known [] w = w"
| "delete_orphan_shoots gops known (c # cs) w =
     delete_orphan_shoots gops known cs
       (if c \<notin> set known then snd (garden_do (\<lambda>now. DeleteShootByClusterID gops now c) w) else w)"

text \<open>The outbox worker runs at the same time: \<open>env\<close> is what happens between the two listings
  (\<open>\<lambda>w. w\<close> when nothing does). \<open>ord\<close> is the order in which Go ranges over the map.\<close>

definition ClusterReconcile ::
  "'g gardener_ops \<Rightarrow> (string \<Rightarrow> uuid option) \<Rightarrow> (nat \<Rightarrow> uuid list \<Rightarrow> uuid list) \<Rightarrow>
   (('s, 'g) world \<Rightarrow> ('s, 'g) world) \<Rightarrow> cluster_cfg \<Rightarrow> bool \<Rightarrow> ('s, 'g) periodic" where
  "ClusterReconcile gops up ord env cfg cancelled w =
     (if cancelled then Some (None, w)
      else
     (case db_read (\<lambda>w. Inr (ClusterListActive (db w))) w of
        (Inl e, w) \<Rightarrow> Some (Some (errorf ''list active clusters'' e), w)
      | (Inr active, w) \<Rightarrow>
     (case garden_do (\<lambda>now. ListShoots gops now) (env w) of
        (Inl e, w) \<Rightarrow> Some (Some (errorf ''list shoots'' e), w)
      | (Inr infos, w) \<Rightarrow>
          let present = map fst (shoots_by_cluster up infos);
              w = enqueue_drifted (cc_MaxRetries cfg) present active w;
              w = delete_orphan_shoots gops (map ca_id active) (ord 0 present) w
          in Some (None, w))))"

section \<open>Lemmas: syncing leaves the tables alone\<close>

lemma db_read_quiet: "db_read f w = (x, w') \<Longrightarrow> quiet w w'"
  by (auto simp: db_read_eq)

lemma garden_do_eq:
  "garden_do f w = (x, w') \<longleftrightarrow> (\<exists>g. f (clock w) (garden w) = (x, g) \<and> w' = w\<lparr>garden := g\<rparr>)"
  by (auto simp: garden_do_def split: prod.splits)

lemma garden_do_quiet: "garden_do f w = (x, w') \<Longrightarrow> quiet w w'"
  by (auto simp: garden_do_eq)

lemma event_quiet [simp]:
  "quiet w (createSyncSucceededEvent cid action msg w)" "quiet w (createSyncFailedEvent cid action msg w)"
  by (auto simp: createSyncSucceededEvent_def createSyncFailedEvent_def db_exec_eq cluster_events_defs split: option.splits)

lemma finish_sync_quiet: "finish_sync sc cid action w = Some (e, w') \<Longrightarrow> quiet w w'"
  by (auto simp: finish_sync_def split: option.splits)

lemma syncError_quiet: "syncError cid action op e w = (e', w') \<Longrightarrow> quiet w w'"
  by (auto simp: syncError_def)

lemma resolve_quiet: "resolveProjectNamespace gops n org w = Some (r, w') \<Longrightarrow> quiet w w'"
  by (auto simp: resolveProjectNamespace_def split: option.splits prod.splits sum.splits dest!: garden_do_quiet)

lemmas quiet_steps = db_read_quiet garden_do_quiet finish_sync_quiet syncError_quiet resolve_quiet

lemma syncCluster_quiet: "syncCluster gops i sc w = Some (e, w') \<Longrightarrow> quiet w w'"
  unfolding syncCluster_def
  by (auto split: prod.splits sum.splits option.splits if_splits dest!: quiet_steps)
    (auto simp: quiet_def)

lemma syncNodePool_quiet: "syncNodePool gops us i sc w = Some (e, w') \<Longrightarrow> quiet w w'"
  unfolding syncNodePool_def
  by (auto split: prod.splits sum.splits if_splits dest!: quiet_steps syncCluster_quiet intro: quiet_trans)

lemma checks_quiet:
  "node_pool_check i w = Some (e, w') \<Longrightarrow> quiet w w'"
  "cluster_check gops i w = Some (e, w') \<Longrightarrow> quiet w w'"
  unfolding node_pool_check_def cluster_check_def
  by (auto split: prod.splits sum.splits option.splits if_splits dest!: quiet_steps intro: quiet_trans)

lemma checkPreconditions_quiet: "checkPreconditions gops e i w = Some (r, w') \<Longrightarrow> quiet w w'"
  unfolding checkPreconditions_def preconditions_def
  by (cases e) (auto split: option.splits dest!: checks_quiet)

lemma ClusterSync_quiet: "ClusterSync gops us i sc w = Some (e, w') \<Longrightarrow> quiet w w'"
  unfolding ClusterSync_def
  by (auto split: option.splits prod.splits entity_type.splits
      dest!: checkPreconditions_quiet syncCluster_quiet syncNodePool_quiet intro: quiet_trans)

lemma ClusterSync_appends: "appends (ClusterSync gops us)"
  unfolding appends_def using ClusterSync_quiet quiet_ext by blast

section \<open>Lemmas: no panic\<close>

lemma names_total: "ProjectName n \<noteq> None" "GenerateShootName n i \<noteq> None"
  by (simp_all add: ProjectName_def GenerateShootName_def name_lengths Bounded_HashHex)

lemma GenerateShootName_nonempty: "GenerateShootName n i = Some s \<Longrightarrow> s \<noteq> []"
  unfolding GenerateShootName_def name_lengths by (drule bounded_shape) (auto simp: SanitizeDNS1035_label)

lemma resolve_total: "resolveProjectNamespace gops n org w \<noteq> None"
  by (auto simp: resolveProjectNamespace_def names_total split: option.splits prod.splits sum.splits)

lemma finish_sync_total: "sc_event sc \<noteq> Ready \<Longrightarrow> finish_sync sc cid action w \<noteq> None"
  by (cases "sc_event sc") (auto simp: finish_sync_def syncMessage_def Let_def)

lemma syncCluster_total: "sc_event sc \<noteq> Ready \<Longrightarrow> syncCluster gops i sc w \<noteq> None"
  unfolding syncCluster_def
  by (auto simp: names_total resolve_total finish_sync_total simp del: not_None_eq split: prod.splits sum.splits option.splits if_splits)

lemma syncNodePool_total: "sc_event sc \<noteq> Ready \<Longrightarrow> syncNodePool gops us i sc w \<noteq> None"
  unfolding syncNodePool_def by (auto simp: syncCluster_total simp del: not_None_eq split: prod.splits sum.splits)

lemma checkPreconditions_total: "checkPreconditions gops e i w \<noteq> None"
proof -
  have "node_pool_check i w \<noteq> None" "cluster_check gops i w \<noteq> None"
    unfolding node_pool_check_def cluster_check_def
    by (auto simp: names_total split: prod.splits sum.splits option.splits)
  then show ?thesis
    by (cases e) (auto simp: checkPreconditions_def preconditions_def split: option.splits)
qed

lemma ClusterSync_total:
  "sc_entity sc = EntityCluster \<or> sc_entity sc = EntityNodePool \<Longrightarrow> sc_event sc \<noteq> Ready \<Longrightarrow> ClusterSync gops us i sc w \<noteq> None"
  unfolding ClusterSync_def
  by (auto simp: checkPreconditions_total syncCluster_total syncNodePool_total simp del: not_None_eq
      split: option.splits prod.splits entity_type.splits)

end
