(* ===== verification/GardenMock.thy ===== *)
theory GardenMock
  imports Gardener
begin

text \<open>
  The in-memory Gardener client \<open>cluster-worker/pkg/client/gardener/mock.go\<close> and the proof that it
  satisfies the contract \<open>gardener\<close>. \<open>uuid.UUID.String\<close> is the parameter \<open>us\<close>.
\<close>

section \<open>The in-memory client (mock.go)\<close>

record mock_event =
  me_time :: micros
  me_type :: string
  me_cluster :: uuid
  me_shoot :: string
  me_status :: string
  me_message :: string

record mock_gshoot =
  ms_info :: shoot_info
  ms_created :: micros
  ms_deleted :: "micros option"
  ms_cluster :: cluster_to_sync
  ms_last :: shoot_status_type

text \<open>A map is an association list; the order of the list stands for the order in which Go ranges
  over the map.\<close>

record mock_client =
  mg_shoots :: "(string \<times> mock_gshoot) list"
  mg_projects :: "(string \<times> bool) list"
  EnsureProjectCalls :: "string list"
  ApplyCalls :: "cluster_to_sync list"
  DeleteByClusterID :: "uuid list"
  ListCallCount :: nat
  StatusCalls :: "cluster_to_sync list"
  EventHistory :: "mock_event list"
  EnsureProjectError :: "gerr option"
  ApplyError :: "gerr option"
  DeleteError :: "gerr option"
  ListError :: "gerr option"
  GetStatusError :: "gerr option"
  StatusOverrides :: "(uuid \<times> shoot_status) list"
  ProgressingDelay :: micros
  ReadyDelay :: micros
  DeleteDelay :: micros
  ValidateSpecs :: bool
  SimulateAsyncNamespace :: bool
  projectCreatedAt :: "(string \<times> micros) list"
  NamespaceReadyDelay :: micros

definition NewMock :: mock_client where
  "NewMock = \<lparr>mg_shoots = [], mg_projects = [], EnsureProjectCalls = [], ApplyCalls = [], DeleteByClusterID = [],
     ListCallCount = 0, StatusCalls = [], EventHistory = [], EnsureProjectError = None, ApplyError = None,
     DeleteError = None, ListError = None, GetStatusError = None, StatusOverrides = [],
     ProgressingDelay = 1000000, ReadyDelay = 5000000, DeleteDelay = 3000000, ValidateSpecs = True,
     SimulateAsyncNamespace = False, projectCreatedAt = [], NamespaceReadyDelay = 2000000\<rparr>"

definition NewMockInstant :: mock_client where
  "NewMockInstant = NewMock\<lparr>ProgressingDelay := 0, ReadyDelay := 0, DeleteDelay := 0\<rparr>"

definition findShootByClusterID :: "uuid \<Rightarrow> mock_client \<Rightarrow> (string \<times> mock_gshoot) option" where
  "findShootByClusterID c m = find (\<lambda>(n, s). cs_id (ms_cluster s) = c) (mg_shoots m)"

definition MockEnsureProject :: "micros \<Rightarrow> string \<Rightarrow> uuid \<Rightarrow> mock_client \<Rightarrow> (gerr + string) \<times> mock_client" where
  "MockEnsureProject now projectName orgID m0 =
     (let m = m0\<lparr>EnsureProjectCalls := EnsureProjectCalls m0 @ [projectName]\<rparr>
      in case EnsureProjectError m of
           Some e \<Rightarrow> (Inl e, m)
         | None \<Rightarrow>
             let namespace = NamespaceFromProjectName projectName;
                 new = (map_of (mg_projects m) projectName \<noteq> Some True);
                 m1 = (if new then m\<lparr>mg_projects := AList.update projectName True (mg_projects m),
                                     projectCreatedAt := AList.update projectName now (projectCreatedAt m)\<rparr>
                       else m)
             in if new \<and> SimulateAsyncNamespace m1 then (Inr '''', m1)
                else if SimulateAsyncNamespace m1 \<and>
                  (case map_of (projectCreatedAt m1) projectName of
                     None \<Rightarrow> False
                   | Some createdAt \<Rightarrow> now - createdAt < NamespaceReadyDelay m1)
                then (Inr '''', m1)
                else (Inr namespace, m1))"

text \<open>The three regular expressions.\<close>

definition eat_digits :: "string \<Rightarrow> string option" where
  "eat_digits s = (if s \<noteq> [] \<and> digit_char (hd s) then Some (dropWhile digit_char s) else None)"

definition eat_dot :: "string \<Rightarrow> string option" where
  "eat_dot s = (if s \<noteq> [] \<and> hd s = CHR ''.'' then Some (tl s) else None)"

definition major_minor :: "string \<Rightarrow> string option" where
  "major_minor s = Option.bind (eat_digits s) (\<lambda>s. Option.bind (eat_dot s) eat_digits)"

definition minorOnlyRegex :: "string \<Rightarrow> bool" where
  "minorOnlyRegex s \<longleftrightarrow> major_minor s = Some []"

definition semverRegex :: "string \<Rightarrow> bool" where
  "semverRegex s =
     (case Option.bind (Option.bind (major_minor s) eat_dot) eat_digits of
        None \<Rightarrow> False
      | Some rest \<Rightarrow> rest = [] \<or>
          hd rest = CHR ''-'' \<and> tl rest \<noteq> [] \<and>
          list_all (\<lambda>c. lower_char c \<or> upper_char c \<or> digit_char c \<or> c = CHR ''.'') (tl rest))"

definition dnsLabelRegex :: "string \<Rightarrow> bool" where
  "dnsLabelRegex s \<longleftrightarrow> s \<noteq> [] \<and> label_char (hd s) \<and> label_char (last s) \<and>
     list_all (\<lambda>c. label_char c \<or> c = CHR ''-'') s"

definition ErrInvalidVersion :: gerr where "ErrInvalidVersion = ErrNew ''invalid semantic version''"
definition ErrEmptyRegion :: gerr where "ErrEmptyRegion = ErrNew ''region must not be empty''"
definition ErrEmptyName :: gerr where "ErrEmptyName = ErrNew ''name must not be empty''"
definition ErrInvalidName :: gerr where "ErrInvalidName = ErrNew ''name must match DNS label format''"

definition invalid_worker :: "node_pool \<Rightarrow> gerr option" where
  "invalid_worker np =
     (if pool_name np = '''' then Some (ErrNew ''shoot.core.gardener.cloud is invalid: worker name must not be empty'')
      else if pool_machine_type np = '''' then Some (ErrNew (''shoot.core.gardener.cloud is invalid: worker '' @
        go_quote (pool_name np) @ '' machine type must not be empty''))
      else if AutoscaleMin np < 0 then Some (ErrNew (''shoot.core.gardener.cloud is invalid: worker '' @
        go_quote (pool_name np) @ '' minimum must be >= 0''))
      else if AutoscaleMax np < 1 then Some (ErrNew (''shoot.core.gardener.cloud is invalid: worker '' @
        go_quote (pool_name np) @ '' maximum must be >= 1''))
      else if AutoscaleMax np < AutoscaleMin np then Some (ErrNew (''shoot.core.gardener.cloud is invalid: worker '' @
        go_quote (pool_name np) @ '' maximum must be >= minimum''))
      else None)"

definition validateClusterSpec :: "cluster_to_sync \<Rightarrow> gerr option" where
  "validateClusterSpec cs =
     (let pre = ''shoot.core.gardener.cloud is invalid: '' in
      if cs_name cs = '''' then Some (errorf (pre @ ''metadata.name'') ErrEmptyName)
      else if 63 < length (cs_name cs) \<or> \<not> dnsLabelRegex (cs_name cs)
      then Some (Wrapped (pre @ ''metadata.name: '' @ err_text ErrInvalidName @ '': '' @ go_quote (cs_name cs)) [ErrInvalidName])
      else if cs_region cs = '''' then Some (errorf (pre @ ''spec.region'') ErrEmptyRegion)
      else if cs_version cs = '''' then Some (ErrNew (pre @ ''spec.kubernetes.version: required value''))
      else if \<not> semverRegex (if minorOnlyRegex (cs_version cs) then cs_version cs @ ''.0'' else cs_version cs)
      then Some (errorf (''shoot.core.gardener.cloud '' @ go_quote (cs_name cs) @
        '' is invalid: failed to parse shoot version '' @ go_quote (cs_version cs)) ErrInvalidVersion)
      else (case first_some (map invalid_worker (cs_pools cs)) of
              Some e \<Rightarrow> Some e
            | None \<Rightarrow> validateNodeLimits (cs_pools cs) (cs_limits cs)))"

definition mock_event_of :: "micros \<Rightarrow> string \<Rightarrow> uuid \<Rightarrow> string \<Rightarrow> string \<Rightarrow> string \<Rightarrow> mock_event" where
  "mock_event_of now ty c shoot status msg =
     \<lparr>me_time = now, me_type = ty, me_cluster = c, me_shoot = shoot, me_status = status, me_message = msg\<rparr>"

definition record_event :: "mock_event \<Rightarrow> mock_client \<Rightarrow> mock_client" where
  "record_event e m = m\<lparr>EventHistory := EventHistory m @ [e]\<rparr>"

definition put_shoot :: "string \<Rightarrow> mock_gshoot \<Rightarrow> mock_client \<Rightarrow> mock_client" where
  "put_shoot n s m = m\<lparr>mg_shoots := AList.update n s (mg_shoots m)\<rparr>"

definition drop_shoot :: "string \<Rightarrow> mock_client \<Rightarrow> mock_client" where
  "drop_shoot n m = m\<lparr>mg_shoots := AList.delete n (mg_shoots m)\<rparr>"

definition shoot_labels :: "(uuid \<Rightarrow> string) \<Rightarrow> cluster_to_sync \<Rightarrow> smap" where
  "shoot_labels us cs = [(LabelClusterID, us (cs_id cs)), (LabelOrganizationID, us (cs_org cs))]"

definition new_mock_shoot :: "(uuid \<Rightarrow> string) \<Rightarrow> micros \<Rightarrow> cluster_to_sync \<Rightarrow> mock_gshoot" where
  "new_mock_shoot us now cs =
     \<lparr>ms_info = \<lparr>si_name = cs_shoot_name cs, si_namespace = cs_namespace cs, si_cluster = cs_id cs,
        si_labels = shoot_labels us cs\<rparr>,
      ms_created = now, ms_deleted = None, ms_cluster = cs, ms_last = ''''\<rparr>"

definition MockApplyShoot ::
  "(uuid \<Rightarrow> string) \<Rightarrow> micros \<Rightarrow> cluster_to_sync \<Rightarrow> mock_client \<Rightarrow> gerr option \<times> mock_client" where
  "MockApplyShoot us now cs m0 =
     (let m = m0\<lparr>ApplyCalls := ApplyCalls m0 @ [cs]\<rparr>
      in case ApplyError m of
           Some e \<Rightarrow> (Some e, m)
         | None \<Rightarrow>
        (case (if ValidateSpecs m then validateClusterSpec cs else None) of
           Some e \<Rightarrow> (Some (errorf ''failed to create shoot'' e), m)
         | None \<Rightarrow>
             if cs_shoot_name cs = ''''
             then (Some (ErrNew ''shoot name is required (must be generated at cluster creation time)''), m)
             else (case findShootByClusterID (cs_id cs) m of
                     Some (existingName, existing) \<Rightarrow>
                       (None, record_event (mock_event_of now ''apply'' (cs_id cs) existingName '''' ''Shoot updated'')
                          (put_shoot existingName (existing\<lparr>ms_cluster := cs\<rparr>) m))
                   | None \<Rightarrow>
                       (None, record_event (mock_event_of now ''apply'' (cs_id cs) (cs_shoot_name cs) '''' ''Shoot created'')
                          (put_shoot (cs_shoot_name cs) (new_mock_shoot us now cs) m)))))"

definition MockDeleteShootByClusterID :: "micros \<Rightarrow> uuid \<Rightarrow> mock_client \<Rightarrow> gerr option \<times> mock_client" where
  "MockDeleteShootByClusterID now c m0 =
     (let m = m0\<lparr>DeleteByClusterID := DeleteByClusterID m0 @ [c]\<rparr>
      in case DeleteError m of
           Some e \<Rightarrow> (Some e, m)
         | None \<Rightarrow>
             (case find (\<lambda>(n, s). si_cluster (ms_info s) = c) (mg_shoots m) of
                Some (n, s) \<Rightarrow> (None, put_shoot n (s\<lparr>ms_deleted := Some now\<rparr>) m)
              | None \<Rightarrow> (None, m)))"

definition fully_deleted :: "micros \<Rightarrow> mock_client \<Rightarrow> mock_gshoot \<Rightarrow> bool" where
  "fully_deleted now m s = (case ms_deleted s of None \<Rightarrow> False | Some t \<Rightarrow> DeleteDelay m \<le> now - t)"

definition MockListShoots :: "micros \<Rightarrow> mock_client \<Rightarrow> (gerr + shoot_info list) \<times> mock_client" where
  "MockListShoots now m0 =
     (let m = m0\<lparr>ListCallCount := Suc (ListCallCount m0)\<rparr>
      in case ListError m of
           Some e \<Rightarrow> (Inl e, m)
         | None \<Rightarrow>
             let kept = filter (\<lambda>(n, s). \<not> fully_deleted now m s) (mg_shoots m)
             in (Inr (map (\<lambda>(n, s). ms_info s) kept), m\<lparr>mg_shoots := kept\<rparr>))"

text \<open>\<open>%.0f\<close> of a duration's \<open>Seconds()\<close> (half to even). The percentage in the progress message is
  \<open>float64\<close> arithmetic: the text it prints is the parameter \<open>pct\<close>.\<close>

definition round_seconds :: "micros \<Rightarrow> int" where
  "round_seconds d =
     (let q = d div 1000000; r = d mod 1000000
      in if 2 * r < 1000000 then q else if 1000000 < 2 * r then q + 1 else if even q then q else q + 1)"

definition progress_status ::
  "(micros \<Rightarrow> micros \<Rightarrow> string) \<Rightarrow> micros \<Rightarrow> mock_client \<Rightarrow> mock_gshoot \<Rightarrow> shoot_status" where
  "progress_status pct now m s =
     (case ms_deleted s of
        Some t \<Rightarrow>
          \<lparr>st_status = StatusDeleting,
           st_message = ''Shoot is being deleted ('' @ int_str (round_seconds (DeleteDelay m - (now - t))) @ ''s remaining)''\<rparr>
      | None \<Rightarrow>
          let elapsed = now - ms_created s
          in if elapsed < ProgressingDelay m
             then \<lparr>st_status = StatusPending, st_message = ''Shoot creation initiated''\<rparr>
             else if elapsed < ProgressingDelay m + ReadyDelay m
             then \<lparr>st_status = StatusProgressing,
                   st_message = ''Shoot is being created ('' @
                     (if ReadyDelay m = 0 then ''100'' else pct (elapsed - ProgressingDelay m) (ReadyDelay m)) @
                     ''% complete)''\<rparr>
             else \<lparr>st_status = StatusReady, st_message = MsgShootReady\<rparr>)"

definition MockGetShootStatus ::
  "(micros \<Rightarrow> micros \<Rightarrow> string) \<Rightarrow> micros \<Rightarrow> cluster_to_sync \<Rightarrow> mock_client \<Rightarrow> (gerr + shoot_status) \<times> mock_client" where
  "MockGetShootStatus pct now cs m0 =
     (let m = m0\<lparr>StatusCalls := StatusCalls m0 @ [cs]\<rparr>
      in case GetStatusError m of
           Some e \<Rightarrow> (Inl e, m)
         | None \<Rightarrow>
        (case map_of (StatusOverrides m) (cs_id cs) of
           Some st \<Rightarrow> (Inr st, m)
         | None \<Rightarrow>
        (case findShootByClusterID (cs_id cs) m of
           None \<Rightarrow> (Inr \<lparr>st_status = StatusPending, st_message = MsgShootNotFound\<rparr>, m)
         | Some (shootName, s) \<Rightarrow>
             if fully_deleted now m s
             then (Inr \<lparr>st_status = StatusPending, st_message = MsgShootNotFound\<rparr>, drop_shoot shootName m)
             else let st = progress_status pct now m s
                  in if ms_last s \<noteq> st_status st
                     then (Inr st, put_shoot shootName (s\<lparr>ms_last := st_status st\<rparr>)
                       (record_event (mock_event_of now ''status_change'' (cs_id cs) shootName (st_status st) (st_message st)) m))
                     else (Inr st, m))))"

definition Reset :: "mock_client \<Rightarrow> mock_client" where
  "Reset m = m\<lparr>mg_shoots := [], mg_projects := [], projectCreatedAt := [], EnsureProjectCalls := [],
     ApplyCalls := [], DeleteByClusterID := [], ListCallCount := 0, StatusCalls := [], EventHistory := [],
     EnsureProjectError := None, ApplyError := None, DeleteError := None, ListError := None,
     GetStatusError := None, StatusOverrides := []\<rparr>"

definition SetApplyError :: "gerr option \<Rightarrow> mock_client \<Rightarrow> mock_client" where
  "SetApplyError e m = m\<lparr>ApplyError := e\<rparr>"

definition SetDeleteError :: "gerr option \<Rightarrow> mock_client \<Rightarrow> mock_client" where
  "SetDeleteError e m = m\<lparr>DeleteError := e\<rparr>"

definition SetStatusOverride :: "uuid \<Rightarrow> shoot_status_type \<Rightarrow> string \<Rightarrow> mock_client \<Rightarrow> mock_client" where
  "SetStatusOverride c t msg m =
     m\<lparr>StatusOverrides := AList.update c \<lparr>st_status = t, st_message = msg\<rparr> (StatusOverrides m)\<rparr>"

definition HasShootForCluster :: "uuid \<Rightarrow> mock_client \<Rightarrow> bool" where
  "HasShootForCluster c m =
     (case findShootByClusterID c m of None \<Rightarrow> False | Some (n, s) \<Rightarrow> ms_deleted s = None)"

definition ShootCount :: "mock_client \<Rightarrow> nat" where
  "ShootCount m = count_rows (\<lambda>(n, s). ms_deleted s = None) (mg_shoots m)"

definition GetEventHistoryForCluster :: "uuid \<Rightarrow> mock_client \<Rightarrow> mock_event list" where
  "GetEventHistoryForCluster c m = filter (\<lambda>e. me_cluster e = c) (EventHistory m)"

text \<open>\<open>base64.StdEncoding.EncodeToString\<close>.\<close>

definition b64_digit :: "nat \<Rightarrow> char" where
  "b64_digit n = char_of (if n < 26 then 65 + n else if n < 52 then 71 + n else if n < 62 then n - 4
     else if n = 62 then 43 else 47)"

fun b64_encode :: "nat list \<Rightarrow> string" where
  "b64_encode [] = ''''"
| "b64_encode [a] = [b64_digit (a div 4), b64_digit (16 * (a mod 4)), CHR ''='', CHR ''='']"
| "b64_encode [a, b] = [b64_digit (a div 4), b64_digit (16 * (a mod 4) + b div 16), b64_digit (4 * (b mod 16)), CHR ''='']"
| "b64_encode (a # b # c # xs) =
     [b64_digit (a div 4), b64_digit (16 * (a mod 4) + b div 16), b64_digit (4 * (b mod 16) + c div 64),
      b64_digit (c mod 64)] @ b64_encode xs"

definition MockRequestAdminKubeconfig ::
  "(uuid \<Rightarrow> string) \<Rightarrow> micros \<Rightarrow> uuid \<Rightarrow> int \<Rightarrow> mock_client \<Rightarrow> (gerr + admin_kubeconfig) \<times> mock_client" where
  "MockRequestAdminKubeconfig us now c expirationSeconds m =
     (case findShootByClusterID c m of
        None \<Rightarrow> (Inl (ErrNew (''shoot not found for cluster '' @ us c)), m)
      | Some _ \<Rightarrow>
          (Inr \<lparr>ak_kubeconfig = join_lines
             [''apiVersion: v1'', ''kind: Config'', ''clusters:'', ''- cluster:'',
              ''    server: https://api.mock-shoot-'' @ us c @ ''.example.com'',
              ''    certificate-authority-data: '' @ b64_encode (map of_char ''MOCK CA - not a real certificate''),
              ''  name: mock'', ''contexts:'', ''- context:'', ''    cluster: mock'', ''    user: mock'',
              ''  name: mock'', ''current-context: mock'', ''users:'', ''- name: mock'', ''  user:'',
              ''    token: mock-admin-token-'' @ us c, ''''],
             ak_expires_at = now + expirationSeconds * 1000000\<rparr>, m))"

definition mock_client_ops :: "(uuid \<Rightarrow> string) \<Rightarrow> (micros \<Rightarrow> micros \<Rightarrow> string) \<Rightarrow> mock_client gardener_ops" where
  "mock_client_ops us pct = \<lparr>EnsureProject = MockEnsureProject, ApplyShoot = MockApplyShoot us,
     DeleteShootByClusterID = MockDeleteShootByClusterID, ListShoots = MockListShoots,
     GetShootStatus = MockGetShootStatus pct, RequestAdminKubeconfig = MockRequestAdminKubeconfig us\<rparr>"

section \<open>The contract of the in-memory client\<close>

definition sh_cluster :: "string \<times> mock_gshoot \<Rightarrow> uuid" where
  "sh_cluster p = cs_id (ms_cluster (snd p))"

definition mock_live :: "mock_client \<Rightarrow> uuid \<Rightarrow> bool" where
  "mock_live m c = list_ex (\<lambda>p. sh_cluster p = c) (mg_shoots m)"

definition mock_going :: "mock_client \<Rightarrow> uuid \<Rightarrow> bool" where
  "mock_going m c = list_ex (\<lambda>p. sh_cluster p = c \<and> ms_deleted (snd p) \<noteq> None) (mg_shoots m)"

definition mock_reflects :: "mock_client \<Rightarrow> cluster_to_sync \<Rightarrow> bool" where
  "mock_reflects m cs = list_ex (\<lambda>p. ms_cluster (snd p) = cs) (mg_shoots m)"

definition one_shoot_each :: "(string \<times> mock_gshoot) list \<Rightarrow> bool" where
  "one_shoot_each l \<longleftrightarrow> distinct (map fst l) \<and>
     list_all (\<lambda>p. list_all (\<lambda>q. sh_cluster p = sh_cluster q \<longrightarrow> fst p = fst q) l) l"

definition labelled :: "(uuid \<Rightarrow> string) \<Rightarrow> string \<times> mock_gshoot \<Rightarrow> bool" where
  "labelled us p \<longleftrightarrow> si_cluster (ms_info (snd p)) = sh_cluster p \<and>
     map_of (si_labels (ms_info (snd p))) LabelClusterID = Some (us (sh_cluster p))"

definition mock_client_ok :: "(uuid \<Rightarrow> string) \<Rightarrow> (string \<Rightarrow> uuid option) \<Rightarrow> mock_client \<Rightarrow> bool" where
  "mock_client_ok us up m \<longleftrightarrow> uuid_text us up \<and> ValidateSpecs m \<and> one_shoot_each (mg_shoots m) \<and>
     list_all (labelled us) (mg_shoots m) \<and>
     list_all (\<lambda>(c, st). known_status (st_status st) \<and> \<not> not_found_status st) (StatusOverrides m)"

section \<open>Lemmas: the in-memory client\<close>

lemma set_alist_update:
  "distinct (map fst l) \<Longrightarrow> set (AList.update k v l) = insert (k, v) {p \<in> set l. fst p \<noteq> k}"
  by (induction l) (auto simp: image_iff)

lemma set_alist_delete: "set (AList.delete k l) = {p \<in> set l. fst p \<noteq> k}"
  by (auto simp: AList.delete_eq)

lemma one_shoot_eachD:
  "one_shoot_each l \<Longrightarrow> p \<in> set l \<Longrightarrow> q \<in> set l \<Longrightarrow> sh_cluster p = sh_cluster q \<Longrightarrow> p = q"
  unfolding one_shoot_each_def list_all_iff distinct_map inj_on_def by blast

lemma one_shoot_each_update:
  assumes "one_shoot_each l" "\<And>p. p \<in> set l \<Longrightarrow> sh_cluster p = sh_cluster (n, s) \<Longrightarrow> fst p = n"
  shows "one_shoot_each (AList.update n s l)"
proof -
  have d: "distinct (map fst l)" and same: "\<And>p q. p \<in> set l \<Longrightarrow> q \<in> set l \<Longrightarrow> sh_cluster p = sh_cluster q \<Longrightarrow> fst p = fst q"
    using assms(1) unfolding one_shoot_each_def list_all_iff by blast+
  have "fst p = fst q" if "p \<in> set (AList.update n s l)" "q \<in> set (AList.update n s l)" "sh_cluster p = sh_cluster q" for p q
    using that assms(2) [of p] assms(2) [of q] same [of p q] unfolding set_alist_update [OF d] by auto
  moreover have "distinct (map fst (AList.update n s l))"
    using d by (rule distinct_update)
  ultimately show ?thesis
    unfolding one_shoot_each_def list_all_iff by blast
qed

lemma one_shoot_each_sub:
  "one_shoot_each l \<Longrightarrow> set k \<subseteq> set l \<Longrightarrow> distinct (map fst k) \<Longrightarrow> one_shoot_each k"
  unfolding one_shoot_each_def list_all_iff by blast

lemma list_all_update: "list_all P l \<Longrightarrow> P (n, s) \<Longrightarrow> list_all P (AList.update n s l)"
  using set_AList_update [of n s l] unfolding list_all_iff by blast

lemma distinct_filter_fst: "distinct (map fst l) \<Longrightarrow> distinct (map fst (filter P l))"
  by (induction l) auto

lemma findShoot_sh_cluster: "findShootByClusterID c m = find (\<lambda>p. sh_cluster p = c) (mg_shoots m)"
  by (simp add: findShootByClusterID_def sh_cluster_def case_prod_unfold)

lemma find_shoot_SomeD:
  "findShootByClusterID c m = Some p \<Longrightarrow> p \<in> set (mg_shoots m) \<and> sh_cluster p = c"
  unfolding findShoot_sh_cluster by (rule find_SomeD)

lemma find_shoot_None: "findShootByClusterID c m = None \<longleftrightarrow> \<not> mock_live m c"
  unfolding findShoot_sh_cluster find_None_iff mock_live_def list_ex_iff by blast

lemma mock_client_okD:
  assumes "mock_client_ok us up m"
  shows "one_shoot_each (mg_shoots m)" "list_all (labelled us) (mg_shoots m)" "ValidateSpecs m" "uuid_text us up"
    "distinct (map fst (mg_shoots m))"
  using assms by (auto simp: mock_client_ok_def one_shoot_each_def)

text \<open>The operations only replace or remove the shoot of one cluster. \<open>same_settings\<close>: everything
  the invariant reads besides the shoots is kept.\<close>

definition same_settings :: "mock_client \<Rightarrow> mock_client \<Rightarrow> bool" where
  "same_settings m m' \<longleftrightarrow> ValidateSpecs m' = ValidateSpecs m \<and> StatusOverrides m' = StatusOverrides m"

lemma put_shoot_ok:
  assumes "mock_client_ok us up m" "labelled us (n, s)" "same_settings m m'"
    "mg_shoots m' = AList.update n s (mg_shoots m)"
    "\<And>p. p \<in> set (mg_shoots m) \<Longrightarrow> sh_cluster p = sh_cluster (n, s) \<Longrightarrow> fst p = n"
  shows "mock_client_ok us up m'"
  using assms one_shoot_each_update [of "mg_shoots m" n s] list_all_update [of "labelled us" "mg_shoots m" n s]
  by (simp add: mock_client_ok_def same_settings_def)

lemma sub_shoots_ok:
  assumes "mock_client_ok us up m" "same_settings m m'" "set (mg_shoots m') \<subseteq> set (mg_shoots m)"
    "distinct (map fst (mg_shoots m'))"
  shows "mock_client_ok us up m'"
  using assms one_shoot_each_sub [of "mg_shoots m" "mg_shoots m'"]
  by (auto simp: mock_client_ok_def same_settings_def list_all_iff)

text \<open>What the invariant and the view say when only the bookkeeping changes.\<close>

lemma same_shoots_ok:
  "mock_client_ok us up m \<Longrightarrow> same_settings m m' \<Longrightarrow> mg_shoots m' = mg_shoots m \<Longrightarrow> mock_client_ok us up m'"
  by (simp add: mock_client_ok_def same_settings_def)

lemma same_shoots_view:
  "mg_shoots m' = mg_shoots m \<Longrightarrow> mock_live m' = mock_live m \<and> mock_going m' = mock_going m"
  by (simp add: mock_live_def mock_going_def fun_eq_iff)

lemma mock_EnsureProject_law:
  assumes "mock_client_ok us up m" "MockEnsureProject now p org m = (r, m')"
  shows "mock_client_ok us up m' \<and> mock_live m' = mock_live m \<and> mock_going m' = mock_going m"
proof -
  have "same_settings m m' \<and> mg_shoots m' = mg_shoots m"
    using assms(2) by (auto simp: MockEnsureProject_def Let_def same_settings_def split: option.splits if_splits)
  with assms(1) show ?thesis
    by (blast intro: same_shoots_ok dest: same_shoots_view)
qed

text \<open>The view, read off one shoot; replacing the shoot under one name.\<close>

lemma mock_live_iff: "mock_live m d \<longleftrightarrow> (\<exists>p\<in>set (mg_shoots m). sh_cluster p = d)"
  by (simp add: mock_live_def list_ex_iff)

lemma mock_going_mem:
  assumes "one_shoot_each (mg_shoots m)" "p \<in> set (mg_shoots m)" "sh_cluster p = d"
  shows "mock_going m d \<longleftrightarrow> ms_deleted (snd p) \<noteq> None"
proof -
  have "q = p" if "q \<in> set (mg_shoots m)" "sh_cluster q = d" for q
    using one_shoot_eachD [OF assms(1) that(1) assms(2)] that(2) assms(3) by simp
  with assms(2,3) show ?thesis
    unfolding mock_going_def list_ex_iff by blast
qed

lemma common_shoot:
  assumes "one_shoot_each (mg_shoots m)" "one_shoot_each (mg_shoots m')"
    "p \<in> set (mg_shoots m)" "p \<in> set (mg_shoots m')" "sh_cluster p = d"
  shows "mock_live m d \<and> mock_live m' d \<and> mock_going m' d = mock_going m d"
  using mock_going_mem [OF assms(1,3,5)] mock_going_mem [OF assms(2,4,5)] assms(3-5)
  unfolding mock_live_iff by blast

lemma put_shoot_others:
  assumes "one_shoot_each (mg_shoots m)" "one_shoot_each (mg_shoots m')"
    "mg_shoots m' = AList.update n s (mg_shoots m)" "d \<noteq> sh_cluster (n, s)"
  shows "mock_live m' d \<Longrightarrow> mock_live m d \<and> mock_going m' d = mock_going m d"
    and "(\<And>p. p \<in> set (mg_shoots m) \<Longrightarrow> fst p = n \<Longrightarrow> sh_cluster p \<noteq> d) \<Longrightarrow> mock_live m d \<Longrightarrow>
      mock_live m' d \<and> mock_going m' d = mock_going m d"
proof -
  have dist: "distinct (map fst (mg_shoots m))"
    using assms(1) by (simp add: one_shoot_each_def)
  note set' = set_alist_update [OF dist, of n s]
  show "mock_live m d \<and> mock_going m' d = mock_going m d" if "mock_live m' d"
  proof -
    from that obtain p where p: "p \<in> set (mg_shoots m')" "sh_cluster p = d"
      unfolding mock_live_iff by blast
    with assms(4) have "p \<in> set (mg_shoots m)"
      unfolding assms(3) set' by blast
    from common_shoot [OF assms(1,2) this p] show ?thesis by simp
  qed
  show "mock_live m' d \<and> mock_going m' d = mock_going m d"
    if "\<And>p. p \<in> set (mg_shoots m) \<Longrightarrow> fst p = n \<Longrightarrow> sh_cluster p \<noteq> d" "mock_live m d"
  proof -
    from that(2) obtain p where p: "p \<in> set (mg_shoots m)" "sh_cluster p = d"
      unfolding mock_live_iff by blast
    with that(1) have "p \<in> set (mg_shoots m')"
      unfolding assms(3) set' by blast
    from common_shoot [OF assms(1,2) p(1) this p(2)] show ?thesis by simp
  qed
qed

lemma validateClusterSpec_limits:
  "validateClusterSpec cs = None \<Longrightarrow> validateNodeLimits (cs_pools cs) (cs_limits cs) = None"
  by (auto simp: validateClusterSpec_def Let_def split: if_splits option.splits)

lemma labelled_new: "labelled us (n, new_mock_shoot us now cs)"
  by (simp add: labelled_def new_mock_shoot_def shoot_labels_def sh_cluster_def)

lemma mock_ApplyShoot_law:
  assumes ok: "mock_client_ok us up m" and eq: "MockApplyShoot us now cs m = (e, m')"
  shows "mock_client_ok us up m' \<and>
    (\<forall>d. d \<noteq> cs_id cs \<longrightarrow> mock_live m' d \<longrightarrow> mock_live m d \<and> mock_going m' d = mock_going m d) \<and>
    (e = None \<longrightarrow> mock_live m' (cs_id cs) \<and> mock_reflects m' cs \<and> validateNodeLimits (cs_pools cs) (cs_limits cs) = None)"
proof (cases e)
  case (Some err)
  then have "same_settings m m' \<and> mg_shoots m' = mg_shoots m"
    using eq by (auto simp: MockApplyShoot_def Let_def same_settings_def split: option.splits if_splits)
  with ok Some show ?thesis
    by (metis option.distinct(1) same_shoots_ok same_shoots_view)
next
  case None
  note ok' = mock_client_okD [OF ok]
  have valid: "validateNodeLimits (cs_pools cs) (cs_limits cs) = None"
    using None eq ok'(3)
    by (auto simp: MockApplyShoot_def Let_def validateClusterSpec_limits split: option.splits if_splits)
  let ?f = "findShootByClusterID (cs_id cs) m"
  have f: "findShootByClusterID (cs_id cs) (m\<lparr>ApplyCalls := ApplyCalls m @ [cs]\<rparr>) = ?f"
    by (simp add: findShootByClusterID_def)
  obtain n s where m': "mg_shoots m' = AList.update n s (mg_shoots m)" "ms_cluster s = cs" "same_settings m m'"
    and s: "case ?f of None \<Rightarrow> s = new_mock_shoot us now cs \<and> n = cs_shoot_name cs
      | Some (n', s') \<Rightarrow> n = n' \<and> s = s'\<lparr>ms_cluster := cs\<rparr>"
  proof (cases ?f)
    case None
    with eq \<open>e = None\<close> f that [of "cs_shoot_name cs" "new_mock_shoot us now cs"] show thesis
      by (auto simp: MockApplyShoot_def Let_def put_shoot_def record_event_def same_settings_def new_mock_shoot_def
          split: option.splits if_splits)
  next
    case (Some p)
    with eq \<open>e = None\<close> f that [of "fst p" "(snd p)\<lparr>ms_cluster := cs\<rparr>"] show thesis
      by (auto simp: MockApplyShoot_def Let_def put_shoot_def record_event_def same_settings_def
          split: option.splits if_splits prod.splits)
  qed
  have id: "sh_cluster (n, s) = cs_id cs"
    by (simp add: sh_cluster_def m')
  have "labelled us (n, s)"
  proof (cases ?f)
    case (Some p)
    with find_shoot_SomeD [OF Some] ok'(2) s show ?thesis
      by (auto simp: labelled_def list_all_iff sh_cluster_def)
  qed (use s in \<open>simp add: labelled_new\<close>)
  moreover have "fst p = n" if "p \<in> set (mg_shoots m)" "sh_cluster p = sh_cluster (n, s)" for p
  proof (cases ?f)
    case None
    with that id show ?thesis by (auto simp: find_shoot_None mock_live_def list_ex_iff)
  next
    case (Some q)
    with find_shoot_SomeD [OF Some] that id s one_shoot_eachD [OF ok'(1), of p q] show ?thesis
      by (auto split: prod.splits)
  qed
  ultimately have "mock_client_ok us up m'"
    by (rule put_shoot_ok [OF ok _ m'(3,1)])
  moreover have "mock_live m d \<and> mock_going m' d = mock_going m d"
    if "d \<noteq> cs_id cs" "mock_live m' d" for d
    by (rule put_shoot_others(1) [OF ok'(1) mock_client_okD(1) [OF \<open>mock_client_ok us up m'\<close>] m'(1)])
      (use that id in auto)
  moreover have "(n, s) \<in> set (mg_shoots m')"
    unfolding m'(1) set_alist_update [OF ok'(5)] by simp
  then have "mock_live m' (cs_id cs) \<and> mock_reflects m' cs"
    unfolding mock_live_iff mock_reflects_def list_ex_iff using id m'(2) by (metis snd_conv)
  ultimately show ?thesis
    using valid by blast
qed

lemma replaced_shoot:
  assumes ok: "mock_client_ok us up m" and p: "(n, s) \<in> set (mg_shoots m)"
    and s': "ms_info s' = ms_info s" "ms_cluster s' = ms_cluster s"
    and m': "mg_shoots m' = AList.update n s' (mg_shoots m)" "same_settings m m'"
  shows "mock_client_ok us up m' \<and> mock_live m' = mock_live m \<and>
    (\<forall>d. d \<noteq> sh_cluster (n, s) \<longrightarrow> mock_going m' d = mock_going m d) \<and>
    (mock_going m' (sh_cluster (n, s)) \<longleftrightarrow> ms_deleted s' \<noteq> None)"
proof -
  note okD = mock_client_okD [OF ok]
  have c: "sh_cluster (n, s') = sh_cluster (n, s)" and l: "labelled us (n, s')"
    using p s' okD(2) by (auto simp: sh_cluster_def labelled_def list_all_iff)
  have same: "q = (n, s)" if "q \<in> set (mg_shoots m)" "fst q = n" for q
    using that p okD(5) unfolding distinct_map inj_on_def by fastforce
  have ok': "mock_client_ok us up m'"
    using one_shoot_eachD [OF okD(1) _ p] c by (intro put_shoot_ok [OF ok l m'(2,1)]) auto
  have mem: "(n, s') \<in> set (mg_shoots m')"
    unfolding m'(1) set_alist_update [OF okD(5)] by simp
  have live: "mock_live m' d \<longleftrightarrow> mock_live m d" for d
  proof (cases "d = sh_cluster (n, s)")
    case True
    then show ?thesis using p mem c unfolding mock_live_iff by metis
  next
    case False
    with put_shoot_others [OF okD(1) mock_client_okD(1) [OF ok'] m'(1), of d] same c show ?thesis
      by (metis)
  qed
  have going: "mock_going m' d = mock_going m d" if "d \<noteq> sh_cluster (n, s)" for d
  proof (cases "mock_live m d")
    case True
    with put_shoot_others(2) [OF okD(1) mock_client_okD(1) [OF ok'] m'(1), of d] same c that show ?thesis
      by metis
  next
    case False
    with live [of d] show ?thesis
      by (auto simp: mock_live_def mock_going_def list_ex_iff)
  qed
  show ?thesis
    using ok' live going mock_going_mem [OF mock_client_okD(1) [OF ok'] mem c] by (simp add: fun_eq_iff)
qed

lemma mock_DeleteShoot_law:
  assumes ok: "mock_client_ok us up m" and eq: "MockDeleteShootByClusterID now c m = (e, m')"
  shows "mock_client_ok us up m' \<and>
    (\<forall>d. d \<noteq> c \<longrightarrow> mock_live m' d = mock_live m d \<and> mock_going m' d = mock_going m d) \<and>
    (mock_live m' c \<longrightarrow> mock_live m c \<and> (mock_going m c \<longrightarrow> mock_going m' c)) \<and>
    (e = None \<longrightarrow> mock_live m' c \<longrightarrow> mock_going m' c)"
proof -
  note okD = mock_client_okD [OF ok]
  let ?f = "find (\<lambda>(n, s). si_cluster (ms_info s) = c) (mg_shoots m)"
  show ?thesis
  proof (cases "DeleteError m = None \<and> ?f \<noteq> None")
    case True
    then obtain n s where f: "?f = Some (n, s)" by auto
    from find_SomeD [OF f] okD(2) have p: "(n, s) \<in> set (mg_shoots m)" "sh_cluster (n, s) = c"
      by (auto simp: list_all_iff labelled_def)
    have m': "mg_shoots m' = AList.update n (s\<lparr>ms_deleted := Some now\<rparr>) (mg_shoots m)" "same_settings m m'"
      using True eq f by (auto simp: MockDeleteShootByClusterID_def Let_def put_shoot_def same_settings_def)
    from replaced_shoot [OF ok p(1) _ _ m'] p(2) show ?thesis by simp
  next
    case False
    then have m': "mg_shoots m' = mg_shoots m" "same_settings m m'" and e: "e = None \<Longrightarrow> ?f = None"
      using eq by (auto simp: MockDeleteShootByClusterID_def Let_def same_settings_def split: option.splits)
    have "\<not> mock_live m c" if "?f = None"
      using find_NoneD [OF that] okD(2) by (fastforce simp: mock_live_iff list_all_iff labelled_def)
    with e same_shoots_ok [OF ok m'(2,1)] same_shoots_view [OF m'(1)] show ?thesis by auto
  qed
qed

text \<open>Dropping shoots whose deletion has finished.\<close>

lemma removed_shoots:
  assumes ok: "mock_client_ok us up m" and m': "same_settings m m'" "set (mg_shoots m') \<subseteq> set (mg_shoots m)"
    "distinct (map fst (mg_shoots m'))"
    and gone: "\<And>p. p \<in> set (mg_shoots m) \<Longrightarrow> p \<notin> set (mg_shoots m') \<Longrightarrow> ms_deleted (snd p) \<noteq> None"
  shows "mock_client_ok us up m' \<and>
    (\<forall>d. if mock_live m' d then mock_live m d \<and> mock_going m' d = mock_going m d else mock_live m d \<longrightarrow> mock_going m d)"
proof -
  note one = mock_client_okD(1) [OF ok]
  have ok': "mock_client_ok us up m'"
    by (rule sub_shoots_ok [OF ok m'])
  have "if mock_live m' d then mock_live m d \<and> mock_going m' d = mock_going m d else mock_live m d \<longrightarrow> mock_going m d" for d
  proof (cases "mock_live m' d")
    case True
    then obtain p where p: "p \<in> set (mg_shoots m')" "sh_cluster p = d" unfolding mock_live_iff by blast
    with m'(2) have "p \<in> set (mg_shoots m)" by blast
    from common_shoot [OF one mock_client_okD(1) [OF ok'] this p] show ?thesis by simp
  next
    case False
    have "mock_going m d" if "mock_live m d"
    proof -
      from that obtain p where p: "p \<in> set (mg_shoots m)" "sh_cluster p = d" unfolding mock_live_iff by blast
      with False have "p \<notin> set (mg_shoots m')" unfolding mock_live_iff by blast
      with gone [OF p(1)] mock_going_mem [OF one p] show ?thesis by simp
    qed
    with False show ?thesis by simp
  qed
  with ok' show ?thesis by simp
qed

lemma same_shoots_removed:
  assumes "mock_client_ok us up m" "same_settings m m'" "mg_shoots m' = mg_shoots m"
  shows "mock_client_ok us up m' \<and>
    (\<forall>d. if mock_live m' d then mock_live m d \<and> mock_going m' d = mock_going m d else mock_live m d \<longrightarrow> mock_going m d)"
  using same_shoots_ok [OF assms] same_shoots_view [OF assms(3)] by simp

lemma mock_ListShoots_law:
  assumes ok: "mock_client_ok us up m" and eq: "MockListShoots now m = (r, m')"
  shows "mock_client_ok us up m' \<and>
    (\<forall>d. if mock_live m' d then mock_live m d \<and> mock_going m' d = mock_going m d else mock_live m d \<longrightarrow> mock_going m d) \<and>
    (\<forall>is. r = Inr is \<longrightarrow> {d. mock_live m' d} =
      {d. \<exists>i\<in>set is. \<exists>t. map_of (si_labels i) LabelClusterID = Some t \<and> up t = Some d})"
proof (cases "ListError m")
  case (Some err)
  then have "same_settings m m'" "mg_shoots m' = mg_shoots m" "r = Inl err"
    using eq by (auto simp: MockListShoots_def Let_def same_settings_def)
  with same_shoots_removed [OF ok] show ?thesis by simp
next
  case None
  note okD = mock_client_okD [OF ok]
  let ?kept = "filter (\<lambda>(n, s). \<not> fully_deleted now m s) (mg_shoots m)"
  have fd: "fully_deleted now (m\<lparr>ListCallCount := k\<rparr>) = fully_deleted now m" for k
    by (rule ext) (simp add: fully_deleted_def split: option.splits)
  have m': "mg_shoots m' = ?kept" "same_settings m m'" "r = Inr (map (\<lambda>(n, s). ms_info s) ?kept)"
    using None eq by (auto simp: MockListShoots_def Let_def same_settings_def fd)
  have gone: "ms_deleted (snd p) \<noteq> None" if "p \<in> set (mg_shoots m)" "p \<notin> set (mg_shoots m')" for p
    using that by (auto simp: m'(1) fully_deleted_def split: option.splits)
  have "up (us d) = Some d" for d
    using okD(4) by (simp add: uuid_text_def)
  then have lab: "map_of (si_labels (ms_info (snd p))) LabelClusterID = Some t \<and> up t = Some d \<longleftrightarrow>
      t = us d \<and> sh_cluster p = d" if "p \<in> set ?kept" for p t d
    using that okD(2) by (auto simp: list_all_iff labelled_def)
  have "{d. mock_live m' d} = {d. \<exists>i\<in>set (map (\<lambda>(n, s). ms_info s) ?kept). \<exists>t.
      map_of (si_labels i) LabelClusterID = Some t \<and> up t = Some d}"
  proof -
    have img: "(\<exists>i\<in>set (map (\<lambda>(n, s). ms_info s) ?kept). Q i) \<longleftrightarrow> (\<exists>p\<in>set ?kept. Q (ms_info (snd p)))" for Q
      by (simp add: case_prod_unfold)
    have lab': "(\<exists>t. map_of (si_labels (ms_info (snd p))) LabelClusterID = Some t \<and> up t = Some d) \<longleftrightarrow> sh_cluster p = d"
      if "p \<in> set ?kept" for p d
      using lab [OF that] by simp
    have "(\<exists>i\<in>set (map (\<lambda>(n, s). ms_info s) ?kept). \<exists>t.
        map_of (si_labels i) LabelClusterID = Some t \<and> up t = Some d) \<longleftrightarrow> (\<exists>p\<in>set ?kept. sh_cluster p = d)" for d
      unfolding img by (rule bex_cong [OF refl lab'])
    then show ?thesis
      unfolding mock_live_iff m'(1) by (simp only:)
  qed
  moreover have "set (mg_shoots m') \<subseteq> set (mg_shoots m)" "distinct (map fst (mg_shoots m'))"
    using okD(5) by (auto simp: m'(1) distinct_filter_fst)
  ultimately show ?thesis
    using removed_shoots [OF ok m'(2)] gone m'(3) by blast
qed

lemma progress_status_known:
  "known_status (st_status (progress_status pct now m s)) \<and> \<not> not_found_status (progress_status pct now m s)"
  by (auto simp: progress_status_def known_status_def not_found_status_def status_defs MsgShootNotFound_def
      MsgShootReady_def Let_def split: option.splits)

lemma mock_GetShootStatus_law:
  assumes ok: "mock_client_ok us up m" and eq: "MockGetShootStatus pct now cs m = (r, m')"
  shows "mock_client_ok us up m' \<and>
    (\<forall>d. if mock_live m' d then mock_live m d \<and> mock_going m' d = mock_going m d else mock_live m d \<longrightarrow> mock_going m d) \<and>
    (\<forall>st. r = Inr st \<longrightarrow> known_status (st_status st) \<and> (not_found_status st \<longrightarrow> \<not> mock_live m' (cs_id cs)))"
proof -
  note okD = mock_client_okD [OF ok]
  let ?m = "m\<lparr>StatusCalls := StatusCalls m @ [cs]\<rparr>" and ?f = "findShootByClusterID (cs_id cs) m"
  let ?nf = "\<lparr>st_status = StatusPending, st_message = MsgShootNotFound\<rparr>"
  have simps: "findShootByClusterID c ?m = findShootByClusterID c m" "fully_deleted now ?m = fully_deleted now m"
      "progress_status pct now ?m = progress_status pct now m" for c
    by (simp add: findShootByClusterID_def, rule ext, simp add: fully_deleted_def split: option.splits)
      (rule ext, simp add: progress_status_def Let_def split: option.splits)
  have nf: "known_status (st_status ?nf)"
    by (simp add: known_status_def)
  consider (quiet) "same_settings m m'" "mg_shoots m' = mg_shoots m"
      "\<And>st. r = Inr st \<Longrightarrow> known_status (st_status st) \<and> (not_found_status st \<longrightarrow> ?f = None)"
    | (gone) n s where "?f = Some (n, s)" "fully_deleted now m s" "same_settings m m'"
      "mg_shoots m' = AList.delete n (mg_shoots m)" "r = Inr ?nf"
    | (changed) n s t where "?f = Some (n, s)" "same_settings m m'"
      "mg_shoots m' = AList.update n (s\<lparr>ms_last := t\<rparr>) (mg_shoots m)" "r = Inr (progress_status pct now m s)"
  proof (cases "GetStatusError m")
    case (Some x)
    with eq quiet show thesis
      by (auto simp: MockGetShootStatus_def Let_def same_settings_def)
  next
    case ne: None
    show thesis
    proof (cases "map_of (StatusOverrides m) (cs_id cs)")
      case (Some st)
      with ok have "known_status (st_status st) \<and> \<not> not_found_status st"
        by (auto simp: mock_client_ok_def list_all_iff dest!: map_of_SomeD)
      with ne Some eq show thesis
        by (intro quiet) (auto simp: MockGetShootStatus_def Let_def same_settings_def)
    next
      case no: None
      show thesis
      proof (cases ?f)
        case None
        with ne no eq nf show thesis
          by (intro quiet) (auto simp: MockGetShootStatus_def Let_def same_settings_def simps)
      next
        case (Some p)
        obtain n s where p: "p = (n, s)" by (cases p)
        show thesis
        proof (cases "fully_deleted now m s \<or> ms_last s \<noteq> st_status (progress_status pct now m s)")
          case True
          with ne no Some p eq gone [of n s] changed [of n s "st_status (progress_status pct now m s)"] show thesis
            by (auto simp: MockGetShootStatus_def Let_def same_settings_def simps drop_shoot_def put_shoot_def
                record_event_def split: if_splits)
        next
          case False
          with ne no Some p eq progress_status_known [of pct now m s] show thesis
            by (intro quiet) (auto simp: MockGetShootStatus_def Let_def same_settings_def simps)
        qed
      qed
    qed
  qed
  then show ?thesis
  proof cases
    case quiet
    from quiet(3) have "\<forall>st. r = Inr st \<longrightarrow> known_status (st_status st) \<and> (not_found_status st \<longrightarrow> \<not> mock_live m' (cs_id cs))"
      using find_shoot_None [of "cs_id cs" m] same_shoots_view [OF quiet(2)] by auto
    with same_shoots_removed [OF ok quiet(1,2)] show ?thesis by blast
  next
    case gone
    from find_shoot_SomeD [OF gone(1)] have p: "(n, s) \<in> set (mg_shoots m)" "sh_cluster (n, s) = cs_id cs" by auto
    have set': "set (mg_shoots m') = {q \<in> set (mg_shoots m). fst q \<noteq> n}"
      unfolding gone(4) by (rule set_alist_delete)
    have same: "q = (n, s)" if "q \<in> set (mg_shoots m)" "fst q = n" for q
      using that p(1) okD(5) unfolding distinct_map inj_on_def by fastforce
    have "\<not> mock_live m' (cs_id cs)"
      using one_shoot_eachD [OF okD(1) _ p(1)] p(2) unfolding mock_live_iff set' by auto
    moreover have "ms_deleted (snd q) \<noteq> None" if "q \<in> set (mg_shoots m)" "q \<notin> set (mg_shoots m')" for q
      using same [of q] that gone(2) unfolding set' by (auto simp: fully_deleted_def split: option.splits)
    moreover have "set (mg_shoots m') \<subseteq> set (mg_shoots m)" "distinct (map fst (mg_shoots m'))"
      using okD(5) unfolding set' by (auto simp: gone(4) distinct_delete)
    ultimately show ?thesis
      using removed_shoots [OF ok gone(3)] gone(5) nf by blast
  next
    case changed
    from find_shoot_SomeD [OF changed(1)] have p: "(n, s) \<in> set (mg_shoots m)" "sh_cluster (n, s) = cs_id cs" by auto
    have "mock_going m (cs_id cs) \<longleftrightarrow> ms_deleted s \<noteq> None"
      using mock_going_mem [OF okD(1) p] by simp
    moreover have "mock_client_ok us up m' \<and> mock_live m' = mock_live m \<and>
        (\<forall>d. d \<noteq> cs_id cs \<longrightarrow> mock_going m' d = mock_going m d) \<and> (mock_going m' (cs_id cs) \<longleftrightarrow> ms_deleted s \<noteq> None)"
      using replaced_shoot [OF ok p(1) _ _ changed(3,2)] p(2) by simp
    ultimately have "mock_client_ok us up m' \<and> mock_live m' = mock_live m \<and> (\<forall>d. mock_going m' d = mock_going m d)"
      by metis
    with progress_status_known [of pct now m s] changed(4) show ?thesis by simp
  qed
qed

interpretation mock_client: gardener "mock_client_ops us pct" up "mock_client_ok us up" mock_live mock_going mock_reflects
  for us pct up
proof unfold_locales
  show "mock_client_ok us up g' \<and> mock_live g' = mock_live g \<and> mock_going g' = mock_going g"
    if "mock_client_ok us up g" "EnsureProject (mock_client_ops us pct) now p org g = (n, g')" for g now p org n g'
    using mock_EnsureProject_law [OF that(1)] that(2) by (simp add: mock_client_ops_def)
next
  show "mock_client_ok us up g' \<and>
      (\<forall>d. d \<noteq> cs_id cs \<longrightarrow> mock_live g' d \<longrightarrow> mock_live g d \<and> mock_going g' d = mock_going g d) \<and>
      (e = None \<longrightarrow> mock_live g' (cs_id cs) \<and> mock_reflects g' cs \<and> validateNodeLimits (cs_pools cs) (cs_limits cs) = None)"
    if "mock_client_ok us up g" "ApplyShoot (mock_client_ops us pct) now cs g = (e, g')" for g now cs e g'
    using mock_ApplyShoot_law [OF that(1)] that(2) by (simp add: mock_client_ops_def)
next
  fix g now c e g'
  assume ok: "mock_client_ok us up g" and "DeleteShootByClusterID (mock_client_ops us pct) now c g = (e, g')"
  then have "MockDeleteShootByClusterID now c g = (e, g')" by (simp add: mock_client_ops_def)
  from mock_DeleteShoot_law [OF ok this]
  show "mock_client_ok us up g' \<and> (\<forall>d. d \<noteq> c \<longrightarrow> mock_live g' d = mock_live g d \<and> mock_going g' d = mock_going g d) \<and>
      (mock_live g' c \<longrightarrow> mock_live g c \<and> (mock_going g c \<longrightarrow> mock_going g' c)) \<and>
      (e = None \<longrightarrow> mock_live g' c \<longrightarrow> mock_going g' c)" .
next
  fix g now l g'
  assume ok: "mock_client_ok us up g" and "ListShoots (mock_client_ops us pct) now g = (l, g')"
  then have "MockListShoots now g = (l, g')" by (simp add: mock_client_ops_def)
  from mock_ListShoots_law [OF ok this]
  show "mock_client_ok us up g' \<and>
      (\<forall>d. if mock_live g' d then mock_live g d \<and> mock_going g' d = mock_going g d else mock_live g d \<longrightarrow> mock_going g d) \<and>
      (\<forall>is. l = Inr is \<longrightarrow> {d. mock_live g' d} =
        {d. \<exists>i\<in>set is. \<exists>t. map_of (si_labels i) LabelClusterID = Some t \<and> up t = Some d})" .
next
  fix g now cs r g'
  assume ok: "mock_client_ok us up g" and "GetShootStatus (mock_client_ops us pct) now cs g = (r, g')"
  then have "MockGetShootStatus pct now cs g = (r, g')" by (simp add: mock_client_ops_def)
  from mock_GetShootStatus_law [OF ok this]
  show "mock_client_ok us up g' \<and>
      (\<forall>d. if mock_live g' d then mock_live g d \<and> mock_going g' d = mock_going g d else mock_live g d \<longrightarrow> mock_going g d) \<and>
      (\<forall>st. r = Inr st \<longrightarrow> known_status (st_status st) \<and> (not_found_status st \<longrightarrow> \<not> mock_live g' (cs_id cs)))" .
qed

text \<open>While no error is configured for them, deletes and listings of the in-memory client do not fail.\<close>

definition mock_deletes :: "(uuid \<Rightarrow> string) \<Rightarrow> (string \<Rightarrow> uuid option) \<Rightarrow> mock_client \<Rightarrow> bool" where
  "mock_deletes us up m \<longleftrightarrow> mock_client_ok us up m \<and> DeleteError m = None \<and> ListError m = None"

lemmas mock_ops_defs = mock_client_ops_def MockEnsureProject_def MockApplyShoot_def MockDeleteShootByClusterID_def
  MockListShoots_def MockGetShootStatus_def put_shoot_def drop_shoot_def record_event_def

lemma mock_deletes_gardener: "gardener (mock_client_ops us pct) up (mock_deletes us up) mock_live mock_going mock_reflects"
proof -
  have "gardener (mock_client_ops us pct) up (\<lambda>m. mock_client_ok us up m \<and> DeleteError m = None \<and> ListError m = None) mock_live mock_going mock_reflects"
    by (rule mock_client.restricted) (auto simp: mock_ops_defs Let_def split: option.splits)
  then show ?thesis by (simp add: mock_deletes_def [abs_def])
qed

lemma mock_list_succeeds:
  "mock_deletes us up m \<Longrightarrow> \<exists>infos. fst (ListShoots (mock_client_ops us pct) now m) = Inr infos"
  by (auto simp: mock_ops_defs mock_deletes_def Let_def)

lemma mock_delete_succeeds:
  "mock_deletes us up m \<Longrightarrow> fst (DeleteShootByClusterID (mock_client_ops us pct) now c m) = None"
  by (auto simp: mock_ops_defs mock_deletes_def Let_def split: option.splits)

end
