(* ===== verification/ClusterProps.thy ===== *)
theory ClusterProps
  imports ClusterHandler GardenMock
begin

text \<open>
  What the cluster handler guarantees of Gardener, for every client that keeps the contract
  \<open>gardener\<close>: syncing one cluster, polling, and reconciliation. The properties are at the end; the
  lemmas before them are proved once in the locale.
\<close>

section \<open>Lemmas: one sync\<close>

text \<open>What the database asks for: the columns of the cluster, its node pools and its organization's
  limits.\<close>

definition limits_or_none :: "uuid \<Rightarrow> tenant_db \<Rightarrow> int option \<times> int option \<times> int option" where
  "limits_or_none org d =
     (case OrganizationLimitsGetByOrgID org d of Inr l \<Rightarrow> l | Inl _ \<Rightarrow> (None, None, None))"

definition no_faults :: "('s, 'g) world \<Rightarrow> bool" where
  "no_faults w \<longleftrightarrow> db_fault w = (\<lambda>_. None)"

lemma db_read_ok: "no_faults w \<Longrightarrow> db_read f w = (f (called w), called w)"
  by (simp add: no_faults_def db_read_eq)

lemma db_exec_ok: "no_faults w \<Longrightarrow> db_exec f w = (None, f (called w))"
  by (simp add: no_faults_def db_exec_eq)

lemma no_faults_simps [simp]:
  "no_faults (called w) = no_faults w" "no_faults (w\<lparr>garden := g\<rparr>) = no_faults w" "no_faults (w\<lparr>shoots := s\<rparr>) = no_faults w"
  "no_faults (add_event e w) = no_faults w" "no_faults (ClusterUpdateShootStatus c st msg w) = no_faults w"
  by (simp_all add: no_faults_def)

lemma OrganizationLimits_Inl: "OrganizationLimitsGetByOrgID org d = Inl e \<Longrightarrow> e = ErrNoRows"
  unfolding OrganizationLimitsGetByOrgID_def one_Inl_iff by (rule conjunct2)

lemma limits_read:
  "no_faults w \<Longrightarrow>
   (case fst (db_read (\<lambda>w. OrganizationLimitsGetByOrgID org (db w)) w) of
      Inr row \<Rightarrow> Inr row | Inl e \<Rightarrow> if errors_is ErrNoRows e then Inr (None, None, None) else Inl e)
   = Inr (limits_or_none org (db w))"
  by (auto simp: db_read_ok limits_or_none_def split: sum.splits dest: OrganizationLimits_Inl)

lemma garden_events [simp]:
  "garden (createSyncSucceededEvent cid action msg w) = garden w"
  "garden (createSyncFailedEvent cid action msg w) = garden w"
  by (auto simp: createSyncSucceededEvent_def createSyncFailedEvent_def db_exec_eq cluster_events_defs split: option.splits)

lemma finish_sync_garden: "finish_sync sc cid action w = Some (e, w') \<Longrightarrow> garden w' = garden w \<and> e = None"
  by (auto simp: finish_sync_def split: option.splits)

lemma ClusterGetForSync_id: "ClusterGetForSync i d = Inr c \<Longrightarrow> cg_id c = i"
  by (auto simp: ClusterGetForSync_def sync_row_of_def dest!: one_Inr_mem)

definition marked_deleted :: "tenant_db \<Rightarrow> uuid \<Rightarrow> bool" where
  "marked_deleted d c = list_ex (\<lambda>r. c_id r = c \<and> c_shoot_status r = Some StatusDeleted) (clusters d)"

lemma marked_deleted_update:
  "marked_deleted (db (ClusterUpdateShootStatus c st msg w)) d \<Longrightarrow> marked_deleted (db w) d \<or> d = c \<and> st = StatusDeleted"
  by (auto simp: marked_deleted_def ClusterUpdateShootStatus_def list_ex_iff set_update_where set_shoot_status_def)

text \<open>Clusters the database calls active, and Shoots that are not on their way out.\<close>

definition active_cluster :: "tenant_db \<Rightarrow> uuid \<Rightarrow> bool" where
  "active_cluster d c = list_ex (\<lambda>r. c_id r = c \<and> c_deleted r = None \<and> list_ex (\<lambda>org. o_id org = c_org r) (orgs d)) (clusters d)"

lemma ids_ListActive: "set (map ca_id (ClusterListActive d)) = {c. active_cluster d c}"
  by (auto simp: ClusterListActive_def active_cluster_def list_ex_iff image_iff) force+

lemma fst_shoots_by_cluster:
  "fst ` set (shoots_by_cluster up infos) =
     {d. \<exists>i\<in>set infos. \<exists>t. map_of (si_labels i) LabelClusterID = Some t \<and> up t = Some d}"
proof (induction infos rule: rev_induct)
  case Nil
  then show ?case by (simp add: shoots_by_cluster_def)
next
  case (snoc i infos)
  have "fst ` set (AList.update c i m) = insert c (fst ` set m)" for c and m :: "(uuid \<times> shoot_info) list"
    using dom_update [of c i m] by (simp add: dom_map_of_conv_image_fst)
  with snoc show ?case
    by (auto simp: shoots_by_cluster_def split: option.splits)
qed

text \<open>A row that keeps \<open>OutboxInsertReconcile\<close> from adding another one.\<close>

definition pending_or_exhausted :: "int \<Rightarrow> uuid \<Rightarrow> obrow list \<Rightarrow> bool" where
  "pending_or_exhausted maxr c rows = list_ex (\<lambda>r. ob_cluster r = Some c \<and>
     (active_status (ob_status r) \<or> ob_status r = Failed \<and> maxr \<le> ob_retries r)) rows"

lemma InsertReconcile_covers: "pending_or_exhausted maxr c (outbox (OutboxInsertReconcile c maxr w))"
  by (simp add: OutboxInsertReconcile_def pending_or_exhausted_def new_obrow_def active_status_def)

lemma InsertReconcile_frame:
  "garden (OutboxInsertReconcile c maxr w) = garden w" "db_fault (OutboxInsertReconcile c maxr w) = db_fault w"
  by (simp_all add: OutboxInsertReconcile_def)

lemma pending_or_exhausted_ext:
  "outbox_ext w w' \<Longrightarrow> pending_or_exhausted maxr c (outbox w) \<Longrightarrow> pending_or_exhausted maxr c (outbox w')"
  by (auto simp: outbox_ext_def pending_or_exhausted_def)

lemma enqueue_drifted_frame: "garden (enqueue_drifted maxr present cs w) = garden w \<and> outbox_ext w (enqueue_drifted maxr present cs w)"
proof (induction cs arbitrary: w)
  case (Cons c cs)
  have "garden (snd (db_exec (OutboxInsertReconcile (ca_id c) maxr) w)) = garden w"
      "outbox_ext w (snd (db_exec (OutboxInsertReconcile (ca_id c) maxr) w))"
    by (auto simp: db_exec_eq InsertReconcile_frame outbox_ext_called split: option.splits
        intro: outbox_ext_trans [OF outbox_ext_called] outbox_ext_inserts)
  with Cons show ?case by (auto intro: outbox_ext_trans)
qed (simp add: outbox_ext_refl)

lemma enqueue_drifted_covers:
  assumes "no_faults w" "c \<in> set cs" "ca_completed c" "ca_id c \<notin> set present"
  shows "pending_or_exhausted maxr (ca_id c) (outbox (enqueue_drifted maxr present cs w))"
  using assms(1,2)
proof (induction cs arbitrary: w)
  case (Cons a cs)
  let ?w = "if ca_completed a \<and> ca_id a \<notin> set present then snd (db_exec (OutboxInsertReconcile (ca_id a) maxr) w) else w"
  have nf: "no_faults ?w"
    using Cons.prems(1) by (auto simp: db_exec_ok no_faults_def InsertReconcile_frame db_exec_eq)
  show ?case
  proof (cases "c = a")
    case True
    then have "pending_or_exhausted maxr (ca_id c) (outbox ?w)"
      using assms(3,4) Cons.prems(1) by (simp add: db_exec_ok InsertReconcile_covers)
    from pending_or_exhausted_ext [OF conjunct2 [OF enqueue_drifted_frame] this] show ?thesis by simp
  next
    case False
    with Cons.IH [OF nf] Cons.prems(2) show ?thesis by simp
  qed
qed simp

text \<open>The tables without the columns the outbox trigger maintains.\<close>

definition no_outbox_cols :: "tenant_db \<Rightarrow> tenant_db" where
  "no_outbox_cols d = d\<lparr>clusters :=
     map (\<lambda>c. c\<lparr>c_outbox_status := None, c_outbox_retries := 0, c_outbox_error := None\<rparr>) (clusters d)\<rparr>"

lemma no_outbox_cols_trigger: "no_outbox_cols (update_cluster_status_trigger r d) = no_outbox_cols d"
  by (auto simp: no_outbox_cols_def update_cluster_status_trigger_def set_cluster_outbox_def update_where_def
      split: option.splits)

lemma no_outbox_cols_insert: "no_outbox_cols (db (outbox_insert mk w)) = no_outbox_cols (db w)"
  by (simp add: outbox_insert_def Let_def no_outbox_cols_trigger)

lemma active_cluster_cols: "no_outbox_cols d = no_outbox_cols d' \<Longrightarrow> active_cluster d = active_cluster d'"
proof -
  have "active_cluster (no_outbox_cols d) = active_cluster d" for d
    by (auto simp: active_cluster_def no_outbox_cols_def list_ex_iff fun_eq_iff)
  then show "no_outbox_cols d = no_outbox_cols d' \<Longrightarrow> active_cluster d = active_cluster d'" by metis
qed

lemma outbox_InsertReady:
  "outbox (OutboxInsertReady cid u) =
    (if list_ex (\<lambda>x. ob_cluster x = Some cid \<and> ob_event x = Ready \<and> active_status (ob_status x)) (outbox u) then outbox u
     else outbox u @ [(new_obrow (new_uuid u (n_uuids u)) Ready SrcStatus)\<lparr>ob_cluster := Some cid\<rparr>])"
  "no_outbox_cols (db (OutboxInsertReady cid u)) = no_outbox_cols (db u)"
  by (simp_all add: OutboxInsertReady_def no_outbox_cols_insert outbox_insert_def Let_def no_outbox_cols_trigger)

lemma record_transition_known:
  assumes "no_faults u" "known_status (st_status st)"
  shows "\<exists>w'. record_transition cid st u = Some w' \<and> no_outbox_cols (db w') = no_outbox_cols (db u) \<and>
    outbox w' = (if st_status st = StatusReady then outbox (OutboxInsertReady cid u) else outbox u)"
proof -
  have "status_event (st_status st) \<noteq> None"
    using assms(2) by (auto simp: status_event_def known_status_def)
  then obtain ty where ty: "status_event (st_status st) = Some ty" by blast
  define v where "v = (if ty \<noteq> '''' then snd (db_exec (ClusterCreateStatusEvent cid ty (st_message st)) u) else u)"
  have v: "no_faults v" "db v = db u" "outbox v = outbox u" "new_uuid v = new_uuid u" "n_uuids v = n_uuids u"
    using assms(1) by (auto simp: v_def db_exec_ok cluster_events_defs)
  have "record_transition cid st u = Some (if st_status st = StatusReady then snd (db_exec (OutboxInsertReady cid) v) else v)"
    by (simp add: record_transition_def ty v_def Let_def)
  with v show ?thesis
    by (simp add: db_exec_ok outbox_InsertReady)
qed

lemma enqueue_drifted_db: "no_outbox_cols (db (enqueue_drifted maxr present cs w)) = no_outbox_cols (db w)"
  by (induction cs arbitrary: w) (simp_all add: db_exec_eq OutboxInsertReconcile_def no_outbox_cols_insert split: option.splits)

lemma delete_orphans_db: "db (delete_orphan_shoots gops known cs w) = db w"
  by (induction cs arbitrary: w) (simp_all add: garden_do_def split: prod.splits)

lemma garden_do_outbox [simp]: "outbox (snd (garden_do f w)) = outbox w"
  by (simp add: garden_do_def split: prod.splits)

lemma delete_orphans_outbox: "outbox (delete_orphan_shoots gops known cs w) = outbox w"
  by (induction cs arbitrary: w) simp_all

context gardener
begin

lemma garden_do_delete:
  assumes "ok (garden w)" "garden_do (\<lambda>now. DeleteShootByClusterID ops now c) w = (e, w')"
  shows "ok (garden w') \<and> (\<forall>d. d \<noteq> c \<longrightarrow> live (garden w') d = live (garden w) d \<and> going (garden w') d = going (garden w) d) \<and>
    (live (garden w') c \<longrightarrow> live (garden w) c \<and> (going (garden w) c \<longrightarrow> going (garden w') c)) \<and>
    (e = None \<longrightarrow> live (garden w') c \<longrightarrow> going (garden w') c)"
  using assms DeleteShoot_law [OF assms(1)] by (auto simp: garden_do_eq)

lemma delete_orphans_law:
  assumes "ok (garden w)" "w' = delete_orphan_shoots ops known cs w"
  shows "ok (garden w') \<and> (\<forall>d. d \<in> set known \<or> d \<notin> set cs \<longrightarrow> live (garden w') d = live (garden w) d \<and> going (garden w') d = going (garden w) d) \<and>
    (\<forall>d. live (garden w') d \<longrightarrow> live (garden w) d \<and> (going (garden w) d \<longrightarrow> going (garden w') d)) \<and>
    ((\<forall>now c g. ok g \<longrightarrow> fst (DeleteShootByClusterID ops now c g) = None) \<longrightarrow>
      (\<forall>d\<in>set cs - set known. live (garden w') d \<longrightarrow> going (garden w') d))"
  using assms
proof (induction cs arbitrary: w)
  case (Cons c cs)
  show ?case
  proof (cases "c \<in> set known")
    case True
    with Cons.IH [OF Cons.prems(1)] Cons.prems(2) show ?thesis by auto
  next
    case False
    obtain e w1 where d: "garden_do (\<lambda>now. DeleteShootByClusterID ops now c) w = (e, w1)" by fastforce
    note D = garden_do_delete [OF Cons.prems(1) d]
    have w': "w' = delete_orphan_shoots ops known cs w1"
      using Cons.prems(2) False d by simp
    note I = Cons.IH [OF conjunct1 [OF D] w']
    have e: "e = None" if "\<forall>now c g. ok g \<longrightarrow> fst (DeleteShootByClusterID ops now c g) = None"
      using d that Cons.prems(1) by (auto simp: garden_do_eq) (metis fst_conv)
    show ?thesis
    proof (intro conjI impI allI ballI)
      fix d' assume all: "\<forall>now c g. ok g \<longrightarrow> fst (DeleteShootByClusterID ops now c g) = None"
        and d': "d' \<in> set (c # cs) - set known" and live: "live (garden w') d'"
      show "going (garden w') d'"
      proof (cases "d' \<in> set cs")
        case True
        with I all d' live show ?thesis by blast
      next
        case False
        with d' have "d' = c" by simp
        with D I live e [OF all] show ?thesis by blast
      qed
    qed (use D I False in \<open>auto\<close>)
  qed
qed simp

lemma resolve_law:
  assumes "ok (garden w)" "resolveProjectNamespace ops n org w = Some (r, w')"
  shows "ok (garden w') \<and> live (garden w') = live (garden w) \<and> going (garden w') = going (garden w) \<and> quiet w w'"
  using assms resolve_quiet [OF assms(2)] EnsureProject_law [OF assms(1)]
  by (auto simp: resolveProjectNamespace_def garden_do_eq split: option.splits prod.splits sum.splits)

lemma syncCluster_converged:
  assumes g: "ok (garden w)" and nf: "no_faults w" and row: "ClusterGetForSync i (db w) = Inr c"
    and eq: "syncCluster ops i sc w = Some (None, w')"
  shows "ok (garden w') \<and> (\<forall>d. d \<noteq> i \<longrightarrow> live (garden w') d \<longrightarrow> live (garden w) d \<and> going (garden w') d = going (garden w) d) \<and>
    (if cg_deleted c \<noteq> None then live (garden w') i \<longrightarrow> going (garden w') i
     else live (garden w') i \<and> (\<exists>ns name. GenerateShootName (cg_name c) i = Some name \<and>
       reflects (garden w') (wanted_shoot c ns name (NodePoolListByClusterID i (db w)) (limits_or_none (cg_org c) (db w)))) \<and>
       validateNodeLimits (toGardenerNodePools (NodePoolListByClusterID i (db w)))
         (toGardenerNodeLimits (limits_or_none (cg_org c) (db w))) = None)"
proof -
  have id: "cg_id c = i" by (rule ClusterGetForSync_id [OF row])
  have rd: "db_read (\<lambda>w. ClusterGetForSync i (db w)) w = (Inr c, called w)"
    using nf row by (simp add: db_read_ok)
  show ?thesis
  proof (cases "cg_deleted c")
    case (Some t)
    obtain e1 w1 where d: "garden_do (\<lambda>now. DeleteShootByClusterID ops now i) (called w) = (e1, w1)" by fastforce
    with eq rd Some id have e1: "e1 = None" "garden w' = garden w1"
      by (auto simp: syncCluster_def syncError_def split: option.splits dest!: finish_sync_garden)
    from garden_do_delete [OF _ d] g e1 Some show ?thesis by simp
  next
    case None
    obtain r w1 where r: "resolveProjectNamespace ops (cg_org_name c) (cg_org c) (called w) = Some (r, w1)"
      using resolve_total [of ops "cg_org_name c" "cg_org c" "called w"] by auto
    note R = resolve_law [OF _ r]
    obtain name where name: "GenerateShootName (cg_name c) i = Some name"
      using names_total(2) [of "cg_name c" i] by auto
    have w1: "no_faults w1" "db w1 = db w" "garden (called (called w1)) = garden w1"
      using R g nf by (auto simp: quiet_def no_faults_def)
    obtain ns where ns: "r = Inr ns"
      using eq rd None r by (cases r) (auto simp: syncCluster_def syncError_def)
    let ?pools = "NodePoolListByClusterID i (db w)" and ?limits = "limits_or_none (cg_org c) (db w)"
    obtain e2 w2 where a: "garden_do (\<lambda>now. ApplyShoot ops now (wanted_shoot c ns name ?pools ?limits)) (called (called w1)) = (e2, w2)"
      by fastforce
    have lim: "(case db_read (\<lambda>w. OrganizationLimitsGetByOrgID (cg_org c) (db w)) (called w1) of (l, v) \<Rightarrow>
        (case l of Inr row \<Rightarrow> Inr row | Inl e \<Rightarrow> if errors_is ErrNoRows e then Inr (None, None, None) else Inl e, v))
        = (Inr ?limits, called (called w1))"
      using limits_read [of "called w1" "cg_org c"] w1 by (simp add: db_read_ok)
    have eq': "syncCluster ops i sc w = (case e2 of Some e \<Rightarrow> Some (syncError i ActionSync ''apply shoot'' e w2)
        | None \<Rightarrow> finish_sync sc i ActionSync w2)"
      using rd None r ns w1 name a lim id
      by (cases e2; simp add: syncCluster_def db_read_ok split: sum.splits if_splits)
    with eq have e2: "e2 = None" "garden w' = garden w2"
      by (auto simp: syncError_def split: option.splits dest!: finish_sync_garden)
    obtain g2 where g2: "ApplyShoot ops (clock w1) (wanted_shoot c ns name ?pools ?limits) (garden w1) = (e2, g2)" "garden w2 = g2"
      using a by (auto simp: garden_do_eq)
    have ok1: "ok (garden w1)" and v1: "live (garden w1) = live (garden w)" "going (garden w1) = going (garden w)"
      using R g by auto
    have cs: "cs_id (wanted_shoot c ns name p l) = i" "cs_pools (wanted_shoot c ns name p l) = toGardenerNodePools p"
        "cs_limits (wanted_shoot c ns name p l) = toGardenerNodeLimits l" for p l
      by (simp_all add: wanted_shoot_def base_of_def clusterToSyncBase_def id)
    from ApplyShoot_law [OF ok1 g2(1)] e2 g2(2) v1 None name show ?thesis
      unfolding cs by auto
  qed
qed

text \<open>Polling makes no Shoot appear and never panics.\<close>

lemma garden_do_status:
  assumes "ok (garden w)" "garden_do (\<lambda>now. GetShootStatus ops now cs) w = (r, w')"
  shows "ok (garden w') \<and> (\<forall>d. live (garden w') d \<longrightarrow> live (garden w) d) \<and> quiet w w' \<and>
    (\<forall>st. r = Inr st \<longrightarrow> known_status (st_status st) \<and> (not_found_status st \<longrightarrow> \<not> live (garden w') (cs_id cs)))"
  using assms GetShootStatus_law [OF assms(1)] by (auto simp: garden_do_eq split: if_splits)

lemma record_transition_effect:
  assumes "record_transition cid st w = Some w'"
  shows "garden w' = garden w \<and> outbox_ext w w'"
proof -
  have exec: "garden (snd (db_exec f v)) = garden v \<and> outbox_ext v (snd (db_exec f v))"
    if "\<And>u. garden (f u) = garden u" "\<And>u. outbox_ext u (f u)" for f v
    using that by (auto simp: db_exec_eq outbox_ext_called split: option.splits intro: outbox_ext_trans [OF outbox_ext_called])
  have ready: "garden (snd (db_exec (OutboxInsertReady cid) v)) = garden v \<and> outbox_ext v (snd (db_exec (OutboxInsertReady cid) v))" for v
    by (rule exec) (simp add: OutboxInsertReady_def, rule outbox_ext_inserts)
  have event: "garden (snd (db_exec (ClusterCreateStatusEvent cid ty msg) v)) = garden v \<and>
      outbox_ext v (snd (db_exec (ClusterCreateStatusEvent cid ty msg) v))" for ty msg v
    by (rule exec) (auto simp: ClusterCreateStatusEvent_def intro: ext_intro)
  obtain ty where ty: "status_event (st_status st) = Some ty"
    using assms by (auto simp: record_transition_def split: option.splits)
  define v where "v = (if ty \<noteq> '''' then snd (db_exec (ClusterCreateStatusEvent cid ty (st_message st)) w) else w)"
  have v: "garden v = garden w \<and> outbox_ext w v"
    using event [of ty "st_message st" w] by (simp add: v_def outbox_ext_refl)
  have "w' = (if st_status st = StatusReady then snd (db_exec (OutboxInsertReady cid) v) else v)"
    using assms ty unfolding record_transition_def v_def Let_def by (auto split: if_splits)
  with v ready [of v] outbox_ext_trans [of w v w'] show ?thesis
    by (cases "st_status st = StatusReady") auto
qed

lemma record_transition_total: "known_status (st_status st) \<Longrightarrow> record_transition cid st w \<noteq> None"
  by (auto simp: record_transition_def status_event_def known_status_def Let_def)

lemma update_status_effect:
  "db_exec (ClusterUpdateShootStatus c st msg) w = (e, w') \<Longrightarrow> garden w' = garden w \<and> outbox_ext w w'"
  by (auto simp: db_exec_eq split: option.splits intro: ext_intro outbox_ext_trans [OF outbox_ext_called])

lemma poll_active_effect:
  assumes "ok (garden w)"
  shows "\<exists>w'. poll_active ops r w = Some w' \<and> ok (garden w') \<and> (\<forall>d. live (garden w') d \<longrightarrow> live (garden w) d) \<and> outbox_ext w w'"
proof -
  obtain q w1 where q: "resolveProjectNamespace ops (cg_org_name r) (cg_org r) w = Some (q, w1)"
    using resolve_total [of ops "cg_org_name r" "cg_org r" w] by auto
  note R = resolve_law [OF assms q]
  have 1: "ok (garden w1) \<and> (\<forall>d. live (garden w1) d \<longrightarrow> live (garden w) d) \<and> outbox_ext w w1"
    using R by (auto intro: quiet_ext)
  show ?thesis
  proof (cases "\<exists>ns. q = Inr ns \<and> ns \<noteq> ''''")
    case False
    with q 1 show ?thesis by (cases q) (auto simp: poll_active_def)
  next
    case True
    then obtain ns where ns: "q = Inr ns" "ns \<noteq> ''''" by blast
    obtain a w2 where a: "garden_do (\<lambda>now. GetShootStatus ops now (base_of r ns)) w1 = (a, w2)" by fastforce
    note A = garden_do_status [OF conjunct1 [OF 1] a]
    have 2: "ok (garden w2) \<and> (\<forall>d. live (garden w2) d \<longrightarrow> live (garden w) d) \<and> outbox_ext w w2"
      using A 1 quiet_ext outbox_ext_trans by blast
    show ?thesis
    proof (cases a)
      case (Inl e)
      with q ns a 2 show ?thesis by (auto simp: poll_active_def)
    next
      case (Inr st)
      obtain e3 w3 where u: "db_exec (ClusterUpdateShootStatus (cg_id r) (st_status st) (st_message st)) w2 = (e3, w3)" by fastforce
      note U = update_status_effect [OF u]
      have 3: "ok (garden w3) \<and> (\<forall>d. live (garden w3) d \<longrightarrow> live (garden w) d) \<and> outbox_ext w w3"
        using U 2 outbox_ext_trans by metis
      show ?thesis
      proof (cases "e3 = None \<and> st_status st \<noteq> textOrEmpty (cs_status r)")
        case False
        with q ns a Inr u 3 show ?thesis by (auto simp: poll_active_def split: option.splits)
      next
        case True
        obtain w4 where t: "record_transition (cg_id r) st w3 = Some w4"
          using record_transition_total A Inr by blast
        from record_transition_effect [OF t] 3
        have "ok (garden w4) \<and> (\<forall>d. live (garden w4) d \<longrightarrow> live (garden w) d) \<and> outbox_ext w w4"
          using outbox_ext_trans by metis
        moreover have "poll_active ops r w = Some w4"
          using q ns a Inr u True t by (auto simp: poll_active_def)
        ultimately show ?thesis by blast
      qed
    qed
  qed
qed

text \<open>A soft-deleted cluster is marked deleted only when Gardener has no Shoot of it.\<close>

lemma poll_deleted_effect:
  assumes "ok (garden w)"
  shows "\<exists>w'. poll_deleted ops r w = Some w' \<and> ok (garden w') \<and> (\<forall>d. live (garden w') d \<longrightarrow> live (garden w) d) \<and> outbox_ext w w' \<and>
    (db w' = db w \<or> (\<exists>st msg. db w' = db (ClusterUpdateShootStatus (cg_id r) st msg w) \<and>
       (st = StatusDeleted \<longrightarrow> \<not> live (garden w') (cg_id r))))"
proof -
  obtain q w1 where q: "resolveProjectNamespace ops (cg_org_name r) (cg_org r) w = Some (q, w1)"
    using resolve_total [of ops "cg_org_name r" "cg_org r" w] by auto
  note R = resolve_law [OF assms q]
  have 1: "ok (garden w1) \<and> (\<forall>d. live (garden w1) d \<longrightarrow> live (garden w) d) \<and> quiet w w1"
    using R by simp
  show ?thesis
  proof (cases "\<exists>ns. q = Inr ns \<and> ns \<noteq> ''''")
    case False
    with q 1 show ?thesis by (cases q) (auto simp: poll_deleted_def quiet_def outbox_ext_same)
  next
    case True
    then obtain ns where ns: "q = Inr ns" "ns \<noteq> ''''" by blast
    let ?cs = "(base_of r ns)\<lparr>cs_deleted := cg_deleted r\<rparr>"
    have id: "cs_id ?cs = cg_id r" by (simp add: base_of_def clusterToSyncBase_def)
    obtain a w2 where a: "garden_do (\<lambda>now. GetShootStatus ops now ?cs) w1 = (a, w2)" by fastforce
    note A = garden_do_status [OF conjunct1 [OF 1] a]
    have 2: "ok (garden w2)" "\<forall>d. live (garden w2) d \<longrightarrow> live (garden w) d" "quiet w w2"
      using A 1 quiet_trans by blast+
    have upd: "db (ClusterUpdateShootStatus c st msg (called w2)) = db (ClusterUpdateShootStatus c st msg w)" for c st msg
      using 2(3) by (simp add: ClusterUpdateShootStatus_def quiet_def)
    have ext: "outbox_ext w v" if "outbox v = outbox w2" "clock v = clock w2" "locked v = locked w2" "new_uuid v = new_uuid w2"
      "n_uuids v = n_uuids w2" for v
      using 2(3) that by (intro outbox_ext_same) (simp_all add: quiet_def)
    show ?thesis
    proof (cases a)
      case (Inl e)
      with q ns a 2 show ?thesis by (auto simp: poll_deleted_def quiet_def outbox_ext_same)
    next
      case (Inr st)
      let ?gone = "st_status st = StatusPending \<and> st_message st = MsgShootNotFound"
      let ?st = "if ?gone then StatusDeleted else StatusDeleting"
      let ?msg = "if ?gone then ''Shoot confirmed deleted'' else st_message st"
      have nl: "?gone \<longrightarrow> \<not> live (garden w2) (cg_id r)"
        using A Inr id by (simp add: not_found_status_def)
      obtain st' msg' where new: "st' = ?st" "msg' = ?msg" by blast
      define u where "u = db_exec (ClusterUpdateShootStatus (cg_id r) st' msg') w2"
      define w' where "w' = (if ?gone \<and> fst u = None
        then snd (db_exec (ClusterCreateStatusEvent (cg_id r) ''status_deleted'' ''Shoot confirmed deleted'') (snd u)) else snd u)"
      have p: "poll_deleted ops r w = Some w'"
      proof (cases ?gone)
        case True
        then have "u = db_exec (ClusterUpdateShootStatus (cg_id r) StatusDeleted ''Shoot confirmed deleted'') w2"
          by (simp add: u_def new)
        then have "db_exec (ClusterUpdateShootStatus (cg_id r) StatusDeleted ''Shoot confirmed deleted'') w2 = (fst u, snd u)"
          by simp
        with True q ns a Inr show ?thesis
          by (cases "fst u") (simp_all add: poll_deleted_def w'_def)
      next
        case False
        then have "u = db_exec (ClusterUpdateShootStatus (cg_id r) StatusDeleting (st_message st)) w2"
          by (auto simp: u_def new)
        with False q ns a Inr show ?thesis
          by (auto simp: poll_deleted_def w'_def)
      qed
      have u: "u = (case db_fault w2 (db_calls w2) of Some e \<Rightarrow> (Some e, called w2)
          | None \<Rightarrow> (None, ClusterUpdateShootStatus (cg_id r) st' msg' (called w2)))"
        by (simp add: u_def db_exec_eq)
      have w': "garden w' = garden w2" "outbox w' = outbox w2" "clock w' = clock w2" "locked w' = locked w2"
          "new_uuid w' = new_uuid w2" "n_uuids w' = n_uuids w2"
          "db w' = db w2 \<or> db w' = db (ClusterUpdateShootStatus (cg_id r) st' msg' (called w2))"
        unfolding w'_def u db_exec_eq cluster_events_defs by (simp_all split: option.splits)
      have "db w2 = db w" using 2(3) by (simp add: quiet_def)
      moreover have "st' = StatusDeleted \<longrightarrow> \<not> live (garden w2) (cg_id r)"
        using nl by (auto simp: new status_defs split: if_splits)
      ultimately show ?thesis
        using p w' 2 ext [of w'] upd [of "cg_id r" st' msg'] by auto
    qed
  qed
qed

lemma poll_rows_active:
  "ok (garden w) \<Longrightarrow> \<exists>w'. poll_rows (poll_active ops) cancelled k rows w = Some w' \<and> ok (garden w') \<and>
     (\<forall>d. live (garden w') d \<longrightarrow> live (garden w) d) \<and> outbox_ext w w'"
proof (induction rows arbitrary: k w)
  case (Cons r rows)
  obtain v where v: "poll_active ops r w = Some v" "ok (garden v)" "\<forall>d. live (garden v) d \<longrightarrow> live (garden w) d" "outbox_ext w v"
    using poll_active_effect [OF Cons.prems] by blast
  from Cons.IH [OF v(2), of "Suc k"] v Cons.prems show ?case
    by (auto simp: outbox_ext_refl intro: outbox_ext_trans)
qed (simp add: outbox_ext_refl)

lemma poll_rows_deleted:
  "ok (garden w) \<Longrightarrow> \<exists>w'. poll_rows (poll_deleted ops) cancelled k rows w = Some w' \<and> ok (garden w') \<and>
     (\<forall>d. live (garden w') d \<longrightarrow> live (garden w) d) \<and> outbox_ext w w' \<and>
     (\<forall>d. marked_deleted (db w') d \<longrightarrow> marked_deleted (db w) d \<or> \<not> live (garden w') d)"
proof (induction rows arbitrary: k w)
  case (Cons r rows)
  obtain v where v: "poll_deleted ops r w = Some v" "ok (garden v)" "\<forall>d. live (garden v) d \<longrightarrow> live (garden w) d" "outbox_ext w v"
      "db v = db w \<or> (\<exists>st msg. db v = db (ClusterUpdateShootStatus (cg_id r) st msg w) \<and>
         (st = StatusDeleted \<longrightarrow> \<not> live (garden v) (cg_id r)))"
    using poll_deleted_effect [OF Cons.prems] by blast
  have m: "marked_deleted (db v) d \<longrightarrow> marked_deleted (db w) d \<or> \<not> live (garden v) d" for d
    using v(5) marked_deleted_update by metis
  show ?case
  proof (cases "cancelled k")
    case True
    with Cons.prems show ?thesis by (simp add: outbox_ext_refl)
  next
    case False
    from Cons.IH [OF v(2), of "Suc k"] obtain w' where w': "poll_rows (poll_deleted ops) cancelled (Suc k) rows v = Some w'"
        "ok (garden w')" "\<forall>d. live (garden w') d \<longrightarrow> live (garden v) d" "outbox_ext v w'"
        "\<forall>d. marked_deleted (db w') d \<longrightarrow> marked_deleted (db v) d \<or> \<not> live (garden w') d" by blast
    have "poll_rows (poll_deleted ops) cancelled k (r # rows) w = Some w'"
      using False v(1) w'(1) by simp
    moreover have "outbox_ext w w'" using v(4) w'(4) by (rule outbox_ext_trans)
    ultimately show ?thesis
      using w'(2,3,5) v(3) m by blast
  qed
qed (simp add: outbox_ext_refl)

text \<open>The status check as a whole.\<close>

lemma CheckStatus_effect:
  assumes "ok (garden w)"
  shows "\<exists>e w'. CheckStatus ops cfg cancelled cancelled' w = Some (e, w') \<and> ok (garden w') \<and>
    (\<forall>d. live (garden w') d \<longrightarrow> live (garden w) d) \<and> outbox_ext w w'"
proof -
  have "\<exists>e v. pollActiveClusters ops cfg cancelled w = Some (e, v) \<and> ok (garden v) \<and>
      (\<forall>d. live (garden v) d \<longrightarrow> live (garden w) d) \<and> outbox_ext w v"
  proof (cases "db_read (\<lambda>w. Inr (ClusterListNeedingStatusCheck (StatusBatchSize cfg) w)) w")
    case (Pair r u)
    have u: "ok (garden u)" "garden u = garden w" "outbox_ext w u"
      using Pair assms by (auto simp: db_read_eq outbox_ext_called)
    show ?thesis
      using Pair u poll_rows_active [OF u(1), of cancelled 0] outbox_ext_trans [OF u(3)]
      by (cases r) (fastforce simp: pollActiveClusters_def)+
  qed
  then obtain e v where v: "pollActiveClusters ops cfg cancelled w = Some (e, v)" "ok (garden v)"
      "\<forall>d. live (garden v) d \<longrightarrow> live (garden w) d" "outbox_ext w v" by blast
  have "\<exists>f w'. pollDeletedClusters ops cfg cancelled' v = Some (f, w') \<and> ok (garden w') \<and>
      (\<forall>d. live (garden w') d \<longrightarrow> live (garden v) d) \<and> outbox_ext v w'"
  proof (cases "db_read (\<lambda>w. Inr (ClusterListDeletedNeedingVerification (StatusBatchSize cfg) w)) v")
    case (Pair r u)
    have u: "ok (garden u)" "garden u = garden v" "outbox_ext v u"
      using Pair v(2) by (auto simp: db_read_eq outbox_ext_called)
    show ?thesis
      using Pair u poll_rows_deleted [OF u(1), of cancelled' 0] outbox_ext_trans [OF u(3)]
      by (cases r) (fastforce simp: pollDeletedClusters_def)+
  qed
  with v show ?thesis
    by (auto simp: CheckStatus_def intro: outbox_ext_trans)
qed

text \<open>Reconciliation: which Shoots are healthy (there, and not marked for deletion) afterwards.\<close>

lemma ClusterReconcile_law:
  assumes v: "v = env (called w)" "ok (garden v)" and ord: "map_orders ord"
    and eq: "ClusterReconcile ops up ord env cfg False w = Some (None, w')"
  shows "ok (garden w') \<and>
    (\<forall>d. active_cluster (db w) d \<longrightarrow>
       (live (garden w') d \<and> \<not> going (garden w') d \<longleftrightarrow> live (garden v) d \<and> \<not> going (garden v) d)) \<and>
    ((\<forall>now c g. ok g \<longrightarrow> fst (DeleteShootByClusterID ops now c g) = None) \<longrightarrow>
       (\<forall>d. \<not> active_cluster (db w) d \<longrightarrow> live (garden w') d \<longrightarrow> going (garden w') d)) \<and>
    (no_faults v \<longrightarrow> (\<forall>c\<in>set (ClusterListActive (db w)). ca_completed c \<and> \<not> live (garden w') (ca_id c) \<longrightarrow>
       pending_or_exhausted (cc_MaxRetries cfg) (ca_id c) (outbox w')))"
proof -
  let ?active = "ClusterListActive (db w)"
  from eq have rd: "db_read (\<lambda>w. Inr (ClusterListActive (db w))) w = (Inr ?active, called w)"
    by (auto simp: ClusterReconcile_def db_read_eq split: option.splits)
  obtain r w1 where l: "garden_do (\<lambda>now. ListShoots ops now) v = (r, w1)" by fastforce
  with eq rd v(1) obtain infos where r: "r = Inr infos"
    by (cases r) (auto simp: ClusterReconcile_def)
  let ?present = "map fst (shoots_by_cluster up infos)"
  define w2 where "w2 = enqueue_drifted (cc_MaxRetries cfg) ?present ?active w1"
  have w': "w' = delete_orphan_shoots ops (map ca_id ?active) (ord 0 ?present) w2"
    using eq rd l r v(1) by (simp add: ClusterReconcile_def Let_def w2_def)
  obtain g1 where g1: "ListShoots ops (clock v) (garden v) = (r, g1)" "w1 = v\<lparr>garden := g1\<rparr>"
    using l by (auto simp: garden_do_eq)
  note L = ListShoots_law [OF v(2) g1(1)]
  have present: "set ?present = {d. live g1 d}"
    using L r fst_shoots_by_cluster [of up infos] by simp
  have w2: "garden w2 = g1" "outbox_ext w1 w2"
    using enqueue_drifted_frame [of "cc_MaxRetries cfg" ?present ?active w1] g1(2) by (auto simp: w2_def)
  have set: "set (ord 0 ?present) = {d. live g1 d}"
    using ord present by (simp add: map_orders_def)
  have known: "set (map ca_id ?active) = {d. active_cluster (db w) d}"
    by (rule ids_ListActive)
  have okw2: "ok (garden w2)" using L w2(1) by simp
  note D = delete_orphans_law [OF okw2 w', unfolded set known w2(1)]
  have frame: "live (garden w') d = live g1 d \<and> going (garden w') d = going g1 d" if "active_cluster (db w) d" for d
    using D that by blast
  have keep: "live (garden w') d \<and> \<not> going (garden w') d \<longleftrightarrow> live (garden v) d \<and> \<not> going (garden v) d"
    if "active_cluster (db w) d" for d
    using frame [OF that] conjunct1 [OF conjunct2 [OF L]] by metis
  have clean: "going (garden w') d" if "\<forall>now c g. ok g \<longrightarrow> fst (DeleteShootByClusterID ops now c g) = None"
      "\<not> active_cluster (db w) d" "live (garden w') d" for d
    using D that by blast
  have drift: "pending_or_exhausted (cc_MaxRetries cfg) (ca_id c) (outbox w')"
    if "no_faults v" "c \<in> set ?active" "ca_completed c" "\<not> live (garden w') (ca_id c)" for c
  proof -
    have "active_cluster (db w) (ca_id c)" using that(2) known by auto
    with frame that(4) present have "ca_id c \<notin> set ?present" by simp
    then have "pending_or_exhausted (cc_MaxRetries cfg) (ca_id c) (outbox w2)"
      unfolding w2_def using that(1-3) g1(2) by (intro enqueue_drifted_covers) simp_all
    moreover have "outbox w' = outbox w2"
      unfolding w' by (rule delete_orphans_outbox)
    ultimately show ?thesis by simp
  qed
  show ?thesis
    using D keep clean drift by blast
qed

end

section \<open>A sample cluster\<close>

definition sample_cluster_row :: "micros option \<Rightarrow> cluster_row" where
  "sample_cluster_row del = \<lparr>c_id = 7, c_org = 3, c_name = ''prod'', c_region = ''eu'', c_version = ''1.31'',
     c_deleted = del, c_shoot_status = None, c_shoot_message = None, c_shoot_updated = None,
     c_outbox_status = Some Completed, c_outbox_retries = 0, c_outbox_error = None, c_region_id = None\<rparr>"

definition sample_pool_row :: node_pool_row where
  "sample_pool_row = \<lparr>np_id = 9, np_cluster = 7, np_name = ''pool'', np_machine_type = ''n1'', np_min = 1, np_max = 3,
     np_created = 0, np_deleted = None, np_machine_type_id = None\<rparr>"

definition sample_cluster_db :: "micros option \<Rightarrow> tenant_db" where
  "sample_cluster_db del = empty_db\<lparr>orgs := [\<lparr>o_id = 3, o_name = ''acme''\<rparr>], clusters := [sample_cluster_row del],
     node_pools := [sample_pool_row]\<rparr>"

definition sample_cluster_world :: "micros option \<Rightarrow> (unit, mock_client) world" where
  "sample_cluster_world del = (blank_world () NewMock)\<lparr>db := sample_cluster_db del\<rparr>"

definition sample_sc :: "entity_type \<Rightarrow> sync_context" where
  "sample_sc e = \<lparr>sc_entity = e, sc_event = Created, sc_source = SrcTrigger\<rparr>"

abbreviation sample_gops :: "mock_client gardener_ops" where
  "sample_gops \<equiv> mock_client_ops dec_us (\<lambda>_ _. ''50'')"

lemmas sample_cluster_defs = sample_cluster_row_def sample_pool_row_def sample_cluster_db_def
  sample_cluster_world_def sample_sc_def blank_world_def empty_db_def

lemma sample_world_ok: "no_faults (sample_cluster_world del)" "mock_deletes dec_us dec_up (garden (sample_cluster_world del))"
    "mock_client_ok dec_us dec_up (garden (sample_cluster_world del))"
  by (simp_all add: sample_cluster_defs no_faults_def mock_deletes_def mock_client_ok_def NewMock_def dec_text one_shoot_each_def)

lemma sample_sync_row:
  "ClusterGetForSync 7 (db (sample_cluster_world del)) = Inr \<lparr>cg_id = 7, cg_name = ''prod'', cg_region = ''eu'',
     cg_version = ''1.31'', cg_deleted = del, cg_org = 3, cg_org_name = ''acme'', cg_cloud_profile = None,
     cg_cloud_profile_region = None\<rparr>"
  by (simp add: ClusterGetForSync_def sample_cluster_defs one_def sync_row_of_def cloud_profile_of_def
      cloud_profile_region_of_def region_row_of_def)

lemma sample_spec_valid: "validateClusterSpec (wanted_shoot \<lparr>cg_id = 7, cg_name = ''prod'', cg_region = ''eu'',
     cg_version = ''1.31'', cg_deleted = None, cg_org = 3, cg_org_name = ''acme'', cg_cloud_profile = None,
     cg_cloud_profile_region = None\<rparr> ns name (NodePoolListByClusterID 7 (sample_cluster_db None)) (None, None, None)) = None"
  apply (simp add: wanted_shoot_def base_of_def clusterToSyncBase_def NodePoolListByClusterID_def sample_cluster_defs
      toGardenerNodePools_def toGardenerNodeLimits_def int4Ptr_def validateClusterSpec_def)
  by code_simp

lemma mock_first_apply:
  "garden u = NewMock\<lparr>EnsureProjectCalls := a, mg_projects := b, projectCreatedAt := c\<rparr> \<Longrightarrow>
   validateClusterSpec cs = None \<Longrightarrow> cs_shoot_name cs \<noteq> [] \<Longrightarrow>
   \<exists>u'. garden_do (\<lambda>now. ApplyShoot sample_gops now cs) u = (None, u')"
  by (simp add: garden_do_eq mock_ops_defs NewMock_def Let_def findShootByClusterID_def)

lemma sample_sync:
  fixes W :: "('s, mock_client) world"
  assumes nf: "no_faults W" and W: "db W = sample_cluster_db None" "garden W = NewMock"
  shows "\<exists>w'. syncCluster sample_gops 7 (sample_sc EntityCluster) W = Some (None, w')"
proof -
  let ?c = "\<lparr>cg_id = 7, cg_name = ''prod'', cg_region = ''eu'', cg_version = ''1.31'', cg_deleted = None, cg_org = 3,
     cg_org_name = ''acme'', cg_cloud_profile = None, cg_cloud_profile_region = None\<rparr>"
  obtain p where p: "ProjectName ''acme'' = Some p" using names_total(1) by blast
  obtain name where name: "GenerateShootName ''prod'' 7 = Some name" using names_total(2) by blast
  have ne: "name \<noteq> []" by (rule GenerateShootName_nonempty [OF name])
  define v where "v = (called W)\<lparr>garden := NewMock\<lparr>EnsureProjectCalls := [p], mg_projects := [(p, True)],
    projectCreatedAt := [(p, clock W)]\<rparr>\<rparr>"
  have v: "no_faults v" "db v = sample_cluster_db None"
    using nf W by (simp_all add: v_def)
  have ep: "resolveProjectNamespace sample_gops ''acme'' 3 (called W) = Some (Inr (NamespaceFromProjectName p), v)"
    by (simp add: resolveProjectNamespace_def p garden_do_def mock_ops_defs Let_def v_def W(2) NewMock_def)
  have lim: "OrganizationLimitsGetByOrgID 3 (sample_cluster_db None) = Inl ErrNoRows"
    by (simp add: OrganizationLimitsGetByOrgID_def sample_cluster_db_def empty_db_def one_def)
  let ?cs = "wanted_shoot ?c (NamespaceFromProjectName p) name (NodePoolListByClusterID 7 (sample_cluster_db None)) (None, None, None)"
  obtain u' where ap: "garden_do (\<lambda>now. ApplyShoot sample_gops now ?cs) (called (called v)) = (None, u')"
  proof -
    have "garden (called (called v)) = NewMock\<lparr>EnsureProjectCalls := [p], mg_projects := [(p, True)], projectCreatedAt := [(p, clock W)]\<rparr>"
      by (simp add: v_def)
    from mock_first_apply [OF this sample_spec_valid] ne that show thesis by (auto simp: wanted_shoot_def)
  qed
  have "syncCluster sample_gops 7 (sample_sc EntityCluster) W = finish_sync (sample_sc EntityCluster) 7 ActionSync u'"
    using sample_sync_row [of None] ep v lim name ap nf W by (simp add: syncCluster_def db_read_ok sample_cluster_world_def)
  then show ?thesis
    by (simp add: finish_sync_def sample_sc_def syncMessage_def)
qed

section \<open>Properties\<close>



text \<open>
  The delete path does not depend on the organization's Gardener project. Syncing a deleted cluster
  gives the same result whatever \<open>EnsureProject\<close> does (it is not called), so a cluster can be deleted
  while its project is missing or broken.
\<close>

theorem delete_path_skips_project:
  assumes "no_faults w" "ClusterGetForSync i (db w) = Inr c" "cg_deleted c \<noteq> None" "sc_entity sc = EntityCluster"
  shows "ClusterSync (gops\<lparr>EnsureProject := f\<rparr>) us i sc w = ClusterSync gops us i sc w"
proof -
  have "checkPreconditions g EntityCluster i w = Some (None, called w)" for g
    using assms by (auto simp: checkPreconditions_def preconditions_def cluster_check_def db_read_ok)
  moreover have "syncCluster (gops\<lparr>EnsureProject := f\<rparr>) i sc (called w) = syncCluster gops i sc (called w)"
    using assms by (auto simp: syncCluster_def db_read_ok)
  ultimately show ?thesis
    using assms(4) by (simp add: ClusterSync_def)
qed

theorem delete_path_skips_project_witness:
  "ClusterSync (sample_gops\<lparr>EnsureProject := \<lambda>now p org g. (Inl ErrNoRows, g)\<rparr>) dec_us 7 (sample_sc EntityCluster)
     (sample_cluster_world (Some 5)) =
   ClusterSync sample_gops dec_us 7 (sample_sc EntityCluster) (sample_cluster_world (Some 5))"
  by (rule delete_path_skips_project [OF sample_world_ok(1) sample_sync_row]) (simp_all add: sample_sc_def)

text \<open>
  A node pool waits for its cluster. While no outbox row of the parent cluster has completed, syncing
  the node pool returns a precondition error, which defers the row, and Gardener is not touched.
\<close>

theorem node_pool_waits_for_cluster:
  assumes "no_faults w" "sc_entity sc = EntityNodePool" "NodePoolGetClusterID i (db w) = Inr cid"
    and "\<not> ClusterHasEverBeenSynced cid w"
  shows "\<exists>e w'. ClusterSync gops us i sc w = Some (Some e, w') \<and>
    as_precondition e = Some ''parent cluster not synced to Gardener'' \<and> garden w' = garden w \<and> outbox w' = outbox w"
proof -
  have "node_pool_check i w = Some (Some (PreconditionError ''parent cluster not synced to Gardener''), called (called w))"
    using assms by (simp add: node_pool_check_def db_read_ok ClusterHasEverBeenSynced_def)
  then show ?thesis
    using assms(2) by (simp add: ClusterSync_def checkPreconditions_def preconditions_def)
qed

theorem node_pool_waits_for_cluster_witness:
  "\<exists>e w'. ClusterSync sample_gops dec_us 9 (sample_sc EntityNodePool) (sample_cluster_world None) = Some (Some e, w') \<and>
     as_precondition e = Some ''parent cluster not synced to Gardener'' \<and> garden w' = NewMock"
proof -
  have "NodePoolGetClusterID 9 (db (sample_cluster_world None)) = Inr 7" "\<not> ClusterHasEverBeenSynced 7 (sample_cluster_world None)"
      "garden (sample_cluster_world None) = NewMock" "sc_entity (sample_sc EntityNodePool) = EntityNodePool"
    by (simp_all add: NodePoolGetClusterID_def one_def sample_cluster_defs ClusterHasEverBeenSynced_def)
  then show ?thesis
    using node_pool_waits_for_cluster [OF sample_world_ok(1), of "sample_sc EntityNodePool" 9 None 7 sample_gops dec_us] by auto
qed

text \<open>
  C15: a cluster is confirmed deleted only when its Shoot is gone. Whatever database calls fail and
  whenever the loop is cancelled, \<open>pollDeletedClusters\<close> does not panic, and a cluster that has status
  \<open>deleted\<close> afterwards had it before or has no Shoot in Gardener.
\<close>

theorem pollDeletedClusters_confirms_only_gone:
  assumes "gardener gops up ok live going reflects" "ok (garden w)"
  shows "\<exists>e w'. pollDeletedClusters gops cfg cancelled w = Some (e, w') \<and> ok (garden w') \<and>
    (\<forall>d. marked_deleted (db w') d \<and> \<not> marked_deleted (db w) d \<longrightarrow> \<not> live (garden w') d)"
proof (cases "db_read (\<lambda>w. Inr (ClusterListDeletedNeedingVerification (StatusBatchSize cfg) w)) w")
  case (Pair r u)
  have u: "garden u = garden w" "db u = db w"
    using Pair by (auto simp: db_read_eq)
  show ?thesis
  proof (cases r)
    case (Inl e)
    with Pair u assms(2) show ?thesis by (auto simp: pollDeletedClusters_def)
  next
    case (Inr rows)
    have "ok (garden u)" using u assms(2) by simp
    from gardener.poll_rows_deleted [OF assms(1) this, of cancelled 0 rows] obtain w' where
        "poll_rows (poll_deleted gops) cancelled 0 rows u = Some w'" "ok (garden w')"
        "\<forall>d. marked_deleted (db w') d \<longrightarrow> marked_deleted (db u) d \<or> \<not> live (garden w') d" by blast
    with Pair Inr u show ?thesis by (auto simp: pollDeletedClusters_def)
  qed
qed

theorem pollDeletedClusters_confirms_only_gone_witness:
  "\<exists>e w'. pollDeletedClusters sample_gops \<lparr>StatusBatchSize = 10, cc_MaxRetries = 5\<rparr> (\<lambda>_. False)
       (sample_cluster_world (Some 5)) = Some (e, w') \<and>
     mock_client_ok dec_us dec_up (garden w') \<and> \<not> (marked_deleted (db w') 7 \<and> mock_live (garden w') 7)"
proof -
  have "\<not> marked_deleted (db (sample_cluster_world (Some 5))) 7"
    by (simp add: marked_deleted_def sample_cluster_defs)
  then show ?thesis
    using pollDeletedClusters_confirms_only_gone [OF mock_client.gardener_axioms [of dec_us "\<lambda>_ _. ''50''" dec_up]
        sample_world_ok(3) [of "Some 5"], of "\<lparr>StatusBatchSize = 10, cc_MaxRetries = 5\<rparr>" "\<lambda>_. False"] by blast
qed

text \<open>
  C16: reconciliation is exact. Other workers may do anything (\<open>env\<close>) between the two listings. After a
  pass without errors, an active cluster's Shoot is healthy (there and not being deleted) exactly if it
  was when Gardener was listed; every Shoot of another cluster that is left is being deleted; and every
  active cluster whose last outbox row completed but that has no Shoot has an outbox row waiting, or
  one whose retries are exhausted.
\<close>

theorem ClusterReconcile_exact:
  assumes "gardener gops up ok live going reflects" "ok (garden (env (called w)))" "map_orders ord"
    and "\<And>now c g. ok g \<Longrightarrow> fst (DeleteShootByClusterID gops now c g) = None" "no_faults (env (called w))"
    and "ClusterReconcile gops up ord env cfg False w = Some (None, w')"
  shows "(\<forall>d. live (garden w') d \<and> \<not> going (garden w') d \<longleftrightarrow>
      active_cluster (db w) d \<and> live (garden (env (called w))) d \<and> \<not> going (garden (env (called w))) d) \<and>
    (\<forall>c\<in>set (ClusterListActive (db w)). ca_completed c \<and> \<not> live (garden w') (ca_id c) \<longrightarrow>
       pending_or_exhausted (cc_MaxRetries cfg) (ca_id c) (outbox w'))"
  using gardener.ClusterReconcile_law [OF assms(1) refl assms(2,3,6)] assms(4,5) by blast

theorem ClusterReconcile_exact_witness:
  "\<exists>w'. ClusterReconcile sample_gops dec_up (\<lambda>_ xs. xs) (\<lambda>w. w) \<lparr>StatusBatchSize = 10, cc_MaxRetries = 5\<rparr> False
       (sample_cluster_world None) = Some (None, w') \<and>
     \<not> (mock_live (garden w') 7 \<and> \<not> mock_going (garden w') 7) \<and> pending_or_exhausted 5 7 (outbox w')"
proof -
  let ?w = "sample_cluster_world None"
  obtain w' where w': "ClusterReconcile sample_gops dec_up (\<lambda>_ xs. xs) (\<lambda>w. w) \<lparr>StatusBatchSize = 10, cc_MaxRetries = 5\<rparr> False
       ?w = Some (None, w')" "mg_shoots (garden w') = []"
    by (auto simp: ClusterReconcile_def db_read_ok garden_do_def mock_ops_defs Let_def sample_cluster_world_def
        blank_world_def NewMock_def db_read_eq shoots_by_cluster_def conjunct1 [OF enqueue_drifted_frame])
  have ok: "mock_deletes dec_us dec_up (garden (called ?w))" "no_faults (called ?w)" "map_orders (\<lambda>_ xs. xs)"
    using sample_world_ok [of None] by (simp_all add: map_orders_def)
  note R = ClusterReconcile_exact [of _ _ _ _ _ _ "\<lambda>w. w", OF mock_deletes_gardener ok(1,3) mock_delete_succeeds [of dec_us dec_up] ok(2) w'(1)]
  have "\<not> mock_live (garden (called ?w)) 7"
    by (simp add: mock_live_def sample_cluster_world_def blank_world_def NewMock_def)
  moreover have "\<exists>c\<in>set (ClusterListActive (db ?w)). ca_completed c \<and> ca_id c = 7"
    by (simp add: ClusterListActive_def sample_cluster_defs)
  moreover have "\<not> mock_live (garden w') 7"
    using w'(2) by (simp add: mock_live_def)
  ultimately show ?thesis
    using R w'(1) by auto
qed

text \<open>
  Polling announces a cluster that has become ready. When Gardener reports status \<open>st\<close>, the row of the
  cluster gets that status (nothing else changes in the tables but the columns the outbox trigger keeps), and the outbox gains one pending \<open>ready\<close> row for the cluster exactly if
  \<open>st\<close> is \<open>ready\<close>, the stored status was another one, and no such row is waiting already.
\<close>

theorem poll_active_announces_ready:
  assumes "no_faults w" "resolveProjectNamespace gops (cg_org_name r) (cg_org r) w = Some (Inr ns, w1)" "ns \<noteq> ''''"
    and "garden_do (\<lambda>now. GetShootStatus gops now (base_of r ns)) w1 = (Inr st, w2)" "known_status (st_status st)"
  shows "\<exists>w'. poll_active gops r w = Some w' \<and>
    no_outbox_cols (db w') = no_outbox_cols (db (ClusterUpdateShootStatus (cg_id r) (st_status st) (st_message st) w)) \<and>
    (if st_status st = StatusReady \<and> cs_status r \<noteq> Some StatusReady \<and>
       \<not> list_ex (\<lambda>x. ob_cluster x = Some (cg_id r) \<and> ob_event x = Ready \<and> active_status (ob_status x)) (outbox w)
     then outbox w' = outbox w @ [(new_obrow (new_uuid w (n_uuids w)) Ready SrcStatus)\<lparr>ob_cluster := Some (cg_id r)\<rparr>]
     else outbox w' = outbox w)"
proof -
  have q: "quiet w w1" "quiet w1 w2"
    using resolve_quiet [OF assms(2)] assms(4) by (auto simp: garden_do_eq quiet_def)
  then have nf: "no_faults w2" and same: "db w2 = db w" "clock w2 = clock w" "outbox w2 = outbox w"
      "new_uuid w2 = new_uuid w" "n_uuids w2 = n_uuids w"
    using assms(1) by (auto simp: quiet_def no_faults_def)
  define u where "u = ClusterUpdateShootStatus (cg_id r) (st_status st) (st_message st) (called w2)"
  have p: "poll_active gops r w = (if st_status st \<noteq> textOrEmpty (cs_status r) then record_transition (cg_id r) st u else Some u)"
    using assms(2-4) nf by (simp add: poll_active_def db_exec_ok u_def)
  have u: "no_faults u" "db u = db (ClusterUpdateShootStatus (cg_id r) (st_status st) (st_message st) w)" "outbox u = outbox w"
      "new_uuid u = new_uuid w" "n_uuids u = n_uuids w"
    using nf same by (simp_all add: u_def) (simp add: ClusterUpdateShootStatus_def)
  have ne: "StatusReady = textOrEmpty (cs_status r) \<longleftrightarrow> cs_status r = Some StatusReady"
    by (auto simp: textOrEmpty_def status_defs split: option.splits)
  obtain w' where w': "record_transition (cg_id r) st u = Some w'" "no_outbox_cols (db w') = no_outbox_cols (db u)"
      "outbox w' = (if st_status st = StatusReady then outbox (OutboxInsertReady (cg_id r) u) else outbox u)"
    using record_transition_known [OF u(1) assms(5)] by blast
  show ?thesis
  proof (cases "st_status st = textOrEmpty (cs_status r)")
    case True
    with p u ne show ?thesis by auto
  next
    case False
    with p u ne w' show ?thesis by (auto simp: outbox_InsertReady)
  qed
qed

theorem poll_active_announces_ready_witness:
  "\<exists>w'. poll_active sample_gops (status_row_of (sample_cluster_db None) (sample_cluster_row None) \<lparr>o_id = 3, o_name = ''acme''\<rparr>)
       ((sample_cluster_world None)\<lparr>garden := SetStatusOverride 7 StatusReady ''ok'' NewMock\<rparr>) = Some w' \<and>
     outbox w' = [(new_obrow 1000 Ready SrcStatus)\<lparr>ob_cluster := Some 7\<rparr>]"
proof -
  let ?w = "(sample_cluster_world None)\<lparr>garden := SetStatusOverride 7 StatusReady ''ok'' NewMock\<rparr>"
  let ?r = "status_row_of (sample_cluster_db None) (sample_cluster_row None) \<lparr>o_id = 3, o_name = ''acme''\<rparr>"
  obtain p where p: "ProjectName ''acme'' = Some p" using names_total(1) by blast
  define w1 where "w1 = snd (garden_do (\<lambda>now. EnsureProject sample_gops now p 3) ?w)"
  have w1: "resolveProjectNamespace sample_gops (cg_org_name ?r) (cg_org ?r) ?w = Some (Inr (NamespaceFromProjectName p), w1)"
    by (simp add: resolveProjectNamespace_def p garden_do_def mock_ops_defs Let_def w1_def sample_cluster_defs
        SetStatusOverride_def NewMock_def)
  have ns: "NamespaceFromProjectName p \<noteq> ''''" by (simp add: NamespaceFromProjectName_def)
  let ?st = "\<lparr>st_status = StatusReady, st_message = ''ok''\<rparr>"
  obtain w2 where w2: "garden_do (\<lambda>now. GetShootStatus sample_gops now (base_of ?r (NamespaceFromProjectName p))) w1 = (Inr ?st, w2)"
    by (auto simp: garden_do_def mock_ops_defs Let_def w1_def base_of_def clusterToSyncBase_def sample_cluster_defs
        SetStatusOverride_def NewMock_def)
  have "no_faults ?w" using sample_world_ok(1) by simp
  from poll_active_announces_ready [OF this w1 ns w2] show ?thesis
    by (auto simp: known_status_def sample_cluster_defs)
qed

text \<open>
  C17: reconciliation races with the creation of a cluster. A cluster that is inserted and synced between
  the two listings (\<open>env\<close>) is active and its Shoot is healthy when Gardener is listed, but the pass
  takes the Shoot for an orphan: afterwards the cluster is still active and its Shoot is gone or being
  deleted.
\<close>

theorem ClusterReconcile_race:
  assumes "gardener gops up ok live going reflects" "ok (garden (env (called w)))" "map_orders ord"
    and "\<And>now c g. ok g \<Longrightarrow> fst (DeleteShootByClusterID gops now c g) = None"
    and "ClusterReconcile gops up ord env cfg False w = Some (None, w')"
    and "\<not> active_cluster (db w) d" "active_cluster (db (env (called w))) d"
  shows "active_cluster (db w') d \<and> \<not> (live (garden w') d \<and> \<not> going (garden w') d)"
proof -
  have "no_outbox_cols (db w') = no_outbox_cols (db (env (called w)))"
    using assms(5) by (auto simp: ClusterReconcile_def db_read_eq Let_def garden_do_def delete_orphans_db enqueue_drifted_db
        split: sum.splits prod.splits option.splits)
  then have "active_cluster (db w') d"
    using active_cluster_cols [THEN fun_cong] assms(7) by blast
  then show ?thesis
    using gardener.ClusterReconcile_law [OF assms(1) refl assms(2,3,5)] assms(4,6) by blast
qed

text \<open>The interleaving of the race: the row of cluster 7 is inserted and the outbox worker syncs it.\<close>

definition sample_race :: "(unit, mock_client) world \<Rightarrow> (unit, mock_client) world" where
  "sample_race w = snd (the (syncCluster sample_gops 7 (sample_sc EntityCluster) (w\<lparr>db := sample_cluster_db None\<rparr>)))"

theorem ClusterReconcile_race_witness:
  "\<exists>w'. ClusterReconcile sample_gops dec_up (\<lambda>_ xs. xs) sample_race \<lparr>StatusBatchSize = 10, cc_MaxRetries = 5\<rparr> False
       (blank_world () NewMock) = Some (None, w') \<and>
     active_cluster (db w') 7 \<and> \<not> (mock_live (garden w') 7 \<and> \<not> mock_going (garden w') 7)"
proof -
  let ?w = "blank_world () NewMock" and ?W = "(called (blank_world () NewMock))\<lparr>db := sample_cluster_db None\<rparr>"
  have W: "no_faults ?W" "db ?W = sample_cluster_db None" "garden ?W = NewMock"
    by (simp_all add: no_faults_def blank_world_def called_def)
  obtain v where v: "syncCluster sample_gops 7 (sample_sc EntityCluster) ?W = Some (None, v)"
    using sample_sync [OF W] by blast
  have race: "sample_race (called ?w) = v" by (simp add: sample_race_def v)
  have row: "ClusterGetForSync 7 (db ?W) = ClusterGetForSync 7 (db (sample_cluster_world None))"
    by (simp add: sample_cluster_world_def)
  have ok: "mock_deletes dec_us dec_up (garden ?W)"
    using sample_world_ok(2) [of None] W(3) by (simp add: sample_cluster_world_def blank_world_def)
  have okv: "mock_deletes dec_us dec_up (garden v)"
    using gardener.syncCluster_converged [OF mock_deletes_gardener ok W(1) row [unfolded sample_sync_row] v] by blast
  have act: "active_cluster (db v) 7"
    using syncCluster_quiet [OF v] by (simp add: quiet_def active_cluster_def sample_cluster_defs)
  obtain w' where w': "ClusterReconcile sample_gops dec_up (\<lambda>_ xs. xs) sample_race \<lparr>StatusBatchSize = 10, cc_MaxRetries = 5\<rparr> False
       ?w = Some (None, w')"
  proof -
    have rd: "db_read (\<lambda>w. Inr (ClusterListActive (db w))) ?w = (Inr (ClusterListActive (db ?w)), called ?w)"
      by (simp add: db_read_eq blank_world_def)
    obtain infos u where "garden_do (\<lambda>now. ListShoots sample_gops now) v = (Inr infos, u)"
      using mock_list_succeeds [OF okv, of "\<lambda>_ _. ''50''" "clock v"]
      by (cases "ListShoots sample_gops (clock v) (garden v)") (auto simp: garden_do_def)
    with rd race that show thesis by (auto simp: ClusterReconcile_def Let_def)
  qed
  have "\<not> active_cluster (db ?w) 7" by (simp add: active_cluster_def blank_world_def empty_db_def)
  from ClusterReconcile_race [of _ _ _ _ _ _ sample_race, OF mock_deletes_gardener _ _ mock_delete_succeeds [of dec_us dec_up] w' this]
    okv act race w' show ?thesis by (auto simp: map_orders_def)
qed

end
