(* ===== verification/App.thy ===== *)
theory App
  imports Workers UserSync NamespaceSync ClusterProps
begin

text \<open>
  The wiring of the cluster-worker (\<open>cluster-worker/pkg/app/app.go\<close>): \<open>New\<close> registers the three handlers,
  and the workers of \<open>Workers\<close> and \<open>Outbox\<close> run them. Here the contracts of the outbox worker are
  discharged for the registry the program builds, and the worker as a whole is a transition system.
\<close>

section \<open>Wiring\<close>

text \<open>What the periodic handlers see of the scheduler: the answers of \<open>ctx.Err()\<close>, the order in which Go
  ranges over maps, and what other workers do between the two listings of \<open>Reconcile\<close>.\<close>

record ('s, 'g) sched =
  poll_cancelled :: "nat \<Rightarrow> bool"
  verify_cancelled :: "nat \<Rightarrow> bool"
  cluster_cancelled :: bool
  user_cancelled :: "nat \<Rightarrow> bool"
  ns_cancelled :: "nat \<Rightarrow> bool"
  map_order :: "nat \<Rightarrow> uuid list \<Rightarrow> uuid list"
  between :: "('s, 'g) world \<Rightarrow> ('s, 'g) world"

definition AppNew ::
  "(uuid \<Rightarrow> string) \<Rightarrow> (string \<Rightarrow> uuid option) \<Rightarrow> 'g gardener_ops \<Rightarrow> 's shoot_ops \<Rightarrow> cluster_cfg \<Rightarrow> outbox_cfg \<Rightarrow>
   ('s, 'g) sched \<Rightarrow> ('s, 'g) registry option" where
  "AppNew us up gops ops ccfg ocfg sd =
     (let ch = ClusterSync gops us; ush = Sync ops us; nsh = NamespaceSync ops us (MaxRetries ocfg) in
      Option.bind (RegisterSync EntityCluster ch NewRegistry) (\<lambda>reg.
      Option.bind (RegisterSync EntityNodePool ch reg) (\<lambda>reg.
      let reg = RegisterStatus (CheckStatus gops ccfg (poll_cancelled sd) (verify_cancelled sd)) reg;
          reg = RegisterReconcile (ClusterReconcile gops up (map_order sd) (between sd) ccfg (cluster_cancelled sd)) reg in
      Option.bind (RegisterSync EntityOrgUser ush reg) (\<lambda>reg.
      Option.bind (RegisterSync EntityProjectMember ush reg) (\<lambda>reg.
      let reg = RegisterSyncForEvent EntityCluster Ready ush reg;
          reg = RegisterReconcile (UserReconcile ops us up (map_order sd) (user_cancelled sd)) reg in
      Option.bind (RegisterSync EntityNamespace nsh reg) (\<lambda>reg.
      let reg = RegisterSyncForEvent EntityCluster Ready nsh reg;
          reg = RegisterReconcile (NamespaceReconcile ops us up (MaxRetries ocfg) (ns_cancelled sd)) reg
      in Some reg))))))"

text \<open>The registry it builds.\<close>

definition app_registry ::
  "(uuid \<Rightarrow> string) \<Rightarrow> (string \<Rightarrow> uuid option) \<Rightarrow> 'g gardener_ops \<Rightarrow> 's shoot_ops \<Rightarrow> cluster_cfg \<Rightarrow> outbox_cfg \<Rightarrow>
   ('s, 'g) sched \<Rightarrow> ('s, 'g) registry" where
  "app_registry us up gops ops ccfg ocfg sd =
     \<lparr>syncHandlers = [EntityCluster \<mapsto> ClusterSync gops us, EntityNodePool \<mapsto> ClusterSync gops us,
        EntityOrgUser \<mapsto> Sync ops us, EntityProjectMember \<mapsto> Sync ops us,
        EntityNamespace \<mapsto> NamespaceSync ops us (MaxRetries ocfg)],
      eventSyncHandlers = (\<lambda>_. [])((EntityCluster, Ready) := [Sync ops us, NamespaceSync ops us (MaxRetries ocfg)]),
      statusHandlers = [CheckStatus gops ccfg (poll_cancelled sd) (verify_cancelled sd)],
      reconcileHandlers = [ClusterReconcile gops up (map_order sd) (between sd) ccfg (cluster_cancelled sd),
        UserReconcile ops us up (map_order sd) (user_cancelled sd),
        NamespaceReconcile ops us up (MaxRetries ocfg) (ns_cancelled sd)]\<rparr>"

lemma AppNew_eq: "AppNew us up gops ops ccfg ocfg sd = Some (app_registry us up gops ops ccfg ocfg sd)"
  by (simp add: AppNew_def app_registry_def RegisterSync_def NewRegistry_def RegisterStatus_def RegisterReconcile_def
      RegisterSyncForEvent_def Let_def fun_upd_twist)

lemma app_handlers:
  "SyncHandlersFor (app_registry us up gops ops ccfg ocfg sd) e ev =
     (if e = EntityCluster \<and> ev = Ready then Inr [Sync ops us, NamespaceSync ops us (MaxRetries ocfg)]
      else case e of
             EntityCluster \<Rightarrow> Inr [ClusterSync gops us]
           | EntityNodePool \<Rightarrow> Inr [ClusterSync gops us]
           | EntityOrgUser \<Rightarrow> Inr [Sync ops us]
           | EntityProjectMember \<Rightarrow> Inr [Sync ops us]
           | EntityNamespace \<Rightarrow> Inr [NamespaceSync ops us (MaxRetries ocfg)]
           | EntityNone \<Rightarrow> Inl (ErrNew (''no sync handler registered for '' @ '''' @ '' (event='' @ event_text ev @ '')'')))"
  by (cases e) (auto simp: SyncHandlersFor_def app_registry_def)

section \<open>The contracts of the outbox worker\<close>

text \<open>Only the fan-out of a cluster's \<open>ready\<close> row enqueues rows, and none of those is such a row: ranked
  this way, every row gives work of lower rank only.\<close>

definition row_rank :: "obrow \<Rightarrow> nat" where
  "row_rank r = (if ob_cluster r \<noteq> None \<and> ob_event r = Ready then 1 else 0)"

lemma enqueue_namespaces_rank:
  "enqueue_namespaces us m is errs w = (errs', w') \<Longrightarrow>
   \<exists>new. outbox w' = outbox w @ new \<and> (\<forall>r\<in>set new. row_rank r = 0)"
proof (induction "is" arbitrary: errs w)
  case (Cons i "is")
  obtain e w1 where 1: "db_exec (OutboxInsertReconcileForNamespace i m) w = (e, w1)" by fastforce
  then have "\<exists>new. outbox w1 = outbox w @ new \<and> (\<forall>r\<in>set new. row_rank r = 0)"
    by (auto simp: db_exec_eq OutboxInsertReconcileForNamespace_def outbox_insert_def Let_def new_obrow_def row_rank_def
        split: option.splits if_splits)
  moreover obtain errs1 where "enqueue_namespaces us m is errs1 w1 = (errs', w')"
    using Cons.prems 1 by (cases e) auto
  ultimately show ?case
    using Cons.IH [of errs1 w1] by (auto simp: ball_Un)
qed simp

lemma NamespaceSync_rank:
  assumes "NamespaceSync ops us m i sc w = Some (e, w')"
  shows "\<exists>new. outbox w' = outbox w @ new \<and> (\<forall>r\<in>set new. row_rank r = 0) \<and> (sc_entity sc \<noteq> EntityCluster \<longrightarrow> new = [])"
proof -
  have quiet: "\<exists>new. outbox w' = outbox w @ new \<and> (\<forall>r\<in>set new. row_rank r = 0) \<and> (sc_entity sc \<noteq> EntityCluster \<longrightarrow> new = [])"
    if "outbox w' = outbox w"
    using that by simp
  show ?thesis
  proof (cases "sc_entity sc")
    case EntityCluster
    with assms have "enqueueClusterNamespaces us m i w = (e, w')" by (simp add: NamespaceSync_def)
    then consider "w' = called w" | errs where
        "enqueue_namespaces us m (NamespaceListActiveForCluster i (db w)) [] (called w) = (errs, w')"
      by (auto simp: enqueueClusterNamespaces_def db_read_eq split: option.splits prod.splits)
    then show ?thesis
      using EntityCluster by cases (auto dest: enqueue_namespaces_rank)
  next
    case EntityNamespace
    with assms have "syncNamespace ops us i w = Some (e, w')" by (simp add: NamespaceSync_def)
    then show ?thesis by (intro quiet) (auto dest!: syncNamespace_calm simp: calm_defs)
  qed (use assms in \<open>auto simp: NamespaceSync_def\<close>)
qed

lemma entityFromRow_cluster: "entityFromRow us row = Inr (EntityCluster, i) \<Longrightarrow> ob_cluster row \<noteq> None"
  by (auto simp: entityFromRow_def split: option.splits)

lemma process_rank:
  assumes "process us (app_registry us' up gops ops ccfg ocfg sd) row w = Some (ety, perr, w')"
  shows "\<exists>new. outbox w' = outbox w @ new \<and> (\<forall>r\<in>set new. row_rank r < row_rank row)"
proof (cases "entityFromRow us row")
  case (Inl e)
  with assms show ?thesis by (auto simp: process_def)
next
  case (Inr p)
  obtain e i where p: "p = (e, i)" by (cases p)
  let ?sc = "\<lparr>sc_entity = e, sc_event = ob_event row, sc_source = ob_source row\<rparr>"
  let ?hs = "SyncHandlersFor (app_registry us' up gops ops ccfg ocfg sd) e (ob_event row)"
  have run: "\<exists>hard pre. run_handlers hs i ?sc [] [] w = Some (hard, pre, w')" if "?hs = Inr hs" for hs
    using assms Inr p that by (auto simp: process_def Let_def split: option.splits if_splits)
  have one: "\<exists>err. h i ?sc w = Some (err, w')" if "?hs = Inr [h]" for h
    using run [OF that] by (auto split: option.splits if_splits)
  have cs: "outbox w' = outbox w" if "?hs = Inr [ClusterSync gops us']"
    using one [OF that] by (auto simp: quiet_def dest!: ClusterSync_quiet)
  have us: "outbox w' = outbox w" if "?hs = Inr [Sync ops us']"
    using one [OF that] by (auto simp: calm_defs dest!: Sync_calm)
  show ?thesis
  proof (cases "e = EntityCluster \<and> ob_event row = Ready")
    case True
    then have rank: "row_rank row = 1"
      using entityFromRow_cluster Inr p by (auto simp: row_rank_def)
    from True run [of "[Sync ops us', NamespaceSync ops us' (MaxRetries ocfg)]"] obtain e1 w1 e2
      where s: "Sync ops us' i ?sc w = Some (e1, w1)" "NamespaceSync ops us' (MaxRetries ocfg) i ?sc w1 = Some (e2, w')"
      by (auto simp: app_handlers split: option.splits if_splits)
    have "outbox w1 = outbox w" using Sync_calm [OF s(1)] by (simp add: calm_defs)
    with NamespaceSync_rank [OF s(2)] rank show ?thesis by auto
  next
    case False
    have "outbox w' = outbox w"
    proof (cases e)
      case EntityNamespace
      with False have "?hs = Inr [NamespaceSync ops us' (MaxRetries ocfg)]" by (simp add: app_handlers)
      from one [OF this] NamespaceSync_rank EntityNamespace show ?thesis by fastforce
    next
      case EntityNone
      with assms Inr p show ?thesis by (auto simp: process_def app_handlers)
    qed (use False cs us in \<open>auto simp: app_handlers\<close>)
    then show ?thesis by simp
  qed
qed

interpretation app: ranked_client "app_registry us up gops ops ccfg ocfg sd" row_rank
  for us up gops ops ccfg ocfg sd
proof (unfold_locales, goal_cases)
  case (1 e h)
  then show ?case
    by (auto simp: app_registry_def ClusterSync_appends Sync_appends NamespaceSync_appends split: if_splits)
next
  case (2 h k)
  then show ?case
    by (auto simp: app_registry_def Sync_appends NamespaceSync_appends split: if_splits)
next
  case (3 us row w ety perr w' new r)
  from process_rank [OF 3(1)] 3(2,3) show ?case by auto
qed

end
