(* ===== verification/System.thy ===== *)
theory System
  imports App
begin

text \<open>
  The cluster-worker as a transition system: outbox iterations, status and reconcile passes, and what
  others do to the state in between. The lemmas say what each pass may change; the properties are
  invariants of every reachable state.
\<close>

section \<open>Lemmas: what a pass may change\<close>

text \<open>Steps that append to the outbox and leave Gardener alone.\<close>

definition gext :: "('s, 'g) world \<Rightarrow> ('s, 'g) world \<Rightarrow> bool" where
  "gext w w' \<longleftrightarrow> outbox_ext w w' \<and> garden w' = garden w"

lemma gext_refl [simp]: "gext w w"
  by (simp add: gext_def outbox_ext_refl)

lemma gext_trans: "gext u v \<Longrightarrow> gext v w \<Longrightarrow> gext u w"
  by (auto simp: gext_def intro: outbox_ext_trans)

lemma calm_gext: "calm w w' \<Longrightarrow> gext w w'"
  by (simp add: gext_def calm_ext) (simp add: calm_def)

lemma reconcileCluster_calm: "reconcileCluster ops us up ord cid w = (e, w') \<Longrightarrow> calm w w'"
  by (auto simp: reconcileCluster_def shoot_do_def db_read_eq split: sum.splits option.splits prod.splits)

lemma reconcile_clusters_calm: "reconcile_clusters ops us up ord cancelled k cids errs w = (r, w') \<Longrightarrow> calm w w'"
proof (induction cids arbitrary: k errs w)
  case (Cons cid cids)
  obtain e v where v: "reconcileCluster ops us up ord cid w = (e, v)" by fastforce
  show ?case
    using Cons.IH [of "Suc k" _ v] Cons.prems v calm_trans [OF reconcileCluster_calm [OF v]]
    by (cases e) (auto split: if_splits)
qed simp

lemma UserReconcile_calm: "\<exists>e w'. UserReconcile ops us up ord cancelled w = Some (e, w') \<and> calm w w'"
proof -
  obtain r v where v: "db_read (\<lambda>w. Inr (ClusterListReady (db w))) w = (r, v)" by fastforce
  then have c: "calm w v" by (auto simp: db_read_eq)
  show ?thesis
  proof (cases r)
    case (Inr cids)
    obtain q w' where q: "reconcile_clusters ops us up ord cancelled 1 cids [] v = (q, w')" by fastforce
    have "calm w w'" by (rule calm_trans [OF c reconcile_clusters_calm [OF q]])
    with v Inr q show ?thesis by (cases q) (auto simp: UserReconcile_def)
  qed (use v c in \<open>auto simp: UserReconcile_def\<close>)
qed

lemma enqueue_namespaces_gext: "enqueue_namespaces us m is errs w = (errs', w') \<Longrightarrow> gext w w'"
proof (induction "is" arbitrary: errs w)
  case (Cons i "is")
  obtain e w1 where 1: "db_exec (OutboxInsertReconcileForNamespace i m) w = (e, w1)" by fastforce
  then have "garden w1 = garden w"
    by (auto simp: db_exec_eq OutboxInsertReconcileForNamespace_def outbox_insert_def Let_def split: option.splits)
  then have "gext w w1"
    using db_exec_ext [OF 1] outbox_ext_inserts(3) by (auto simp: gext_def)
  moreover obtain errs1 where "enqueue_namespaces us m is errs1 w1 = (errs', w')"
    using Cons.prems 1 by (cases e) auto
  ultimately show ?case
    using Cons.IH gext_trans by metis
qed simp

lemma delete_orphans_calm: "delete_orphans ops up cid ns errs w = (errs', w') \<Longrightarrow> calm w w'"
proof (induction ns arbitrary: errs w)
  case (Cons n ns)
  obtain e v where v: "delete_orphan ops up cid n w = (e, v)" by fastforce
  show ?case
    using Cons.IH [of _ v] Cons.prems v calm_trans [OF delete_orphan_calm [OF v]] by (cases e) auto
qed simp

lemma ns_reconcileCluster_gext:
  assumes "ns_reconcileCluster ops us up m cid w = (e, w')"
  shows "gext w w'"
proof -
  obtain a v where a: "db_read (\<lambda>w. Inr (NamespaceListActiveForCluster cid (db w))) w = (a, v)" by fastforce
  obtain b u where b: "shoot_do (ListNamespaces ops cid LabelNamespaceID) v = (b, u)" by fastforce
  have wv: "calm w v" and wu: "calm w u"
    using a b by (auto simp: db_read_eq shoot_do_def split: prod.splits)
  show ?thesis
  proof (cases "\<exists>active nss. a = Inr active \<and> b = Inr nss")
    case True
    then obtain active nss where ab: "a = Inr active" "b = Inr nss" by blast
    obtain create del where p: "BuildPlan up active nss = (create, del)" by fastforce
    obtain errs x where x: "enqueue_namespaces us m create [] u = (errs, x)" by fastforce
    obtain errs' y where y: "delete_orphans ops up cid del errs x = (errs', y)" by fastforce
    have "w' = y"
      using assms a b ab p x y by (simp add: ns_reconcileCluster_def)
    then show ?thesis
      using gext_trans [OF gext_trans [OF calm_gext [OF wu] enqueue_namespaces_gext [OF x]] calm_gext [OF delete_orphans_calm [OF y]]]
      by simp
  next
    case False
    with assms a b have "w' = v \<or> w' = u"
      by (cases a; cases b) (auto simp: ns_reconcileCluster_def)
    with wv wu show ?thesis using calm_gext by blast
  qed
qed

lemma ns_reconcile_clusters_gext: "ns_reconcile_clusters ops us up m cancelled k cids errs w = (r, w') \<Longrightarrow> gext w w'"
proof (induction cids arbitrary: k errs w)
  case (Cons cid cids)
  obtain e v where v: "ns_reconcileCluster ops us up m cid w = (e, v)" by fastforce
  show ?case
    using Cons.IH [of "Suc k" _ v] Cons.prems v gext_trans [OF ns_reconcileCluster_gext [OF v]]
    by (cases e) (auto split: if_splits)
qed simp

lemma NamespaceReconcile_gext: "\<exists>e w'. NamespaceReconcile ops us up m cancelled w = Some (e, w') \<and> gext w w'"
proof -
  obtain r v where v: "db_read (\<lambda>w. Inr (ClusterListReady (db w))) w = (r, v)" by fastforce
  then have c: "gext w v" by (auto simp: db_read_eq gext_def outbox_ext_called)
  show ?thesis
  proof (cases r)
    case (Inr cids)
    obtain q w' where q: "ns_reconcile_clusters ops us up m cancelled 1 cids [] v = (q, w')" by fastforce
    have "gext w w'" by (rule gext_trans [OF c ns_reconcile_clusters_gext [OF q]])
    with v Inr q show ?thesis by (cases q) (auto simp: NamespaceReconcile_def)
  qed (use v c in \<open>auto simp: NamespaceReconcile_def\<close>)
qed

text \<open>The handlers that sync the contents of shoots leave Gardener alone.\<close>

lemma NamespaceSync_gext: "NamespaceSync ops us m i sc w = Some (e, w') \<Longrightarrow> gext w w'"
proof -
  assume eq: "NamespaceSync ops us m i sc w = Some (e, w')"
  have "calm w w' \<or> (\<exists>v errs. calm w v \<and> enqueue_namespaces us m (NamespaceListActiveForCluster i (db w)) [] v = (errs, w'))"
    using eq by (auto simp: NamespaceSync_def enqueueClusterNamespaces_def db_read_eq
        split: entity_type.splits option.splits prod.splits dest: syncNamespace_calm)
  then show "gext w w'"
    using calm_gext gext_trans enqueue_namespaces_gext by metis
qed

context gardener
begin

lemma keeps_ok:
  "garden_do (\<lambda>now. EnsureProject ops now p org) w = (n, w1) \<Longrightarrow> ok (garden w) \<longrightarrow> ok (garden w1)"
  "garden_do (\<lambda>now. ApplyShoot ops now cs) w = (e, w1) \<Longrightarrow> ok (garden w) \<longrightarrow> ok (garden w1)"
  "garden_do (\<lambda>now. DeleteShootByClusterID ops now c) w = (e, w1) \<Longrightarrow> ok (garden w) \<longrightarrow> ok (garden w1)"
  "resolveProjectNamespace ops name org w = Some (r, w1) \<Longrightarrow> ok (garden w) \<longrightarrow> ok (garden w1)"
  "db_read f w = (x, w1) \<Longrightarrow> ok (garden w) \<longrightarrow> ok (garden w1)"
  "finish_sync sc i action w = Some (e, w1) \<Longrightarrow> ok (garden w) \<longrightarrow> ok (garden w1)"
proof -
  show "garden_do (\<lambda>now. EnsureProject ops now p org) w = (n, w1) \<Longrightarrow> ok (garden w) \<longrightarrow> ok (garden w1)"
    using EnsureProject_law [of "garden w"] by (auto simp: garden_do_eq)
  show "garden_do (\<lambda>now. ApplyShoot ops now cs) w = (e, w1) \<Longrightarrow> ok (garden w) \<longrightarrow> ok (garden w1)"
    using ApplyShoot_law [of "garden w"] by (auto simp: garden_do_eq)
  show "garden_do (\<lambda>now. DeleteShootByClusterID ops now c) w = (e, w1) \<Longrightarrow> ok (garden w) \<longrightarrow> ok (garden w1)"
    using DeleteShoot_law [of "garden w"] by (auto simp: garden_do_eq)
  show "resolveProjectNamespace ops name org w = Some (r, w1) \<Longrightarrow> ok (garden w) \<longrightarrow> ok (garden w1)"
    using resolve_law by blast
  show "db_read f w = (x, w1) \<Longrightarrow> ok (garden w) \<longrightarrow> ok (garden w1)"
    by (auto simp: db_read_eq)
  show "finish_sync sc i action w = Some (e, w1) \<Longrightarrow> ok (garden w) \<longrightarrow> ok (garden w1)"
    by (auto dest: finish_sync_garden)
qed

lemma ClusterSync_ok: "ClusterSync ops us i sc w = Some (e, w') \<Longrightarrow> ok (garden w) \<Longrightarrow> ok (garden w')"
proof -
  have sync: "ok (garden v)" if "syncCluster ops i sc w = Some (e, v)" "ok (garden w)" for i e v and w :: "('x, 'g) world"
    using that unfolding syncCluster_def
    by (auto simp: syncError_def split: prod.splits sum.splits option.splits if_splits dest!: keeps_ok)
  have pool: "ok (garden v)" if "syncNodePool ops us i sc w = Some (e, v)" "ok (garden w)" for i e v and w :: "('x, 'g) world"
    using that unfolding syncNodePool_def
    by (auto split: prod.splits sum.splits option.splits if_splits dest!: keeps_ok intro: sync)
  have chk: "ok (garden v)" if "checkPreconditions ops ent i w = Some (e, v)" "ok (garden w)" for ent i e v and w :: "('x, 'g) world"
    using that unfolding checkPreconditions_def preconditions_def
    by (cases ent) (auto simp: node_pool_check_def cluster_check_def
        split: prod.splits sum.splits option.splits if_splits dest!: keeps_ok)
  show "ClusterSync ops us i sc w = Some (e, w') \<Longrightarrow> ok (garden w) \<Longrightarrow> ok (garden w')"
    unfolding ClusterSync_def
    by (auto split: option.splits prod.splits entity_type.splits intro: chk sync pool)
qed

end

section \<open>Lemmas: no panic\<close>

lemma run_handlers_total:
  "(\<And>h w. h \<in> set hs \<Longrightarrow> h i sc w \<noteq> None) \<Longrightarrow> run_handlers hs i sc hard pre w \<noteq> None"
proof (induction hs arbitrary: hard pre w)
  case (Cons h hs)
  obtain e v where "h i sc w = Some (e, v)"
    using Cons.prems [of h w] by auto
  with Cons show ?case by (auto split: option.splits)
qed simp

lemma run_handlers_inv:
  "(\<And>h w e w'. h \<in> set hs \<Longrightarrow> P w \<Longrightarrow> h i sc w = Some (e, w') \<Longrightarrow> P w') \<Longrightarrow> P w \<Longrightarrow>
   run_handlers hs i sc hard pre w = Some (hard', pre', w') \<Longrightarrow> P w'"
proof (induction hs arbitrary: hard pre w)
  case (Cons h hs)
  from Cons.prems(3) obtain e v where v: "h i sc w = Some (e, v)" by (auto split: option.splits)
  with Cons.prems(1) [of h w e v] Cons.prems(2) have "P v" by simp
  moreover obtain hard1 pre1 where "run_handlers hs i sc hard1 pre1 v = Some (hard', pre', w')"
    using Cons.prems(3) v by (auto split: option.splits if_splits)
  ultimately show ?case
    using Cons.IH Cons.prems(1) by (meson list.set_intros(2))
qed simp

lemma entityFromRow_not_cluster: "entityFromRow us row = Inr (e, i) \<Longrightarrow> e \<noteq> EntityCluster \<Longrightarrow> ob_cluster row = None"
  by (auto simp: entityFromRow_def split: option.splits)

lemma process_no_panic:
  fixes gops :: "'g gardener_ops" and ops :: "'s shoot_ops"
  assumes "routable row"
  shows "process us (app_registry us' up gops ops ccfg ocfg sd) row w \<noteq> None"
proof (cases "entityFromRow us row")
  case (Inr p)
  obtain e i where p: "p = (e, i)" by (cases p)
  let ?sc = "\<lparr>sc_entity = e, sc_event = ob_event row, sc_source = ob_source row\<rparr>"
  have ev: "ob_event row \<noteq> Ready" if "e = EntityNodePool"
    using entityFromRow_not_cluster [of us row e i] Inr p assms that by (auto simp: routable_def)
  have "run_handlers hs i ?sc [] [] w \<noteq> None"
    if hs: "SyncHandlersFor (app_registry us' up gops ops ccfg ocfg sd) e (ob_event row) = Inr hs" for hs
  proof (rule run_handlers_total)
    fix h and w :: "('s, 'g) world" assume h: "h \<in> set hs"
    have us: "Sync ops us' i ?sc w \<noteq> None" using Sync_total [of ops us' i ?sc w] by auto
    have ns: "NamespaceSync ops us' (MaxRetries ocfg) i ?sc w \<noteq> None"
      using NamespaceSync_total [of ops us' "MaxRetries ocfg" i ?sc w] by auto
    have cs: "ClusterSync gops us' i ?sc w \<noteq> None" if "e = EntityCluster \<or> e = EntityNodePool" "ob_event row \<noteq> Ready"
      using that by (intro ClusterSync_total) auto
    show "h i ?sc w \<noteq> None"
      using h hs us ns cs ev by (cases e) (auto simp: app_handlers split: if_splits simp del: not_None_eq)
  qed
  then show ?thesis
    using Inr p by (auto simp: process_def Let_def split: sum.splits option.splits)
qed (simp add: process_def)

definition ready_ok :: "('s, 'g) world \<Rightarrow> bool" where
  "ready_ok w \<longleftrightarrow> (\<forall>r\<in>set (outbox w). routable r)"

lemma ready_ok_ext: "ready_ok w \<Longrightarrow> outbox_ext w w' \<Longrightarrow> ready_ok w'"
  by (auto simp: ready_ok_def outbox_ext_def)

lemma row_step_routable: "routable (row_step cfg now a r) = routable r"
  by (cases a) (auto simp: routable_def fail_row_def)

lemma processNextRow_no_panic:
  assumes "ready_ok w"
  shows "processNextRow us cfg (app_registry us' up gops ops ccfg ocfg sd) c w \<noteq> None"
proof -
  have "process us (app_registry us' up gops ops ccfg ocfg sd) row v \<noteq> None" if "claim w = (Inr (Some row), v)" for row v
    using OutboxGetAndLock_InrD(1) [OF claim_row [OF that]] assms by (intro process_no_panic) (auto simp: ready_ok_def)
  then show ?thesis
    by (auto simp: processNextRow_def simp del: not_None_eq split: prod.splits sum.splits option.splits)
qed

lemma processNextRow_ready_ok:
  assumes "cfg_ok cfg" "wf_outbox cfg w" "ready_ok w"
    and eq: "processNextRow us cfg (app_registry us' up gops ops ccfg ocfg sd) c w = Some (b, err, w')"
  shows "ready_ok w'"
proof (cases b)
  case True
  with eq have "processNextRow us cfg (app_registry us' up gops ops ccfg ocfg sd) False w = Some (True, err, w')"
    by (auto simp: processNextRow_def split: if_splits)
  then obtain row :: obrow and perr v where "outbox_ext w v"
      "outbox w' = update_where (\<lambda>r. ob_id r = ob_id row) (row_step cfg (clock w) (attempt_of perr)) (outbox v)"
    by (rule app.processNextRow_refines [OF assms(1,2)])
  with ready_ok_ext [OF assms(3)] show ?thesis
    by (auto simp: ready_ok_def set_update_where row_step_routable)
next
  case False
  with eq app.processNextRow_stop [OF assms(1,2)] ready_ok_ext [OF assms(3)] show ?thesis by auto
qed

lemma processAllRows_no_panic:
  assumes "cfg_ok cfg"
  shows "wf_outbox cfg w \<Longrightarrow> ready_ok w \<Longrightarrow>
    processAllRows fuel us cfg (app_registry us' up gops ops ccfg ocfg sd) cancelled k w \<noteq> Panicked"
proof (induction fuel arbitrary: k w)
  case (Suc fuel)
  obtain b err v where v: "processNextRow us cfg (app_registry us' up gops ops ccfg ocfg sd) (cancelled k) w = Some (b, err, v)"
    using processNextRow_no_panic [OF Suc.prems(2), of us cfg us' up gops ops ccfg ocfg sd "cancelled k"] by auto
  have "wf_outbox cfg v" "ready_ok v"
    using app.processNextRow_wf [OF assms Suc.prems(1) v] processNextRow_ready_ok [OF assms Suc.prems v] by auto
  with Suc.IH v show ?case by (cases err) auto
qed simp

section \<open>Lemmas: one pass of a worker\<close>

lemma contents_garden:
  "Sync ops us i sc w = Some (e, w') \<Longrightarrow> garden w' = garden w"
  "NamespaceSync ops us m i sc w = Some (e, w') \<Longrightarrow> garden w' = garden w"
  using Sync_calm [of ops us i sc w e w'] NamespaceSync_gext [of ops us m i sc w e w'] by (auto simp: calm_def gext_def)

lemma delete_orphans_ext: "outbox_ext w (delete_orphan_shoots gops known cs w)"
proof (induction cs arbitrary: w)
  case (Cons c cs)
  have "outbox_ext w (snd (garden_do (\<lambda>now. DeleteShootByClusterID gops now c) w))"
    by (auto simp: garden_do_def outbox_ext_garden split: prod.splits)
  with Cons show ?case by (auto intro: outbox_ext_trans)
qed (simp add: outbox_ext_refl)

lemma complete_garden: "garden (snd (snd (complete cfg row perr w))) = garden w"
  by (auto simp: complete_def handlePreconditionError_def handleRowError_def db_exec_eq outbox_marks outbox_modify_def Let_def
      split: option.splits)

lemma claim_garden: "claim w = (x, w') \<Longrightarrow> garden w' = garden w"
  by (auto simp: claim_def db_exec_eq db_read_eq split: option.splits sum.splits if_splits)

context gardener
begin

lemma process_ok:
  assumes "ok (garden w)" "process us (app_registry us' up' ops sops ccfg ocfg sd) row w = Some (ety, perr, w')"
  shows "ok (garden w')"
proof (cases "entityFromRow us row")
  case (Inr p)
  obtain e i where p: "p = (e, i)" by (cases p)
  let ?sc = "\<lparr>sc_entity = e, sc_event = ob_event row, sc_source = ob_source row\<rparr>"
  show ?thesis
  proof (cases "SyncHandlersFor (app_registry us' up' ops sops ccfg ocfg sd) e (ob_event row)")
    case (Inr hs)
    with assms(2) \<open>entityFromRow us row = Inr p\<close> p obtain hard pre where
      "run_handlers hs i ?sc [] [] w = Some (hard, pre, w')"
      by (auto simp: process_def Let_def split: option.splits if_splits)
    then show ?thesis
    proof (rule run_handlers_inv [where P = "\<lambda>w. ok (garden w)", rotated 2])
      show "ok (garden v')" if "h \<in> set hs" "ok (garden v)" "h i ?sc v = Some (err, v')" for h v err v'
        using that Inr
        by (cases e) (auto simp: app_handlers contents_garden split: if_splits dest: ClusterSync_ok)
    qed (rule assms(1))
  qed (use assms Inr p in \<open>auto simp: process_def\<close>)
qed (use assms in \<open>auto simp: process_def\<close>)

lemma processNextRow_ok:
  assumes "ok (garden w)" "processNextRow us cfg (app_registry us' up' ops sops ccfg ocfg sd) c w = Some (b, err, w')"
  shows "ok (garden w')"
proof -
  have "ok (garden w')" if "claim w = (Inr (Some row), u)" "process us (app_registry us' up' ops sops ccfg ocfg sd) row u = Some (ety, perr, v)"
      "complete cfg row perr v = (b, err, w')" for row u ety perr v
    using process_ok [OF _ that(2)] claim_garden [OF that(1)] complete_garden [of cfg row perr v] that(3) assms(1) by simp
  then show ?thesis
    using assms by (auto simp: processNextRow_def split: if_splits prod.splits sum.splits option.splits dest: claim_garden)
qed

lemma status_pass:
  assumes "ok (garden w)"
  shows "\<exists>e w'. runAllHandlers cancelled (app_registry us up' ops sops ccfg ocfg sd) w = Some (e, w') \<and> ok (garden w') \<and> outbox_ext w w'"
proof -
  obtain e v where "CheckStatus ops ccfg (poll_cancelled sd) (verify_cancelled sd) w = Some (e, v)" "ok (garden v)" "outbox_ext w v"
    using CheckStatus_effect [OF assms] by blast
  then show ?thesis
    using assms by (cases e) (auto simp: runAllHandlers_def app_registry_def outbox_ext_refl)
qed

text \<open>While the pass is between its two listings, others may have brought the world to \<open>v\<close>.\<close>

lemma reconcile_pass:
  assumes "ok (garden w)" "ok (garden v)"
  shows "\<exists>e w'. reconcileAll c (app_registry us up' ops sops ccfg ocfg (sd\<lparr>between := \<lambda>_. v\<rparr>)) w = Some (e, w') \<and>
    ok (garden w') \<and> (outbox_ext w w' \<or> outbox_ext v w')"
proof -
  have "\<exists>e x. ClusterReconcile ops up' (map_order sd) (\<lambda>_. v) ccfg (cluster_cancelled sd) w = Some (e, x) \<and>
      ok (garden x) \<and> (outbox_ext w x \<or> outbox_ext v x)"
  proof -
    obtain l y where y: "garden_do (\<lambda>now. ListShoots ops now) v = (l, y)" by fastforce
    have ly: "ok (garden y)" "outbox_ext v y"
      using y ListShoots_law [OF assms(2)] by (auto simp: garden_do_eq outbox_ext_garden)
    have tail: "ok (garden z) \<and> outbox_ext v z"
      if "z = delete_orphan_shoots ops known cs (enqueue_drifted maxr present active y)" for z known cs maxr present active
    proof -
      note f = enqueue_drifted_frame [of maxr present active y]
      have "ok (garden z)"
        using delete_orphans_law [OF _ that] f ly(1) by simp
      moreover have "outbox_ext (enqueue_drifted maxr present active y) z"
        unfolding that by (rule delete_orphans_ext)
      ultimately show ?thesis
        using ly(2) f outbox_ext_trans by blast
    qed
    show ?thesis
      using assms y ly tail
      by (cases "cluster_cancelled sd"; cases l)
        (auto simp: ClusterReconcile_def db_read_eq Let_def outbox_ext_refl outbox_ext_called split: option.splits)
  qed
  then obtain e1 x where x: "ClusterReconcile ops up' (map_order sd) (\<lambda>_. v) ccfg (cluster_cancelled sd) w = Some (e1, x)"
      "ok (garden x)" "outbox_ext w x \<or> outbox_ext v x" by blast
  obtain e2 y where y: "UserReconcile sops us up' (map_order sd) (user_cancelled sd) x = Some (e2, y)" "gext x y"
    using UserReconcile_calm [of sops us up' "map_order sd" "user_cancelled sd" x] calm_gext by blast
  obtain e3 z where z: "NamespaceReconcile sops us up' (MaxRetries ocfg) (ns_cancelled sd) y = Some (e3, z)" "gext y z"
    using NamespaceReconcile_gext by blast
  have "outbox_ext x z" "garden z = garden x"
    using gext_trans [OF y(2) z(2)] by (auto simp: gext_def)
  then have "ok (garden z)" "outbox_ext w z \<or> outbox_ext v z"
    using x(2,3) outbox_ext_trans by auto
  moreover have "\<exists>e. run_reconcile_handlers (reconcileHandlers (app_registry us up' ops sops ccfg ocfg (sd\<lparr>between := \<lambda>_. v\<rparr>))) [] w = Some (e, z)"
    using x(1) y(1) z(1) by (cases e1; cases e2; cases e3) (simp_all add: app_registry_def)
  ultimately show ?thesis
    using assms by (cases c) (auto simp: reconcileAll_def outbox_ext_refl)
qed

end

section \<open>The transition system\<close>

text \<open>\<open>app_reach \<dots> w w'\<close>: a run of the program and its environment leads from \<open>w\<close> to \<open>w'\<close>. The program's
  steps are the iterations of the outbox worker and the passes of the status and reconcile workers; a
  reconcile pass may be interrupted between its listings by any run. The environment inserts outbox rows
  (the triggers on the tenant tables), changes tables, clusters and Gardener, takes and releases row
  locks, makes database calls fail, and lets time pass.\<close>

inductive app_reach ::
  "(uuid \<Rightarrow> string) \<Rightarrow> (string \<Rightarrow> uuid option) \<Rightarrow> 'g gardener_ops \<Rightarrow> 's shoot_ops \<Rightarrow> cluster_cfg \<Rightarrow> outbox_cfg \<Rightarrow>
   ('g \<Rightarrow> bool) \<Rightarrow> ('s, 'g) world \<Rightarrow> ('s, 'g) world \<Rightarrow> bool"
  for us up gops ops ccfg ocfg ok where
  start: "app_reach us up gops ops ccfg ocfg ok w w"
| outbox_iteration:
    "app_reach us up gops ops ccfg ocfg ok w v \<Longrightarrow>
     processNextRow us ocfg (app_registry us up gops ops ccfg ocfg sd) c v = Some (b, err, w') \<Longrightarrow>
     app_reach us up gops ops ccfg ocfg ok w w'"
| status_tick:
    "app_reach us up gops ops ccfg ocfg ok w v \<Longrightarrow>
     runAllHandlers cancelled (app_registry us up gops ops ccfg ocfg sd) v = Some (e, w') \<Longrightarrow>
     app_reach us up gops ops ccfg ocfg ok w w'"
| reconcile_tick:
    "app_reach us up gops ops ccfg ocfg ok w u \<Longrightarrow> app_reach us up gops ops ccfg ocfg ok u v \<Longrightarrow>
     reconcileAll c (app_registry us up gops ops ccfg ocfg (sd\<lparr>between := \<lambda>_. v\<rparr>)) u = Some (e, w') \<Longrightarrow>
     app_reach us up gops ops ccfg ocfg ok w w'"
| row_inserted:
    "app_reach us up gops ops ccfg ocfg ok w v \<Longrightarrow>
     (\<And>i. ob_id (mk i) = i \<and> ob_status (mk i) = Pending \<and> ob_retries (mk i) = 0 \<and> ob_deferrals (mk i) = 0 \<and> routable (mk i)) \<Longrightarrow>
     app_reach us up gops ops ccfg ocfg ok w (outbox_insert mk v)"
| environment:
    "app_reach us up gops ops ccfg ocfg ok w v \<Longrightarrow> clock v \<le> t \<Longrightarrow> ok g \<Longrightarrow>
     app_reach us up gops ops ccfg ocfg ok w
       (v\<lparr>clock := t, db := d, shoots := s, garden := g, locked := l, db_fault := f, db_calls := k\<rparr>)"

definition app_inv :: "outbox_cfg \<Rightarrow> ('g \<Rightarrow> bool) \<Rightarrow> ('s, 'g) world \<Rightarrow> bool" where
  "app_inv cfg ok w \<longleftrightarrow> wf_outbox cfg w \<and> ready_ok w \<and> ok (garden w)"

text \<open>What a run keeps of the outbox: the rows, in order and under their identifiers, and terminal rows
  exactly.\<close>

definition outbox_keeps :: "('s, 'g) world \<Rightarrow> ('s, 'g) world \<Rightarrow> bool" where
  "outbox_keeps w w' \<longleftrightarrow> prefix (map ob_id (outbox w)) (map ob_id (outbox w')) \<and>
     (\<forall>r\<in>set (outbox w). terminal r \<longrightarrow> r \<in> set (outbox w'))"

lemma outbox_keeps_refl: "outbox_keeps w w"
  by (simp add: outbox_keeps_def)

lemma outbox_keeps_trans: "outbox_keeps u v \<Longrightarrow> outbox_keeps v w \<Longrightarrow> outbox_keeps u w"
  by (auto simp: outbox_keeps_def)

lemma outbox_keeps_ext: "outbox_ext w w' \<Longrightarrow> outbox_keeps w w'"
  by (auto simp: outbox_keeps_def outbox_ext_def)

lemma app_inv_ext: "app_inv cfg ok v \<Longrightarrow> outbox_ext v w \<Longrightarrow> ok (garden w) \<Longrightarrow> app_inv cfg ok w"
  using wf_outbox_ext ready_ok_ext unfolding app_inv_def by blast

lemma processNextRow_keeps:
  assumes "cfg_ok cfg" "wf_outbox cfg w" "processNextRow us cfg (app_registry us up gops ops ccfg ocfg sd) c w = Some (b, err, w')"
  shows "outbox_keeps w w'"
proof (cases b)
  case True
  with assms(3) have "processNextRow us cfg (app_registry us up gops ops ccfg ocfg sd) False w = Some (True, err, w')"
    by (auto simp: processNextRow_def split: if_splits)
  then obtain row :: obrow and perr v where "outbox_ext w v"
      "outbox w' = update_where (\<lambda>r. ob_id r = ob_id row) (row_step cfg (clock w) (attempt_of perr)) (outbox v)"
    by (rule app.processNextRow_refines [OF assms(1,2)])
  then have "prefix (map ob_id (outbox w)) (map ob_id (outbox w'))"
    by (auto simp: outbox_ext_def)
  then show ?thesis
    using app.processNextRow_keeps_terminal [OF assms] by (simp add: outbox_keeps_def)
next
  case False
  with assms(3) app.processNextRow_stop [OF assms(1,2)] show ?thesis
    by (auto intro: outbox_keeps_ext)
qed

context gardener
begin

lemma app_reach_inv:
  assumes "cfg_ok ocfg" "app_reach us up' ops sops ccfg ocfg ok w w'" "app_inv ocfg ok w"
  shows "app_inv ocfg ok w' \<and> outbox_keeps w w'"
  using assms(2,3)
proof (induction rule: app_reach.induct)
  case (start w)
  then show ?case by (simp add: outbox_keeps_refl)
next
  case (outbox_iteration w v sd c b err w')
  then have v: "wf_outbox ocfg v" "ready_ok v" "ok (garden v)" "outbox_keeps w v"
    by (auto simp: app_inv_def)
  show ?case
    using app.processNextRow_wf [OF assms(1) v(1) outbox_iteration.hyps(2)]
      processNextRow_ready_ok [OF assms(1) v(1,2) outbox_iteration.hyps(2)]
      processNextRow_ok [OF v(3) outbox_iteration.hyps(2)]
      outbox_keeps_trans [OF v(4) processNextRow_keeps [OF assms(1) v(1) outbox_iteration.hyps(2)]]
    by (simp add: app_inv_def)
next
  case (status_tick w v cancelled sd e w')
  then have v: "wf_outbox ocfg v" "ready_ok v" "ok (garden v)" "outbox_keeps w v"
    by (auto simp: app_inv_def)
  have "ok (garden w')" "outbox_ext v w'"
    using status_pass [OF v(3), of cancelled us up' sops ccfg ocfg sd] status_tick.hyps(2) by auto
  then show ?case
    using status_tick.IH [OF status_tick.prems] app_inv_ext [of ocfg ok v w'] outbox_keeps_trans [OF v(4) outbox_keeps_ext [of v w']]
    by blast
next
  case (reconcile_tick w u v c sd e w')
  then have u: "app_inv ocfg ok u" "outbox_keeps w u" and v: "app_inv ocfg ok v" "outbox_keeps u v"
    by auto
  have r: "ok (garden w')" "outbox_ext u w' \<or> outbox_ext v w'"
    using reconcile_pass [of u v c us up' sops ccfg ocfg sd] u v reconcile_tick.hyps(3) by (auto simp: app_inv_def)
  have "app_inv ocfg ok w'"
    using r(2) app_inv_ext [OF u(1) _ r(1)] app_inv_ext [OF v(1) _ r(1)] by blast
  moreover have "outbox_keeps u w'"
    using r(2) outbox_keeps_ext [of u w'] outbox_keeps_trans [OF v(2) outbox_keeps_ext [of v w']] by blast
  ultimately show ?case
    using outbox_keeps_trans [OF u(2)] by blast
next
  case (row_inserted w v mk)
  have "outbox_ext v (outbox_insert mk v)" by (rule outbox_ext_insert) (rule row_inserted.hyps(2))
  moreover have "ok (garden (outbox_insert mk v))"
    using row_inserted.IH row_inserted.prems by (simp add: outbox_insert_def Let_def app_inv_def)
  ultimately show ?case
    using row_inserted.IH [OF row_inserted.prems] app_inv_ext [of ocfg ok v] outbox_keeps_trans [OF _ outbox_keeps_ext, of w v] by blast
next
  case (environment w v t g k f l s d)
  let ?v = "v\<lparr>clock := t, db := d, shoots := s, garden := g, locked := l, db_fault := f, db_calls := k\<rparr>"
  have v: "wf_outbox ocfg v" "ready_ok v" "outbox_keeps w v"
    using environment.IH [OF environment.prems] by (auto simp: app_inv_def)
  have same: "outbox ?v = outbox v" "new_uuid ?v = new_uuid v" "n_uuids ?v = n_uuids v" "garden ?v = g" by simp_all
  show ?case
    using v environment.hyps(3) unfolding app_inv_def wf_outbox_def ready_ok_def outbox_keeps_def same by blast
qed

lemma app_reach_no_panic:
  assumes "cfg_ok ocfg" "app_reach us up' ops sops ccfg ocfg ok w v" "app_inv ocfg ok w"
  shows "processNextRow us ocfg (app_registry us up' ops sops ccfg ocfg sd) c v \<noteq> None"
    "runAllHandlers cancelled (app_registry us up' ops sops ccfg ocfg sd) v \<noteq> None"
    "app_reach us up' ops sops ccfg ocfg ok v u \<Longrightarrow>
       reconcileAll c (app_registry us up' ops sops ccfg ocfg (sd\<lparr>between := \<lambda>_. u\<rparr>)) v \<noteq> None"
proof -
  have v: "app_inv ocfg ok v" using app_reach_inv [OF assms] by simp
  then show "processNextRow us ocfg (app_registry us up' ops sops ccfg ocfg sd) c v \<noteq> None"
    by (intro processNextRow_no_panic) (simp add: app_inv_def)
  show "runAllHandlers cancelled (app_registry us up' ops sops ccfg ocfg sd) v \<noteq> None"
    using status_pass [of v cancelled us up' sops ccfg ocfg sd] v by (auto simp: app_inv_def)
  show "reconcileAll c (app_registry us up' ops sops ccfg ocfg (sd\<lparr>between := \<lambda>_. u\<rparr>)) v \<noteq> None"
    if "app_reach us up' ops sops ccfg ocfg ok v u"
    using reconcile_pass [of v u c us up' sops ccfg ocfg sd] v app_reach_inv [OF assms(1) that v] by (auto simp: app_inv_def)
qed

end

section \<open>Lemmas: a completed drain\<close>

text \<open>No failing call reports \<open>pgx.ErrNoRows\<close> by itself.\<close>

definition honest_faults :: "('s, 'g) world \<Rightarrow> bool" where
  "honest_faults w \<longleftrightarrow> (\<forall>k e. db_fault w k = Some e \<longrightarrow> \<not> errors_is ErrNoRows e)"

lemma NamespaceSync_faults: "NamespaceSync ops us m i sc w = Some (e, w') \<Longrightarrow> db_fault w' = db_fault w"
proof -
  assume eq: "NamespaceSync ops us m i sc w = Some (e, w')"
  have "calm w w' \<or> (\<exists>v errs. calm w v \<and> enqueue_namespaces us m (NamespaceListActiveForCluster i (db w)) [] v = (errs, w'))"
    using eq by (auto simp: NamespaceSync_def enqueueClusterNamespaces_def db_read_eq
        split: entity_type.splits option.splits prod.splits dest: syncNamespace_calm)
  then show "db_fault w' = db_fault w"
    by (auto simp: calm_defs dest!: enqueue_namespaces_frame)
qed

lemma handler_faults:
  "Sync ops us i sc w = Some (e, w') \<Longrightarrow> db_fault w' = db_fault w"
  "ClusterSync gops us i sc w = Some (e, w') \<Longrightarrow> db_fault w' = db_fault w"
  using Sync_calm [of ops us i sc w e w'] ClusterSync_quiet [of gops us i sc w e w'] by (auto simp: calm_defs quiet_def)

lemma complete_faults: "db_fault (snd (snd (complete cfg row perr w))) = db_fault w"
  by (auto simp: complete_def handlePreconditionError_def handleRowError_def db_exec_eq outbox_marks outbox_modify_def Let_def
      split: option.splits)

lemma claim_faults: "claim w = (x, w') \<Longrightarrow> db_fault w' = db_fault w"
  by (auto simp: claim_def db_exec_eq db_read_eq split: option.splits sum.splits if_splits)

lemma process_faults:
  assumes "process us (app_registry us' up gops ops ccfg ocfg sd) row w = Some (ety, perr, w')"
  shows "db_fault w' = db_fault w"
proof (cases "entityFromRow us row")
  case (Inr p)
  obtain e i where p: "p = (e, i)" by (cases p)
  let ?sc = "\<lparr>sc_entity = e, sc_event = ob_event row, sc_source = ob_source row\<rparr>"
  show ?thesis
  proof (cases "SyncHandlersFor (app_registry us' up gops ops ccfg ocfg sd) e (ob_event row)")
    case (Inr hs)
    with assms \<open>entityFromRow us row = Inr p\<close> p obtain hard pre where
      "run_handlers hs i ?sc [] [] w = Some (hard, pre, w')"
      by (auto simp: process_def Let_def split: option.splits if_splits)
    then show ?thesis
    proof (rule run_handlers_inv [where P = "\<lambda>v. db_fault v = db_fault w", rotated 2])
      show "db_fault v' = db_fault w" if "h \<in> set hs" "db_fault v = db_fault w" "h i ?sc v = Some (err, v')" for h v err v'
        using that Inr
        by (cases e) (auto simp: app_handlers handler_faults NamespaceSync_faults split: if_splits)
    qed simp
  qed (use assms Inr p in \<open>auto simp: process_def\<close>)
qed (use assms in \<open>auto simp: process_def\<close>)

lemma processNextRow_faults:
  assumes "processNextRow us cfg (app_registry us' up gops ops ccfg ocfg sd) c w = Some (b, err, w')"
  shows "db_fault w' = db_fault w"
proof -
  have "db_fault w' = db_fault w" if "claim w = (Inr (Some row), u)" "process us (app_registry us' up gops ops ccfg ocfg sd) row u = Some (ety, perr, v)"
      "complete cfg row perr v = (b, err, w')" for row u ety perr v
    using process_faults [OF that(2)] claim_faults [OF that(1)] complete_faults [of cfg row perr v] that(3) by simp
  then show ?thesis
    using assms by (auto simp: processNextRow_def split: if_splits prod.splits sum.splits option.splits dest: claim_faults)
qed

lemma claim_none_honest:
  assumes "claim w = (Inr None, w')" "honest_faults w"
  shows "\<forall>r\<in>set (outbox w'). eligible (clock w') r \<longrightarrow> ob_id r \<in> set (locked w')"
  using assms claim_frame [OF assms(1)]
  by (auto simp: claim_def db_exec_eq db_read_eq OutboxGetAndLock_def table_simps honest_faults_def
      split: option.splits sum.splits if_splits)

lemma complete_False: "complete cfg row perr v = (False, err, w') \<Longrightarrow> err \<noteq> None"
  by (auto simp: complete_def handlePreconditionError_def db_exec_eq split: option.splits if_splits prod.splits)

lemma processAllRows_empties:
  "honest_faults w \<Longrightarrow>
   processAllRows fuel us cfg (app_registry us' up gops ops ccfg ocfg sd) (\<lambda>_. False) k w = Drained None w' \<Longrightarrow>
   \<forall>r\<in>set (outbox w'). eligible (clock w') r \<longrightarrow> ob_id r \<in> set (locked w')"
proof (induction fuel arbitrary: k w)
  case (Suc fuel)
  let ?next = "processNextRow us cfg (app_registry us' up gops ops ccfg ocfg sd) False w"
  from Suc.prems(2) obtain b v where v: "?next = Some (b, None, v)"
    by (auto split: option.splits if_splits)
  show ?case
  proof (cases b)
    case True
    have "honest_faults v" using processNextRow_faults [OF v] Suc.prems(1) by (simp add: honest_faults_def)
    with Suc.IH [of v "Suc k"] Suc.prems(2) v True show ?thesis by simp
  next
    case False
    then have "claim w = (Inr None, v)" "v = w'"
      using v Suc.prems(2) by (auto simp: processNextRow_def split: prod.splits sum.splits option.splits dest!: complete_False)
    with claim_none_honest Suc.prems(1) show ?thesis by blast
  qed
qed simp

end
