(* ===== verification/GardenReal.thy ===== *)
theory GardenReal
  imports Gardener
begin

text \<open>
  The Kubernetes-backed Gardener client \<open>cluster-worker/pkg/client/gardener/real.go\<close>. The
  controller-runtime client it calls is the parameter \<open>api\<close> (one operation per call the code makes);
  what the API server documents is the locale \<open>garden_api\<close>. Under it the client satisfies the
  contract \<open>gardener\<close> of the cluster handler. Of the third-party objects only the fields the code
  reads or writes are modelled. \<open>uuid.UUID.String\<close> and \<open>uuid.Parse\<close> are the parameters \<open>us\<close> and \<open>up\<close>.
\<close>

section \<open>Configuration\<close>

record provider_config =
  pc_type :: string
  pc_cloud_profile :: string
  pc_region :: string
  pc_credentials_binding :: string
  pc_credentials_ref :: string
  pc_credentials_ref_kind :: string
  pc_credentials_ref_api :: string
  pc_image_name :: string
  pc_image_version :: string
  pc_machine_type :: string
  pc_nodes_cidr :: string
  pc_pods_cidr :: string
  pc_services_cidr :: string
  pc_infrastructure :: string
  pc_control_plane :: string
  pc_annotations :: smap

definition NewProviderConfig :: provider_config where
  "NewProviderConfig = \<lparr>pc_type = ''local'', pc_cloud_profile = ''local'', pc_region = ''local'',
     pc_credentials_binding = ''local'', pc_credentials_ref = ''garden-local/local'',
     pc_credentials_ref_kind = ''WorkloadIdentity'',
     pc_credentials_ref_api = ''security.gardener.cloud/v1alpha1'', pc_image_name = ''local'',
     pc_image_version = ''1.0.0'', pc_machine_type = ''local'', pc_nodes_cidr = '''', pc_pods_cidr = '''',
     pc_services_cidr = '''', pc_infrastructure = '''', pc_control_plane = '''', pc_annotations = []\<rparr>"

section \<open>Objects of the API\<close>

record networking =
  net_type :: string
  net_nodes :: "string option"
  net_pods :: "string option"
  net_services :: "string option"

record shoot_spec =
  sp_cloud_profile_kind :: string
  sp_cloud_profile :: string
  sp_region :: string
  sp_version :: string
  sp_provider_type :: string
  sp_workers :: "worker list"
  sp_infrastructure :: "string option"
  sp_control_plane :: "string option"
  sp_networking :: networking
  sp_credentials_binding :: "string option"

datatype last_op_state = LOPending | LOProcessing | LOError | LOFailed | LOSucceeded | LOAborted | LOOther string

record last_operation =
  lo_type :: string
  lo_state :: last_op_state
  lo_description :: string

datatype condition_type = ShootAPIServerAvailable | ShootControlPlaneHealthy | ShootSystemComponentsHealthy
  | OtherCondition string

datatype condition_status = ConditionTrue | OtherConditionStatus string

record kshoot =
  k_name :: string
  k_namespace :: string
  k_labels :: smap
  k_annotations :: smap
  k_deletion :: "micros option"
  k_spec :: shoot_spec
  k_last_operation :: "last_operation option"
  k_conditions :: "(condition_type \<times> condition_status) list"

record kproject =
  pj_name :: string
  pj_labels :: smap
  pj_description :: "string option"
  pj_namespace :: "string option"

record kbinding =
  kb_name :: string
  kb_namespace :: string
  kb_provider_type :: string
  kb_ref_api :: string
  kb_ref_kind :: string
  kb_ref_name :: string
  kb_ref_namespace :: string

datatype label_selector = HasLabels string | MatchingLabels string string

fun selects :: "label_selector \<Rightarrow> smap \<Rightarrow> bool" where
  "selects (HasLabels k) l \<longleftrightarrow> map_of l k \<noteq> None"
| "selects (MatchingLabels k v) l \<longleftrightarrow> map_of l k = Some v"

record 'k garden_api =
  api_ListShoots :: "label_selector \<Rightarrow> 'k \<Rightarrow> (gerr + kshoot list) \<times> 'k"
  api_CreateShoot :: "kshoot \<Rightarrow> 'k \<Rightarrow> gerr option \<times> 'k"
  api_UpdateShoot :: "kshoot \<Rightarrow> 'k \<Rightarrow> gerr option \<times> 'k"
  api_DeleteShoot :: "kshoot \<Rightarrow> 'k \<Rightarrow> gerr option \<times> 'k"
  api_ListProjects :: "label_selector \<Rightarrow> 'k \<Rightarrow> (gerr + kproject list) \<times> 'k"
  api_CreateProject :: "kproject \<Rightarrow> 'k \<Rightarrow> gerr option \<times> 'k"
  api_GetBinding :: "string \<Rightarrow> string \<Rightarrow> 'k \<Rightarrow> (gerr + kbinding) \<times> 'k"
  api_CreateBinding :: "kbinding \<Rightarrow> 'k \<Rightarrow> gerr option \<times> 'k"
  api_AdminKubeconfig :: "kshoot \<Rightarrow> int \<Rightarrow> 'k \<Rightarrow> (gerr + admin_kubeconfig) \<times> 'k"

section \<open>Building a shoot\<close>

definition shootAnnotations :: "provider_config \<Rightarrow> string \<Rightarrow> smap" where
  "shootAnnotations pc clusterName =
     (let annotations = maps_copy [(AnnotationClusterName, clusterName)] (pc_annotations pc)
      in if pc_type pc = ''local''
         then maps_copy annotations
           [(''shoot.gardener.cloud/cleanup-webhooks-finalize-grace-period-seconds'', ''15''),
            (''shoot.gardener.cloud/cleanup-extended-apis-finalize-grace-period-seconds'', ''15''),
            (''shoot.gardener.cloud/cleanup-kubernetes-resources-finalize-grace-period-seconds'', ''15'')]
         else annotations)"

definition cloudProfile :: "provider_config \<Rightarrow> cluster_to_sync \<Rightarrow> string" where
  "cloudProfile pc cs = (if cs_cloud_profile cs \<noteq> '''' then cs_cloud_profile cs else pc_cloud_profile pc)"

definition region :: "provider_config \<Rightarrow> cluster_to_sync \<Rightarrow> string" where
  "region pc cs =
     (if cs_cloud_profile_region cs \<noteq> '''' then cs_cloud_profile_region cs
      else if cs_region cs \<noteq> '''' then cs_region cs
      else pc_region pc)"

definition nonempty :: "string \<Rightarrow> string option" where
  "nonempty s = (if s \<noteq> '''' then Some s else None)"

definition buildNetworking :: "provider_config \<Rightarrow> networking" where
  "buildNetworking pc =
     (let nodesCIDR = (if pc_nodes_cidr pc = '''' \<and> pc_type pc = ''local'' then ''10.0.0.0/16'' else pc_nodes_cidr pc)
      in \<lparr>net_type = ''calico'', net_nodes = nonempty nodesCIDR, net_pods = nonempty (pc_pods_cidr pc),
          net_services = nonempty (pc_services_cidr pc)\<rparr>)"

text \<open>\<open>GenerateWorkerName\<close> never panics (\<open>GenerateWorkerName_total\<close>), so the client reads its value.\<close>

lemma GenerateWorkerName_total: "GenerateWorkerName p \<noteq> None"
  by (simp add: GenerateWorkerName_def name_lengths Bounded_HashHex)

definition default_worker :: "provider_config \<Rightarrow> worker" where
  "default_worker pc = \<lparr>wk_name = ''default'', wk_machine_type = pc_machine_type pc,
     wk_image_name = pc_image_name pc, wk_image_version = pc_image_version pc,
     wk_minimum = defaultWorkerMinimum, wk_maximum = defaultWorkerMaximum,
     wk_max_surge = 1, wk_max_unavailable = 0, wk_zones = []\<rparr>"

definition pool_worker :: "provider_config \<Rightarrow> node_pool \<Rightarrow> worker" where
  "pool_worker pc np = \<lparr>wk_name = the (GenerateWorkerName (pool_name np)),
     wk_machine_type = (if pc_type pc = ''local'' then pc_machine_type pc else pool_machine_type np),
     wk_image_name = pc_image_name pc, wk_image_version = pc_image_version pc,
     wk_minimum = AutoscaleMin np, wk_maximum = AutoscaleMax np,
     wk_max_surge = 1, wk_max_unavailable = 0,
     wk_zones = (if pool_zone np \<noteq> '''' then [pool_zone np] else [])\<rparr>"

definition buildWorkers :: "provider_config \<Rightarrow> cluster_to_sync \<Rightarrow> gerr + worker list" where
  "buildWorkers pc cs =
     (case validateNodeLimits (cs_pools cs) (cs_limits cs) of
        Some e \<Rightarrow> Inl e
      | None \<Rightarrow>
          Inr (clampWorkerMaxima
            (if cs_pools cs = [] then [default_worker pc] else map (pool_worker pc) (cs_pools cs))
            (MaxNodesPerNodePool (cs_limits cs))))"

definition real_labels :: "(uuid \<Rightarrow> string) \<Rightarrow> cluster_to_sync \<Rightarrow> smap" where
  "real_labels us cs = [(LabelClusterID, us (cs_id cs)), (LabelOrganizationID, us (cs_org cs))]"

definition buildShootSpec :: "provider_config \<Rightarrow> (uuid \<Rightarrow> string) \<Rightarrow> cluster_to_sync \<Rightarrow> gerr + kshoot" where
  "buildShootSpec pc us cs =
     bind_sum (buildWorkers pc cs) (\<lambda>workers.
       Inr \<lparr>k_name = cs_shoot_name cs, k_namespace = cs_namespace cs, k_labels = real_labels us cs,
         k_annotations = shootAnnotations pc (cs_name cs), k_deletion = None,
         k_spec = \<lparr>sp_cloud_profile_kind = ''CloudProfile'', sp_cloud_profile = cloudProfile pc cs,
           sp_region = region pc cs, sp_version = cs_version cs, sp_provider_type = pc_type pc,
           sp_workers = workers, sp_infrastructure = nonempty (pc_infrastructure pc),
           sp_control_plane = nonempty (pc_control_plane pc), sp_networking = buildNetworking pc,
           sp_credentials_binding = nonempty (pc_credentials_binding pc)\<rparr>,
         k_last_operation = None, k_conditions = []\<rparr>)"

definition updateShootSpec ::
  "provider_config \<Rightarrow> (uuid \<Rightarrow> string) \<Rightarrow> kshoot \<Rightarrow> cluster_to_sync \<Rightarrow> gerr + kshoot" where
  "updateShootSpec pc us s cs =
     bind_sum (buildWorkers pc cs) (\<lambda>workers.
       Inr (s\<lparr>k_labels := AList.update LabelOrganizationID (us (cs_org cs))
                (AList.update LabelClusterID (us (cs_id cs)) (k_labels s)),
            k_annotations := AList.update AnnotationClusterName (cs_name cs) (k_annotations s),
            k_spec := (k_spec s)\<lparr>sp_region := region pc cs, sp_version := cs_version cs, sp_workers := workers\<rparr>\<rparr>))"

section \<open>Operations\<close>

definition getShootByClusterID ::
  "'k garden_api \<Rightarrow> (uuid \<Rightarrow> string) \<Rightarrow> uuid \<Rightarrow> 'k \<Rightarrow> (gerr + kshoot option) \<times> 'k" where
  "getShootByClusterID api us c k =
     (case api_ListShoots api (MatchingLabels LabelClusterID (us c)) k of
        (Inl e, k) \<Rightarrow> (Inl (errorf ''list shoots'' e), k)
      | (Inr [], k) \<Rightarrow> (Inr None, k)
      | (Inr (s # _), k) \<Rightarrow> (Inr (Some s), k))"

text \<open>\<open>parseRef\<close> splits at every slash.\<close>

fun split_slash :: "string \<Rightarrow> string \<Rightarrow> string list" where
  "split_slash acc [] = [rev acc]"
| "split_slash acc (c # cs) = (if c = CHR ''/'' then rev acc # split_slash [] cs else split_slash (c # acc) cs)"

definition parseRef :: "string \<Rightarrow> gerr + (string \<times> string)" where
  "parseRef ref =
     (case split_slash [] ref of
        [ns, n] \<Rightarrow> Inr (ns, n)
      | _ \<Rightarrow> Inl (ErrNew (''expected format '' @ [CHR 0x27] @ ''namespace/name'' @ [CHR 0x27] @ '', got '' @ go_quote ref)))"

definition ensureCredentialsBinding ::
  "'k garden_api \<Rightarrow> provider_config \<Rightarrow> string \<Rightarrow> 'k \<Rightarrow> gerr option \<times> 'k" where
  "ensureCredentialsBinding api pc namespace k =
     (if pc_credentials_ref pc = '''' then (None, k)
      else
        let bindingName = (if pc_credentials_binding pc = '''' then ''local'' else pc_credentials_binding pc)
        in case api_GetBinding api namespace bindingName k of
             (Inr _, k) \<Rightarrow> (None, k)
           | (Inl e, k) \<Rightarrow>
               if \<not> is_not_found e then (Some (errorf ''failed to get credentials binding'' e), k)
               else (case parseRef (pc_credentials_ref pc) of
                       Inl pe \<Rightarrow> (Some (errorf ''invalid credentials ref'' pe), k)
                     | Inr (refNs, refName) \<Rightarrow>
                         (case api_CreateBinding api
                            \<lparr>kb_name = bindingName, kb_namespace = namespace, kb_provider_type = pc_type pc,
                             kb_ref_api = pc_credentials_ref_api pc, kb_ref_kind = pc_credentials_ref_kind pc,
                             kb_ref_name = refName, kb_ref_namespace = refNs\<rparr> k of
                            (None, k) \<Rightarrow> (None, k)
                          | (Some ce, k) \<Rightarrow>
                              if is_already_exists ce then (None, k)
                              else (Some (errorf ''failed to create credentials binding'' ce), k))))"

text \<open>\<open>Inr None\<close>: no project with the organization's label.\<close>

definition getProjectNamespaceByOrgID ::
  "'k garden_api \<Rightarrow> provider_config \<Rightarrow> (uuid \<Rightarrow> string) \<Rightarrow> uuid \<Rightarrow> 'k \<Rightarrow> (gerr + string option) \<times> 'k" where
  "getProjectNamespaceByOrgID api pc us org k =
     (case api_ListProjects api (MatchingLabels LabelOrganizationID (us org)) k of
        (Inl e, k) \<Rightarrow> (Inl (errorf ''failed to list projects'' e), k)
      | (Inr [], k) \<Rightarrow> (Inr None, k)
      | (Inr (p # _), k) \<Rightarrow>
          let namespace = (case pj_namespace p of None \<Rightarrow> '''' | Some ns \<Rightarrow> ns)
          in if namespace \<noteq> ''''
             then (case ensureCredentialsBinding api pc namespace k of
                     (Some e, k) \<Rightarrow> (Inl (errorf ''failed to ensure credentials binding'' e), k)
                   | (None, k) \<Rightarrow> (Inr (Some namespace), k))
             else (Inr (Some namespace), k))"

definition RealEnsureProject ::
  "'k garden_api \<Rightarrow> provider_config \<Rightarrow> (uuid \<Rightarrow> string) \<Rightarrow> string \<Rightarrow> uuid \<Rightarrow> 'k \<Rightarrow> (gerr + string) \<times> 'k" where
  "RealEnsureProject api pc us projectName org k =
     (case getProjectNamespaceByOrgID api pc us org k of
        (Inl e, k) \<Rightarrow> (Inl e, k)
      | (Inr (Some namespace), k) \<Rightarrow> (Inr namespace, k)
      | (Inr None, k) \<Rightarrow>
          (case api_CreateProject api
             \<lparr>pj_name = projectName, pj_labels = [(LabelOrganizationID, us org)],
              pj_description = Some ''Fundament managed clusters'', pj_namespace = None\<rparr> k of
             (None, k) \<Rightarrow> (Inr '''', k)
           | (Some ce, k) \<Rightarrow>
               if is_already_exists ce
               then (case getProjectNamespaceByOrgID api pc us org k of
                       (Inl e, k) \<Rightarrow> (Inl (errorf ''after create conflict'' e), k)
                     | (Inr (Some namespace), k) \<Rightarrow> (Inr namespace, k)
                     | (Inr None, k) \<Rightarrow> (Inl (ErrNew ''project exists but not found by label''), k))
               else (Inl (errorf ''failed to create project'' ce), k)))"

definition RealApplyShoot ::
  "'k garden_api \<Rightarrow> provider_config \<Rightarrow> (uuid \<Rightarrow> string) \<Rightarrow> cluster_to_sync \<Rightarrow> 'k \<Rightarrow> gerr option \<times> 'k" where
  "RealApplyShoot api pc us cs k =
     (if cs_namespace cs = '''' then (Some (ErrNew ''namespace is required''), k)
      else if cs_shoot_name cs = '''' then (Some (ErrNew ''shoot name is required''), k)
      else case getShootByClusterID api us (cs_id cs) k of
             (Inl e, k) \<Rightarrow> (Some (errorf ''failed to look up existing shoot'' e), k)
           | (Inr (Some existing), k) \<Rightarrow>
               (case updateShootSpec pc us existing cs of
                  Inl e \<Rightarrow> (Some e, k)
                | Inr s \<Rightarrow>
                    (case api_UpdateShoot api s k of
                       (Some e, k) \<Rightarrow> (Some (errorf ''failed to update shoot'' e), k)
                     | (None, k) \<Rightarrow> (None, k)))
           | (Inr None, k) \<Rightarrow>
               (case buildShootSpec pc us cs of
                  Inl e \<Rightarrow> (Some e, k)
                | Inr s \<Rightarrow>
                    (case api_CreateShoot api s k of
                       (Some e, k) \<Rightarrow> (Some (errorf ''failed to create shoot'' e), k)
                     | (None, k) \<Rightarrow> (None, k))))"

definition confirm_deletion :: "provider_config \<Rightarrow> kshoot \<Rightarrow> kshoot" where
  "confirm_deletion pc s =
     s\<lparr>k_annotations :=
       (let an = AList.update ''confirmation.gardener.cloud/deletion'' ''true'' (k_annotations s)
        in if pc_type pc = ''local'' \<and> k_deletion s \<noteq> None
           then AList.update ''confirmation.gardener.cloud/force-deletion'' ''true'' an else an)\<rparr>"

definition deleteShoot :: "'k garden_api \<Rightarrow> provider_config \<Rightarrow> kshoot \<Rightarrow> 'k \<Rightarrow> gerr option \<times> 'k" where
  "deleteShoot api pc s k =
     (case api_UpdateShoot api (confirm_deletion pc s) k of
        (Some e, k) \<Rightarrow> (Some (errorf ''failed to add deletion annotations'' e), k)
      | (None, k) \<Rightarrow>
          (case api_DeleteShoot api (confirm_deletion pc s) k of
             (None, k) \<Rightarrow> (None, k)
           | (Some e, k) \<Rightarrow>
               if is_not_found e then (None, k) else (Some (errorf ''failed to delete shoot'' e), k)))"

definition RealDeleteShootByClusterID ::
  "'k garden_api \<Rightarrow> provider_config \<Rightarrow> (uuid \<Rightarrow> string) \<Rightarrow> uuid \<Rightarrow> 'k \<Rightarrow> gerr option \<times> 'k" where
  "RealDeleteShootByClusterID api pc us c k =
     (case getShootByClusterID api us c k of
        (Inl e, k) \<Rightarrow> (Some (errorf ''failed to look up shoot'' e), k)
      | (Inr None, k) \<Rightarrow> (None, k)
      | (Inr (Some s), k) \<Rightarrow> deleteShoot api pc s k)"

text \<open>Shoots whose label is not a UUID are left out of the list.\<close>

definition shoot_info_of :: "(string \<Rightarrow> uuid option) \<Rightarrow> kshoot \<Rightarrow> shoot_info option" where
  "shoot_info_of up s =
     map_option (\<lambda>c. \<lparr>si_name = k_name s, si_namespace = k_namespace s, si_cluster = c, si_labels = k_labels s\<rparr>)
       (up (sget (k_labels s) LabelClusterID))"

definition RealListShoots ::
  "'k garden_api \<Rightarrow> (string \<Rightarrow> uuid option) \<Rightarrow> 'k \<Rightarrow> (gerr + shoot_info list) \<times> 'k" where
  "RealListShoots api up k =
     (case api_ListShoots api (HasLabels LabelClusterID) k of
        (Inl e, k) \<Rightarrow> (Inl (errorf ''failed to list shoots'' e), k)
      | (Inr ss, k) \<Rightarrow> (Inr (List.map_filter (shoot_info_of up) ss), k))"

text \<open>The last status recorded for a condition type is the one that counts.\<close>

definition isShootHealthy :: "kshoot \<Rightarrow> bool" where
  "isShootHealthy s =
     (let conditionMap = foldl (\<lambda>m (t, v). AList.update t v m) [] (k_conditions s)
      in list_all (\<lambda>t. map_of conditionMap t = Some ConditionTrue)
           [ShootAPIServerAvailable, ShootControlPlaneHealthy, ShootSystemComponentsHealthy])"

definition shoot_status_of :: "kshoot \<Rightarrow> shoot_status" where
  "shoot_status_of s =
     (let creating = \<lparr>st_status = StatusProgressing, st_message = ''Shoot is being created''\<rparr>
      in if k_deletion s \<noteq> None then \<lparr>st_status = StatusDeleting, st_message = ''Shoot is being deleted''\<rparr>
         else case k_last_operation s of
                None \<Rightarrow> creating
              | Some op \<Rightarrow>
                  (case lo_state op of
                     LOPending \<Rightarrow> \<lparr>st_status = StatusProgressing, st_message = lo_type op @ '': '' @ lo_description op\<rparr>
                   | LOProcessing \<Rightarrow> \<lparr>st_status = StatusProgressing, st_message = lo_type op @ '': '' @ lo_description op\<rparr>
                   | LOError \<Rightarrow> \<lparr>st_status = StatusError, st_message = lo_description op\<rparr>
                   | LOFailed \<Rightarrow> \<lparr>st_status = StatusError, st_message = lo_description op\<rparr>
                   | LOSucceeded \<Rightarrow>
                       \<lparr>st_status = StatusReady,
                        st_message = (if isShootHealthy s then MsgShootReady
                                      else ''Shoot reconciled but not all conditions healthy'')\<rparr>
                   | LOAborted \<Rightarrow> \<lparr>st_status = StatusError, st_message = ''Operation was aborted: '' @ lo_description op\<rparr>
                   | LOOther _ \<Rightarrow> creating))"

definition RealGetShootStatus ::
  "'k garden_api \<Rightarrow> (uuid \<Rightarrow> string) \<Rightarrow> cluster_to_sync \<Rightarrow> 'k \<Rightarrow> (gerr + shoot_status) \<times> 'k" where
  "RealGetShootStatus api us cs k =
     (case getShootByClusterID api us (cs_id cs) k of
        (Inl e, k) \<Rightarrow> (Inl (errorf ''failed to look up shoot'' e), k)
      | (Inr None, k) \<Rightarrow> (Inr \<lparr>st_status = StatusPending, st_message = MsgShootNotFound\<rparr>, k)
      | (Inr (Some s), k) \<Rightarrow> (Inr (shoot_status_of s), k))"

definition RealRequestAdminKubeconfig ::
  "'k garden_api \<Rightarrow> (uuid \<Rightarrow> string) \<Rightarrow> uuid \<Rightarrow> int \<Rightarrow> 'k \<Rightarrow> (gerr + admin_kubeconfig) \<times> 'k" where
  "RealRequestAdminKubeconfig api us c expirationSeconds k =
     (case getShootByClusterID api us c k of
        (Inl e, k) \<Rightarrow> (Inl (errorf ''look up shoot'' e), k)
      | (Inr None, k) \<Rightarrow> (Inl (ErrNew (''shoot not found for cluster '' @ us c)), k)
      | (Inr (Some s), k) \<Rightarrow>
          (case api_AdminKubeconfig api s expirationSeconds k of
             (Inl e, k) \<Rightarrow> (Inl (errorf (''create admin kubeconfig request for shoot '' @ k_namespace s @ ''/'' @ k_name s) e), k)
           | (Inr a, k) \<Rightarrow> (Inr a, k)))"

definition real_ops ::
  "'k garden_api \<Rightarrow> provider_config \<Rightarrow> (uuid \<Rightarrow> string) \<Rightarrow> (string \<Rightarrow> uuid option) \<Rightarrow> 'k gardener_ops" where
  "real_ops api pc us up = \<lparr>EnsureProject = (\<lambda>now. RealEnsureProject api pc us),
     ApplyShoot = (\<lambda>now. RealApplyShoot api pc us),
     DeleteShootByClusterID = (\<lambda>now. RealDeleteShootByClusterID api pc us),
     ListShoots = (\<lambda>now. RealListShoots api up), GetShootStatus = (\<lambda>now. RealGetShootStatus api us),
     RequestAdminKubeconfig = (\<lambda>now. RealRequestAdminKubeconfig api us)\<rparr>"

section \<open>Lemmas: the node caps\<close>

text \<open>The 32-bit sum is the sum modulo \<open>2 ^ 32\<close>.\<close>

definition effective_total :: "node_pool list \<Rightarrow> int option \<Rightarrow> int" where
  "effective_total pools cap = (\<Sum>np\<leftarrow>pools. clampedNodePoolMaximum (AutoscaleMax np) cap)"

lemma sum_maxima_wrap: "wrap32 (sum_maxima pools cap acc) = wrap32 (acc + effective_total pools cap)"
proof (induction pools arbitrary: acc)
  case (Cons np nps)
  then show ?case
    by (simp add: effective_total_def wrap32_add add.assoc)
qed (simp add: effective_total_def)

lemma sum_maxima_in32: "in32 acc \<Longrightarrow> in32 (sum_maxima pools cap acc)"
  by (induction pools arbitrary: acc) auto

lemma sum_maxima_exact:
  assumes "in32 (effective_total pools cap)"
  shows "sum_maxima pools cap 0 = effective_total pools cap"
  using sum_maxima_wrap [of pools cap 0] assms sum_maxima_in32 [of 0 pools cap]
  by (simp add: wrap32_id in32_def)

lemma clamp_worker_maximum: "wk_maximum (clamp_worker c w) = min c (wk_maximum w)"
  by (auto simp: clamp_worker_def Let_def)

lemma clamp_worker_minimum: "wk_minimum (clamp_worker c w) = min (wk_minimum w) (min c (wk_maximum w))"
  by (auto simp: clamp_worker_def Let_def)

lemma clampWorkerMaxima_maximum:
  "map wk_maximum (clampWorkerMaxima ws cap) = map (\<lambda>w. clampedNodePoolMaximum (wk_maximum w) cap) ws"
  by (cases cap) (simp_all add: clampWorkerMaxima_def clampedNodePoolMaximum_def clamp_worker_maximum min_def)

lemma length_clampWorkerMaxima [simp]: "length (clampWorkerMaxima ws cap) = length ws"
  by (simp add: clampWorkerMaxima_def split: option.splits)

text \<open>The workers a successful build yields, before clamping.\<close>

definition unclamped :: "provider_config \<Rightarrow> cluster_to_sync \<Rightarrow> worker list" where
  "unclamped pc cs = (if cs_pools cs = [] then [default_worker pc] else map (pool_worker pc) (cs_pools cs))"

lemma buildWorkers_Inr:
  "buildWorkers pc cs = Inr ws \<longleftrightarrow> validateNodeLimits (cs_pools cs) (cs_limits cs) = None \<and>
     ws = clampWorkerMaxima (unclamped pc cs) (MaxNodesPerNodePool (cs_limits cs))"
  by (auto simp: buildWorkers_def unclamped_def split: option.splits)

lemma unclamped_counts:
  "effectiveWorkerCounts (cs_pools cs) cap =
     (int (length (unclamped pc cs)),
      if cs_pools cs = [] then (\<Sum>w\<leftarrow>unclamped pc cs. clampedNodePoolMaximum (wk_maximum w) cap)
      else sum_maxima (cs_pools cs) cap 0)"
  by (simp add: effectiveWorkerCounts_def unclamped_def default_worker_def)

lemma unclamped_total:
  "cs_pools cs \<noteq> [] \<Longrightarrow> (\<Sum>w\<leftarrow>unclamped pc cs. clampedNodePoolMaximum (wk_maximum w) cap) = effective_total (cs_pools cs) cap"
  by (simp add: unclamped_def effective_total_def pool_worker_def o_def)

section \<open>Properties of the node caps\<close>

text \<open>
  C11: the organization's node caps hold of every worker set the client builds. If the pools' effective
  maxima add up within 32 bits, a successful build keeps one worker per pool (one default worker for
  a cluster without pools), no more of them than \<open>max_node_pools_per_cluster\<close>; each worker's maximum is
  its pool's, lowered to \<open>max_nodes_per_node_pool\<close>; the maxima add up to at most
  \<open>max_nodes_per_cluster\<close>; and no minimum exceeds its maximum unless the pool itself asked for that.
\<close>

theorem buildWorkers_respects_caps:
  assumes build: "buildWorkers pc cs = Inr ws"
    and fits: "in32 (effective_total (cs_pools cs) (MaxNodesPerNodePool (cs_limits cs)))"
  shows "length ws = max 1 (length (cs_pools cs)) \<and>
    \<not> exceeds_cap (MaxNodePoolsPerCluster (cs_limits cs)) (int (length ws)) \<and>
    \<not> exceeds_cap (MaxNodesPerCluster (cs_limits cs)) (\<Sum>w\<leftarrow>ws. wk_maximum w) \<and>
    list_all (\<lambda>w. \<not> exceeds_cap (MaxNodesPerNodePool (cs_limits cs)) (wk_maximum w)) ws \<and>
    (cs_pools cs \<noteq> [] \<longrightarrow> map wk_maximum ws =
       map (\<lambda>np. clampedNodePoolMaximum (AutoscaleMax np) (MaxNodesPerNodePool (cs_limits cs))) (cs_pools cs)) \<and>
    (list_all (\<lambda>np. AutoscaleMin np \<le> AutoscaleMax np) (cs_pools cs) \<longrightarrow> list_all (\<lambda>w. wk_minimum w \<le> wk_maximum w) ws)"
proof -
  let ?cap = "MaxNodesPerNodePool (cs_limits cs)"
  have valid: "validateNodeLimits (cs_pools cs) (cs_limits cs) = None"
    and ws: "ws = clampWorkerMaxima (unclamped pc cs) ?cap"
    using build by (auto simp: buildWorkers_Inr)
  have sum: "(\<Sum>w\<leftarrow>ws. wk_maximum w) = snd (effectiveWorkerCounts (cs_pools cs) ?cap)"
    unfolding ws clampWorkerMaxima_maximum unclamped_counts [of cs ?cap pc]
    using unclamped_total [of cs ?cap pc] sum_maxima_exact [OF fits] by auto
  have len: "int (length ws) = fst (effectiveWorkerCounts (cs_pools cs) ?cap)"
    unfolding unclamped_counts [of cs ?cap pc] by (simp add: ws)
  have "\<not> exceeds_cap (MaxNodePoolsPerCluster (cs_limits cs)) (int (length ws))"
    "\<not> exceeds_cap (MaxNodesPerCluster (cs_limits cs)) (\<Sum>w\<leftarrow>ws. wk_maximum w)"
    using valid unfolding validateNodeLimits_def len sum by (auto split: prod.splits if_splits)
  moreover have "length ws = max 1 (length (cs_pools cs))"
    by (cases "cs_pools cs") (simp_all add: ws unclamped_def)
  moreover have "list_all (\<lambda>w. \<not> exceeds_cap ?cap (wk_maximum w)) ws"
    by (auto simp: ws clampWorkerMaxima_def exceeds_cap_def list_all_iff clamp_worker_maximum split: option.splits)
  moreover have "list_all (\<lambda>w. wk_minimum w \<le> wk_maximum w) ws"
    if "list_all (\<lambda>np. AutoscaleMin np \<le> AutoscaleMax np) (cs_pools cs)"
    using that
    by (auto simp: ws unclamped_def clampWorkerMaxima_def list_all_iff clamp_worker_maximum clamp_worker_minimum
        default_worker_def defaultWorkerMinimum_def defaultWorkerMaximum_def pool_worker_def split: option.splits)
  moreover have "cs_pools cs \<noteq> [] \<longrightarrow> map wk_maximum ws = map (\<lambda>np. clampedNodePoolMaximum (AutoscaleMax np) ?cap) (cs_pools cs)"
    by (simp add: ws clampWorkerMaxima_maximum unclamped_def pool_worker_def)
  ultimately show ?thesis by simp
qed

definition sample_pool :: "int \<Rightarrow> node_pool" where
  "sample_pool m = \<lparr>pool_name = ''pool'', pool_machine_type = ''n1'', AutoscaleMin = 1, AutoscaleMax = m, pool_zone = ''''\<rparr>"

definition sample_cluster :: "node_pool list \<Rightarrow> node_limits \<Rightarrow> cluster_to_sync" where
  "sample_cluster pools limits = \<lparr>cs_id = 7, cs_org = 3, cs_org_name = ''acme'', cs_name = ''prod'',
     cs_shoot_name = ''prodabc'', cs_namespace = ''garden-acme'', cs_region = ''eu'', cs_version = ''1.31.1'',
     cs_cloud_profile = '''', cs_cloud_profile_region = '''', cs_deleted = None, cs_pools = pools, cs_limits = limits\<rparr>"

lemmas sample_cluster_defs = sample_pool_def sample_cluster_def

theorem buildWorkers_respects_caps_witness:
  "\<exists>ws. buildWorkers NewProviderConfig (sample_cluster [sample_pool 9, sample_pool 2] \<lparr>MaxNodesPerCluster = Some 6,
      MaxNodePoolsPerCluster = Some 2, MaxNodesPerNodePool = Some 4\<rparr>) = Inr ws \<and>
    length ws = 2 \<and> (\<Sum>w\<leftarrow>ws. wk_maximum w) \<le> 6 \<and> map wk_maximum ws = [4, 2]"
proof -
  let ?cs = "sample_cluster [sample_pool 9, sample_pool 2] \<lparr>MaxNodesPerCluster = Some 6,
      MaxNodePoolsPerCluster = Some 2, MaxNodesPerNodePool = Some 4\<rparr>"
  note defs = sample_cluster_defs validateNodeLimits_def effectiveWorkerCounts_def clampedNodePoolMaximum_def
    exceeds_cap_def wrap32_def in32_def effective_total_def
  obtain ws where ws: "buildWorkers NewProviderConfig ?cs = Inr ws"
    by (simp add: buildWorkers_Inr defs)
  have "in32 (effective_total (cs_pools ?cs) (MaxNodesPerNodePool (cs_limits ?cs)))"
    by (simp add: defs)
  from buildWorkers_respects_caps [OF ws this] ws show ?thesis
    by (simp add: defs)
qed


section \<open>What the API server promises\<close>

text \<open>\<open>kshoots k (ns, n)\<close> is the Shoot of that name in the server's state. A selector lists exactly the
  Shoots whose labels match. A created or updated Shoot has the labels, the region and the workers of
  the request (admission may add labels and fill other fields); its deletion timestamp is the
  server's. A request that fails may have taken effect (a timeout). \<open>Create\<close> does not overwrite. A
  deleted Shoot disappears or keeps its labels and gets a deletion timestamp; \<open>NotFound\<close> means that it
  is not there. Requests on other resources leave the Shoots alone.\<close>

definition key_of :: "kshoot \<Rightarrow> string \<times> string" where
  "key_of s = (k_namespace s, k_name s)"

definition cid_label :: "kshoot \<Rightarrow> string option" where
  "cid_label s = map_of (k_labels s) LabelClusterID"

definition stored :: "kshoot \<Rightarrow> kshoot \<Rightarrow> bool" where
  "stored s t \<longleftrightarrow> map_of (k_labels s) \<subseteq>\<^sub>m map_of (k_labels t) \<and>
     sp_region (k_spec t) = sp_region (k_spec s) \<and> sp_workers (k_spec t) = sp_workers (k_spec s)"

locale garden_api =
  fixes api :: "'k garden_api"
    and kok :: "'k \<Rightarrow> bool"
    and kshoots :: "'k \<Rightarrow> string \<times> string \<Rightarrow> kshoot option"
  assumes names: "kok k \<Longrightarrow> kshoots k key = Some s \<Longrightarrow> key_of s = key"
    and ListShoots_law: "kok k \<Longrightarrow> api_ListShoots api sel k = (r, k') \<Longrightarrow> kok k' \<and> kshoots k' = kshoots k \<and>
       (\<forall>l. r = Inr l \<longrightarrow> set l = {s \<in> ran (kshoots k). selects sel (k_labels s)})"
    and CreateShoot_law: "kok k \<Longrightarrow> api_CreateShoot api s k = (e, k') \<Longrightarrow> kok k' \<and>
       (\<exists>x. kshoots k' = (kshoots k)(key_of s := x) \<and>
          (x = kshoots k (key_of s) \<or> kshoots k (key_of s) = None \<and> (\<exists>t. x = Some t \<and> stored s t)) \<and>
          (e = None \<longrightarrow> kshoots k (key_of s) = None \<and> (\<exists>t. x = Some t \<and> stored s t)))"
    and UpdateShoot_law: "kok k \<Longrightarrow> api_UpdateShoot api s k = (e, k') \<Longrightarrow> kok k' \<and>
       (\<exists>x. kshoots k' = (kshoots k)(key_of s := x) \<and>
          (x = kshoots k (key_of s) \<or>
            (\<exists>old t. kshoots k (key_of s) = Some old \<and> x = Some t \<and> stored s t \<and> k_deletion t = k_deletion old)) \<and>
          (e = None \<longrightarrow> (\<exists>old t. kshoots k (key_of s) = Some old \<and> x = Some t \<and> stored s t \<and> k_deletion t = k_deletion old)))"
    and DeleteShoot_law: "kok k \<Longrightarrow> api_DeleteShoot api s k = (e, k') \<Longrightarrow> kok k' \<and>
       (\<exists>x. kshoots k' = (kshoots k)(key_of s := x) \<and>
          (\<forall>t. x = Some t \<longrightarrow> (\<exists>old. kshoots k (key_of s) = Some old \<and> k_labels t = k_labels old \<and>
             (k_deletion old \<noteq> None \<longrightarrow> k_deletion t \<noteq> None) \<and> (e = None \<longrightarrow> k_deletion t \<noteq> None))) \<and>
          (\<forall>f. e = Some f \<and> is_not_found f \<longrightarrow> x = None))"
    and ListProjects_law: "kok k \<Longrightarrow> api_ListProjects api sel k = (p, k') \<Longrightarrow> kok k' \<and> kshoots k' = kshoots k"
    and CreateProject_law: "kok k \<Longrightarrow> api_CreateProject api pj k = (e, k') \<Longrightarrow> kok k' \<and> kshoots k' = kshoots k"
    and GetBinding_law: "kok k \<Longrightarrow> api_GetBinding api ns n k = (b, k') \<Longrightarrow> kok k' \<and> kshoots k' = kshoots k"
    and CreateBinding_law: "kok k \<Longrightarrow> api_CreateBinding api kb k = (e, k') \<Longrightarrow> kok k' \<and> kshoots k' = kshoots k"

text \<open>The view of the contract \<open>gardener\<close>. The invariant: no two Shoots carry the same cluster
  identifier, and an identifier that parses is in canonical form.\<close>

type_synonym 'k kview = "'k \<Rightarrow> string \<times> string \<Rightarrow> kshoot option"

definition real_live :: "(uuid \<Rightarrow> string) \<Rightarrow> 'k kview \<Rightarrow> 'k \<Rightarrow> uuid \<Rightarrow> bool" where
  "real_live us kv k c \<longleftrightarrow> (\<exists>key s. kv k key = Some s \<and> cid_label s = Some (us c))"

definition real_going :: "(uuid \<Rightarrow> string) \<Rightarrow> 'k kview \<Rightarrow> 'k \<Rightarrow> uuid \<Rightarrow> bool" where
  "real_going us kv k c \<longleftrightarrow> (\<exists>key s. kv k key = Some s \<and> cid_label s = Some (us c) \<and> k_deletion s \<noteq> None)"

definition real_reflects :: "provider_config \<Rightarrow> (uuid \<Rightarrow> string) \<Rightarrow> 'k kview \<Rightarrow> 'k \<Rightarrow> cluster_to_sync \<Rightarrow> bool" where
  "real_reflects pc us kv k cs \<longleftrightarrow> (\<exists>key s. kv k key = Some s \<and> cid_label s = Some (us (cs_id cs)) \<and>
     map_of (k_labels s) LabelOrganizationID = Some (us (cs_org cs)) \<and>
     sp_region (k_spec s) = region pc cs \<and> buildWorkers pc cs = Inr (sp_workers (k_spec s)))"

definition canonical :: "(uuid \<Rightarrow> string) \<Rightarrow> (string \<Rightarrow> uuid option) \<Rightarrow> kshoot \<Rightarrow> bool" where
  "canonical us up s \<longleftrightarrow> (\<forall>l c. cid_label s = Some l \<longrightarrow> up l = Some c \<longrightarrow> l = us c)"

definition real_ok ::
  "(uuid \<Rightarrow> string) \<Rightarrow> (string \<Rightarrow> uuid option) \<Rightarrow> ('k \<Rightarrow> bool) \<Rightarrow> 'k kview \<Rightarrow> 'k \<Rightarrow> bool" where
  "real_ok us up kok kv k \<longleftrightarrow> kok k \<and> uuid_text us up \<and> (\<forall>key s. kv k key = Some s \<longrightarrow> canonical us up s) \<and>
     (\<forall>key key' s s'. kv k key = Some s \<longrightarrow> kv k key' = Some s' \<longrightarrow> cid_label s \<noteq> None \<longrightarrow>
        cid_label s = cid_label s' \<longrightarrow> key = key')"

section \<open>Lemmas: one Shoot changes\<close>

lemma real_ok_same: "real_ok us up kok kv k \<Longrightarrow> kok k' \<Longrightarrow> kv k' = kv k \<Longrightarrow> real_ok us up kok kv k'"
  unfolding real_ok_def by metis

lemma real_view_same: "kv k' = kv k \<Longrightarrow> real_live us kv k' = real_live us kv k \<and> real_going us kv k' = real_going us kv k"
  by (simp add: real_live_def real_going_def fun_eq_iff)

lemma real_ok_upd:
  assumes "real_ok us up kok kv k" "kok k'" "kv k' = (kv k)(key := x)"
    "\<And>t. x = Some t \<Longrightarrow> canonical us up t"
    "\<And>t key' s. x = Some t \<Longrightarrow> kv k key' = Some s \<Longrightarrow> cid_label t \<noteq> None \<Longrightarrow> cid_label s = cid_label t \<Longrightarrow> key' = key"
  shows "real_ok us up kok kv k'"
  using assms(1,2,4,5) unfolding real_ok_def assms(3) fun_upd_apply by (metis option.distinct(1))

lemma real_view_upd:
  assumes "kv k' = (kv k)(key := x)" "\<And>s. kv k key = Some s \<Longrightarrow> cid_label s \<noteq> Some (us d)"
    "\<And>t. x = Some t \<Longrightarrow> cid_label t \<noteq> Some (us d)"
  shows "real_live us kv k' d = real_live us kv k d \<and> real_going us kv k' d = real_going us kv k d"
proof -
  have "(\<exists>key' s. ((kv k)(key := x)) key' = Some s \<and> cid_label s = Some (us d) \<and> P s) \<longleftrightarrow>
      (\<exists>key' s. kv k key' = Some s \<and> cid_label s = Some (us d) \<and> P s)" for P
    using assms(2,3) unfolding fun_upd_apply by metis
  from this [of "\<lambda>_. True"] this [of "\<lambda>s. k_deletion s \<noteq> None"] show ?thesis
    unfolding real_live_def real_going_def assms(1) by simp
qed

lemma real_going_at:
  assumes "real_ok us up kok kv k" "kv k key = Some s" "cid_label s = Some (us c)"
  shows "real_going us kv k c \<longleftrightarrow> k_deletion s \<noteq> None"
  using assms unfolding real_ok_def real_going_def by (metis option.distinct(1) option.inject)

lemma cid_label_stored: "stored s t \<Longrightarrow> cid_label s = Some l \<Longrightarrow> cid_label t = Some l"
  unfolding stored_def cid_label_def map_le_def by (metis domI)

lemma canonical_us: "uuid_text us up \<Longrightarrow> cid_label s = Some (us c) \<Longrightarrow> canonical us up s"
  unfolding canonical_def uuid_text_def by auto

lemma us_eq: "uuid_text us up \<Longrightarrow> us c = us d \<longleftrightarrow> c = d"
  unfolding uuid_text_def by (metis option.inject)

lemma updateShootSpec_Inr:
  assumes "updateShootSpec pc us s cs = Inr t"
  shows "key_of t = key_of s" "cid_label t = Some (us (cs_id cs))"
    "map_of (k_labels t) LabelOrganizationID = Some (us (cs_org cs))" "sp_region (k_spec t) = region pc cs"
    "buildWorkers pc cs = Inr (sp_workers (k_spec t))"
  using assms
  by (auto simp: updateShootSpec_def bind_sum_def key_of_def cid_label_def LabelClusterID_def LabelOrganizationID_def
      split: sum.splits)

lemma buildShootSpec_Inr:
  assumes "buildShootSpec pc us cs = Inr t"
  shows "key_of t = (cs_namespace cs, cs_shoot_name cs)" "cid_label t = Some (us (cs_id cs))"
    "map_of (k_labels t) LabelOrganizationID = Some (us (cs_org cs))" "sp_region (k_spec t) = region pc cs"
    "buildWorkers pc cs = Inr (sp_workers (k_spec t))"
  using assms
  by (auto simp: buildShootSpec_def bind_sum_def key_of_def cid_label_def real_labels_def LabelClusterID_def
      LabelOrganizationID_def split: sum.splits)

lemma stored_reflects:
  assumes "kv k key = Some t" "stored s t" "cid_label s = Some (us (cs_id cs))"
    "map_of (k_labels s) LabelOrganizationID = Some (us (cs_org cs))" "sp_region (k_spec s) = region pc cs"
    "buildWorkers pc cs = Inr (sp_workers (k_spec s))"
  shows "real_reflects pc us kv k cs \<and> real_live us kv k (cs_id cs)"
proof -
  have "cid_label t = Some (us (cs_id cs))" "map_of (k_labels t) LabelOrganizationID = Some (us (cs_org cs))"
      "sp_region (k_spec t) = region pc cs" "buildWorkers pc cs = Inr (sp_workers (k_spec t))"
    using assms cid_label_stored [OF assms(2,3)] by (auto simp: stored_def map_le_def dom_def)
  with assms(1) show ?thesis
    unfolding real_reflects_def real_live_def by blast
qed

lemma shoot_status_of_known: "known_status (st_status (shoot_status_of s)) \<and> \<not> not_found_status (shoot_status_of s)"
  by (auto simp: shoot_status_of_def known_status_def not_found_status_def status_defs Let_def
      split: option.splits last_op_state.splits)

section \<open>The Kubernetes-backed client satisfies the contract\<close>

context garden_api
begin

lemma getShoot_law:
  assumes "real_ok us up kok kshoots k" "getShootByClusterID api us c k = (r, k')"
  shows "real_ok us up kok kshoots k' \<and> kshoots k' = kshoots k \<and>
    (r = Inr None \<longrightarrow> \<not> real_live us kshoots k c) \<and>
    (\<forall>s. r = Inr (Some s) \<longrightarrow> kshoots k (key_of s) = Some s \<and> cid_label s = Some (us c))"
proof -
  obtain l k1 where l: "api_ListShoots api (MatchingLabels LabelClusterID (us c)) k = (l, k1)"
    by (cases "api_ListShoots api (MatchingLabels LabelClusterID (us c)) k")
  have kok: "kok k" using assms(1) by (simp add: real_ok_def)
  note L = ListShoots_law [OF kok l]
  have k': "k' = k1"
    using assms(2) l by (auto simp: getShootByClusterID_def split: sum.splits list.splits)
  have "kshoots k (key_of s) = Some s \<and> cid_label s = Some (us c)" if "l = Inr xs" "s \<in> set xs" for xs s
  proof -
    from that L have "s \<in> ran (kshoots k)" "cid_label s = Some (us c)"
      by (auto simp: cid_label_def)
    with names [OF kok] show ?thesis by (auto simp: ran_def)
  qed
  moreover have "\<not> real_live us kshoots k c" if "l = Inr []"
    using that L by (auto simp: real_live_def cid_label_def ran_def)
  ultimately show ?thesis
    using assms(2) l L k' real_ok_same [OF assms(1), of k1]
    by (auto simp: getShootByClusterID_def split: sum.splits list.splits)
qed

lemma ensureCredentialsBinding_frame:
  assumes "kok k" "ensureCredentialsBinding api pc ns k = (e, k')"
  shows "kok k' \<and> kshoots k' = kshoots k"
proof -
  let ?n = "if pc_credentials_binding pc = '''' then ''local'' else pc_credentials_binding pc"
  obtain b k1 where 1: "api_GetBinding api ns ?n k = (b, k1)" by fastforce
  note f1 = GetBinding_law [OF assms(1) 1]
  have "k' = k \<or> k' = k1 \<or> (\<exists>kb x. api_CreateBinding api kb k1 = (x, k'))"
    using assms(2) 1 by (auto simp: ensureCredentialsBinding_def split: if_splits prod.splits sum.splits option.splits)
  with assms(1) f1 show ?thesis
    using CreateBinding_law [OF conjunct1 [OF f1]] by metis
qed

lemma getProject_frame:
  assumes "kok k" "getProjectNamespaceByOrgID api pc us org k = (r, k')"
  shows "kok k' \<and> kshoots k' = kshoots k"
proof -
  obtain b k1 where 1: "api_ListProjects api (MatchingLabels LabelOrganizationID (us org)) k = (b, k1)" by fastforce
  note f1 = ListProjects_law [OF assms(1) 1]
  have "k' = k1 \<or> (\<exists>ns x. ensureCredentialsBinding api pc ns k1 = (x, k'))"
    using assms(2) 1
    by (auto simp: getProjectNamespaceByOrgID_def Let_def split: if_splits prod.splits sum.splits option.splits list.splits)
  with f1 show ?thesis
    using ensureCredentialsBinding_frame [OF conjunct1 [OF f1]] by metis
qed

lemma EnsureProject_frame:
  assumes "kok k" "RealEnsureProject api pc us p org k = (r, k')"
  shows "kok k' \<and> kshoots k' = kshoots k"
proof -
  obtain r1 k1 where 1: "getProjectNamespaceByOrgID api pc us org k = (r1, k1)" by fastforce
  note f1 = getProject_frame [OF assms(1) 1]
  obtain e k2 where 2: "api_CreateProject api \<lparr>pj_name = p, pj_labels = [(LabelOrganizationID, us org)],
      pj_description = Some ''Fundament managed clusters'', pj_namespace = None\<rparr> k1 = (e, k2)" by fastforce
  note f2 = CreateProject_law [OF conjunct1 [OF f1] 2]
  obtain r3 k3 where 3: "getProjectNamespaceByOrgID api pc us org k2 = (r3, k3)" by fastforce
  note f3 = getProject_frame [OF conjunct1 [OF f2] 3]
  from assms(2) 1 2 3 have "k' = k1 \<or> k' = k2 \<or> k' = k3"
    by (auto simp: RealEnsureProject_def split: sum.splits option.splits if_splits)
  with f1 f2 f3 show ?thesis by auto
qed

text \<open>A request that stores a Shoot for cluster \<open>c\<close>, under a key that is free or holds the Shoot of
  \<open>c\<close>, changes nothing for the other clusters.\<close>

lemma store_law:
  assumes ok: "real_ok us up kok kshoots k" and k': "kok k'" "kshoots k' = (kshoots k)(key := x)"
    and x: "x = kshoots k key \<or> (\<exists>t. x = Some t \<and> cid_label t = Some (us c))"
    and old: "\<And>s. x \<noteq> kshoots k key \<Longrightarrow> kshoots k key = Some s \<Longrightarrow> cid_label s = Some (us c)"
    and one: "\<And>key' s. kshoots k key' = Some s \<Longrightarrow> cid_label s = Some (us c) \<Longrightarrow> key' = key"
  shows "real_ok us up kok kshoots k' \<and>
    (\<forall>d. d \<noteq> c \<longrightarrow> real_live us kshoots k' d = real_live us kshoots k d \<and> real_going us kshoots k' d = real_going us kshoots k d)"
proof (cases "x = kshoots k key")
  case True
  with k' have "kshoots k' = kshoots k" by simp
  with real_ok_same [where kv = kshoots, OF ok k'(1)] real_view_same [of kshoots k' k us] show ?thesis by simp
next
  case False
  with x obtain t where t: "x = Some t" "cid_label t = Some (us c)" by blast
  have ut: "uuid_text us up" using ok by (simp add: real_ok_def)
  have "real_ok us up kok kshoots k'"
    by (rule real_ok_upd [where kv = kshoots, OF ok k']) (use t one canonical_us [OF ut] in auto)
  moreover have "real_live us kshoots k' d = real_live us kshoots k d \<and> real_going us kshoots k' d = real_going us kshoots k d"
    if "d \<noteq> c" for d
    by (rule real_view_upd [OF k'(2)]) (use t old [OF False] us_eq [OF ut] that in auto)
  ultimately show ?thesis by blast
qed

lemma ApplyShoot_ok:
  assumes ok: "real_ok us up kok kshoots k" and eq: "RealApplyShoot api pc us cs k = (e, k')"
  shows "real_ok us up kok kshoots k' \<and>
    (\<forall>d. d \<noteq> cs_id cs \<longrightarrow> real_live us kshoots k' d = real_live us kshoots k d \<and> real_going us kshoots k' d = real_going us kshoots k d) \<and>
    (e = None \<longrightarrow> real_live us kshoots k' (cs_id cs) \<and> real_reflects pc us kshoots k' cs \<and>
       validateNodeLimits (cs_pools cs) (cs_limits cs) = None)"
proof -
  obtain r k1 where g: "getShootByClusterID api us (cs_id cs) k = (r, k1)" by fastforce
  note G = getShoot_law [OF ok g]
  have kok1: "kok k1" and same: "kshoots k1 = kshoots k" and ok1: "real_ok us up kok kshoots k1"
    using G by (auto simp: real_ok_def)
  have uniq: "key = key'" if "kshoots k1 key = Some s" "kshoots k1 key' = Some s'" "cid_label s = Some (us (cs_id cs))"
    "cid_label s' = Some (us (cs_id cs))" for key key' s s'
    using ok1 that unfolding real_ok_def by (metis option.distinct(1))
  have view1: "real_live us kshoots k1 = real_live us kshoots k \<and> real_going us kshoots k1 = real_going us kshoots k"
    by (rule real_view_same [OF same])
  consider (err) "e \<noteq> None" "k' = k \<or> k' = k1"
    | (upd) old s where "r = Inr (Some old)" "updateShootSpec pc us old cs = Inr s"
        "\<exists>e'. api_UpdateShoot api s k1 = (e', k') \<and> (e = None \<longleftrightarrow> e' = None)"
    | (new) s where "r = Inr None" "buildShootSpec pc us cs = Inr s"
        "\<exists>e'. api_CreateShoot api s k1 = (e', k') \<and> (e = None \<longleftrightarrow> e' = None)"
    using eq g by (auto simp: RealApplyShoot_def split: if_splits sum.splits option.splits prod.splits)
  then show ?thesis
  proof cases
    case err
    then show ?thesis using ok ok1 view1 by auto
  next
    case upd
    then obtain e' where u: "api_UpdateShoot api s k1 = (e', k')" "e = None \<longleftrightarrow> e' = None" by blast
    note S = updateShootSpec_Inr [OF upd(2)]
    have old: "kshoots k1 (key_of s) = Some old" "cid_label old = Some (us (cs_id cs))"
      using G upd(1) same S(1) by auto
    from UpdateShoot_law [OF kok1 u(1)] obtain x where x: "kok k'" "kshoots k' = (kshoots k1)(key_of s := x)"
        "x = kshoots k1 (key_of s) \<or> (\<exists>t. x = Some t \<and> stored s t)" "e' = None \<longrightarrow> (\<exists>t. x = Some t \<and> stored s t)"
      by blast
    have x': "x = kshoots k1 (key_of s) \<or> (\<exists>t. x = Some t \<and> cid_label t = Some (us (cs_id cs)))"
      using x(3) cid_label_stored [OF _ S(2)] by blast
    have "real_reflects pc us kshoots k' cs \<and> real_live us kshoots k' (cs_id cs)" if "e = None"
    proof -
      from that x(4) u(2) obtain t where t: "x = Some t" "stored s t" by blast
      then have "kshoots k' (key_of s) = Some t" using x(2) by simp
      then show ?thesis by (rule stored_reflects [OF _ t(2) S(2-5)])
    qed
    moreover have "real_ok us up kok kshoots k' \<and> (\<forall>d. d \<noteq> cs_id cs \<longrightarrow> real_live us kshoots k' d = real_live us kshoots k1 d \<and>
        real_going us kshoots k' d = real_going us kshoots k1 d)"
      using old by (intro store_law [OF ok1 x(1,2) x']) (auto intro: uniq)
    ultimately show ?thesis
      using view1 S(5) by (auto simp: buildWorkers_Inr)
  next
    case new
    then obtain e' where u: "api_CreateShoot api s k1 = (e', k')" "e = None \<longleftrightarrow> e' = None" by blast
    note S = buildShootSpec_Inr [OF new(2)]
    have none: "cid_label t \<noteq> Some (us (cs_id cs))" if "kshoots k1 key = Some t" for key t
      using G new(1) same that unfolding real_live_def by metis
    from CreateShoot_law [OF kok1 u(1)] obtain x where x: "kok k'" "kshoots k' = (kshoots k1)(key_of s := x)"
        "x = kshoots k1 (key_of s) \<or> kshoots k1 (key_of s) = None \<and> (\<exists>t. x = Some t \<and> stored s t)"
        "e' = None \<longrightarrow> (\<exists>t. x = Some t \<and> stored s t)"
      by blast
    have x': "x = kshoots k1 (key_of s) \<or> (\<exists>t. x = Some t \<and> cid_label t = Some (us (cs_id cs)))"
      using x(3) cid_label_stored [OF _ S(2)] by blast
    have "real_reflects pc us kshoots k' cs \<and> real_live us kshoots k' (cs_id cs)" if "e = None"
    proof -
      from that x(4) u(2) obtain t where t: "x = Some t" "stored s t" by blast
      then have "kshoots k' (key_of s) = Some t" using x(2) by simp
      then show ?thesis by (rule stored_reflects [OF _ t(2) S(2-5)])
    qed
    moreover have "real_ok us up kok kshoots k' \<and> (\<forall>d. d \<noteq> cs_id cs \<longrightarrow> real_live us kshoots k' d = real_live us kshoots k1 d \<and>
        real_going us kshoots k' d = real_going us kshoots k1 d)"
      by (intro store_law [OF ok1 x(1,2) x']) (use x(3) none in auto)
    ultimately show ?thesis
      using view1 S(5) by (auto simp: buildWorkers_Inr)
  qed
qed

lemma uniq_label:
  assumes "real_ok us up kok kshoots k" "kshoots k key = Some s" "cid_label s = Some (us c)"
    "kshoots k key' = Some s'" "cid_label s' = Some (us c)"
  shows "key' = key"
  using assms unfolding real_ok_def by (metis option.distinct(1))

text \<open>Removing the Shoot of a cluster, or keeping its labels.\<close>

lemma delete_step:
  assumes ok: "real_ok us up kok kshoots k" and old: "kshoots k key = Some old" "cid_label old = Some (us c)"
    and k': "kok k'" "kshoots k' = (kshoots k)(key := x)"
    and x: "\<And>t. x = Some t \<Longrightarrow> k_labels t = k_labels old \<and> (k_deletion old \<noteq> None \<longrightarrow> k_deletion t \<noteq> None)"
  shows "real_ok us up kok kshoots k' \<and>
    (\<forall>d. d \<noteq> c \<longrightarrow> real_live us kshoots k' d = real_live us kshoots k d \<and> real_going us kshoots k' d = real_going us kshoots k d) \<and>
    real_live us kshoots k c \<and> (real_live us kshoots k' c \<longleftrightarrow> x \<noteq> None) \<and>
    (real_live us kshoots k' c \<longrightarrow> real_going us kshoots k c \<longrightarrow> real_going us kshoots k' c) \<and>
    (real_live us kshoots k' c \<longrightarrow> real_going us kshoots k' c = (k_deletion (the x) \<noteq> None))"
proof -
  have ut: "uuid_text us up" using ok by (simp add: real_ok_def)
  have lab: "cid_label t = Some (us c)" if "x = Some t" for t
    using x [OF that] old(2) by (simp add: cid_label_def)
  have uniq: "key' = key" if "kshoots k key' = Some s" "cid_label s = Some (us c)" for key' s
    by (rule uniq_label [OF ok old that])
  have ok': "real_ok us up kok kshoots k'"
    by (rule real_ok_upd [where kv = kshoots, OF ok k']) (use lab uniq canonical_us [OF ut] in auto)
  have frame: "real_live us kshoots k' d = real_live us kshoots k d \<and> real_going us kshoots k' d = real_going us kshoots k d"
    if "d \<noteq> c" for d
    by (rule real_view_upd [OF k'(2)]) (use lab old us_eq [OF ut] that in auto)
  have live: "real_live us kshoots k c" "real_live us kshoots k' c \<longleftrightarrow> x \<noteq> None"
    using old lab uniq unfolding real_live_def k'(2) fun_upd_apply by (metis, metis not_Some_eq)
  have going: "real_going us kshoots k' c = (k_deletion t \<noteq> None)" if "x = Some t" for t
    by (rule real_going_at [where kv = kshoots, OF ok']) (use that lab k'(2) in auto)
  have "real_going us kshoots k c = (k_deletion old \<noteq> None)"
    by (rule real_going_at [where kv = kshoots, OF ok old])
  with ok' frame live going x show ?thesis by (cases x) auto
qed

lemma DeleteShoot_ok:
  assumes ok: "real_ok us up kok kshoots k" and eq: "RealDeleteShootByClusterID api pc us c k = (e, k')"
  shows "real_ok us up kok kshoots k' \<and>
    (\<forall>d. d \<noteq> c \<longrightarrow> real_live us kshoots k' d = real_live us kshoots k d \<and> real_going us kshoots k' d = real_going us kshoots k d) \<and>
    (real_live us kshoots k' c \<longrightarrow> real_live us kshoots k c \<and> (real_going us kshoots k c \<longrightarrow> real_going us kshoots k' c)) \<and>
    (e = None \<longrightarrow> real_live us kshoots k' c \<longrightarrow> real_going us kshoots k' c)"
proof -
  obtain r k1 where g: "getShootByClusterID api us c k = (r, k1)" by fastforce
  note G = getShoot_law [OF ok g]
  have same: "kshoots k1 = kshoots k" and ok1: "real_ok us up kok kshoots k1" and kok1: "kok k1"
    using G by (auto simp: real_ok_def)
  have view1: "real_live us kshoots k1 = real_live us kshoots k \<and> real_going us kshoots k1 = real_going us kshoots k"
    by (rule real_view_same [OF same])
  show ?thesis
  proof (cases "\<exists>s0. r = Inr (Some s0)")
    case False
    then have "k' = k1" "e = None \<longrightarrow> r = Inr None"
      using eq g by (auto simp: RealDeleteShootByClusterID_def split: sum.splits option.splits)
    with G ok1 view1 show ?thesis by auto
  next
    case True
    then obtain s0 where r: "r = Inr (Some s0)" by blast
    with G same have s0: "kshoots k1 (key_of s0) = Some s0" "cid_label s0 = Some (us c)" by auto
    let ?s = "confirm_deletion pc s0"
    have s: "key_of ?s = key_of s0" "k_labels ?s = k_labels s0"
      by (simp_all add: key_of_def confirm_deletion_def)
    obtain e2 k2 where u: "api_UpdateShoot api ?s k1 = (e2, k2)" by fastforce
    from UpdateShoot_law [OF kok1 u] s0(1) s(1) obtain t where k2: "kok k2" "kshoots k2 = (kshoots k1)(key_of s0 := Some t)"
        and t: "t = s0 \<or> stored ?s t \<and> k_deletion t = k_deletion s0" by auto
    have lab: "cid_label t = Some (us c)"
      using t s0(2) s(2) cid_label_stored [of ?s t] by (auto simp: cid_label_def)
    have del: "k_deletion t = k_deletion s0" using t by auto
    have st: "real_ok us up kok kshoots k2 \<and> (\<forall>d. d \<noteq> c \<longrightarrow> real_live us kshoots k2 d = real_live us kshoots k1 d \<and>
        real_going us kshoots k2 d = real_going us kshoots k1 d)"
    proof (rule store_law [OF ok1 k2])
      show "key' = key_of s0" if "kshoots k1 key' = Some s" "cid_label s = Some (us c)" for key' s
        by (rule uniq_label [OF ok1 s0 that])
    qed (use lab s0 in simp_all)
    have at2: "kshoots k2 (key_of s0) = Some t" using k2(2) by simp
    have going2: "real_going us kshoots k2 c = real_going us kshoots k1 c"
      using real_going_at [where kv = kshoots, OF conjunct1 [OF st] at2 lab]
        real_going_at [where kv = kshoots, OF ok1 s0] del by simp
    have live1: "real_live us kshoots k1 c"
      unfolding real_live_def using s0 by blast
    show ?thesis
    proof (cases e2)
      case (Some f)
      with eq g r u have "k' = k2" "e \<noteq> None" by (auto simp: RealDeleteShootByClusterID_def deleteShoot_def)
      with st going2 live1 view1 show ?thesis by auto
    next
      case None
      obtain e3 k3 where dl: "api_DeleteShoot api ?s k2 = (e3, k3)" by fastforce
      from DeleteShoot_law [OF k2(1) dl] at2 s(1) obtain x where x: "kok k3" "kshoots k3 = (kshoots k2)(key_of s0 := x)"
          "\<forall>y. x = Some y \<longrightarrow> k_labels y = k_labels t \<and> (k_deletion t \<noteq> None \<longrightarrow> k_deletion y \<noteq> None) \<and>
             (e3 = None \<longrightarrow> k_deletion y \<noteq> None)" "\<forall>f. e3 = Some f \<and> is_not_found f \<longrightarrow> x = None" by auto
      have k': "k' = k3" "e = None \<longrightarrow> e3 = None \<or> x = None"
        using eq g r u None dl x(4) by (auto simp: RealDeleteShootByClusterID_def deleteShoot_def split: option.splits if_splits)
      have "real_ok us up kok kshoots k3 \<and>
        (\<forall>d. d \<noteq> c \<longrightarrow> real_live us kshoots k3 d = real_live us kshoots k2 d \<and> real_going us kshoots k3 d = real_going us kshoots k2 d) \<and>
        real_live us kshoots k2 c \<and> (real_live us kshoots k3 c \<longleftrightarrow> x \<noteq> None) \<and>
        (real_live us kshoots k3 c \<longrightarrow> real_going us kshoots k2 c \<longrightarrow> real_going us kshoots k3 c) \<and>
        (real_live us kshoots k3 c \<longrightarrow> real_going us kshoots k3 c = (k_deletion (the x) \<noteq> None))"
        by (rule delete_step [OF conjunct1 [OF st] at2 lab x(1,2)]) (use x(3) in auto)
      with st going2 live1 view1 k' x(3) show ?thesis by auto
    qed
  qed
qed

lemma ListShoots_ok:
  assumes ok: "real_ok us up kok kshoots k" and eq: "RealListShoots api up k = (r, k')"
  shows "real_ok us up kok kshoots k' \<and> kshoots k' = kshoots k \<and>
    (\<forall>is. r = Inr is \<longrightarrow> {d. real_live us kshoots k' d} =
      {d. \<exists>i\<in>set is. \<exists>t. map_of (si_labels i) LabelClusterID = Some t \<and> up t = Some d})"
proof -
  obtain l k1 where l: "api_ListShoots api (HasLabels LabelClusterID) k = (l, k1)" by fastforce
  have kok: "kok k" and ut: "uuid_text us up" using ok by (auto simp: real_ok_def)
  note L = ListShoots_law [OF kok l]
  have k': "k' = k1" "r = (case l of Inl e \<Rightarrow> Inl (errorf ''failed to list shoots'' e) | Inr ss \<Rightarrow> Inr (List.map_filter (shoot_info_of up) ss))"
    using eq l by (auto simp: RealListShoots_def split: sum.splits)
  have can: "cid_label s = Some t \<and> up t = Some d \<longleftrightarrow> t = us d \<and> cid_label s = Some (us d)" if "kshoots k key = Some s" for key s t d
    using ok that ut unfolding real_ok_def canonical_def uuid_text_def by metis
  have "real_live us kshoots k d \<longleftrightarrow>
      (\<exists>i\<in>set (List.map_filter (shoot_info_of up) ss). \<exists>t. map_of (si_labels i) LabelClusterID = Some t \<and> up t = Some d)"
    if "l = Inr ss" for ss d
  proof -
    have set: "set ss = {s \<in> ran (kshoots k). cid_label s \<noteq> None}"
      using L that by (simp add: cid_label_def)
    have "(\<exists>i\<in>set (List.map_filter (shoot_info_of up) ss). \<exists>t. map_of (si_labels i) LabelClusterID = Some t \<and> up t = Some d) \<longleftrightarrow>
        (\<exists>s\<in>set ss. \<exists>t. cid_label s = Some t \<and> up t = Some d)"
      by (fastforce simp: List.map_filter_def shoot_info_of_def cid_label_def sget_def)
    also have "\<dots> \<longleftrightarrow> (\<exists>s\<in>set ss. cid_label s = Some (us d))"
      unfolding set ran_def using can by blast
    finally show ?thesis
      unfolding real_live_def set ran_def by auto
  qed
  moreover have "real_live us kshoots k' = real_live us kshoots k"
    using L real_view_same [of kshoots k' k us] k'(1) by simp
  ultimately show ?thesis
    using L k' real_ok_same [where kv = kshoots, OF ok, of k1] by (auto split: sum.splits)
qed

lemma GetShootStatus_ok:
  assumes "real_ok us up kok kshoots k" "RealGetShootStatus api us cs k = (r, k')"
  shows "real_ok us up kok kshoots k' \<and> kshoots k' = kshoots k \<and>
    (\<forall>st. r = Inr st \<longrightarrow> known_status (st_status st) \<and> (not_found_status st \<longrightarrow> \<not> real_live us kshoots k' (cs_id cs)))"
proof -
  obtain a k1 where g: "getShootByClusterID api us (cs_id cs) k = (a, k1)" by fastforce
  note G = getShoot_law [OF assms(1) g]
  have k': "k' = k1"
    using assms(2) g by (auto simp: RealGetShootStatus_def split: sum.splits option.splits)
  have live: "real_live us kshoots k' = real_live us kshoots k"
    using G k' real_view_same [of kshoots k' k us] by simp
  have "known_status (st_status st) \<and> (not_found_status st \<longrightarrow> a = Inr None)" if "r = Inr st" for st
    using assms(2) g that shoot_status_of_known
    by (auto simp: RealGetShootStatus_def known_status_def split: sum.splits option.splits)
  with G k' live show ?thesis by auto
qed

end

sublocale garden_api \<subseteq> real: gardener "real_ops api pc us up" up "real_ok us up kok kshoots" "real_live us kshoots"
    "real_going us kshoots" "real_reflects pc us kshoots"
  for pc us up
proof unfold_locales
  fix g now p org n g'
  assume ok: "real_ok us up kok kshoots g" and "EnsureProject (real_ops api pc us up) now p org g = (n, g')"
  then have "RealEnsureProject api pc us p org g = (n, g')" "kok g" by (auto simp: real_ops_def real_ok_def)
  from EnsureProject_frame [OF this(2,1)]
  show "real_ok us up kok kshoots g' \<and> real_live us kshoots g' = real_live us kshoots g \<and> real_going us kshoots g' = real_going us kshoots g"
    using real_ok_same [where kv = kshoots, OF ok, of g'] real_view_same [of kshoots g' g us] by simp
next
  fix g now cs e g'
  assume ok: "real_ok us up kok kshoots g" and "ApplyShoot (real_ops api pc us up) now cs g = (e, g')"
  then have "RealApplyShoot api pc us cs g = (e, g')" by (simp add: real_ops_def)
  from ApplyShoot_ok [OF ok this]
  show "real_ok us up kok kshoots g' \<and>
      (\<forall>d. d \<noteq> cs_id cs \<longrightarrow> real_live us kshoots g' d \<longrightarrow> real_live us kshoots g d \<and> real_going us kshoots g' d = real_going us kshoots g d) \<and>
      (e = None \<longrightarrow> real_live us kshoots g' (cs_id cs) \<and> real_reflects pc us kshoots g' cs \<and> validateNodeLimits (cs_pools cs) (cs_limits cs) = None)" by blast
next
  fix g now c e g'
  assume ok: "real_ok us up kok kshoots g" and "DeleteShootByClusterID (real_ops api pc us up) now c g = (e, g')"
  then have "RealDeleteShootByClusterID api pc us c g = (e, g')" by (simp add: real_ops_def)
  from DeleteShoot_ok [OF ok this]
  show "real_ok us up kok kshoots g' \<and>
      (\<forall>d. d \<noteq> c \<longrightarrow> real_live us kshoots g' d = real_live us kshoots g d \<and> real_going us kshoots g' d = real_going us kshoots g d) \<and>
      (real_live us kshoots g' c \<longrightarrow> real_live us kshoots g c \<and> (real_going us kshoots g c \<longrightarrow> real_going us kshoots g' c)) \<and>
      (e = None \<longrightarrow> real_live us kshoots g' c \<longrightarrow> real_going us kshoots g' c)" .
next
  fix g now l g'
  assume ok: "real_ok us up kok kshoots g" and "ListShoots (real_ops api pc us up) now g = (l, g')"
  then have "RealListShoots api up g = (l, g')" by (simp add: real_ops_def)
  from ListShoots_ok [OF ok this] real_view_same [of kshoots g' g us]
  show "real_ok us up kok kshoots g' \<and>
      (\<forall>d. if real_live us kshoots g' d then real_live us kshoots g d \<and> real_going us kshoots g' d = real_going us kshoots g d
           else real_live us kshoots g d \<longrightarrow> real_going us kshoots g d) \<and>
      (\<forall>is. l = Inr is \<longrightarrow> {d. real_live us kshoots g' d} =
        {d. \<exists>i\<in>set is. \<exists>t. map_of (si_labels i) LabelClusterID = Some t \<and> up t = Some d})" by simp
next
  fix g now cs r g'
  assume ok: "real_ok us up kok kshoots g" and "GetShootStatus (real_ops api pc us up) now cs g = (r, g')"
  then have "RealGetShootStatus api us cs g = (r, g')" by (simp add: real_ops_def)
  from GetShootStatus_ok [OF ok this] real_view_same [of kshoots g' g us]
  show "real_ok us up kok kshoots g' \<and>
      (\<forall>d. if real_live us kshoots g' d then real_live us kshoots g d \<and> real_going us kshoots g' d = real_going us kshoots g d
           else real_live us kshoots g d \<longrightarrow> real_going us kshoots g d) \<and>
      (\<forall>st. r = Inr st \<longrightarrow> known_status (st_status st) \<and> (not_found_status st \<longrightarrow> \<not> real_live us kshoots g' (cs_id cs)))"
    by simp
qed

section \<open>An API server that keeps the promises\<close>

text \<open>A server that stores what it is sent and deletes at once: the promises of \<open>garden_api\<close> can be
  kept.\<close>

record kstore =
  ks_shoots :: "((string \<times> string) \<times> kshoot) list"
  ks_projects :: "kproject list"
  ks_bindings :: "kbinding list"

definition mem_api :: "kstore garden_api" where
  "mem_api = \<lparr>
     api_ListShoots = (\<lambda>sel k. (Inr (filter (\<lambda>s. selects sel (k_labels s)) (map snd (ks_shoots k))), k)),
     api_CreateShoot = (\<lambda>s k. case map_of (ks_shoots k) (key_of s) of
         Some _ \<Rightarrow> (Some (AlreadyExists ''shoot exists''), k)
       | None \<Rightarrow> (None, k\<lparr>ks_shoots := AList.update (key_of s) (s\<lparr>k_deletion := None\<rparr>) (ks_shoots k)\<rparr>)),
     api_UpdateShoot = (\<lambda>s k. case map_of (ks_shoots k) (key_of s) of
         None \<Rightarrow> (Some (NotFound ''no shoot''), k)
       | Some old \<Rightarrow> (None, k\<lparr>ks_shoots := AList.update (key_of s) (s\<lparr>k_deletion := k_deletion old\<rparr>) (ks_shoots k)\<rparr>)),
     api_DeleteShoot = (\<lambda>s k. case map_of (ks_shoots k) (key_of s) of
         None \<Rightarrow> (Some (NotFound ''no shoot''), k)
       | Some _ \<Rightarrow> (None, k\<lparr>ks_shoots := AList.delete (key_of s) (ks_shoots k)\<rparr>)),
     api_ListProjects = (\<lambda>sel k. (Inr (filter (\<lambda>p. selects sel (pj_labels p)) (ks_projects k)), k)),
     api_CreateProject = (\<lambda>p k. if list_ex (\<lambda>q. pj_name q = pj_name p) (ks_projects k)
       then (Some (AlreadyExists ''project exists''), k)
       else (None, k\<lparr>ks_projects := ks_projects k @ [p\<lparr>pj_namespace := Some (''garden-'' @ pj_name p)\<rparr>]\<rparr>)),
     api_GetBinding = (\<lambda>ns n k. case find (\<lambda>b. kb_namespace b = ns \<and> kb_name b = n) (ks_bindings k) of
         None \<Rightarrow> (Inl (NotFound ''no binding''), k)
       | Some b \<Rightarrow> (Inr b, k)),
     api_CreateBinding = (\<lambda>b k. (None, k\<lparr>ks_bindings := b # ks_bindings k\<rparr>)),
     api_AdminKubeconfig = (\<lambda>s n k. (Inr \<lparr>ak_kubeconfig = k_name s, ak_expires_at = n\<rparr>, k))\<rparr>"

definition mem_ok :: "kstore \<Rightarrow> bool" where
  "mem_ok k \<longleftrightarrow> distinct (map fst (ks_shoots k)) \<and> list_all (\<lambda>(key, s). key_of s = key) (ks_shoots k)"

definition mem_shoots :: "kstore \<Rightarrow> string \<times> string \<Rightarrow> kshoot option" where
  "mem_shoots k = map_of (ks_shoots k)"

lemma key_of_deletion [simp]: "key_of (s\<lparr>k_deletion := d\<rparr>) = key_of s"
  by (simp add: key_of_def)

lemma mem_ok_update: "mem_ok k \<Longrightarrow> key_of s = key \<Longrightarrow> mem_ok (k\<lparr>ks_shoots := AList.update key s (ks_shoots k)\<rparr>)"
  using set_AList_update [of key s "ks_shoots k"] by (auto simp: mem_ok_def list_all_iff distinct_update)

lemma mem_ok_delete: "mem_ok k \<Longrightarrow> mem_ok (k\<lparr>ks_shoots := AList.delete key (ks_shoots k)\<rparr>)"
  using set_AList_delete [of key "ks_shoots k"] by (auto simp: mem_ok_def list_all_iff distinct_delete)

lemma mem_ok_frame: "mem_ok (k\<lparr>ks_projects := ps\<rparr>) = mem_ok k" "mem_ok (k\<lparr>ks_bindings := bs\<rparr>) = mem_ok k"
  by (simp_all add: mem_ok_def)

interpretation mem: garden_api mem_api mem_ok mem_shoots
proof unfold_locales
  show "key_of s = key" if "mem_ok k" "mem_shoots k key = Some s" for k key s
    using that by (auto simp: mem_ok_def mem_shoots_def list_all_iff dest!: map_of_SomeD)
next
  fix k sel r k' assume k: "mem_ok k" and eq: "api_ListShoots mem_api sel k = (r, k')"
  have "ran (map_of (ks_shoots k)) = snd ` set (ks_shoots k)"
    using k by (simp add: mem_ok_def ran_distinct)
  with k eq show "mem_ok k' \<and> mem_shoots k' = mem_shoots k \<and>
      (\<forall>l. r = Inr l \<longrightarrow> set l = {s \<in> ran (mem_shoots k). selects sel (k_labels s)})"
    by (auto simp: mem_api_def mem_shoots_def) force
qed (auto simp: mem_api_def mem_shoots_def stored_def mem_ok_update mem_ok_delete mem_ok_frame
    split: option.splits if_splits)

section \<open>Properties of the Kubernetes-backed client\<close>


definition empty_store :: kstore where
  "empty_store = \<lparr>ks_shoots = [], ks_projects = [], ks_bindings = []\<rparr>"

lemma empty_store_ok: "real_ok dec_us dec_up mem_ok mem_shoots empty_store"
  by (simp add: real_ok_def dec_text mem_ok_def mem_shoots_def empty_store_def)

definition no_limits :: node_limits where
  "no_limits = \<lparr>MaxNodesPerCluster = None, MaxNodePoolsPerCluster = None, MaxNodesPerNodePool = None\<rparr>"


lemma split_slash_join:
  "split_slash acc s = [ns, n] \<longleftrightarrow> (\<exists>t. ns = rev acc @ t \<and> s = t @ CHR ''/'' # n \<and> CHR ''/'' \<notin> set t \<and> CHR ''/'' \<notin> set n)"
proof -
  have one: "split_slash acc s = [n] \<longleftrightarrow> n = rev acc @ s \<and> CHR ''/'' \<notin> set s" for acc s n
  proof (induction s arbitrary: acc)
    case (Cons c s)
    have "split_slash acc' s \<noteq> []" for acc' by (induction s arbitrary: acc') auto
    with Cons show ?case by auto
  qed auto
  show ?thesis
  proof (induction s arbitrary: acc)
    case (Cons c s)
    show ?case
    proof (cases "c = CHR ''/''")
      case True
      then have "split_slash acc (c # s) = [ns, n] \<longleftrightarrow> ns = rev acc \<and> n = s \<and> CHR ''/'' \<notin> set s"
        using one [of "[]" s n] by auto
      also have "\<dots> \<longleftrightarrow> (\<exists>t. ns = rev acc @ t \<and> c # s = t @ CHR ''/'' # n \<and> CHR ''/'' \<notin> set t \<and> CHR ''/'' \<notin> set n)"
        using True by (auto simp: Cons_eq_append_conv)
      finally show ?thesis .
    next
      case False
      then have "split_slash acc (c # s) = [ns, n] \<longleftrightarrow>
          (\<exists>t. ns = rev acc @ [c] @ t \<and> s = t @ CHR ''/'' # n \<and> CHR ''/'' \<notin> set t \<and> CHR ''/'' \<notin> set n)"
        using Cons.IH [of "c # acc"] by simp
      also have "\<dots> \<longleftrightarrow> (\<exists>t. ns = rev acc @ t \<and> c # s = t @ CHR ''/'' # n \<and> CHR ''/'' \<notin> set t \<and> CHR ''/'' \<notin> set n)"
        using False by (auto simp: Cons_eq_append_conv)
      finally show ?thesis .
    qed
  qed simp
qed

text \<open>
  The credentials reference. \<open>parseRef\<close> returns exactly the two parts of a text of the form
  \<open>namespace/name\<close> with one slash, and fails on every other text.
\<close>

theorem parseRef_roundtrip:
  "parseRef ref = Inr (ns, n) \<longleftrightarrow> ref = ns @ ''/'' @ n \<and> CHR ''/'' \<notin> set ns \<and> CHR ''/'' \<notin> set n"
proof -
  have "parseRef ref = Inr (ns, n) \<longleftrightarrow> split_slash [] ref = [ns, n]"
    by (auto simp: parseRef_def split: list.splits)
  then show ?thesis by (simp add: split_slash_join)
qed

end
