(* ===== verification/ShootReal.thy ===== *)
theory ShootReal
  imports ShootAccess
begin

text \<open>
  The Kubernetes-backed \<open>ShootAccess\<close> of \<open>cluster-worker/pkg/client/shoot/real.go\<close>. The typed clients of
  client-go are parameters; what the API server promises of them is the locale \<open>kube_api\<close>, and under it
  the provider keeps the contract \<open>shoot_access\<close> the handlers rely on.
\<close>

section \<open>Objects\<close>

text \<open>A \<open>resource.Quantity\<close>, by the constructor that made it: \<open>NewMilliQuantity\<close> or \<open>NewQuantity\<close>.\<close>

datatype quantity = MilliQuantity int | Quantity int

record lr_spec =
  ls_default :: "(string \<times> quantity) list"
  ls_default_request :: "(string \<times> quantity) list"

record kobject = resource +
  ko_spec :: lr_spec

definition no_spec :: lr_spec where
  "no_spec = \<lparr>ls_default = [], ls_default_request = []\<rparr>"

definition LimitRangeName :: string where "LimitRangeName = ''fundament-defaults''"
definition ResourceCPU :: string where "ResourceCPU = ''cpu''"
definition ResourceMemory :: string where "ResourceMemory = ''memory''"

definition mk_object :: "string \<Rightarrow> smap \<Rightarrow> smap \<Rightarrow> role_ref \<Rightarrow> subject list \<Rightarrow> lr_spec \<Rightarrow> kobject" where
  "mk_object n l a rr ss sp = resource.extend \<lparr>r_name = n, r_labels = l, r_annotations = a, r_role_ref = rr, r_subjects = ss\<rparr>
     \<lparr>ko_spec = sp\<rparr>"

definition plain_object :: "string \<Rightarrow> smap \<Rightarrow> smap \<Rightarrow> kobject" where
  "plain_object n l a = mk_object n l a no_role_ref [] no_spec"

text \<open>The memory of the defaults is in mebibytes; \<open>int64\<close> holds every \<open>int32\<close> shifted by 20 bits, so the
  shift is a multiplication.\<close>

definition limitRangeSpec :: "limit_defaults \<Rightarrow> lr_spec" where
  "limitRangeSpec d =
     \<lparr>ls_default =
        (case CPULimitMilli d of None \<Rightarrow> [] | Some v \<Rightarrow> [(ResourceCPU, MilliQuantity v)]) @
        (case MemoryLimitMi d of None \<Rightarrow> [] | Some v \<Rightarrow> [(ResourceMemory, Quantity (v * 2 ^ 20))]),
      ls_default_request =
        (case CPURequestMilli d of None \<Rightarrow> [] | Some v \<Rightarrow> [(ResourceCPU, MilliQuantity v)]) @
        (case MemoryRequestMi d of None \<Rightarrow> [] | Some v \<Rightarrow> [(ResourceMemory, Quantity (v * 2 ^ 20))])\<rparr>"

text \<open>What a container without its own requests and limits gets from a LimitRange.\<close>

definition milli_of :: "quantity \<Rightarrow> int" where
  "milli_of q = (case q of MilliQuantity v \<Rightarrow> v | Quantity v \<Rightarrow> v * 1000)"

definition mebi_of :: "quantity \<Rightarrow> int" where
  "mebi_of q = (case q of MilliQuantity v \<Rightarrow> v div (1000 * 2 ^ 20) | Quantity v \<Rightarrow> v div 2 ^ 20)"

definition defaults_of_spec :: "lr_spec \<Rightarrow> limit_defaults" where
  "defaults_of_spec s =
     \<lparr>CPURequestMilli = map_option milli_of (map_of (ls_default_request s) ResourceCPU),
      CPULimitMilli = map_option milli_of (map_of (ls_default s) ResourceCPU),
      MemoryRequestMi = map_option mebi_of (map_of (ls_default_request s) ResourceMemory),
      MemoryLimitMi = map_option mebi_of (map_of (ls_default s) ResourceMemory)\<rparr>"

section \<open>Typed clients\<close>

record 'k res_client =
  rc_Create :: "kobject \<Rightarrow> 'k \<Rightarrow> gerr option \<times> 'k"
  rc_Get :: "string \<Rightarrow> 'k \<Rightarrow> (gerr + kobject) \<times> 'k"
  rc_Update :: "kobject \<Rightarrow> 'k \<Rightarrow> gerr option \<times> 'k"
  rc_Delete :: "string \<Rightarrow> 'k \<Rightarrow> gerr option \<times> 'k"
  rc_Patch :: "string \<Rightarrow> smap \<Rightarrow> 'k \<Rightarrow> gerr option \<times> 'k"
  rc_List :: "string \<Rightarrow> 'k \<Rightarrow> (gerr + kobject list) \<times> 'k"

record 'k clientset =
  cs_Namespaces :: "'k res_client"
  cs_ServiceAccounts :: "string \<Rightarrow> 'k res_client"
  cs_ClusterRoleBindings :: "'k res_client"
  cs_LimitRanges :: "string \<Rightarrow> 'k res_client"

text \<open>\<open>ensureResource\<close>; \<open>merge\<close> gives the changed object and whether it has to be recreated.\<close>

definition ensureResource ::
  "'k res_client \<Rightarrow> string \<Rightarrow> string \<Rightarrow> kobject \<Rightarrow> (kobject \<Rightarrow> bool \<times> kobject) option \<Rightarrow> 'k \<Rightarrow> gerr option \<times> 'k" where
  "ensureResource c name desc desired merge k =
     (case rc_Create c desired k of
        (None, k) \<Rightarrow> (None, k)
      | (Some e, k) \<Rightarrow>
          if \<not> is_already_exists e then (Some (errorf (''create '' @ desc) e), k)
          else case merge of
                 None \<Rightarrow> (None, k)
               | Some merge \<Rightarrow>
     (case rc_Get c name k of
        (Inl e, k) \<Rightarrow> (Some (errorf (''get existing '' @ desc) e), k)
      | (Inr existing, k) \<Rightarrow>
     (case merge existing of
        (True, _) \<Rightarrow>
          (case rc_Delete c name k of
             (de, k) \<Rightarrow>
               if de \<noteq> None \<and> \<not> is_not_found (the de)
               then (Some (errorf (''delete existing '' @ desc @ '' before recreate'') (the de)), k)
               else (case rc_Create c desired k of
                       (Some e, k) \<Rightarrow> (Some (errorf (''recreate '' @ desc) e), k)
                     | (None, k) \<Rightarrow> (None, k)))
      | (False, existing) \<Rightarrow>
          (case rc_Update c existing k of
             (Some e, k) \<Rightarrow> (Some (errorf (''update '' @ desc) e), k)
           | (None, k) \<Rightarrow> (None, k)))))"

definition deleteResource :: "'k res_client \<Rightarrow> string \<Rightarrow> string \<Rightarrow> 'k \<Rightarrow> gerr option \<times> 'k" where
  "deleteResource c name desc k =
     (case rc_Delete c name k of
        (None, k) \<Rightarrow> (None, k)
      | (Some e, k) \<Rightarrow> if is_not_found e then (None, k) else (Some (errorf (''delete '' @ desc) e), k))"

text \<open>Absent and empty maps are both \<open>[]\<close>.\<close>

definition mergeMeta :: "smap \<Rightarrow> smap \<Rightarrow> kobject \<Rightarrow> kobject" where
  "mergeMeta l a obj = obj\<lparr>r_labels := maps_copy (r_labels obj) l, r_annotations := maps_copy (r_annotations obj) a\<rparr>"

definition ClusterRoleBindingNeedsRecreate :: "kobject \<Rightarrow> kobject \<Rightarrow> bool" where
  "ClusterRoleBindingNeedsRecreate existing desired \<longleftrightarrow> r_role_ref existing \<noteq> r_role_ref desired"

section \<open>The provider\<close>

text \<open>\<open>newClient\<close> of the provider, the Gardener client's \<open>RequestAdminKubeconfig\<close>, and the two functions of
  client-go that turn a kubeconfig into a clientset.\<close>

record ('k, 'c) real_access =
  ra_newClient :: "(uuid \<Rightarrow> 'k \<Rightarrow> (gerr + 'k clientset) \<times> 'k) option"
  ra_request :: "uuid \<Rightarrow> int \<Rightarrow> 'k \<Rightarrow> (gerr + string) \<times> 'k"
  ra_config :: "string \<Rightarrow> gerr + 'c"
  ra_clientset :: "'c \<Rightarrow> gerr + 'k clientset"

definition clientForCluster :: "('k, 'c) real_access \<Rightarrow> uuid \<Rightarrow> 'k \<Rightarrow> (gerr + 'k clientset) \<times> 'k" where
  "clientForCluster ra cid k =
     (case ra_newClient ra of
        Some f \<Rightarrow> f cid k
      | None \<Rightarrow>
          (case ra_request ra cid 600 k of
             (Inl e, k) \<Rightarrow> (Inl (errorf ''request admin kubeconfig'' e), k)
           | (Inr kubeconfig, k) \<Rightarrow>
               (case ra_config ra kubeconfig of
                  Inl e \<Rightarrow> (Inl (errorf ''parse kubeconfig'' e), k)
                | Inr cfg \<Rightarrow>
                    (case ra_clientset ra cfg of
                       Inl e \<Rightarrow> (Inl (errorf ''create clientset'' e), k)
                     | Inr cs \<Rightarrow> (Inr cs, k)))))"

definition with_client ::
  "('k, 'c) real_access \<Rightarrow> uuid \<Rightarrow> ('k clientset \<Rightarrow> 'k \<Rightarrow> gerr option \<times> 'k) \<Rightarrow> 'k \<Rightarrow> gerr option \<times> 'k" where
  "with_client ra cid f k =
     (case clientForCluster ra cid k of (Inl e, k) \<Rightarrow> (Some e, k) | (Inr cs, k) \<Rightarrow> f cs k)"

definition with_client_read ::
  "('k, 'c) real_access \<Rightarrow> uuid \<Rightarrow> ('k clientset \<Rightarrow> 'k \<Rightarrow> (gerr + 'a) \<times> 'k) \<Rightarrow> 'k \<Rightarrow> (gerr + 'a) \<times> 'k" where
  "with_client_read ra cid f k =
     (case clientForCluster ra cid k of (Inl e, k) \<Rightarrow> (Inl e, k) | (Inr cs, k) \<Rightarrow> f cs k)"

definition plain_info :: "kobject \<Rightarrow> resource" where
  "plain_info obj = plain_resource (r_name obj) (r_labels obj) (r_annotations obj)"

definition full_info :: "kobject \<Rightarrow> resource" where
  "full_info obj = \<lparr>r_name = r_name obj, r_labels = r_labels obj, r_annotations = r_annotations obj,
     r_role_ref = r_role_ref obj, r_subjects = r_subjects obj\<rparr>"

definition list_info ::
  "'k res_client \<Rightarrow> string \<Rightarrow> string \<Rightarrow> (kobject \<Rightarrow> resource) \<Rightarrow> 'k \<Rightarrow> (gerr + resource list) \<times> 'k" where
  "list_info c lk desc info k =
     (case rc_List c lk k of
        (Inl e, k) \<Rightarrow> (Inl (errorf desc e), k)
      | (Inr objs, k) \<Rightarrow> (Inr (map info objs), k))"

definition RealEnsureNamespace :: "('k, 'c) real_access \<Rightarrow> uuid \<Rightarrow> string \<Rightarrow> 'k \<Rightarrow> gerr option \<times> 'k" where
  "RealEnsureNamespace ra cid n = with_client ra cid (\<lambda>cs.
     ensureResource (cs_Namespaces cs) n (''namespace '' @ n) (plain_object n [] []) None)"

definition RealGetNamespace :: "('k, 'c) real_access \<Rightarrow> uuid \<Rightarrow> string \<Rightarrow> 'k \<Rightarrow> (gerr + resource option) \<times> 'k" where
  "RealGetNamespace ra cid n = with_client_read ra cid (\<lambda>cs k.
     case rc_Get (cs_Namespaces cs) n k of
       (Inl e, k) \<Rightarrow> if is_not_found e then (Inr None, k) else (Inl (errorf (''get namespace '' @ n) e), k)
     | (Inr obj, k) \<Rightarrow> (Inr (Some (plain_info obj)), k))"

definition RealCreateNamespace :: "('k, 'c) real_access \<Rightarrow> uuid \<Rightarrow> string \<Rightarrow> smap \<Rightarrow> 'k \<Rightarrow> gerr option \<times> 'k" where
  "RealCreateNamespace ra cid n l = with_client ra cid (\<lambda>cs k.
     case rc_Create (cs_Namespaces cs) (plain_object n l []) k of
       (Some e, k) \<Rightarrow> (Some (errorf (''create namespace '' @ n) e), k)
     | (None, k) \<Rightarrow> (None, k))"

text \<open>Marshalling a map of strings does not fail.\<close>

definition RealUpdateNamespaceLabels :: "('k, 'c) real_access \<Rightarrow> uuid \<Rightarrow> string \<Rightarrow> smap \<Rightarrow> 'k \<Rightarrow> gerr option \<times> 'k" where
  "RealUpdateNamespaceLabels ra cid n l = with_client ra cid (\<lambda>cs k.
     case rc_Patch (cs_Namespaces cs) n l k of
       (Some e, k) \<Rightarrow> (Some (errorf (''patch namespace '' @ n @ '' labels'') e), k)
     | (None, k) \<Rightarrow> (None, k))"

definition RealDeleteNamespace :: "('k, 'c) real_access \<Rightarrow> uuid \<Rightarrow> string \<Rightarrow> 'k \<Rightarrow> gerr option \<times> 'k" where
  "RealDeleteNamespace ra cid n = with_client ra cid (\<lambda>cs. deleteResource (cs_Namespaces cs) n (''namespace '' @ n))"

definition RealListNamespaces :: "('k, 'c) real_access \<Rightarrow> uuid \<Rightarrow> string \<Rightarrow> 'k \<Rightarrow> (gerr + resource list) \<times> 'k" where
  "RealListNamespaces ra cid lk = with_client_read ra cid (\<lambda>cs. list_info (cs_Namespaces cs) lk ''list namespaces'' plain_info)"

definition RealEnsureServiceAccount ::
  "('k, 'c) real_access \<Rightarrow> uuid \<Rightarrow> string \<Rightarrow> string \<Rightarrow> smap \<Rightarrow> smap \<Rightarrow> 'k \<Rightarrow> gerr option \<times> 'k" where
  "RealEnsureServiceAccount ra cid ns n l a = with_client ra cid (\<lambda>cs.
     ensureResource (cs_ServiceAccounts cs ns) n (''SA '' @ ns @ ''/'' @ n) (plain_object n l a)
       (Some (\<lambda>existing. (False, mergeMeta l a existing))))"

definition crb_object :: "string \<Rightarrow> string \<Rightarrow> string \<Rightarrow> smap \<Rightarrow> smap \<Rightarrow> kobject" where
  "crb_object n sns sn l a = mk_object n l a cluster_admin [sa_subject sns sn] no_spec"

definition RealEnsureClusterRoleBinding ::
  "('k, 'c) real_access \<Rightarrow> uuid \<Rightarrow> string \<Rightarrow> string \<Rightarrow> string \<Rightarrow> smap \<Rightarrow> smap \<Rightarrow> 'k \<Rightarrow> gerr option \<times> 'k" where
  "RealEnsureClusterRoleBinding ra cid n sns sn l a = with_client ra cid (\<lambda>cs.
     let crb = crb_object n sns sn l a
     in ensureResource (cs_ClusterRoleBindings cs) n (''CRB '' @ n) crb
       (Some (\<lambda>existing. if ClusterRoleBindingNeedsRecreate existing crb then (True, existing)
          else (False, (mergeMeta l a existing)\<lparr>r_subjects := r_subjects crb\<rparr>))))"

definition RealDeleteServiceAccount :: "('k, 'c) real_access \<Rightarrow> uuid \<Rightarrow> string \<Rightarrow> string \<Rightarrow> 'k \<Rightarrow> gerr option \<times> 'k" where
  "RealDeleteServiceAccount ra cid ns n = with_client ra cid (\<lambda>cs.
     deleteResource (cs_ServiceAccounts cs ns) n (''SA '' @ ns @ ''/'' @ n))"

definition RealDeleteClusterRoleBinding :: "('k, 'c) real_access \<Rightarrow> uuid \<Rightarrow> string \<Rightarrow> 'k \<Rightarrow> gerr option \<times> 'k" where
  "RealDeleteClusterRoleBinding ra cid n = with_client ra cid (\<lambda>cs. deleteResource (cs_ClusterRoleBindings cs) n (''CRB '' @ n))"

definition RealListServiceAccounts ::
  "('k, 'c) real_access \<Rightarrow> uuid \<Rightarrow> string \<Rightarrow> string \<Rightarrow> 'k \<Rightarrow> (gerr + resource list) \<times> 'k" where
  "RealListServiceAccounts ra cid ns lk = with_client_read ra cid (\<lambda>cs.
     list_info (cs_ServiceAccounts cs ns) lk (''list SAs in '' @ ns) plain_info)"

definition RealListClusterRoleBindings :: "('k, 'c) real_access \<Rightarrow> uuid \<Rightarrow> string \<Rightarrow> 'k \<Rightarrow> (gerr + resource list) \<times> 'k" where
  "RealListClusterRoleBindings ra cid lk = with_client_read ra cid (\<lambda>cs.
     list_info (cs_ClusterRoleBindings cs) lk ''list CRBs'' full_info)"

definition lr_desc :: "string \<Rightarrow> string" where
  "lr_desc ns = ''LimitRange '' @ ns @ ''/'' @ LimitRangeName"

definition RealEnsureLimitRange ::
  "('k, 'c) real_access \<Rightarrow> uuid \<Rightarrow> string \<Rightarrow> limit_defaults \<Rightarrow> smap \<Rightarrow> 'k \<Rightarrow> gerr option \<times> 'k" where
  "RealEnsureLimitRange ra cid ns d l = with_client ra cid (\<lambda>cs.
     let lr = mk_object LimitRangeName l [] no_role_ref [] (limitRangeSpec d)
     in ensureResource (cs_LimitRanges cs ns) LimitRangeName (lr_desc ns) lr
       (Some (\<lambda>existing. (False, (mergeMeta l [] existing)\<lparr>ko_spec := ko_spec lr\<rparr>))))"

definition RealDeleteLimitRange :: "('k, 'c) real_access \<Rightarrow> uuid \<Rightarrow> string \<Rightarrow> 'k \<Rightarrow> gerr option \<times> 'k" where
  "RealDeleteLimitRange ra cid ns = with_client ra cid (\<lambda>cs. deleteResource (cs_LimitRanges cs ns) LimitRangeName (lr_desc ns))"

definition real_shoot_ops :: "('k, 'c) real_access \<Rightarrow> 'k shoot_ops" where
  "real_shoot_ops ra = \<lparr>EnsureNamespace = RealEnsureNamespace ra, GetNamespace = RealGetNamespace ra,
     CreateNamespace = RealCreateNamespace ra, UpdateNamespaceLabels = RealUpdateNamespaceLabels ra,
     DeleteNamespace = RealDeleteNamespace ra, ListNamespaces = RealListNamespaces ra,
     EnsureLimitRange = RealEnsureLimitRange ra, DeleteLimitRange = RealDeleteLimitRange ra,
     EnsureServiceAccount = RealEnsureServiceAccount ra, EnsureClusterRoleBinding = RealEnsureClusterRoleBinding ra,
     DeleteServiceAccount = RealDeleteServiceAccount ra, DeleteClusterRoleBinding = RealDeleteClusterRoleBinding ra,
     ListServiceAccounts = RealListServiceAccounts ra, ListClusterRoleBindings = RealListClusterRoleBindings ra\<rparr>"

section \<open>What the API server promises\<close>

text \<open>An object of a shoot, by its kind: cluster, namespace where the kind has one, and name.\<close>

datatype kkey = KNs uuid string | KSa uuid string string | KCrb uuid string | KLr uuid string string

fun key_name :: "kkey \<Rightarrow> string" where
  "key_name (KNs cid n) = n"
| "key_name (KSa cid ns n) = n"
| "key_name (KCrb cid n) = n"
| "key_name (KLr cid ns n) = n"

text \<open>The server stores an object as sent; it may add labels and annotations.\<close>

definition kstored :: "kobject \<Rightarrow> kobject \<Rightarrow> bool" where
  "kstored t t' \<longleftrightarrow> r_name t' = r_name t \<and> map_of (r_labels t) \<subseteq>\<^sub>m map_of (r_labels t') \<and>
     map_of (r_annotations t) \<subseteq>\<^sub>m map_of (r_annotations t') \<and> r_role_ref t' = r_role_ref t \<and>
     r_subjects t' = r_subjects t \<and> ko_spec t' = ko_spec t"

text \<open>A typed client touches the object its request names. \<open>Create\<close> does not overwrite, and reports
  \<open>AlreadyExists\<close> only of an object that is there; a request that fails otherwise may have taken effect (a
  timeout). \<open>NotFound\<close> means that the object is not there. Except for namespaces (\<open>lingers\<close>), which are
  finalized first, a deleted object is gone. A merge patch sets the labels it lists. A list has every
  object with the label once.\<close>

definition client_ok ::
  "('k \<Rightarrow> bool) \<Rightarrow> ('k \<Rightarrow> kkey \<Rightarrow> kobject option) \<Rightarrow> (string \<Rightarrow> kkey) \<Rightarrow> bool \<Rightarrow> 'k res_client \<Rightarrow> bool" where
  "client_ok kinv kv key lingers c \<longleftrightarrow>
     (\<forall>t k e k'. kinv k \<longrightarrow> rc_Create c t k = (e, k') \<longrightarrow> kinv k' \<and>
        (\<exists>x. kv k' = (kv k)(key (r_name t) := x) \<and>
          (x = kv k (key (r_name t)) \<or> kv k (key (r_name t)) = None \<and> (\<exists>t'. x = Some t' \<and> kstored t t')) \<and>
          (e = None \<longrightarrow> kv k (key (r_name t)) = None \<and> (\<exists>t'. x = Some t' \<and> kstored t t')) \<and>
          (\<forall>f. e = Some f \<and> is_already_exists f \<longrightarrow> kv k (key (r_name t)) \<noteq> None))) \<and>
     (\<forall>n k r k'. kinv k \<longrightarrow> rc_Get c n k = (r, k') \<longrightarrow> kinv k' \<and> kv k' = kv k \<and>
        (\<forall>t. r = Inr t \<longrightarrow> kv k (key n) = Some t) \<and> (\<forall>f. r = Inl f \<and> is_not_found f \<longrightarrow> kv k (key n) = None)) \<and>
     (\<forall>t k e k'. kinv k \<longrightarrow> rc_Update c t k = (e, k') \<longrightarrow> kinv k' \<and>
        (\<exists>x. kv k' = (kv k)(key (r_name t) := x) \<and>
          (e = None \<longrightarrow> (\<exists>t'. x = Some t' \<and> kstored t t')))) \<and>
     (\<forall>n k e k'. kinv k \<longrightarrow> rc_Delete c n k = (e, k') \<longrightarrow> kinv k' \<and>
        (\<exists>x. kv k' = (kv k)(key n := x) \<and> (kv k (key n) = None \<longrightarrow> x = None) \<and>
          (e = None \<and> \<not> lingers \<longrightarrow> x = None) \<and> (\<forall>f. e = Some f \<and> is_not_found f \<longrightarrow> x = None))) \<and>
     (\<forall>n l k e k'. kinv k \<longrightarrow> distinct (map fst l) \<longrightarrow> rc_Patch c n l k = (e, k') \<longrightarrow> kinv k' \<and>
        (\<exists>x. kv k' = (kv k)(key n := x) \<and> (kv k (key n) = None \<longrightarrow> x = None) \<and>
          (\<forall>t. e = None \<and> kv k (key n) = Some t \<longrightarrow>
            (\<exists>t'. x = Some t' \<and> map_of (r_labels t') = map_of (r_labels t) ++ map_of l)))) \<and>
     (\<forall>lk k r k'. kinv k \<longrightarrow> rc_List c lk k = (r, k') \<longrightarrow> kinv k' \<and> kv k' = kv k \<and>
        (\<forall>ts. r = Inr ts \<and> lk \<noteq> '''' \<longrightarrow> distinct (map r_name ts) \<and>
          set ts = {t. \<exists>n. kv k (key n) = Some t \<and> has_key lk (r_labels t)}))"

definition clientset_ok ::
  "('k \<Rightarrow> bool) \<Rightarrow> ('k \<Rightarrow> kkey \<Rightarrow> kobject option) \<Rightarrow> uuid \<Rightarrow> 'k clientset \<Rightarrow> bool" where
  "clientset_ok kinv kv cid cs \<longleftrightarrow> client_ok kinv kv (KNs cid) True (cs_Namespaces cs) \<and>
     (\<forall>ns. client_ok kinv kv (KSa cid ns) False (cs_ServiceAccounts cs ns)) \<and>
     client_ok kinv kv (KCrb cid) False (cs_ClusterRoleBindings cs) \<and>
     (\<forall>ns. client_ok kinv kv (KLr cid ns) False (cs_LimitRanges cs ns))"

locale kube_api =
  fixes ra :: "('k, 'c) real_access"
    and kinv :: "'k \<Rightarrow> bool"
    and kv :: "'k \<Rightarrow> kkey \<Rightarrow> kobject option"
  assumes names: "kinv k \<Longrightarrow> kv k key = Some t \<Longrightarrow> r_name t = key_name key"
    and newClient_law: "ra_newClient ra = Some f \<Longrightarrow> kinv k \<Longrightarrow> f cid k = (r, k') \<Longrightarrow> kinv k' \<and> kv k' = kv k \<and>
      (\<forall>cs. r = Inr cs \<longrightarrow> clientset_ok kinv kv cid cs)"
    and request_law: "kinv k \<Longrightarrow> ra_request ra cid s k = (kc, k') \<Longrightarrow> kinv k' \<and> kv k' = kv k \<and>
      (\<forall>c cfg cs. kc = Inr c \<and> ra_config ra c = Inr cfg \<and> ra_clientset ra cfg = Inr cs \<longrightarrow> clientset_ok kinv kv cid cs)"

section \<open>Lemmas: ensuring and deleting one object\<close>

lemma client_okD:
  assumes "client_ok kinv kv key lingers c" "kinv k"
  shows "rc_Create c t k = (e, k') \<Longrightarrow> kinv k' \<and> (\<exists>x. kv k' = (kv k)(key (r_name t) := x) \<and>
      (x = kv k (key (r_name t)) \<or> kv k (key (r_name t)) = None \<and> (\<exists>t'. x = Some t' \<and> kstored t t')) \<and>
      (e = None \<longrightarrow> kv k (key (r_name t)) = None \<and> (\<exists>t'. x = Some t' \<and> kstored t t')) \<and>
      (\<forall>f. e = Some f \<and> is_already_exists f \<longrightarrow> kv k (key (r_name t)) \<noteq> None))"
    and "rc_Get c n k = (r, k') \<Longrightarrow> kinv k' \<and> kv k' = kv k \<and>
      (\<forall>t. r = Inr t \<longrightarrow> kv k (key n) = Some t) \<and> (\<forall>f. r = Inl f \<and> is_not_found f \<longrightarrow> kv k (key n) = None)"
    and "rc_Update c t k = (e, k') \<Longrightarrow> kinv k' \<and> (\<exists>x. kv k' = (kv k)(key (r_name t) := x) \<and>
      (e = None \<longrightarrow> (\<exists>t'. x = Some t' \<and> kstored t t')))"
    and "rc_Delete c n k = (e, k') \<Longrightarrow> kinv k' \<and> (\<exists>x. kv k' = (kv k)(key n := x) \<and> (kv k (key n) = None \<longrightarrow> x = None) \<and>
      (e = None \<and> \<not> lingers \<longrightarrow> x = None) \<and> (\<forall>f. e = Some f \<and> is_not_found f \<longrightarrow> x = None))"
    and "distinct (map fst l) \<Longrightarrow> rc_Patch c n l k = (e, k') \<Longrightarrow> kinv k' \<and>
      (\<exists>x. kv k' = (kv k)(key n := x) \<and> (kv k (key n) = None \<longrightarrow> x = None) \<and>
        (\<forall>t. e = None \<and> kv k (key n) = Some t \<longrightarrow> (\<exists>t'. x = Some t' \<and> map_of (r_labels t') = map_of (r_labels t) ++ map_of l)))"
    and "rc_List c lk k = (rs, k') \<Longrightarrow> kinv k' \<and> kv k' = kv k \<and>
      (\<forall>ts. rs = Inr ts \<and> lk \<noteq> '''' \<longrightarrow> distinct (map r_name ts) \<and>
        set ts = {t. \<exists>n. kv k (key n) = Some t \<and> has_key lk (r_labels t)})"
proof -
  note C = assms(1) [unfolded client_ok_def]
  note C2 = conjunct2 [OF C] note C3 = conjunct2 [OF C2] note C4 = conjunct2 [OF C3] note C5 = conjunct2 [OF C4]
  note laws = conjunct1 [OF C] conjunct1 [OF C2] conjunct1 [OF C3] conjunct1 [OF C4] conjunct1 [OF C5] conjunct2 [OF C5]
  show "rc_Create c t k = (e, k') \<Longrightarrow> kinv k' \<and> (\<exists>x. kv k' = (kv k)(key (r_name t) := x) \<and>
      (x = kv k (key (r_name t)) \<or> kv k (key (r_name t)) = None \<and> (\<exists>t'. x = Some t' \<and> kstored t t')) \<and>
      (e = None \<longrightarrow> kv k (key (r_name t)) = None \<and> (\<exists>t'. x = Some t' \<and> kstored t t')) \<and>
      (\<forall>f. e = Some f \<and> is_already_exists f \<longrightarrow> kv k (key (r_name t)) \<noteq> None))"
    by (rule laws(1) [rule_format, OF assms(2)])
  show "rc_Get c n k = (r, k') \<Longrightarrow> kinv k' \<and> kv k' = kv k \<and>
      (\<forall>t. r = Inr t \<longrightarrow> kv k (key n) = Some t) \<and> (\<forall>f. r = Inl f \<and> is_not_found f \<longrightarrow> kv k (key n) = None)"
    by (rule laws(2) [rule_format, OF assms(2)])
  show "rc_Update c t k = (e, k') \<Longrightarrow> kinv k' \<and> (\<exists>x. kv k' = (kv k)(key (r_name t) := x) \<and>
      (e = None \<longrightarrow> (\<exists>t'. x = Some t' \<and> kstored t t')))"
    by (rule laws(3) [rule_format, OF assms(2)])
  show "rc_Delete c n k = (e, k') \<Longrightarrow> kinv k' \<and> (\<exists>x. kv k' = (kv k)(key n := x) \<and> (kv k (key n) = None \<longrightarrow> x = None) \<and>
      (e = None \<and> \<not> lingers \<longrightarrow> x = None) \<and> (\<forall>f. e = Some f \<and> is_not_found f \<longrightarrow> x = None))"
    by (rule laws(4) [rule_format, OF assms(2)])
  show "distinct (map fst l) \<Longrightarrow> rc_Patch c n l k = (e, k') \<Longrightarrow> kinv k' \<and>
      (\<exists>x. kv k' = (kv k)(key n := x) \<and> (kv k (key n) = None \<longrightarrow> x = None) \<and>
        (\<forall>t. e = None \<and> kv k (key n) = Some t \<longrightarrow> (\<exists>t'. x = Some t' \<and> map_of (r_labels t') = map_of (r_labels t) ++ map_of l)))"
    by (rule laws(5) [rule_format, OF assms(2)])
  show "rc_List c lk k = (rs, k') \<Longrightarrow> kinv k' \<and> kv k' = kv k \<and>
      (\<forall>ts. rs = Inr ts \<and> lk \<noteq> '''' \<longrightarrow> distinct (map r_name ts) \<and>
        set ts = {t. \<exists>n. kv k (key n) = Some t \<and> has_key lk (r_labels t)})"
    by (rule laws(6) [rule_format, OF assms(2)])
qed

lemma ensure_nothing:
  assumes "client_ok kinv kv key lingers c" "kinv k" "ensureResource c (r_name t) desc t None k = (e, k')"
  shows "kinv k' \<and> (\<exists>x. kv k' = (kv k)(key (r_name t) := x) \<and>
    (kv k (key (r_name t)) \<noteq> None \<longrightarrow> x = kv k (key (r_name t))) \<and> (e = None \<longrightarrow> x \<noteq> None))"
proof -
  obtain ce k1 where c: "rc_Create c t k = (ce, k1)" by fastforce
  with assms(3) have "k' = k1" "e = None \<longrightarrow> ce = None \<or> (\<exists>f. ce = Some f \<and> is_already_exists f)"
    by (auto simp: ensureResource_def split: option.splits if_splits)
  with client_okD(1) [OF assms(1,2) c] show ?thesis by auto
qed

text \<open>What \<open>ensureResource\<close> with a merge function \<open>m\<close> sends in the end, for the object that was there.\<close>

definition ensured :: "kobject \<Rightarrow> (kobject \<Rightarrow> bool \<times> kobject) \<Rightarrow> kobject option \<Rightarrow> kobject" where
  "ensured t m old = (case old of None \<Rightarrow> t | Some cur \<Rightarrow> if fst (m cur) then t else snd (m cur))"

lemma ensure_merged:
  assumes c: "client_ok kinv kv key lingers c" "kinv k" and eq: "ensureResource c (r_name t) desc t (Some m) k = (e, k')"
    and nm: "\<And>k x. kinv k \<Longrightarrow> kv k (key (r_name t)) = Some x \<Longrightarrow> r_name (snd (m x)) = r_name t"
  shows "kinv k' \<and> (\<exists>x. kv k' = (kv k)(key (r_name t) := x) \<and>
    (e = None \<longrightarrow> (\<exists>t'. x = Some t' \<and> kstored (ensured t m (kv k (key (r_name t)))) t')))"
proof -
  let ?key = "key (r_name t)"
  obtain ce k1 where c1: "rc_Create c t k = (ce, k1)" by fastforce
  from client_okD(1) [OF c c1] obtain x1 where k1: "kinv k1" "kv k1 = (kv k)(?key := x1)"
      "ce = None \<longrightarrow> kv k ?key = None \<and> (\<exists>t'. x1 = Some t' \<and> kstored t t')"
      "x1 = kv k ?key \<or> kv k ?key = None" "\<forall>f. ce = Some f \<and> is_already_exists f \<longrightarrow> kv k ?key \<noteq> None" by auto
  show ?thesis
  proof (cases "\<exists>f. ce = Some f \<and> is_already_exists f")
    case False
    with eq c1 have "k' = k1" "e = None \<longrightarrow> ce = None"
      by (auto simp: ensureResource_def split: option.splits if_splits)
    with k1 show ?thesis by (auto simp: ensured_def)
  next
    case True
    obtain r k2 where g: "rc_Get c (r_name t) k1 = (r, k2)" by fastforce
    note G = client_okD(2) [OF c(1) k1(1) g]
    show ?thesis
    proof (cases r)
      case (Inl f)
      with eq c1 True g have "k' = k2" "e \<noteq> None"
        by (auto simp: ensureResource_def)
      with G k1 show ?thesis by auto
    next
      case (Inr old)
      obtain b new where b: "m old = (b, new)" by (cases "m old")
      have k2: "kinv k2" "kv k2 = (kv k)(?key := x1)" using G k1 by auto
      have old: "kv k ?key = Some old" using G Inr k1 True by auto
      show ?thesis
      proof (cases b)
        case False
        obtain ue k3 where u: "rc_Update c new k2 = (ue, k3)" by fastforce
        have "r_name new = r_name t"
          using nm [OF k1(1), of old] G Inr b by auto
        with client_okD(3) [OF c(1) k2(1) u] k2 obtain x3 where k3: "kinv k3" "kv k3 = (kv k)(?key := x3)"
            "ue = None \<longrightarrow> (\<exists>t'. x3 = Some t' \<and> kstored new t')" by auto
        from eq c1 True g Inr b u False have "k' = k3" "e = None \<longrightarrow> ue = None"
          by (auto simp: ensureResource_def split: option.splits)
        with k3 False b old show ?thesis by (auto simp: ensured_def)
      next
        case True
        obtain de k3 where d: "rc_Delete c (r_name t) k2 = (de, k3)" by fastforce
        from client_okD(4) [OF c(1) k2(1) d] k2 obtain x3 where k3: "kinv k3" "kv k3 = (kv k)(?key := x3)" by auto
        obtain re k4 where r: "rc_Create c t k3 = (re, k4)" by fastforce
        from client_okD(1) [OF c(1) k3(1) r] k3 obtain x4 where k4: "kinv k4" "kv k4 = (kv k)(?key := x4)"
            "re = None \<longrightarrow> (\<exists>t'. x4 = Some t' \<and> kstored t t')" by auto
        have "k' = k3 \<and> e \<noteq> None \<or> k' = k4 \<and> (e = None \<longrightarrow> re = None)"
          using eq c1 \<open>\<exists>f. ce = Some f \<and> is_already_exists f\<close> g Inr b d r True
          by (auto simp: ensureResource_def split: option.splits if_splits)
        with k3 k4 True b old show ?thesis by (auto simp: ensured_def)
      qed
    qed
  qed
qed

lemma delete_gone:
  assumes "client_ok kinv kv key lingers c" "kinv k" "deleteResource c n desc k = (e, k')"
  shows "kinv k' \<and> (\<exists>x. kv k' = (kv k)(key n := x) \<and> (kv k (key n) = None \<longrightarrow> x = None) \<and> (e = None \<and> \<not> lingers \<longrightarrow> x = None))"
proof -
  obtain de k1 where d: "rc_Delete c n k = (de, k1)" by fastforce
  with assms(3) have "k' = k1" "e = None \<longrightarrow> de = None \<or> (\<exists>f. de = Some f \<and> is_not_found f)"
    by (auto simp: deleteResource_def split: option.splits if_splits)
  with client_okD(4) [OF assms(1,2) d] show ?thesis by auto
qed

section \<open>The provider keeps the contract of the handlers\<close>

definition lr_info :: "kobject \<Rightarrow> limit_range" where
  "lr_info obj = \<lparr>lr_defaults = defaults_of_spec (ko_spec obj), lr_labels = r_labels obj\<rparr>"

definition kube_view :: "('k \<Rightarrow> kkey \<Rightarrow> kobject option) \<Rightarrow> 'k \<Rightarrow> shoot_view" where
  "kube_view kv k = \<lparr>v_sas = (\<lambda>(cid, ns, n). map_option plain_info (kv k (KSa cid ns n))),
     v_crbs = (\<lambda>(cid, n). map_option full_info (kv k (KCrb cid n))),
     v_nss = (\<lambda>(cid, n). map_option plain_info (kv k (KNs cid n))),
     v_lrs = (\<lambda>(cid, ns). map_option lr_info (kv k (KLr cid ns LimitRangeName)))\<rparr>"

lemma info_simps [simp]:
  "r_name (plain_info t) = r_name t" "r_labels (plain_info t) = r_labels t" "r_annotations (plain_info t) = r_annotations t"
  "r_name (full_info t) = r_name t" "r_labels (full_info t) = r_labels t" "r_annotations (full_info t) = r_annotations t"
  "r_role_ref (full_info t) = r_role_ref t" "r_subjects (full_info t) = r_subjects t"
  "lr_labels (lr_info t) = r_labels t" "lr_defaults (lr_info t) = defaults_of_spec (ko_spec t)"
  by (simp_all add: plain_info_def full_info_def lr_info_def)

lemma mk_object_simps [simp]:
  "r_name (mk_object n l a rr ss sp) = n" "r_labels (mk_object n l a rr ss sp) = l"
  "r_annotations (mk_object n l a rr ss sp) = a" "r_role_ref (mk_object n l a rr ss sp) = rr"
  "r_subjects (mk_object n l a rr ss sp) = ss" "ko_spec (mk_object n l a rr ss sp) = sp"
  "r_name (plain_object n l a) = n" "r_labels (plain_object n l a) = l" "r_annotations (plain_object n l a) = a"
  by (simp_all add: mk_object_def plain_object_def resource.defs)

lemma kube_view_same: "kv k' = kv k \<Longrightarrow> kube_view kv k' = kube_view kv k"
  by (simp add: kube_view_def)

lemma kube_view_upd:
  "kv k' = (kv k)(KSa cid ns n := x) \<Longrightarrow>
     kube_view kv k' = (kube_view kv k)\<lparr>v_sas := (v_sas (kube_view kv k))((cid, ns, n) := map_option plain_info x)\<rparr>"
  "kv k' = (kv k)(KCrb cid n := x) \<Longrightarrow>
     kube_view kv k' = (kube_view kv k)\<lparr>v_crbs := (v_crbs (kube_view kv k))((cid, n) := map_option full_info x)\<rparr>"
  "kv k' = (kv k)(KNs cid n := x) \<Longrightarrow>
     kube_view kv k' = (kube_view kv k)\<lparr>v_nss := (v_nss (kube_view kv k))((cid, n) := map_option plain_info x)\<rparr>"
  "kv k' = (kv k)(KLr cid ns LimitRangeName := x) \<Longrightarrow>
     kube_view kv k' = (kube_view kv k)\<lparr>v_lrs := (v_lrs (kube_view kv k))((cid, ns) := map_option lr_info x)\<rparr>"
  by (auto simp: kube_view_def fun_eq_iff)

lemma kube_view_at:
  "v_sas (kube_view kv k) (cid, ns, n) = map_option plain_info (kv k (KSa cid ns n))"
  "v_crbs (kube_view kv k) (cid, n) = map_option full_info (kv k (KCrb cid n))"
  "v_nss (kube_view kv k) (cid, n) = map_option plain_info (kv k (KNs cid n))"
  "v_lrs (kube_view kv k) (cid, ns) = map_option lr_info (kv k (KLr cid ns LimitRangeName))"
  by (simp_all add: kube_view_def)

lemma submap_le: "distinct (map fst l) \<Longrightarrow> map_of l \<subseteq>\<^sub>m map_of m \<Longrightarrow> submap l m"
  by (auto simp: submap_def list_all_iff map_le_def) (metis domI map_of_is_SomeI)

lemma kstored_merged:
  assumes "distinct (map fst l)" "distinct (map fst a)" "kstored (mergeMeta l a obj) t"
  shows "map_of l \<subseteq>\<^sub>m map_of (r_labels t) \<and> map_of a \<subseteq>\<^sub>m map_of (r_annotations t)"
proof -
  have "map_of l \<subseteq>\<^sub>m map_of (r_labels (mergeMeta l a obj))" "map_of a \<subseteq>\<^sub>m map_of (r_annotations (mergeMeta l a obj))"
    using assms(1,2) by (simp_all add: mergeMeta_def)
  then show ?thesis
    using assms(3) unfolding kstored_def by (blast intro: map_le_trans)
qed

lemma limitRangeSpec_defaults: "defaults_of_spec (limitRangeSpec d) = d"
  by (cases "CPURequestMilli d"; cases "CPULimitMilli d"; cases "MemoryRequestMi d"; cases "MemoryLimitMi d")
    (simp_all add: defaults_of_spec_def limitRangeSpec_def milli_of_def mebi_of_def ResourceCPU_def ResourceMemory_def)

context kube_api
begin

lemma clientForCluster_law:
  assumes "kinv k" "clientForCluster ra cid k = (r, k')"
  shows "kinv k' \<and> kv k' = kv k \<and> (\<forall>cs. r = Inr cs \<longrightarrow> clientset_ok kinv kv cid cs)"
proof (cases "ra_newClient ra")
  case (Some f)
  with newClient_law [OF Some assms(1), of cid r k'] assms(2) show ?thesis by (simp add: clientForCluster_def)
next
  case None
  obtain kc k1 where q: "ra_request ra cid 600 k = (kc, k1)" by fastforce
  note R = request_law [OF assms(1) q]
  from assms(2) None q R show ?thesis
    by (auto simp: clientForCluster_def split: sum.splits)
qed

lemma with_client_cases:
  assumes "kinv k" "with_client ra cid f k = (e, k')"
  obtains (failed) "e \<noteq> None" "kinv k'" "kv k' = kv k"
    | (called) cs k1 where "clientset_ok kinv kv cid cs" "kinv k1" "kv k1 = kv k" "f cs k1 = (e, k')"
proof -
  obtain r k1 where r: "clientForCluster ra cid k = (r, k1)" by fastforce
  from clientForCluster_law [OF assms(1) r] assms(2) r failed called show thesis
    by (cases r) (auto simp: with_client_def)
qed

lemma with_client_read_cases:
  assumes "kinv k" "with_client_read ra cid f k = (r, k')"
  obtains (failed) e where "r = Inl e" "kinv k'" "kv k' = kv k"
    | (called) cs k1 where "clientset_ok kinv kv cid cs" "kinv k1" "kv k1 = kv k" "f cs k1 = (r, k')"
proof -
  obtain q k1 where q: "clientForCluster ra cid k = (q, k1)" by fastforce
  from clientForCluster_law [OF assms(1) q] assms(2) q failed called show thesis
    by (cases q) (auto simp: with_client_read_def)
qed

lemma kv_idem: "kv k' = kv k \<Longrightarrow> kv k' = (kv k)(key := kv k key)"
  by simp

lemma EnsureNamespace_kv:
  assumes "kinv s" "RealEnsureNamespace ra cid n s = (e, s')"
  shows "kinv s' \<and> (\<exists>x. kv s' = (kv s)(KNs cid n := x) \<and> (kv s (KNs cid n) \<noteq> None \<longrightarrow> x = kv s (KNs cid n)) \<and>
    (e = None \<longrightarrow> x \<noteq> None))"
  using assms(1) assms(2) [unfolded RealEnsureNamespace_def]
proof (cases rule: with_client_cases)
  case failed
  then show ?thesis using kv_idem by blast
next
  case (called cs k1)
  with ensure_nothing [of kinv kv "KNs cid" True "cs_Namespaces cs" k1 "plain_object n [] []"] show ?thesis
    by (simp add: clientset_ok_def)
qed

lemma CreateNamespace_kv:
  assumes "kinv s" "RealCreateNamespace ra cid n l s = (e, s')"
  shows "kinv s' \<and> (\<exists>x. kv s' = (kv s)(KNs cid n := x) \<and> (kv s (KNs cid n) \<noteq> None \<longrightarrow> e \<noteq> None \<and> x = kv s (KNs cid n)) \<and>
    (e = None \<longrightarrow> (\<exists>t. x = Some t \<and> kstored (plain_object n l []) t)))"
  using assms(1) assms(2) [unfolded RealCreateNamespace_def]
proof (cases rule: with_client_cases)
  case failed
  then show ?thesis using kv_idem by blast
next
  case (called cs k1)
  obtain ce k2 where c: "rc_Create (cs_Namespaces cs) (plain_object n l []) k1 = (ce, k2)" by fastforce
  with called have "s' = k2" "e = None \<longleftrightarrow> ce = None" by (auto split: option.splits)
  moreover have ok: "client_ok kinv kv (KNs cid) True (cs_Namespaces cs)" using called by (simp add: clientset_ok_def)
  ultimately show ?thesis
    using client_okD(1) [OF ok called(2) c] called(3) by auto
qed

lemma UpdateNamespaceLabels_kv:
  assumes "kinv s" "distinct (map fst l)" "RealUpdateNamespaceLabels ra cid n l s = (e, s')"
  shows "kinv s' \<and> (\<exists>x. kv s' = (kv s)(KNs cid n := x) \<and> (kv s (KNs cid n) = None \<longrightarrow> x = None) \<and>
    (\<forall>t. e = None \<and> kv s (KNs cid n) = Some t \<longrightarrow> (\<exists>t'. x = Some t' \<and> map_of (r_labels t') = map_of (r_labels t) ++ map_of l)))"
  using assms(1) assms(3) [unfolded RealUpdateNamespaceLabels_def]
proof (cases rule: with_client_cases)
  case failed
  then show ?thesis using kv_idem by blast
next
  case (called cs k1)
  obtain ce k2 where c: "rc_Patch (cs_Namespaces cs) n l k1 = (ce, k2)" by fastforce
  with called have "s' = k2" "e = None \<longleftrightarrow> ce = None" by (auto split: option.splits)
  moreover have ok: "client_ok kinv kv (KNs cid) True (cs_Namespaces cs)" using called by (simp add: clientset_ok_def)
  ultimately show ?thesis
    using client_okD(5) [OF ok called(2) assms(2) c] called(3) by simp
qed

lemma deletes_kv:
  assumes "kinv s" "with_client ra cid (\<lambda>cs. deleteResource (sel cs) n desc) s = (e, s')"
    and "\<And>cs. clientset_ok kinv kv cid cs \<Longrightarrow> client_ok kinv kv key lingers (sel cs)"
  shows "kinv s' \<and> (\<exists>x. kv s' = (kv s)(key n := x) \<and> (kv s (key n) = None \<longrightarrow> x = None) \<and> (e = None \<and> \<not> lingers \<longrightarrow> x = None))"
  using assms(1,2)
proof (cases rule: with_client_cases)
  case failed
  then show ?thesis using kv_idem by blast
next
  case (called cs k1)
  with delete_gone [OF assms(3) [OF called(1)] called(2) called(4)] show ?thesis by simp
qed

lemma ensures_kv:
  assumes "kinv s" "with_client ra cid (\<lambda>cs. ensureResource (sel cs) (r_name t) desc t (Some m)) s = (e, s')"
    and "\<And>cs. clientset_ok kinv kv cid cs \<Longrightarrow> client_ok kinv kv key lingers (sel cs)"
    and "\<And>k x. kinv k \<Longrightarrow> kv k (key (r_name t)) = Some x \<Longrightarrow> r_name (snd (m x)) = r_name t"
  shows "kinv s' \<and> (\<exists>x. kv s' = (kv s)(key (r_name t) := x) \<and>
    (e = None \<longrightarrow> (\<exists>t'. x = Some t' \<and> kstored (ensured t m (kv s (key (r_name t)))) t')))"
  using assms(1,2)
proof (cases rule: with_client_cases)
  case failed
  then show ?thesis using kv_idem by blast
next
  case (called cs k1)
  with ensure_merged [OF assms(3) [OF called(1)] called(2) called(4) assms(4)] show ?thesis by simp
qed

lemma lists_kv:
  assumes "kinv s" "with_client_read ra cid (\<lambda>cs. list_info (sel cs) lk desc info) s = (a, s')"
    and "\<And>cs. clientset_ok kinv kv cid cs \<Longrightarrow> client_ok kinv kv key lingers (sel cs)"
    and "\<And>t. r_name (info t) = r_name t"
  shows "kinv s' \<and> kv s' = kv s \<and> (\<forall>rs. a = Inr rs \<and> lk \<noteq> '''' \<longrightarrow> distinct (map r_name rs) \<and>
    set rs = info ` {t. \<exists>n. kv s (key n) = Some t \<and> has_key lk (r_labels t)})"
  using assms(1,2)
proof (cases rule: with_client_read_cases)
  case (failed e)
  then show ?thesis by simp
next
  case (called cs k1)
  obtain r k2 where l: "rc_List (sel cs) lk k1 = (r, k2)" by fastforce
  note L = client_okD(6) [OF assms(3) [OF called(1)] called(2) l]
  from called(4) l have s': "s' = k2" "a = (case r of Inl e \<Rightarrow> Inl (errorf desc e) | Inr objs \<Rightarrow> Inr (map info objs))"
    by (auto simp: list_info_def split: sum.splits)
  show ?thesis
    using L called(3) s' assms(4) by (cases r) (auto simp: comp_def)
qed

lemma real_names:
  "kinv s \<Longrightarrow> v_sas (kube_view kv s) (cid, ns, n) = Some r \<Longrightarrow> r_name r = n"
  "kinv s \<Longrightarrow> v_crbs (kube_view kv s) (cid, n) = Some r \<Longrightarrow> r_name r = n"
  "kinv s \<Longrightarrow> v_nss (kube_view kv s) (cid, n) = Some r \<Longrightarrow> r_name r = n"
  using names [of s "KSa cid ns n"] names [of s "KCrb cid n"] names [of s "KNs cid n"] by (auto simp: kube_view_at)

lemma real_GetNamespace:
  assumes "kinv s" "GetNamespace (real_shoot_ops ra) cid n s = (g, s')"
  shows "kinv s' \<and> kube_view kv s' = kube_view kv s \<and>
    (\<forall>x. g = Inr x \<longrightarrow> map_option r_labels x = map_option r_labels (v_nss (kube_view kv s) (cid, n)) \<and>
      map_option r_name x = map_option r_name (v_nss (kube_view kv s) (cid, n)))"
  using assms(1) assms(2) [simplified real_shoot_ops_def shoot_ops.simps RealGetNamespace_def]
proof (cases rule: with_client_read_cases)
  case (failed f)
  then show ?thesis using kube_view_same [of kv s' s] by simp
next
  case (called cs k1)
  obtain r k2 where r: "rc_Get (cs_Namespaces cs) n k1 = (r, k2)" by fastforce
  have ok: "client_ok kinv kv (KNs cid) True (cs_Namespaces cs)" using called by (simp add: clientset_ok_def)
  note G = client_okD(2) [OF ok called(2) r]
  have "k2 = s'" using called(4) r by (auto split: sum.splits if_splits)
  with G called(3) have kv: "kinv s'" "kv s' = kv s" by simp_all
  show ?thesis
    using kube_view_same [OF kv(2)] kv(1) G called(3,4) r by (cases r) (auto simp: kube_view_at split: if_splits)
qed

lemma real_EnsureNamespace:
  assumes "kinv s" "EnsureNamespace (real_shoot_ops ra) cid n s = (e, s')"
  shows "kinv s' \<and>
    (\<exists>x. kube_view kv s' = (kube_view kv s)\<lparr>v_nss := (v_nss (kube_view kv s))((cid, n) := x)\<rparr> \<and>
      (v_nss (kube_view kv s) (cid, n) \<noteq> None \<longrightarrow> x = v_nss (kube_view kv s) (cid, n)) \<and> (e = None \<longrightarrow> x \<noteq> None))"
proof -
  from assms obtain x where x: "kinv s'" "kv s' = (kv s)(KNs cid n := x)" "kv s (KNs cid n) \<noteq> None \<longrightarrow> x = kv s (KNs cid n)" "e = None \<longrightarrow> x \<noteq> None"
    using EnsureNamespace_kv [of s cid n e s'] by (auto simp: real_shoot_ops_def)
  show ?thesis
    using x kube_view_upd(3) [OF x(2)] by (intro conjI exI [of _ "map_option plain_info x"]) (auto simp: kube_view_at)
qed

lemma real_CreateNamespace:
  assumes "kinv s" "distinct (map fst l)" "CreateNamespace (real_shoot_ops ra) cid n l s = (e, s')"
  shows "kinv s' \<and>
    (\<exists>x. kube_view kv s' = (kube_view kv s)\<lparr>v_nss := (v_nss (kube_view kv s))((cid, n) := x)\<rparr> \<and>
      (v_nss (kube_view kv s) (cid, n) \<noteq> None \<longrightarrow> e \<noteq> None \<and> x = v_nss (kube_view kv s) (cid, n)) \<and>
      (e = None \<longrightarrow> (\<exists>r. x = Some r \<and> submap l (r_labels r))))"
proof -
  from assms obtain x where x: "kinv s'" "kv s' = (kv s)(KNs cid n := x)" "kv s (KNs cid n) \<noteq> None \<longrightarrow> e \<noteq> None \<and> x = kv s (KNs cid n)"
      "e = None \<longrightarrow> (\<exists>t. x = Some t \<and> kstored (plain_object n l []) t)"
    using CreateNamespace_kv [of s cid n l e s'] by (auto simp: real_shoot_ops_def)
  show ?thesis
    using x kube_view_upd(3) [OF x(2)] submap_le [OF assms(2)]
    by (intro conjI exI [of _ "map_option plain_info x"]) (auto simp: kube_view_at kstored_def)
qed

lemma real_UpdateNamespaceLabels:
  assumes "kinv s" "distinct (map fst l)" "UpdateNamespaceLabels (real_shoot_ops ra) cid n l s = (e, s')"
  shows "kinv s' \<and>
    (\<exists>x. kube_view kv s' = (kube_view kv s)\<lparr>v_nss := (v_nss (kube_view kv s))((cid, n) := x)\<rparr> \<and> (v_nss (kube_view kv s) (cid, n) = None \<longrightarrow> x = None) \<and>
      (\<forall>r. e = None \<and> v_nss (kube_view kv s) (cid, n) = Some r \<longrightarrow>
        (\<exists>r'. x = Some r' \<and> map_of (r_labels r') = map_of (r_labels r) ++ map_of l)))"
proof -
  from assms obtain x where x: "kinv s'" "kv s' = (kv s)(KNs cid n := x)" "kv s (KNs cid n) = None \<longrightarrow> x = None"
      "\<forall>t. e = None \<and> kv s (KNs cid n) = Some t \<longrightarrow> (\<exists>t'. x = Some t' \<and> map_of (r_labels t') = map_of (r_labels t) ++ map_of l)"
    using UpdateNamespaceLabels_kv [of s l cid n e s'] by (auto simp: real_shoot_ops_def)
  show ?thesis
    using x kube_view_upd(3) [OF x(2)]
    by (intro conjI exI [of _ "map_option plain_info x"]) (auto simp: kube_view_at)
qed

lemma real_DeleteNamespace:
  assumes "kinv s" "DeleteNamespace (real_shoot_ops ra) cid n s = (e, s')"
  shows "kinv s' \<and>
    (\<exists>x. kube_view kv s' = (kube_view kv s)\<lparr>v_nss := (v_nss (kube_view kv s))((cid, n) := x)\<rparr> \<and>
      (v_nss (kube_view kv s) (cid, n) = None \<longrightarrow> x = None))"
proof -
  from assms obtain x where x: "kinv s'" "kv s' = (kv s)(KNs cid n := x)" "kv s (KNs cid n) = None \<longrightarrow> x = None"
    using deletes_kv [of s cid cs_Namespaces n _ e s' "KNs cid" True]
    by (auto simp: real_shoot_ops_def RealDeleteNamespace_def clientset_ok_def)
  show ?thesis
    using x kube_view_upd(3) [OF x(2)] by (intro conjI exI [of _ "map_option plain_info x"]) (auto simp: kube_view_at)
qed

lemma real_EnsureLimitRange:
  assumes "kinv s" "distinct (map fst l)" "EnsureLimitRange (real_shoot_ops ra) cid ns d l s = (e, s')"
  shows "kinv s' \<and>
    (\<exists>x. kube_view kv s' = (kube_view kv s)\<lparr>v_lrs := (v_lrs (kube_view kv s))((cid, ns) := x)\<rparr> \<and>
      (e = None \<longrightarrow> (\<exists>lr. x = Some lr \<and> lr_defaults lr = d \<and> submap l (lr_labels lr))))"
proof -
  let ?t = "mk_object LimitRangeName l [] no_role_ref [] (limitRangeSpec d)"
  let ?m = "\<lambda>existing. (False, (mergeMeta l [] existing)\<lparr>ko_spec := ko_spec ?t\<rparr>)"
  have "kinv s' \<and> (\<exists>x. kv s' = (kv s)(KLr cid ns (r_name ?t) := x) \<and>
    (e = None \<longrightarrow> (\<exists>t'. x = Some t' \<and> kstored (ensured ?t ?m (kv s (KLr cid ns (r_name ?t)))) t')))"
    using assms names by (intro ensures_kv [of s cid "\<lambda>cs. cs_LimitRanges cs ns" ?t "lr_desc ns" ?m e s' "KLr cid ns" False])
      (auto simp: real_shoot_ops_def RealEnsureLimitRange_def clientset_ok_def Let_def mergeMeta_def)
  then obtain x where x: "kinv s'" "kv s' = (kv s)(KLr cid ns LimitRangeName := x)"
      "e = None \<longrightarrow> (\<exists>t'. x = Some t' \<and> kstored (ensured ?t ?m (kv s (KLr cid ns LimitRangeName))) t')" by auto
  have "\<exists>lr. map_option lr_info x = Some lr \<and> lr_defaults lr = d \<and> submap l (lr_labels lr)" if none: "e = None"
  proof -
    obtain t' where t': "x = Some t'" "kstored (ensured ?t ?m (kv s (KLr cid ns LimitRangeName))) t'"
      using x(3) none by blast
    then have "ko_spec t' = limitRangeSpec d" "map_of l \<subseteq>\<^sub>m map_of (r_labels t')"
      using assms(2) by (auto simp: kstored_def mergeMeta_def ensured_def split: option.splits intro: map_le_trans [rotated])
    then show ?thesis
      using t'(1) submap_le [OF assms(2)] by (simp add: limitRangeSpec_defaults)
  qed
  then show ?thesis
    using x(1) kube_view_upd(4) [OF x(2)] by blast
qed

lemma real_DeleteLimitRange:
  assumes "kinv s" "DeleteLimitRange (real_shoot_ops ra) cid ns s = (e, s')"
  shows "kinv s' \<and>
    (\<exists>x. kube_view kv s' = (kube_view kv s)\<lparr>v_lrs := (v_lrs (kube_view kv s))((cid, ns) := x)\<rparr> \<and> (e = None \<longrightarrow> x = None))"
proof -
  from assms obtain x where x: "kinv s'" "kv s' = (kv s)(KLr cid ns LimitRangeName := x)" "e = None \<longrightarrow> x = None"
    using deletes_kv [of s cid "\<lambda>cs. cs_LimitRanges cs ns" LimitRangeName _ e s' "KLr cid ns" False]
    by (auto simp: real_shoot_ops_def RealDeleteLimitRange_def clientset_ok_def)
  show ?thesis
    using x kube_view_upd(4) [OF x(2)] by (intro conjI exI [of _ "map_option lr_info x"]) auto
qed

lemma real_EnsureServiceAccount:
  assumes "kinv s" "distinct (map fst l)" "distinct (map fst an)" "EnsureServiceAccount (real_shoot_ops ra) cid ns n l an s = (e, s')"
  shows "kinv s' \<and>
    (\<exists>x. kube_view kv s' = (kube_view kv s)\<lparr>v_sas := (v_sas (kube_view kv s))((cid, ns, n) := x)\<rparr> \<and>
      (e = None \<longrightarrow> (\<exists>r. x = Some r \<and> submap l (r_labels r) \<and> submap an (r_annotations r))))"
proof -
  let ?t = "plain_object n l an"
  let ?m = "\<lambda>existing. (False, mergeMeta l an existing)"
  have "kinv s' \<and> (\<exists>x. kv s' = (kv s)(KSa cid ns (r_name ?t) := x) \<and>
    (e = None \<longrightarrow> (\<exists>t'. x = Some t' \<and> kstored (ensured ?t ?m (kv s (KSa cid ns (r_name ?t)))) t')))"
    using assms names by (intro ensures_kv [of s cid "\<lambda>cs. cs_ServiceAccounts cs ns" ?t "''SA '' @ ns @ ''/'' @ n" ?m e s' "KSa cid ns" False])
      (auto simp: real_shoot_ops_def RealEnsureServiceAccount_def clientset_ok_def mergeMeta_def)
  then obtain x where x: "kinv s'" "kv s' = (kv s)(KSa cid ns n := x)"
      "e = None \<longrightarrow> (\<exists>t'. x = Some t' \<and> kstored (ensured ?t ?m (kv s (KSa cid ns n))) t')" by auto
  have "\<exists>r. map_option plain_info x = Some r \<and> submap l (r_labels r) \<and> submap an (r_annotations r)" if "e = None"
    using x(3) that kstored_merged [OF assms(2,3)] submap_le [OF assms(2)] submap_le [OF assms(3)]
    by (auto simp: kstored_def ensured_def split: option.splits)
  then show ?thesis
    using x(1) kube_view_upd(1) [OF x(2)] by blast
qed

lemma real_EnsureClusterRoleBinding:
  assumes "kinv s" "distinct (map fst l)" "distinct (map fst an)" "EnsureClusterRoleBinding (real_shoot_ops ra) cid n sns sn l an s = (e, s')"
  shows "kinv s' \<and>
    (\<exists>x. kube_view kv s' = (kube_view kv s)\<lparr>v_crbs := (v_crbs (kube_view kv s))((cid, n) := x)\<rparr> \<and>
      (e = None \<longrightarrow> (\<exists>r. x = Some r \<and> submap l (r_labels r) \<and> submap an (r_annotations r) \<and>
        r_role_ref r = cluster_admin \<and> r_subjects r = [sa_subject sns sn])))"
proof -
  let ?t = "crb_object n sns sn l an"
  let ?m = "\<lambda>existing. if ClusterRoleBindingNeedsRecreate existing ?t then (True, existing)
      else (False, (mergeMeta l an existing)\<lparr>r_subjects := r_subjects ?t\<rparr>)"
  have nm: "r_name ?t = n" by (simp add: crb_object_def)
  have "kinv s' \<and> (\<exists>x. kv s' = (kv s)(KCrb cid (r_name ?t) := x) \<and>
    (e = None \<longrightarrow> (\<exists>t'. x = Some t' \<and> kstored (ensured ?t ?m (kv s (KCrb cid (r_name ?t)))) t')))"
    using assms names by (intro ensures_kv [of s cid cs_ClusterRoleBindings ?t "''CRB '' @ n" ?m e s' "KCrb cid" False])
      (auto simp: real_shoot_ops_def RealEnsureClusterRoleBinding_def clientset_ok_def Let_def mergeMeta_def nm)
  then obtain x where x: "kinv s'" "kv s' = (kv s)(KCrb cid n := x)"
      "e = None \<longrightarrow> (\<exists>t'. x = Some t' \<and> kstored (ensured ?t ?m (kv s (KCrb cid n))) t')"
    unfolding nm by auto
  have "\<exists>r. map_option full_info x = Some r \<and> submap l (r_labels r) \<and> submap an (r_annotations r) \<and>
      r_role_ref r = cluster_admin \<and> r_subjects r = [sa_subject sns sn]" if none: "e = None"
  proof -
    obtain t' where t': "x = Some t'" "kstored (ensured ?t ?m (kv s (KCrb cid n))) t'"
      using x(3) none by blast
    then have "map_of l \<subseteq>\<^sub>m map_of (r_labels t') \<and> map_of an \<subseteq>\<^sub>m map_of (r_annotations t') \<and>
        r_role_ref t' = cluster_admin \<and> r_subjects t' = [sa_subject sns sn]"
      using assms(2,3) by (auto simp: kstored_def crb_object_def ClusterRoleBindingNeedsRecreate_def mergeMeta_def ensured_def
          split: if_splits option.splits intro: map_le_trans [rotated])
    then show ?thesis
      using t'(1) submap_le [OF assms(2)] submap_le [OF assms(3)] by simp
  qed
  then show ?thesis
    using x(1) kube_view_upd(2) [OF x(2)] by blast
qed

lemma real_DeleteServiceAccount:
  assumes "kinv s" "DeleteServiceAccount (real_shoot_ops ra) cid ns n s = (e, s')"
  shows "kinv s' \<and>
    (\<exists>x. kube_view kv s' = (kube_view kv s)\<lparr>v_sas := (v_sas (kube_view kv s))((cid, ns, n) := x)\<rparr> \<and> (e = None \<longrightarrow> x = None))"
proof -
  from assms obtain x where x: "kinv s'" "kv s' = (kv s)(KSa cid ns n := x)" "e = None \<longrightarrow> x = None"
    using deletes_kv [of s cid "\<lambda>cs. cs_ServiceAccounts cs ns" n _ e s' "KSa cid ns" False]
    by (auto simp: real_shoot_ops_def RealDeleteServiceAccount_def clientset_ok_def)
  show ?thesis
    using x kube_view_upd(1) [OF x(2)] by (intro conjI exI [of _ "map_option plain_info x"]) auto
qed

lemma real_DeleteClusterRoleBinding:
  assumes "kinv s" "DeleteClusterRoleBinding (real_shoot_ops ra) cid n s = (e, s')"
  shows "kinv s' \<and>
    (\<exists>x. kube_view kv s' = (kube_view kv s)\<lparr>v_crbs := (v_crbs (kube_view kv s))((cid, n) := x)\<rparr> \<and> (e = None \<longrightarrow> x = None))"
proof -
  from assms obtain x where x: "kinv s'" "kv s' = (kv s)(KCrb cid n := x)" "e = None \<longrightarrow> x = None"
    using deletes_kv [of s cid cs_ClusterRoleBindings n _ e s' "KCrb cid" False]
    by (auto simp: real_shoot_ops_def RealDeleteClusterRoleBinding_def clientset_ok_def)
  show ?thesis
    using x kube_view_upd(2) [OF x(2)] by (intro conjI exI [of _ "map_option full_info x"]) auto
qed

lemma real_ListNamespaces:
  assumes "kinv s" "ListNamespaces (real_shoot_ops ra) cid lk s = (a, s')"
  shows "kinv s' \<and> kube_view kv s' = kube_view kv s \<and>
    (\<forall>rs. a = Inr rs \<and> lk \<noteq> '''' \<longrightarrow> distinct (map r_name rs) \<and>
       (\<forall>n l. (\<exists>r\<in>set rs. r_name r = n \<and> r_labels r = l) \<longleftrightarrow>
         (\<exists>r. v_nss (kube_view kv s) (cid, n) = Some r \<and> r_labels r = l \<and> has_key lk l)))"
proof -
  have "kinv s' \<and> kv s' = kv s \<and> (\<forall>rs. a = Inr rs \<and> lk \<noteq> '''' \<longrightarrow> distinct (map r_name rs) \<and>
      set rs = plain_info ` {t. \<exists>n. kv s (KNs cid n) = Some t \<and> has_key lk (r_labels t)})"
    using assms by (intro lists_kv [of s cid "cs_Namespaces" lk _ plain_info a s' "KNs cid" True])
      (simp_all add: real_shoot_ops_def RealListNamespaces_def clientset_ok_def)
  then have L: "kinv s'" "kube_view kv s' = kube_view kv s"
    and rs: "\<And>rs. a = Inr rs \<and> lk \<noteq> '''' \<Longrightarrow> distinct (map r_name rs) \<and>
      set rs = plain_info ` {t. \<exists>n. kv s (KNs cid n) = Some t \<and> has_key lk (r_labels t)}"
    using kube_view_same by auto
  show ?thesis
    using L rs names [OF assms(1), of "KNs cid n" for n] by (fastforce simp: kube_view_at)
qed

lemma real_ListServiceAccounts:
  assumes "kinv s" "ListServiceAccounts (real_shoot_ops ra) cid ns lk s = (a, s')"
  shows "kinv s' \<and> kube_view kv s' = kube_view kv s \<and>
    (\<forall>rs. a = Inr rs \<and> lk \<noteq> '''' \<longrightarrow> distinct (map r_name rs) \<and>
       set rs = {r. \<exists>n. v_sas (kube_view kv s) (cid, ns, n) = Some r \<and> has_key lk (r_labels r)})"
proof -
  have "kinv s' \<and> kv s' = kv s \<and> (\<forall>rs. a = Inr rs \<and> lk \<noteq> '''' \<longrightarrow> distinct (map r_name rs) \<and>
      set rs = plain_info ` {t. \<exists>n. kv s (KSa cid ns n) = Some t \<and> has_key lk (r_labels t)})"
    using assms by (intro lists_kv [of s cid "\<lambda>cs. cs_ServiceAccounts cs ns" lk _ plain_info a s' "KSa cid ns" False])
      (simp_all add: real_shoot_ops_def RealListServiceAccounts_def clientset_ok_def)
  then show ?thesis
    using kube_view_same [of kv s' s] by (auto simp: kube_view_at)
qed

lemma real_ListClusterRoleBindings:
  assumes "kinv s" "ListClusterRoleBindings (real_shoot_ops ra) cid lk s = (a, s')"
  shows "kinv s' \<and> kube_view kv s' = kube_view kv s \<and>
    (\<forall>rs. a = Inr rs \<and> lk \<noteq> '''' \<longrightarrow> distinct (map r_name rs) \<and>
       set rs = {r. \<exists>n. v_crbs (kube_view kv s) (cid, n) = Some r \<and> has_key lk (r_labels r)})"
proof -
  have "kinv s' \<and> kv s' = kv s \<and> (\<forall>rs. a = Inr rs \<and> lk \<noteq> '''' \<longrightarrow> distinct (map r_name rs) \<and>
      set rs = full_info ` {t. \<exists>n. kv s (KCrb cid n) = Some t \<and> has_key lk (r_labels t)})"
    using assms by (intro lists_kv [of s cid "cs_ClusterRoleBindings" lk _ full_info a s' "KCrb cid" False])
      (simp_all add: real_shoot_ops_def RealListClusterRoleBindings_def clientset_ok_def)
  then show ?thesis
    using kube_view_same [of kv s' s] by (auto simp: kube_view_at)
qed

lemmas real_laws = real_names real_EnsureNamespace real_GetNamespace real_CreateNamespace real_UpdateNamespaceLabels
  real_DeleteNamespace real_ListNamespaces real_EnsureLimitRange real_DeleteLimitRange real_EnsureServiceAccount
  real_EnsureClusterRoleBinding real_DeleteServiceAccount real_DeleteClusterRoleBinding real_ListServiceAccounts
  real_ListClusterRoleBindings

lemma real_shoot_access: "shoot_access (real_shoot_ops ra) kinv (kube_view kv)"
  by unfold_locales (rule real_laws; assumption)+

end

sublocale kube_api \<subseteq> real: shoot_access "real_shoot_ops ra" kinv "kube_view kv"
  by (rule real_shoot_access)

section \<open>An API server in memory\<close>

text \<open>A server that keeps its objects in a list and never fails satisfies the laws.\<close>

type_synonym mem_kube = "(kkey \<times> kobject) list"

definition mem_inv :: "mem_kube \<Rightarrow> bool" where
  "mem_inv k \<longleftrightarrow> distinct (map fst k) \<and> (\<forall>(key, t)\<in>set k. r_name t = key_name key)"

definition mem_view :: "mem_kube \<Rightarrow> kkey \<Rightarrow> kobject option" where
  "mem_view k = map_of k"

definition mem_client :: "(string \<Rightarrow> kkey) \<Rightarrow> mem_kube res_client" where
  "mem_client key =
     \<lparr>rc_Create = \<lambda>t k. if map_of k (key (r_name t)) \<noteq> None then (Some (AlreadyExists (r_name t)), k)
        else (None, (key (r_name t), t) # k),
      rc_Get = \<lambda>n k. (case map_of k (key n) of None \<Rightarrow> (Inl (NotFound n), k) | Some t \<Rightarrow> (Inr t, k)),
      rc_Update = \<lambda>t k. if map_of k (key (r_name t)) = None then (Some (NotFound (r_name t)), k)
        else (None, AList.update (key (r_name t)) t k),
      rc_Delete = \<lambda>n k. if map_of k (key n) = None then (Some (NotFound n), k) else (None, AList.delete (key n) k),
      rc_Patch = \<lambda>n l k. (case map_of k (key n) of None \<Rightarrow> (Some (NotFound n), k)
        | Some t \<Rightarrow> (None, AList.update (key n) (t\<lparr>r_labels := maps_copy (r_labels t) l\<rparr>) k)),
      rc_List = \<lambda>lk k. (Inr (map snd (filter (\<lambda>(kk, t). kk = key (key_name kk) \<and> has_key lk (r_labels t)) k)), k)\<rparr>"

definition mem_clientset :: "uuid \<Rightarrow> mem_kube clientset" where
  "mem_clientset cid = \<lparr>cs_Namespaces = mem_client (KNs cid), cs_ServiceAccounts = \<lambda>ns. mem_client (KSa cid ns),
     cs_ClusterRoleBindings = mem_client (KCrb cid), cs_LimitRanges = \<lambda>ns. mem_client (KLr cid ns)\<rparr>"

text \<open>As in production, without \<open>newClient\<close>: the kubeconfig is the text of the cluster's identifier.\<close>

definition mem_access :: "(uuid \<Rightarrow> string) \<Rightarrow> (string \<Rightarrow> uuid option) \<Rightarrow> (mem_kube, uuid) real_access" where
  "mem_access us up = \<lparr>ra_newClient = None, ra_request = \<lambda>cid s k. (Inr (us cid), k),
     ra_config = \<lambda>kc. (case up kc of None \<Rightarrow> Inl (ErrNew ''invalid kubeconfig'') | Some cid \<Rightarrow> Inr cid),
     ra_clientset = \<lambda>cid. Inr (mem_clientset cid)\<rparr>"

lemma mem_inv_iff: "mem_inv k \<longleftrightarrow> distinct (map fst k) \<and> (\<forall>key t. map_of k key = Some t \<longrightarrow> r_name t = key_name key)"
  by (auto simp: mem_inv_def dest: map_of_SomeD)

lemma mem_inv_update [intro]:
  "mem_inv k \<Longrightarrow> r_name t = key_name key \<Longrightarrow> mem_inv (AList.update key t k)"
  by (auto simp: mem_inv_iff distinct_update update_conv')

lemma mem_inv_Cons:
  "mem_inv k \<Longrightarrow> map_of k key = None \<Longrightarrow> r_name t = key_name key \<Longrightarrow> mem_inv ((key, t) # k)"
  by (auto simp: mem_inv_def map_of_eq_None_iff)

lemma mem_inv_delete [intro]: "mem_inv k \<Longrightarrow> mem_inv (AList.delete key k)"
  by (auto simp: mem_inv_iff distinct_delete delete_conv' split: if_splits)

lemma mem_inv_name: "mem_inv k \<Longrightarrow> map_of k key = Some t \<Longrightarrow> r_name t = key_name key"
  by (simp add: mem_inv_iff)

lemma mem_list:
  assumes "mem_inv k" "\<And>n. key_name (key n) = n"
  shows "distinct (map r_name (map snd (filter (\<lambda>(kk, t). kk = key (key_name kk) \<and> has_key lk (r_labels t)) k)))"
    and "set (map snd (filter (\<lambda>(kk, t). kk = key (key_name kk) \<and> has_key lk (r_labels t)) k)) =
      {t. \<exists>n. map_of k (key n) = Some t \<and> has_key lk (r_labels t)}"
proof -
  let ?f = "filter (\<lambda>(kk, t). kk = key (key_name kk) \<and> has_key lk (r_labels t)) k"
  have "map r_name (map snd ?f) = map key_name (map fst ?f)"
    using assms(1) by (auto simp: mem_inv_def)
  moreover have "distinct (map fst ?f)" using assms(1) by (simp add: mem_inv_def distinct_map_filter)
  moreover have "inj_on key_name (set (map fst ?f))"
  proof (rule inj_onI)
    fix x y assume "x \<in> set (map fst ?f)" "y \<in> set (map fst ?f)" "key_name x = key_name y"
    moreover from this have "x = key (key_name x)" "y = key (key_name y)" by auto
    ultimately show "x = y" by simp
  qed
  ultimately show "distinct (map r_name (map snd ?f))" by (simp add: distinct_map del: map_map)
  have "distinct (map fst k)" using assms(1) by (simp add: mem_inv_def)
  then show "set (map snd ?f) = {t. \<exists>n. map_of k (key n) = Some t \<and> has_key lk (r_labels t)}"
    using assms(2) by (auto simp: image_iff) metis+
qed

lemma mem_client_ok:
  assumes key: "\<And>n. key_name (key n) = n"
  shows "client_ok mem_inv mem_view key lingers (mem_client key)"
  unfolding client_ok_def mem_view_def
proof (intro conjI [of "\<forall>t k e k'. _ t k e k'"] conjI [of "\<forall>n l k e k'. _ n l k e k'"] allI impI, goal_cases)
  case (1 t k e k')
  then show ?case
    by (cases "map_of k (key (r_name t))") (auto simp: mem_client_def mem_inv_Cons key kstored_def fun_eq_iff)
next
  case (2 n k r k')
  then show ?case by (cases "map_of k (key n)") (auto simp: mem_client_def)
next
  case (3 t k e k')
  then show ?case
    by (cases "map_of k (key (r_name t))") (auto simp: mem_client_def key kstored_def update_conv' fun_upd_idem intro: exI [of _ None])
next
  case (4 n k e k')
  then show ?case
    by (cases "map_of k (key n)") (auto simp: mem_client_def delete_conv')
next
  case (5 n l k e k')
  then show ?case
    by (cases "map_of k (key n)") (auto simp: mem_client_def key update_conv' mem_inv_name)
next
  case (6 lk k r k')
  then show ?case
    using mem_list [OF 6(1) key] by (auto simp: mem_client_def simp del: map_map set_map)
qed

interpretation mem: kube_api "mem_access dec_us dec_up" mem_inv mem_view
proof (unfold_locales, goal_cases)
  case (1 k key t)
  then show ?case by (simp add: mem_inv_name mem_view_def)
next
  case (2 f k cid r k')
  then show ?case by (simp add: mem_access_def)
next
  case (3 k cid s kc k')
  then show ?case
    using dec_text by (auto simp: mem_access_def clientset_ok_def mem_clientset_def mem_client_ok uuid_text_def)
qed

section \<open>Properties\<close>

lemma map_leD: "f \<subseteq>\<^sub>m g \<Longrightarrow> f x = Some y \<Longrightarrow> g x = Some y"
  by (auto simp: map_le_def dest: bspec [of _ _ x])

lemma ensured_ServiceAccount:
  assumes "distinct (map fst l)" "kstored (ensured (plain_object n l an) (\<lambda>existing. (False, mergeMeta l an existing)) (Some t)) t'"
  shows "map_of (r_labels t) ++ map_of l \<subseteq>\<^sub>m map_of (r_labels t')"
  using assms by (simp add: ensured_def kstored_def mergeMeta_def)



text \<open>Ensuring a ServiceAccount that exists adopts it. When the call succeeds, the requested labels
  are set, and a label somebody else added is still there with its value; no other object changed.\<close>

theorem EnsureServiceAccount_adopts:
  assumes "kube_api ra kinv kv" "kinv k" "distinct (map fst l)" "distinct (map fst an)"
    and "kv k (KSa cid ns n) = Some t" "RealEnsureServiceAccount ra cid ns n l an k = (None, k')"
  shows "\<exists>t'. kv k' = (kv k)(KSa cid ns n \<mapsto> t') \<and>
    (\<forall>key v. (map_of (r_labels t) ++ map_of l) key = Some v \<longrightarrow> map_of (r_labels t') key = Some v)"
proof -
  let ?t = "plain_object n l an"
  let ?m = "\<lambda>existing. (False, mergeMeta l an existing)"
  have "kinv k' \<and> (\<exists>x. kv k' = (kv k)(KSa cid ns (r_name ?t) := x) \<and>
    (None = (None :: gerr option) \<longrightarrow> (\<exists>t'. x = Some t' \<and> kstored (ensured ?t ?m (kv k (KSa cid ns (r_name ?t)))) t')))"
    using assms kube_api.names [OF assms(1)]
    by (intro kube_api.ensures_kv [OF assms(1), of k cid "\<lambda>cs. cs_ServiceAccounts cs ns" ?t "''SA '' @ ns @ ''/'' @ n" ?m None k' "KSa cid ns" False])
      (auto simp: RealEnsureServiceAccount_def clientset_ok_def mergeMeta_def)
  then obtain t' where t': "kv k' = (kv k)(KSa cid ns n \<mapsto> t')" "kstored (ensured ?t ?m (Some t)) t'"
    using assms(5) by auto
  show ?thesis
    using t'(1) map_leD [OF ensured_ServiceAccount [OF assms(3) t'(2)]] by blast
qed

definition sample_api :: mem_kube where
  "sample_api = [(KSa 1 ''fundament'' ''sa'', plain_object ''sa'' [(''owner'', ''ops'')] [])]"

lemma sample_api_run:
  "fst (RealEnsureServiceAccount (mem_access dec_us dec_up) 1 ''fundament'' ''sa'' [(''fundament.io/user'', ''7'')] [] sample_api) = None"
  by code_simp

theorem EnsureServiceAccount_adopts_witness:
  "\<exists>t' k'. RealEnsureServiceAccount (mem_access dec_us dec_up) 1 ''fundament'' ''sa'' [(''fundament.io/user'', ''7'')] [] sample_api = (None, k') \<and>
     mem_view k' = (mem_view sample_api)(KSa 1 ''fundament'' ''sa'' \<mapsto> t') \<and> map_of (r_labels t') ''owner'' = Some ''ops''"
proof -
  obtain k' where k': "RealEnsureServiceAccount (mem_access dec_us dec_up) 1 ''fundament'' ''sa'' [(''fundament.io/user'', ''7'')] [] sample_api = (None, k')"
    using sample_api_run by (metis prod.collapse)
  have inv: "mem_inv sample_api" by (simp add: sample_api_def mem_inv_def)
  have at: "mem_view sample_api (KSa 1 ''fundament'' ''sa'') = Some (plain_object ''sa'' [(''owner'', ''ops'')] [])"
    by (simp add: sample_api_def mem_view_def)
  show ?thesis
    using EnsureServiceAccount_adopts [OF mem.kube_api_axioms inv _ _ at k'] k' by (auto simp: map_add_Some_iff)
qed

text \<open>The LimitRange carries the defaults. The quantities \<open>limitRangeSpec\<close> writes, read back in
  millicores and mebibytes, are the defaults of the namespace: a value that is not set is not written, and
  none is written under the other's name or list.\<close>

theorem limitRangeSpec_roundtrip:
  "defaults_of_spec (limitRangeSpec d) = d"
  by (rule limitRangeSpec_defaults)

end
