(* ===== verification/ApiToken.thy ===== *)
theory ApiToken
  imports Sha256 Go_Errors
begin

text \<open>
  API tokens (\<open>common/apitoken/token.go\<close>): generation, the offline format check with its CRC-32 checksum,
  and the hash that is stored. The random source is a parameter.
\<close>

unbundle bit_operations_syntax

section \<open>The checksum of the standard library\<close>

text \<open>\<open>hash/crc32.ChecksumIEEE\<close>: the reflected polynomial of IEEE 802.3, one bit at a time.\<close>

definition crc_poly :: "32 word" where "crc_poly = 0xEDB88320"

definition crc_bit :: "32 word \<Rightarrow> 32 word" where
  "crc_bit s = (if bit s 0 then drop_bit 1 s XOR crc_poly else drop_bit 1 s)"

definition crc_byte :: "32 word \<Rightarrow> byte \<Rightarrow> 32 word" where
  "crc_byte s b = (crc_bit ^^ 8) (s XOR ucast b)"

definition ChecksumIEEE :: "byte list \<Rightarrow> 32 word" where
  "ChecksumIEEE bs = NOT (foldl crc_byte (NOT 0) bs)"

section \<open>Tokens\<close>

definition Prefix :: string where "Prefix = ''fun_''"
definition RandomLength :: nat where "RandomLength = 30"
definition ChecksumLength :: nat where "ChecksumLength = 6"
definition TotalLength :: nat where "TotalLength = 4 + RandomLength + ChecksumLength"
definition PrefixDisplayLength :: nat where "PrefixDisplayLength = 8"

definition base62Chars :: string where
  "base62Chars = ''0123456789ABCDEFGHIJKLMNOPQRSTUVWXYZabcdefghijklmnopqrstuvwxyz''"

definition isBase62 :: "char \<Rightarrow> bool" where
  "isBase62 b \<longleftrightarrow> (let n = of_char b :: nat in 48 \<le> n \<and> n \<le> 57 \<or> 65 \<le> n \<and> n \<le> 90 \<or> 97 \<le> n \<and> n \<le> 122)"

text \<open>The loop of \<open>encodeBase62\<close>: the digits, least significant first.\<close>

fun base62_digits :: "nat \<Rightarrow> string" where
  "base62_digits num = (if num = 0 then [] else base62Chars ! (num mod 62) # base62_digits (num div 62))"

declare base62_digits.simps [simp del]

definition encodeBase62 :: "nat \<Rightarrow> nat \<Rightarrow> string" where
  "encodeBase62 num minLen =
     (if num = 0 then replicate minLen (CHR ''0'')
      else let result = rev (base62_digits num) in replicate (minLen - length result) (CHR ''0'') @ result)"

text \<open>\<open>rnd i\<close> is what the \<open>i\<close>-th \<open>rand.Int(rand.Reader, 62)\<close> returns.\<close>

fun base62_loop :: "(nat \<Rightarrow> gerr + nat) \<Rightarrow> nat \<Rightarrow> nat \<Rightarrow> gerr + string" where
  "base62_loop rnd i 0 = Inr []"
| "base62_loop rnd i (Suc n) =
     (case rnd i of
        Inl e \<Rightarrow> Inl (errorf ''rand int'' e)
      | Inr d \<Rightarrow> bind_sum (base62_loop rnd (Suc i) n) (\<lambda>cs. Inr (base62Chars ! d # cs)))"

definition generateBase62 :: "(nat \<Rightarrow> gerr + nat) \<Rightarrow> nat \<Rightarrow> gerr + string" where
  "generateBase62 rnd len = base62_loop rnd 0 len"

definition Hash :: "string \<Rightarrow> byte list" where
  "Hash token = Sum256 (bytes_of token)"

definition checksum_text :: "string \<Rightarrow> string" where
  "checksum_text partialToken = encodeBase62 (unat (ChecksumIEEE (bytes_of partialToken))) ChecksumLength"

definition GenerateToken :: "(nat \<Rightarrow> gerr + nat) \<Rightarrow> gerr + string \<times> byte list" where
  "GenerateToken rnd =
     (case generateBase62 rnd RandomLength of
        Inl e \<Rightarrow> Inl (errorf ''generate random'' e)
      | Inr randomPart \<Rightarrow>
          let partialToken = Prefix @ randomPart;
              token = partialToken @ checksum_text partialToken
          in Inr (token, Hash token))"

definition bad_position :: "string \<Rightarrow> nat option" where
  "bad_position token = find (\<lambda>i. \<not> isBase62 (token ! i)) [length Prefix..<length token]"

definition ValidateFormat :: "string \<Rightarrow> gerr option" where
  "ValidateFormat token =
     (if length token \<noteq> TotalLength
      then Some (ErrNew (''invalid token length: expected '' @ nat_str TotalLength @ '', got '' @ nat_str (length token)))
      else if take (length Prefix) token \<noteq> Prefix then Some (ErrNew ''invalid token prefix'')
      else case bad_position token of
             Some i \<Rightarrow> Some (ErrNew (''invalid character at position '' @ nat_str i))
           | None \<Rightarrow>
               let partialToken = take (length Prefix + RandomLength) token;
                   checksumStr = drop (length Prefix + RandomLength) token
               in if checksumStr \<noteq> checksum_text partialToken then Some (ErrNew ''invalid checksum'') else None)"

definition GetPrefix :: "string \<Rightarrow> string" where
  "GetPrefix token = (if length token < PrefixDisplayLength then token else take PrefixDisplayLength token)"

definition IsAPIToken :: "string \<Rightarrow> bool" where
  "IsAPIToken s \<longleftrightarrow> take (length Prefix) s = Prefix"

section \<open>Lemmas: the checksum tells apart texts that differ in one byte\<close>

lemma xor_cancel:
  fixes x y z :: "'a::len word"
  shows "x XOR z = y XOR z \<Longrightarrow> x = y" "z XOR x = z XOR y \<Longrightarrow> x = y"
  by (auto simp: bit_eq_iff bit_xor_iff)

lemma crc_bit_top: "bit (crc_bit s) 31 = bit s 0"
proof -
  have "\<not> bit s 32" using bit_imp_le_length [of s 32] by auto
  then show ?thesis by (simp add: crc_bit_def crc_poly_def bit_simps)
qed

lemma crc_bit_inj: "crc_bit s = crc_bit t \<Longrightarrow> s = t"
proof -
  assume eq: "crc_bit s = crc_bit t"
  then have b0: "bit s 0 = bit t 0" using crc_bit_top by metis
  then have d: "drop_bit 1 s = drop_bit 1 t"
    using eq xor_cancel(1) by (auto simp: crc_bit_def split: if_splits)
  show "s = t"
  proof (rule bit_eqI)
    fix n show "bit s n = bit t n"
    proof (cases n)
      case (Suc m)
      have "bit (drop_bit 1 s) m = bit (drop_bit 1 t) m" by (simp only: d)
      then show ?thesis by (simp add: bit_drop_bit_eq Suc)
    qed (simp only: b0)
  qed
qed

lemma crc_bits_inj: "(crc_bit ^^ n) s = (crc_bit ^^ n) t \<Longrightarrow> s = t"
  by (induction n) (auto dest: crc_bit_inj)

lemma ucast_byte_inj: "(ucast (b :: byte) :: 32 word) = ucast c \<Longrightarrow> b = c"
proof (rule bit_word_eqI)
  fix n assume eq: "(ucast b :: 32 word) = ucast c" and "n < LENGTH(8)"
  then have "bit (ucast b :: 32 word) n = bit (ucast c :: 32 word) n" "n < LENGTH(32)" by simp_all
  then show "bit b n = bit c n" by (simp add: bit_ucast_iff)
qed

lemma crc_byte_inj:
  "crc_byte s b = crc_byte t b \<Longrightarrow> s = t" "crc_byte s b = crc_byte s c \<Longrightarrow> b = c"
  unfolding crc_byte_def by (auto dest!: crc_bits_inj xor_cancel ucast_byte_inj)

lemma foldl_crc_inj: "foldl crc_byte s bs = foldl crc_byte t bs \<Longrightarrow> s = t"
  by (induction bs arbitrary: s t) (auto dest: crc_byte_inj)

lemma crc_one_byte: "ChecksumIEEE (xs @ b # ys) = ChecksumIEEE (xs @ c # ys) \<Longrightarrow> b = c"
  by (auto simp: ChecksumIEEE_def dest!: foldl_crc_inj crc_byte_inj(2))

lemma byte_of_char_inj: "(word_of_nat (of_char a) :: byte) = word_of_nat (of_char b) \<Longrightarrow> a = b"
  by (drule arg_cong [of _ _ unat]) (simp add: unat_of_nat)

section \<open>Lemmas: base 62\<close>

lemma base62_chars: "length base62Chars = 62" "list_all isBase62 base62Chars" "distinct base62Chars"
  by (simp add: base62Chars_def, simp add: base62Chars_def isBase62_def Let_def, simp add: base62Chars_def)

lemma base62_table: "i < 62 \<Longrightarrow> isBase62 (base62Chars ! i)"
  using base62_chars by (simp add: list_all_length)

lemma base62_digits_0 [simp]: "base62_digits 0 = []"
  by (simp add: base62_digits.simps)

lemma base62_digits_char: "c \<in> set (base62_digits n) \<Longrightarrow> isBase62 c"
proof (induction n rule: base62_digits.induct)
  case (1 n)
  have "n \<noteq> 0" using 1(2) by (cases "n = 0") simp_all
  moreover from this have "c = base62Chars ! (n mod 62) \<or> c \<in> set (base62_digits (n div 62))"
    using 1(2) base62_digits.simps [of n] by simp
  ultimately show ?case using 1(1) base62_table by auto
qed

lemma base62_digits_length: "n < 62 ^ k \<Longrightarrow> length (base62_digits n) \<le> k"
proof (induction k arbitrary: n)
  case (Suc k)
  then have "n div 62 < 62 ^ k" by (simp add: less_mult_imp_div_less mult.commute)
  with Suc.IH show ?case by (subst base62_digits.simps) simp
qed simp

text \<open>The value of a text in base 62.\<close>

definition digit_of :: "char \<Rightarrow> nat" where
  "digit_of c = length (takeWhile (\<lambda>d. d \<noteq> c) base62Chars)"

definition base62_value :: "string \<Rightarrow> nat" where
  "base62_value cs = foldl (\<lambda>v c. 62 * v + digit_of c) 0 cs"

lemma length_takeWhile_nth: "distinct xs \<Longrightarrow> i < length xs \<Longrightarrow> length (takeWhile (\<lambda>d. d \<noteq> xs ! i) xs) = i"
  by (induction xs arbitrary: i) (auto simp: nth_Cons split: nat.splits)

lemma digit_of_nth: "i < 62 \<Longrightarrow> digit_of (base62Chars ! i) = i"
  using length_takeWhile_nth [OF base62_chars(3)] by (simp add: digit_of_def base62_chars(1))

lemma base62_value_snoc: "base62_value (cs @ [c]) = 62 * base62_value cs + digit_of c"
  by (simp add: base62_value_def)

lemma base62_value_digits: "base62_value (rev (base62_digits n)) = n"
proof (induction n rule: base62_digits.induct)
  case (1 n)
  show ?case
  proof (cases "n = 0")
    case True
    then show ?thesis by (simp add: base62_value_def)
  next
    case False
    with 1 show ?thesis
      by (subst base62_digits.simps) (simp add: base62_value_snoc digit_of_nth)
  qed
qed

lemma base62_value_pad: "base62_value (replicate k (CHR ''0'') @ cs) = base62_value cs"
proof (induction k)
  case (Suc k)
  have "digit_of (CHR ''0'') = 0" by code_simp
  then show ?case using Suc by (simp add: base62_value_def)
qed simp

lemma encode_value: "base62_value (encodeBase62 n k) = n"
proof (cases "n = 0")
  case True
  then show ?thesis using base62_value_pad [of k "[]"] by (simp add: encodeBase62_def base62_value_def)
qed (simp add: encodeBase62_def Let_def base62_value_pad base62_value_digits)

lemma encode_shape:
  assumes "n < 62 ^ k"
  shows "length (encodeBase62 n k) = k" "\<forall>c\<in>set (encodeBase62 n k). isBase62 c"
proof -
  show "length (encodeBase62 n k) = k"
    using base62_digits_length [OF assms] by (simp add: encodeBase62_def Let_def)
  have "isBase62 (CHR ''0'')" by code_simp
  then show "\<forall>c\<in>set (encodeBase62 n k). isBase62 c"
    using base62_digits_char by (auto simp: encodeBase62_def Let_def)
qed

section \<open>Lemmas: generated tokens\<close>

lemma checksum_shape: "length (checksum_text s) = 6" "\<forall>c\<in>set (checksum_text s). isBase62 c"
proof -
  have "unat (ChecksumIEEE (bytes_of s)) < 62 ^ 6"
    using unsigned_less [where ?'a=nat, of "ChecksumIEEE (bytes_of s)"] by simp
  from encode_shape [OF this] show "length (checksum_text s) = 6" "\<forall>c\<in>set (checksum_text s). isBase62 c"
    by (simp_all add: checksum_text_def ChecksumLength_def)
qed

lemma checksum_one_char: "checksum_text (xs @ a # ys) = checksum_text (xs @ b # ys) \<Longrightarrow> a = b"
proof -
  assume "checksum_text (xs @ a # ys) = checksum_text (xs @ b # ys)"
  then have "unat (ChecksumIEEE (bytes_of (xs @ a # ys))) = unat (ChecksumIEEE (bytes_of (xs @ b # ys)))"
    unfolding checksum_text_def by (metis encode_value)
  then have "ChecksumIEEE (bytes_of (xs @ a # ys)) = ChecksumIEEE (bytes_of (xs @ b # ys))" by (rule word_unat_eq_iff [THEN iffD2])
  then show "a = b"
    unfolding bytes_of_def map_append list.map by (blast dest: crc_one_byte byte_of_char_inj)
qed

lemma base62_loop_shape:
  assumes "base62_loop rnd i n = Inr cs" "\<And>j d. rnd j = Inr d \<Longrightarrow> d < 62"
  shows "length cs = n \<and> (\<forall>c\<in>set cs. isBase62 c)"
  using assms by (induction n arbitrary: i cs) (auto split: sum.splits simp: bind_sum_Inr_iff base62_table)

lemma length_Prefix: "length Prefix = 4"
  by (simp add: Prefix_def)

lemma bad_position_None: "bad_position t = None \<longleftrightarrow> (\<forall>c\<in>set (drop 4 t). isBase62 c)"
proof -
  have "drop 4 (map ((!) t) [0..<length t]) = map ((!) t) [4..<length t]" by (simp add: drop_map)
  then have "set (drop 4 t) = (!) t ` {4..<length t}" by (simp add: map_nth)
  then show ?thesis by (auto simp: bad_position_def find_None_iff length_Prefix)
qed

lemma ValidateFormat_None:
  "ValidateFormat t = None \<longleftrightarrow> length t = 40 \<and> take 4 t = Prefix \<and> (\<forall>c\<in>set (drop 4 t). isBase62 c) \<and>
     drop 34 t = checksum_text (take 34 t)"
  using bad_position_None [of t]
  by (auto simp: ValidateFormat_def Let_def TotalLength_def RandomLength_def ChecksumLength_def length_Prefix
      split: option.splits)

lemma typo_in_partial:
  assumes "i < 34" "length t = 40" "c \<noteq> t ! i"
  shows "checksum_text (take 34 (t[i := c])) \<noteq> checksum_text (take 34 t)"
proof -
  have t: "take 34 t = take i (take 34 t) @ t ! i # drop (Suc i) (take 34 t)"
    using assms(1,2) id_take_nth_drop [of i "take 34 t"] by simp
  moreover have "take 34 (t[i := c]) = take i (take 34 t) @ c # drop (Suc i) (take 34 t)"
    using assms(1,2) by (simp add: take_update_swap upd_conv_take_nth_drop [of i "take 34 t"])
  ultimately show ?thesis
    using checksum_one_char assms(3) by metis
qed

lemma typo_detected:
  assumes "ValidateFormat t = None" "i < length t" "c \<noteq> t ! i"
  shows "ValidateFormat (t[i := c]) \<noteq> None"
proof
  assume new: "ValidateFormat (t[i := c]) = None"
  note v = assms(1) [unfolded ValidateFormat_None] and n = new [unfolded ValidateFormat_None]
  consider "i < 4" | "4 \<le> i" "i < 34" | "34 \<le> i" by linarith
  then show False
  proof cases
    case 1
    have "take 4 (t[i := c]) ! i = take 4 t ! i" using v n by simp
    with 1 assms(2,3) show False by simp
  next
    case 2
    then have "drop 34 (t[i := c]) = drop 34 t" by simp
    with v n typo_in_partial [OF 2(2) _ assms(3)] show False by simp
  next
    case 3
    then have "take 34 (t[i := c]) = take 34 t" by simp
    then have "drop 34 (t[i := c]) = drop 34 t" using v n by simp
    then have "drop 34 (t[i := c]) ! (i - 34) = drop 34 t ! (i - 34)" by simp
    with 3 assms(2,3) show False by simp
  qed
qed

section \<open>Properties\<close>

text \<open>C24: generated tokens are accepted, and typing errors are not. With a random source that returns
  digits below 62, every token \<open>GenerateToken\<close> returns passes \<open>ValidateFormat\<close> and is recognised as an API token, its hash is
  the one the lookup computes, and a token with any one of its characters replaced by another is
  refused without a database lookup.\<close>

theorem GenerateToken_checked:
  assumes "\<And>i d. rnd i = Inr d \<Longrightarrow> d < 62" "GenerateToken rnd = Inr (token, hash)"
  shows "ValidateFormat token = None \<and> IsAPIToken token \<and> hash = Hash token \<and>
    (\<forall>i c. i < length token \<and> c \<noteq> token ! i \<longrightarrow> ValidateFormat (token[i := c]) \<noteq> None)"
proof -
  from assms(2) obtain r where r: "generateBase62 rnd RandomLength = Inr r"
      and t: "token = (Prefix @ r) @ checksum_text (Prefix @ r)" "hash = Hash token"
    by (auto simp: GenerateToken_def Let_def split: sum.splits)
  have shape: "length r = 30" "\<forall>c\<in>set r. isBase62 c"
    using base62_loop_shape [OF r [unfolded generateBase62_def] assms(1)] by (simp_all add: RandomLength_def)
  then have "ValidateFormat token = None"
    using checksum_shape [of "Prefix @ r"] by (auto simp: t(1) ValidateFormat_None Prefix_def)
  moreover from this have "IsAPIToken token" by (simp add: ValidateFormat_None IsAPIToken_def length_Prefix)
  ultimately show ?thesis using t(2) typo_detected by blast
qed

theorem GenerateToken_checked_witness:
  "\<exists>token hash. GenerateToken (\<lambda>i. Inr (i mod 62)) = Inr (token, hash) \<and> ValidateFormat token = None"
proof -
  have "\<exists>cs. base62_loop (\<lambda>i. Inr (i mod 62)) j n = Inr cs" for j n
    by (induction n arbitrary: j) (auto simp: bind_sum_Inr_iff)
  then obtain cs where "base62_loop (\<lambda>i. Inr (i mod 62)) 0 RandomLength = Inr cs" by blast
  then obtain token hash where g: "GenerateToken (\<lambda>i. Inr (i mod 62)) = Inr (token, hash)"
    by (simp add: GenerateToken_def generateBase62_def Let_def)
  show ?thesis
    using GenerateToken_checked [OF _ g] g by auto
qed

end
