(* ===== verification/Idempotency.thy ===== *)
theory Idempotency
  imports Sha256 Go_Errors
begin

text \<open>
  Idempotency keys (\<open>common/idempotency\<close>): the key store, and the interceptor that runs a create procedure
  at most once per key. The interceptor is a machine with one step per call that leaves the process (the
  store, the handler), because requests with the same key run concurrently; a request alone is the machine
  run to its end. Protocol buffers, the handlers and the parsing of UUIDs are parameters.
\<close>

section \<open>The store\<close>

datatype resource_type = ResourceProject | ResourceProjectMember | ResourceCluster | ResourceNodePool
  | ResourceNamespace | ResourceAPIKey | ResourceOrganizationUser

text \<open>A row of \<open>tenant.idempotency_keys\<close>. At most one of its seven foreign keys is set (a check constraint).\<close>

record idem_row =
  ik_procedure :: string
  ik_hash :: "byte list"
  ik_response :: "byte list option"
  ik_resource :: "(resource_type \<times> uuid) option"
  ik_expires :: micros

record CachedResponse =
  cr_procedure :: string
  cr_hash :: "byte list"
  cr_response :: "byte list option"
  cr_resource :: uuid

text \<open>The table is unique on key and user. \<open>i_fault n\<close> is the error of the \<open>n\<close>-th call, if it fails; \<open>i_app\<close> is
  whatever the handlers read and change.\<close>

record 'h idem_world =
  i_rows :: "uuid \<times> uuid \<Rightarrow> idem_row option"
  i_clock :: micros
  i_fault :: "nat \<Rightarrow> gerr option"
  i_calls :: nat
  i_app :: 'h

definition ttl :: "micros \<Rightarrow> micros" where
  "ttl TTL = (if TTL = 0 then 24 * 60 * 60 * 1000000 else TTL)"

text \<open>One statement: it fails and changes nothing, or it returns a value and changes the rows.\<close>

definition idem_call ::
  "('h idem_world \<Rightarrow> 'a \<times> (uuid \<times> uuid \<Rightarrow> idem_row option)) \<Rightarrow> 'h idem_world \<Rightarrow> (gerr + 'a) \<times> 'h idem_world" where
  "idem_call f w =
     (let w1 = w\<lparr>i_calls := Suc (i_calls w)\<rparr>
      in case i_fault w (i_calls w) of
           Some e \<Rightarrow> (Inl e, w1)
         | None \<Rightarrow> (case f w of (a, rows) \<Rightarrow> (Inr a, w1\<lparr>i_rows := rows\<rparr>)))"

definition KeyLookup :: "uuid \<Rightarrow> uuid \<Rightarrow> 'h idem_world \<Rightarrow> idem_row option \<times> (uuid \<times> uuid \<Rightarrow> idem_row option)" where
  "KeyLookup key user w =
     ((case i_rows w (key, user) of None \<Rightarrow> None | Some r \<Rightarrow> if i_clock w < ik_expires r then Some r else None), i_rows w)"

definition KeyReserve :: "uuid \<Rightarrow> uuid \<Rightarrow> string \<Rightarrow> byte list \<Rightarrow> micros \<Rightarrow> 'h idem_world \<Rightarrow>
    nat \<times> (uuid \<times> uuid \<Rightarrow> idem_row option)" where
  "KeyReserve key user proc hash expires w =
     (case i_rows w (key, user) of
        Some r \<Rightarrow> (0, i_rows w)
      | None \<Rightarrow> (1, (i_rows w)((key, user) \<mapsto>
          \<lparr>ik_procedure = proc, ik_hash = hash, ik_response = None, ik_resource = None, ik_expires = expires\<rparr>)))"

definition KeyComplete :: "uuid \<Rightarrow> uuid \<Rightarrow> byte list \<Rightarrow> resource_type \<times> uuid \<Rightarrow> 'h idem_world \<Rightarrow>
    nat \<times> (uuid \<times> uuid \<Rightarrow> idem_row option)" where
  "KeyComplete key user bytes res w =
     (case i_rows w (key, user) of
        None \<Rightarrow> (0, i_rows w)
      | Some r \<Rightarrow> if ik_response r \<noteq> None then (0, i_rows w)
          else (1, (i_rows w)((key, user) \<mapsto> r\<lparr>ik_response := Some bytes, ik_resource := Some res\<rparr>)))"

definition KeyUnreserve :: "uuid \<Rightarrow> uuid \<Rightarrow> 'h idem_world \<Rightarrow> nat \<times> (uuid \<times> uuid \<Rightarrow> idem_row option)" where
  "KeyUnreserve key user w =
     (case i_rows w (key, user) of
        None \<Rightarrow> (0, i_rows w)
      | Some r \<Rightarrow> if ik_response r \<noteq> None then (0, i_rows w) else (1, (i_rows w)((key, user) := None)))"

definition KeyDeleteExpired :: "'h idem_world \<Rightarrow> unit \<times> (uuid \<times> uuid \<Rightarrow> idem_row option)" where
  "KeyDeleteExpired w = ((), \<lambda>ku. case i_rows w ku of None \<Rightarrow> None | Some r \<Rightarrow> if ik_expires r < i_clock w then None else Some r)"

text \<open>A row without a resource has the zero UUID.\<close>

definition Lookup :: "uuid \<Rightarrow> uuid \<Rightarrow> 'h idem_world \<Rightarrow> (gerr + CachedResponse option) \<times> 'h idem_world" where
  "Lookup key user w =
     (case idem_call (KeyLookup key user) w of
        (Inl e, w) \<Rightarrow> (Inl (errorf ''lookup idempotency key'' e), w)
      | (Inr None, w) \<Rightarrow> (Inr None, w)
      | (Inr (Some r), w) \<Rightarrow> (Inr (Some \<lparr>cr_procedure = ik_procedure r, cr_hash = ik_hash r, cr_response = ik_response r,
          cr_resource = (case ik_resource r of None \<Rightarrow> 0 | Some (_, i) \<Rightarrow> i)\<rparr>), w))"

definition Reserve :: "micros \<Rightarrow> uuid \<Rightarrow> uuid \<Rightarrow> string \<Rightarrow> byte list \<Rightarrow> 'h idem_world \<Rightarrow> (gerr + bool) \<times> 'h idem_world" where
  "Reserve TTL key user proc hash w =
     (case idem_call (KeyReserve key user proc hash (i_clock w + ttl TTL)) w of
        (Inl e, w) \<Rightarrow> (Inl (errorf ''reserve idempotency key'' e), w)
      | (Inr rows, w) \<Rightarrow> (Inr (rows = 1), w))"

definition Complete :: "uuid \<Rightarrow> uuid \<Rightarrow> byte list \<Rightarrow> resource_type \<Rightarrow> uuid \<Rightarrow> 'h idem_world \<Rightarrow> gerr option \<times> 'h idem_world" where
  "Complete key user bytes ty res w =
     (case idem_call (KeyComplete key user bytes (ty, res)) w of
        (Inl e, w) \<Rightarrow> (Some (errorf ''complete idempotency key'' e), w)
      | (Inr _, w) \<Rightarrow> (None, w))"

definition Unreserve :: "uuid \<Rightarrow> uuid \<Rightarrow> 'h idem_world \<Rightarrow> gerr option \<times> 'h idem_world" where
  "Unreserve key user w =
     (case idem_call (KeyUnreserve key user) w of
        (Inl e, w) \<Rightarrow> (Some (errorf ''unreserve idempotency key'' e), w)
      | (Inr _, w) \<Rightarrow> (None, w))"

definition DeleteExpired :: "'h idem_world \<Rightarrow> gerr option \<times> 'h idem_world" where
  "DeleteExpired w =
     (case idem_call KeyDeleteExpired w of
        (Inl e, w) \<Rightarrow> (Some (errorf ''delete expired idempotency keys'' e), w)
      | (Inr _, w) \<Rightarrow> (None, w))"

section \<open>The interceptor\<close>

datatype rpc_error = InvalidArgument gerr | Aborted gerr | Internal gerr | HandlerError gerr

record ('resp, 'h) procedure =
  pr_type :: resource_type
  pr_resolve :: "uuid \<Rightarrow> 'h \<Rightarrow> gerr + string"
  pr_extract :: "'resp \<Rightarrow> gerr + uuid"
  pr_deserialize :: "byte list \<Rightarrow> gerr + 'resp"

record 'req rpc_request =
  rq_procedure :: string
  rq_key :: string
  rq_user :: "uuid option"
  rq_msg :: 'req

record ('req, 'resp, 'h) idem_env =
  e_procedures :: "string \<Rightarrow> ('resp, 'h) procedure option"
  e_parse :: "string \<Rightarrow> gerr + uuid"
  e_marshal_req :: "'req \<Rightarrow> gerr + byte list"
  e_marshal_resp :: "'resp \<Rightarrow> gerr + byte list"
  e_next :: "'req rpc_request \<Rightarrow> 'h \<Rightarrow> (gerr + 'resp) \<times> 'h"
  e_TTL :: micros

text \<open>A response with the status header the interceptor sets, or an error.\<close>

type_synonym 'resp answer = "rpc_error + 'resp \<times> string option"

definition hashRequest :: "('req, 'resp, 'h) idem_env \<Rightarrow> 'req rpc_request \<Rightarrow> gerr + byte list" where
  "hashRequest env rq =
     (case e_marshal_req env (rq_msg rq) of
        Inl e \<Rightarrow> Inl (errorf ''marshal request'' e)
      | Inr b \<Rightarrow> Inr (Sum256 b))"

text \<open>What the interceptor decides before it touches the store.\<close>

datatype ('resp, 'h) admission =
  Bypass | Reject rpc_error | Admit "('resp, 'h) procedure" uuid uuid "byte list"

definition HeaderIdempotencyKey :: string where "HeaderIdempotencyKey = ''Idempotency-Key''"

definition admit :: "('req, 'resp, 'h) idem_env \<Rightarrow> 'req rpc_request \<Rightarrow> ('resp, 'h) admission" where
  "admit env rq =
     (case e_procedures env (rq_procedure rq) of
        None \<Rightarrow> Bypass
      | Some proc \<Rightarrow>
          if rq_key rq = '''' then Bypass
          else (case e_parse env (rq_key rq) of
                  Inl e \<Rightarrow> Reject (InvalidArgument (errorf (''invalid '' @ HeaderIdempotencyKey @ '' header'') e))
                | Inr key \<Rightarrow>
                    (case rq_user rq of
                       None \<Rightarrow> Bypass
                     | Some user \<Rightarrow>
                         (case hashRequest env rq of
                            Inl e \<Rightarrow> Bypass
                          | Inr h \<Rightarrow> Admit proc key user h))))"

definition handleReplay ::
  "CachedResponse \<Rightarrow> byte list \<Rightarrow> string \<Rightarrow> ('resp, 'h) procedure \<Rightarrow> 'h \<Rightarrow> 'resp answer" where
  "handleReplay cached reqHash procname proc app =
     (if cr_procedure cached \<noteq> procname
      then Inl (InvalidArgument (ErrNew ''idempotency key was used with a different procedure''))
      else if cr_hash cached \<noteq> reqHash
      then Inl (InvalidArgument (ErrNew ''idempotency key was used with different request parameters''))
      else case cr_response cached of
             None \<Rightarrow> Inl (Internal (ErrNew ''internal error''))
           | Some bytes \<Rightarrow>
               (case pr_deserialize proc bytes of
                  Inl e \<Rightarrow> Inl (Internal (ErrNew ''internal error''))
                | Inr resp \<Rightarrow>
                    Inr (resp, Some (case pr_resolve proc (cr_resource cached) app of Inl e \<Rightarrow> ''processing'' | Inr s \<Rightarrow> s))))"

definition completeReservation ::
  "('req, 'resp, 'h) idem_env \<Rightarrow> 'resp \<Rightarrow> uuid \<Rightarrow> uuid \<Rightarrow> ('resp, 'h) procedure \<Rightarrow> 'h idem_world \<Rightarrow> gerr option \<times> 'h idem_world" where
  "completeReservation env resp key user proc w =
     (case e_marshal_resp env resp of
        Inl e \<Rightarrow> (Some (errorf ''marshal response'' e), w)
      | Inr bytes \<Rightarrow>
          (case pr_extract proc resp of
             Inl e \<Rightarrow> (Some (errorf ''extract resource ID'' e), w)
           | Inr res \<Rightarrow>
               (case Complete key user bytes (pr_type proc) res w of
                  (Some e, w) \<Rightarrow> (Some (errorf ''complete'' e), w)
                | (None, w) \<Rightarrow> (None, w))))"

definition in_progress :: rpc_error where
  "in_progress = Aborted (ErrNew ''a request with this idempotency key is already being processed'')"

text \<open>Where a request is: before its first lookup, between the lookup and the reservation, after a lost
  reservation, about to replay, running the handler without or with a reservation, with a response that is
  not yet stored, with a reservation to give up, or answered (and whether its handler was called).\<close>

datatype 'resp phase = Arrived | Missed | Raced | Replaying CachedResponse | Bypassing | Holding
  | Answered 'resp | GivingUp "'resp answer" | Returned "'resp answer" bool

definition on_lookup :: "'resp phase \<Rightarrow> (gerr + CachedResponse option) \<times> 'h idem_world \<Rightarrow> 'resp phase \<times> 'h idem_world" where
  "on_lookup absent r =
     (case r of
        (Inl e, w) \<Rightarrow> (Bypassing, w)
      | (Inr (Some cached), w) \<Rightarrow>
          (if cr_response cached \<noteq> None then Replaying cached else Returned (Inl in_progress) False, w)
      | (Inr None, w) \<Rightarrow> (absent, w))"

definition run_next :: "('req, 'resp, 'h) idem_env \<Rightarrow> 'req rpc_request \<Rightarrow> 'h idem_world \<Rightarrow> (gerr + 'resp) \<times> 'h idem_world" where
  "run_next env rq w = (case e_next env rq (i_app w) of (r, app) \<Rightarrow> (r, w\<lparr>i_app := app\<rparr>))"

definition answer_of :: "gerr + 'resp \<Rightarrow> 'resp answer" where
  "answer_of r = (case r of Inl e \<Rightarrow> Inl (HandlerError e) | Inr resp \<Rightarrow> Inr (resp, None))"

fun admitted_step ::
  "('req, 'resp, 'h) idem_env \<Rightarrow> 'req rpc_request \<Rightarrow> ('resp, 'h) procedure \<Rightarrow> uuid \<Rightarrow> uuid \<Rightarrow> byte list \<Rightarrow>
   'resp phase \<Rightarrow> 'h idem_world \<Rightarrow> 'resp phase \<times> 'h idem_world" where
  "admitted_step env rq proc key user h Arrived w = on_lookup Missed (Lookup key user w)"
| "admitted_step env rq proc key user h Missed w =
     (case Reserve (e_TTL env) key user (rq_procedure rq) h w of
        (Inl e, w) \<Rightarrow> (Bypassing, w)
      | (Inr reserved, w) \<Rightarrow> (if reserved then Holding else Raced, w))"
| "admitted_step env rq proc key user h Raced w = on_lookup (Returned (Inl in_progress) False) (Lookup key user w)"
| "admitted_step env rq proc key user h (Replaying cached) w =
     (Returned (handleReplay cached h (rq_procedure rq) proc (i_app w)) False, w)"
| "admitted_step env rq proc key user h Bypassing w =
     (case run_next env rq w of (r, w) \<Rightarrow> (Returned (answer_of r) True, w))"
| "admitted_step env rq proc key user h Holding w =
     (case run_next env rq w of
        (Inl e, w) \<Rightarrow> (GivingUp (Inl (HandlerError e)), w)
      | (Inr resp, w) \<Rightarrow> (Answered resp, w))"
| "admitted_step env rq proc key user h (Answered resp) w =
     (case completeReservation env resp key user proc w of
        (Some e, w) \<Rightarrow> (GivingUp (Inr (resp, None)), w)
      | (None, w) \<Rightarrow> (Returned (Inr (resp, Some ''processing'')) True, w))"
| "admitted_step env rq proc key user h (GivingUp r) w = (Returned r True, snd (Unreserve key user w))"
| "admitted_step env rq proc key user h (Returned r called) w = (Returned r called, w)"

definition istep ::
  "('req, 'resp, 'h) idem_env \<Rightarrow> 'req rpc_request \<Rightarrow> 'resp phase \<Rightarrow> 'h idem_world \<Rightarrow> 'resp phase \<times> 'h idem_world" where
  "istep env rq ph w =
     (case ph of
        Returned r called \<Rightarrow> (ph, w)
      | _ \<Rightarrow>
          (case admit env rq of
             Reject e \<Rightarrow> (Returned (Inl e) False, w)
           | Bypass \<Rightarrow> (case run_next env rq w of (r, w) \<Rightarrow> (Returned (answer_of r) True, w))
           | Admit proc key user h \<Rightarrow> admitted_step env rq proc key user h ph w))"

text \<open>A request alone: no path through the interceptor has more than five steps.\<close>

fun isteps :: "nat \<Rightarrow> ('req, 'resp, 'h) idem_env \<Rightarrow> 'req rpc_request \<Rightarrow> 'resp phase \<Rightarrow> 'h idem_world \<Rightarrow> 'resp phase \<times> 'h idem_world" where
  "isteps 0 env rq ph w = (ph, w)"
| "isteps (Suc n) env rq ph w = (case istep env rq ph w of (ph, w) \<Rightarrow> isteps n env rq ph w)"

definition Intercept :: "('req, 'resp, 'h) idem_env \<Rightarrow> 'req rpc_request \<Rightarrow> 'h idem_world \<Rightarrow> 'resp phase \<times> 'h idem_world" where
  "Intercept env rq w = isteps 5 env rq Arrived w"

section \<open>Concurrent requests\<close>

text \<open>Requests arrive at any time and take their steps in any order; meanwhile time passes, the cleanup
  deletes expired keys and the rest of the program changes its own state.\<close>

inductive idem_reach ::
  "('req, 'resp, 'h) idem_env \<Rightarrow> 'h idem_world \<Rightarrow> ('req rpc_request \<times> 'resp phase) list \<Rightarrow> 'h idem_world \<Rightarrow> bool"
  for env w0 where
  start: "idem_reach env w0 [] w0"
| arrive: "idem_reach env w0 ts w \<Longrightarrow> idem_reach env w0 (ts @ [(rq, Arrived)]) w"
| request_step: "idem_reach env w0 ts w \<Longrightarrow> i < length ts \<Longrightarrow> ts ! i = (rq, ph) \<Longrightarrow> istep env rq ph w = (ph', w') \<Longrightarrow>
    idem_reach env w0 (ts[i := (rq, ph')]) w'"
| tick: "idem_reach env w0 ts w \<Longrightarrow> 0 \<le> d \<Longrightarrow> idem_reach env w0 ts (w\<lparr>i_clock := i_clock w + d\<rparr>)"
| cleanup: "idem_reach env w0 ts w \<Longrightarrow> idem_reach env w0 ts (snd (DeleteExpired w))"
| elsewhere: "idem_reach env w0 ts w \<Longrightarrow> idem_reach env w0 ts (w\<lparr>i_app := app\<rparr>)"

text \<open>The requests of one user under one key.\<close>

definition under :: "('req, 'resp, 'h) idem_env \<Rightarrow> uuid \<Rightarrow> uuid \<Rightarrow> 'req rpc_request \<Rightarrow> bool" where
  "under env key user rq \<longleftrightarrow> (\<exists>proc h. admit env rq = Admit proc key user h)"

fun holds_key :: "'resp phase \<Rightarrow> bool" where
  "holds_key Holding = True"
| "holds_key (Answered r) = True"
| "holds_key (GivingUp r) = True"
| "holds_key ph = False"

text \<open>What a handler answered is read back from its bytes, and has a resource identifier.\<close>

definition responses_ok :: "('req, 'resp, 'h) idem_env \<Rightarrow> bool" where
  "responses_ok env \<longleftrightarrow> (\<forall>rq app resp app' proc. e_next env rq app = (Inr resp, app') \<and> e_procedures env (rq_procedure rq) = Some proc \<longrightarrow>
     (\<exists>bytes res. e_marshal_resp env resp = Inr bytes \<and> pr_deserialize proc bytes = Inr resp \<and> pr_extract proc resp = Inr res))"

text \<open>What the row of a key says of a request under that key.\<close>

definition reserved_for :: "'req rpc_request \<Rightarrow> idem_row option \<Rightarrow> bool" where
  "reserved_for rq row \<longleftrightarrow> (\<exists>r. row = Some r \<and> ik_response r = None \<and> ik_procedure r = rq_procedure rq)"

definition stored_answer :: "('req, 'resp, 'h) idem_env \<Rightarrow> idem_row option \<Rightarrow> 'resp \<Rightarrow> bool" where
  "stored_answer env row resp \<longleftrightarrow> (\<exists>r bytes proc. row = Some r \<and> ik_response r = Some bytes \<and>
     e_procedures env (ik_procedure r) = Some proc \<and> pr_deserialize proc bytes = Inr resp)"

fun phase_ok :: "('req, 'resp, 'h) idem_env \<Rightarrow> 'req rpc_request \<Rightarrow> idem_row option \<Rightarrow> 'resp phase \<Rightarrow> bool" where
  "phase_ok env rq row (Replaying cached) = (\<exists>r. row = Some r \<and> ik_response r \<noteq> None \<and>
     cr_response cached = ik_response r \<and> cr_procedure cached = ik_procedure r)"
| "phase_ok env rq row Bypassing = False"
| "phase_ok env rq row Holding = reserved_for rq row"
| "phase_ok env rq row (Answered resp) = (reserved_for rq row \<and> (\<exists>app app'. e_next env rq app = (Inr resp, app')))"
| "phase_ok env rq row (GivingUp a) = (reserved_for rq row \<and> (\<exists>e. a = Inl e))"
| "phase_ok env rq row (Returned a called) = (\<forall>resp st. a = Inr (resp, st) \<longrightarrow> stored_answer env row resp)"
| "phase_ok env rq row ph = True"

text \<open>A request whose handler runs or has succeeded under its reservation.\<close>

fun owns :: "'resp phase \<Rightarrow> bool" where
  "owns Holding = True"
| "owns (Answered resp) = True"
| "owns (GivingUp a) = True"
| "owns (Returned a called) = (called \<and> (\<exists>x. a = Inr x))"
| "owns ph = False"

definition idem_inv ::
  "('req, 'resp, 'h) idem_env \<Rightarrow> uuid \<Rightarrow> uuid \<Rightarrow> micros \<Rightarrow> ('req rpc_request \<times> 'resp phase) list \<Rightarrow> 'h idem_world \<Rightarrow> bool" where
  "idem_inv env key user expiry ts w \<longleftrightarrow> i_fault w = (\<lambda>_. None) \<and>
     (\<forall>r. i_rows w (key, user) = Some r \<longrightarrow> expiry \<le> ik_expires r) \<and>
     (\<forall>i<length ts. under env key user (fst (ts ! i)) \<longrightarrow>
        phase_ok env (fst (ts ! i)) (i_rows w (key, user)) (snd (ts ! i)) \<and>
        (\<forall>j<length ts. under env key user (fst (ts ! j)) \<and> owns (snd (ts ! i)) \<and> owns (snd (ts ! j)) \<longrightarrow> i = j))"

section \<open>Lemmas: one step\<close>

lemma idem_call_ok:
  "i_fault w = (\<lambda>_. None) \<Longrightarrow> idem_call f w = (Inr (fst (f w)), w\<lparr>i_calls := Suc (i_calls w), i_rows := snd (f w)\<rparr>)"
  by (simp add: idem_call_def Let_def split: prod.splits)

lemma idem_call_frame:
  "idem_call f w = (r, w') \<Longrightarrow> i_fault w' = i_fault w \<and> i_clock w' = i_clock w \<and> i_rows w' \<in> {i_rows w, snd (f w)}"
  by (auto simp: idem_call_def Let_def split: option.splits prod.splits)

definition only_key :: "uuid \<times> uuid \<Rightarrow> 'h idem_world \<Rightarrow> 'h idem_world \<Rightarrow> bool" where
  "only_key ku w w' \<longleftrightarrow> i_fault w' = i_fault w \<and> i_clock w' = i_clock w \<and> (\<forall>x. x \<noteq> ku \<longrightarrow> i_rows w' x = i_rows w x)"

lemma only_key_refl [simp]: "only_key ku w w" "only_key ku w (w\<lparr>i_app := a\<rparr>)"
  by (simp_all add: only_key_def)

lemma only_key_call:
  "idem_call f w = (r, w') \<Longrightarrow> (\<And>x. x \<noteq> ku \<Longrightarrow> snd (f w) x = i_rows w x) \<Longrightarrow> only_key ku w w'"
  by (auto simp: only_key_def dest!: idem_call_frame)

lemma key_calls_frame:
  "x \<noteq> (key, user) \<Longrightarrow> snd (KeyLookup key user w) x = i_rows w x"
  "x \<noteq> (key, user) \<Longrightarrow> snd (KeyReserve key user p h t w) x = i_rows w x"
  "x \<noteq> (key, user) \<Longrightarrow> snd (KeyComplete key user b rt w) x = i_rows w x"
  "x \<noteq> (key, user) \<Longrightarrow> snd (KeyUnreserve key user w) x = i_rows w x"
  by (auto simp: KeyLookup_def KeyReserve_def KeyComplete_def KeyUnreserve_def split: option.splits)

lemma store_frame:
  "Lookup key user w = (r, w') \<Longrightarrow> only_key (key, user) w w'"
  "Reserve t key user p h w = (r2, w') \<Longrightarrow> only_key (key, user) w w'"
  "Complete key user b ty res w = (r3, w') \<Longrightarrow> only_key (key, user) w w'"
  "Unreserve key user w = (r3, w') \<Longrightarrow> only_key (key, user) w w'"
  by (auto simp: Lookup_def Reserve_def Complete_def Unreserve_def split: sum.splits option.splits prod.splits
      intro: only_key_call key_calls_frame)

lemma admitted_step_frame:
  assumes "admitted_step env rq proc key user h ph w = (ph', w')"
  shows "only_key (key, user) w w'"
proof (cases ph)
  case (GivingUp a)
  with assms store_frame(4) [OF prod.collapse [symmetric], of key user w] show ?thesis by simp
qed (use assms in \<open>auto simp: on_lookup_def run_next_def completeReservation_def split: sum.splits option.splits prod.splits
    dest: store_frame\<close>)

lemma istep_admit: "admit env rq = Admit proc key user h \<Longrightarrow> istep env rq ph w = admitted_step env rq proc key user h ph w"
  by (cases ph) (simp_all add: istep_def)

lemma admit_procedure: "admit env rq = Admit proc key user h \<Longrightarrow> e_procedures env (rq_procedure rq) = Some proc"
  by (auto simp: admit_def split: option.splits sum.splits if_splits)

lemma istep_frame:
  assumes "istep env rq ph w = (ph', w')"
  shows "i_fault w' = i_fault w \<and> i_clock w' = i_clock w \<and> (under env key user rq \<or> i_rows w' (key, user) = i_rows w (key, user))"
proof (cases "admit env rq")
  case (Admit proc k u h)
  then have "only_key (k, u) w w'"
    using assms admitted_step_frame [of env rq proc k u h ph w] by (simp add: istep_admit)
  then show ?thesis using Admit by (auto simp: only_key_def under_def)
qed (use assms in \<open>auto simp: istep_def run_next_def split: phase.splits prod.splits\<close>)

lemma owns_row: "phase_ok env rq row ph \<Longrightarrow> owns ph \<Longrightarrow> row \<noteq> None"
  by (cases ph) (auto simp: reserved_for_def stored_answer_def)

text \<open>The step of a request under the key, with the store working: it keeps what the row says of the
  request, and of every other request unless both own the key; it takes the key only when no row is
  there.\<close>

definition step_ok ::
  "('req, 'resp, 'h) idem_env \<Rightarrow> 'req rpc_request \<Rightarrow> micros \<Rightarrow> 'resp phase \<Rightarrow> idem_row option \<Rightarrow> 'resp phase \<Rightarrow> idem_row option \<Rightarrow> bool" where
  "step_ok env rq now ph row ph' row' \<longleftrightarrow> phase_ok env rq row' ph' \<and> (owns ph' \<longrightarrow> owns ph \<or> row = None) \<and>
     (\<forall>rq2 ph2. phase_ok env rq2 row ph2 \<and> \<not> (owns ph \<and> owns ph2) \<longrightarrow> phase_ok env rq2 row' ph2) \<and>
     (\<forall>r'. row' = Some r' \<longrightarrow> now + ttl (e_TTL env) \<le> ik_expires r' \<or> (\<exists>r. row = Some r \<and> ik_expires r' = ik_expires r))"

lemma Lookup_ok:
  assumes "i_fault w = (\<lambda>_. None)" "\<And>r. i_rows w (key, user) = Some r \<Longrightarrow> i_clock w < ik_expires r"
  shows "\<exists>w'. Lookup key user w = (Inr (map_option (\<lambda>r. \<lparr>cr_procedure = ik_procedure r, cr_hash = ik_hash r, cr_response = ik_response r,
      cr_resource = (case ik_resource r of None \<Rightarrow> 0 | Some (_, i) \<Rightarrow> i)\<rparr>) (i_rows w (key, user))), w') \<and>
    i_rows w' = i_rows w"
  using assms by (auto simp: Lookup_def idem_call_ok KeyLookup_def split: option.splits)

lemma step_ok_same:
  "phase_ok env rq row ph' \<Longrightarrow> (owns ph' \<Longrightarrow> owns ph) \<Longrightarrow> step_ok env rq now ph row ph' row"
  by (auto simp: step_ok_def)

lemma on_lookup_ok:
  assumes "i_fault w = (\<lambda>_. None)" "\<And>r. i_rows w (key, user) = Some r \<Longrightarrow> i_clock w < ik_expires r"
    and "on_lookup absent (Lookup key user w) = (ph', w')" "phase_ok env rq (i_rows w (key, user)) absent" "\<not> owns absent"
  shows "step_ok env rq now ph (i_rows w (key, user)) ph' (i_rows w' (key, user))"
proof -
  obtain w1 where "i_rows w1 = i_rows w" "Lookup key user w = (Inr (map_option (\<lambda>r. \<lparr>cr_procedure = ik_procedure r,
      cr_hash = ik_hash r, cr_response = ik_response r, cr_resource = (case ik_resource r of None \<Rightarrow> 0 | Some (_, i) \<Rightarrow> i)\<rparr>)
      (i_rows w (key, user))), w1)"
    using Lookup_ok [of w key user] assms(1,2) by blast
  then show ?thesis
    using assms(3-5) by (cases "i_rows w (key, user)") (auto simp: on_lookup_def split: if_splits intro!: step_ok_same)
qed

lemma handleReplay_ok:
  assumes "phase_ok env rq row (Replaying cached)" "e_procedures env (rq_procedure rq) = Some proc"
  shows "phase_ok env rq row (Returned (handleReplay cached h (rq_procedure rq) proc app) called)"
  using assms by (auto simp: handleReplay_def stored_answer_def split: option.splits sum.splits if_splits)

lemma Reserve_ok:
  assumes "i_fault w = (\<lambda>_. None)"
  shows "\<exists>w'. Reserve t key user p h w = (Inr (i_rows w (key, user) = None), w') \<and>
    (\<forall>r. i_rows w (key, user) = Some r \<longrightarrow> i_rows w' = i_rows w) \<and>
    (i_rows w (key, user) = None \<longrightarrow> i_rows w' = (i_rows w)((key, user) \<mapsto>
       \<lparr>ik_procedure = p, ik_hash = h, ik_response = None, ik_resource = None, ik_expires = i_clock w + ttl t\<rparr>))"
  using assms by (auto simp: Reserve_def idem_call_ok KeyReserve_def split: option.splits)

lemma phase_ok_None: "phase_ok env rq None ph \<Longrightarrow> phase_ok env rq row ph"
  by (cases ph) (auto simp: reserved_for_def stored_answer_def)

lemma phase_ok_reserved:
  "phase_ok env rq (Some r) ph \<Longrightarrow> ik_response r = None \<Longrightarrow> \<not> owns ph \<Longrightarrow> phase_ok env rq row ph"
  by (cases ph) (auto simp: reserved_for_def stored_answer_def)

lemma Missed_ok:
  assumes "i_fault w = (\<lambda>_. None)" "admitted_step env rq proc key user h Missed w = (ph', w')"
  shows "step_ok env rq (i_clock w) Missed (i_rows w (key, user)) ph' (i_rows w' (key, user))"
  using Reserve_ok [OF assms(1), of "e_TTL env" key user "rq_procedure rq" h] assms(2)
  by (cases "i_rows w (key, user)") (auto simp: step_ok_def reserved_for_def intro: phase_ok_None)

lemma Answered_ok:
  assumes "i_fault w = (\<lambda>_. None)" "responses_ok env" "e_procedures env (rq_procedure rq) = Some proc"
    and "phase_ok env rq (i_rows w (key, user)) (Answered resp)"
    and "admitted_step env rq proc key user h (Answered resp) w = (ph', w')"
  shows "step_ok env rq (i_clock w) (Answered resp) (i_rows w (key, user)) ph' (i_rows w' (key, user))"
proof -
  from assms(4) obtain r app app' where r: "i_rows w (key, user) = Some r" "ik_response r = None" "ik_procedure r = rq_procedure rq"
      and nx: "e_next env rq app = (Inr resp, app')" by (auto simp: reserved_for_def)
  from assms(2,3) nx obtain bytes res where b: "e_marshal_resp env resp = Inr bytes" "pr_deserialize proc bytes = Inr resp"
      "pr_extract proc resp = Inr res" unfolding responses_ok_def by blast
  have "ph' = Returned (Inr (resp, Some ''processing'')) True"
      "i_rows w' (key, user) = Some (r\<lparr>ik_response := Some bytes, ik_resource := Some (pr_type proc, res)\<rparr>)"
    using assms(1,5) r b by (auto simp: completeReservation_def Complete_def idem_call_ok KeyComplete_def)
  then show ?thesis
    using r b assms(3) by (auto simp: step_ok_def stored_answer_def intro: phase_ok_reserved)
qed

lemma GivingUp_ok:
  assumes "i_fault w = (\<lambda>_. None)" "phase_ok env rq (i_rows w (key, user)) (GivingUp a)"
    and "admitted_step env rq proc key user h (GivingUp a) w = (ph', w')"
  shows "step_ok env rq (i_clock w) (GivingUp a) (i_rows w (key, user)) ph' (i_rows w' (key, user))"
proof -
  from assms(2) obtain r where r: "i_rows w (key, user) = Some r" "ik_response r = None" by (auto simp: reserved_for_def)
  with assms(1,3) have "ph' = Returned a True" "i_rows w' (key, user) = None"
    by (auto simp: Unreserve_def idem_call_ok KeyUnreserve_def)
  then show ?thesis
    using r assms(2) by (auto simp: step_ok_def intro: phase_ok_reserved)
qed

lemma admitted_step_ok:
  assumes nf: "i_fault w = (\<lambda>_. None)" and live: "\<And>r. i_rows w (key, user) = Some r \<Longrightarrow> i_clock w < ik_expires r"
    and ok: "responses_ok env" and adm: "admit env rq = Admit proc key user h" and ph: "phase_ok env rq (i_rows w (key, user)) ph"
    and st: "istep env rq ph w = (ph', w')"
  shows "step_ok env rq (i_clock w) ph (i_rows w (key, user)) ph' (i_rows w' (key, user))"
proof -
  note st = st [unfolded istep_admit [OF adm]]
  note proc = admit_procedure [OF adm]
  show ?thesis
  proof (cases ph)
    case Arrived
    with on_lookup_ok [OF nf live, where env=env and rq=rq] st show ?thesis by fastforce
  next
    case Missed
    with Missed_ok [OF nf] st show ?thesis by simp
  next
    case Raced
    with on_lookup_ok [OF nf live, where env=env and rq=rq] st show ?thesis by fastforce
  next
    case (Replaying cached)
    with handleReplay_ok [OF _ proc] ph st show ?thesis by (auto intro!: step_ok_same)
  next
    case Bypassing
    with ph show ?thesis by simp
  next
    case Holding
    with ph st show ?thesis
      by (auto simp: run_next_def split: prod.splits sum.splits intro!: step_ok_same)
        (metis)
  next
    case (Answered resp)
    with Answered_ok [OF nf ok proc] ph st show ?thesis by simp
  next
    case (GivingUp a)
    with GivingUp_ok [OF nf] ph st show ?thesis by simp
  next
    case (Returned a called)
    with ph st show ?thesis by (auto intro!: step_ok_same)
  qed
qed

section \<open>Lemmas: every interleaving\<close>

lemma idem_invD:
  assumes "idem_inv env key user expiry ts w"
  shows "i_fault w = (\<lambda>_. None)"
    and "i_rows w (key, user) = Some r \<Longrightarrow> expiry \<le> ik_expires r"
    and "i < length ts \<Longrightarrow> under env key user (fst (ts ! i)) \<Longrightarrow> phase_ok env (fst (ts ! i)) (i_rows w (key, user)) (snd (ts ! i))"
    and "i < length ts \<Longrightarrow> j < length ts \<Longrightarrow> under env key user (fst (ts ! i)) \<Longrightarrow> under env key user (fst (ts ! j)) \<Longrightarrow>
      owns (snd (ts ! i)) \<Longrightarrow> owns (snd (ts ! j)) \<Longrightarrow> i = j"
  using assms by (simp_all add: idem_inv_def)

lemma idem_inv_step:
  assumes inv: "idem_inv env key user expiry ts w" and ok: "responses_ok env"
    and i: "i < length ts" "ts ! i = (rq, ph)" and st: "istep env rq ph w = (ph', w')"
    and now: "i_clock w < expiry" "expiry \<le> i_clock w + ttl (e_TTL env)"
  shows "idem_inv env key user expiry (ts[i := (rq, ph')]) w'"
proof -
  note nf = idem_invD(1) [OF inv] and exp = idem_invD(2) [OF inv] and th = idem_invD(3) [OF inv] and one = idem_invD(4) [OF inv]
  show ?thesis
  proof (cases "under env key user rq")
    case False
    then have "i_rows w' (key, user) = i_rows w (key, user)" "i_fault w' = i_fault w"
      using istep_frame [OF st, of key user] by auto
    with inv False i show ?thesis by (auto simp: idem_inv_def nth_list_update)
  next
    case True
    then obtain proc h where adm: "admit env rq = Admit proc key user h" by (auto simp: under_def)
    have live: "\<And>r. i_rows w (key, user) = Some r \<Longrightarrow> i_clock w < ik_expires r" using exp now(1) by fastforce
    have ph: "phase_ok env rq (i_rows w (key, user)) ph" using th [OF i(1)] i(2) True by simp
    have S: "step_ok env rq (i_clock w) ph (i_rows w (key, user)) ph' (i_rows w' (key, user))"
      by (rule admitted_step_ok [OF nf live ok adm ph st])
    have other: "phase_ok env (fst (ts ! j)) (i_rows w' (key, user)) (snd (ts ! j)) \<and> \<not> (owns ph' \<and> owns (snd (ts ! j)))"
      if j: "j < length ts" "j \<noteq> i" "under env key user (fst (ts ! j))" for j
    proof -
      have "\<not> (owns ph \<and> owns (snd (ts ! j)))" using one [OF i(1) j(1)] i(2) True j by auto
      moreover have "owns ph' \<Longrightarrow> \<not> owns ph \<Longrightarrow> \<not> owns (snd (ts ! j))"
        using S owns_row [OF th [OF j(1,3)]] by (auto simp: step_ok_def)
      ultimately show ?thesis using S th [OF j(1,3)] by (auto simp: step_ok_def)
    qed
    let ?ts = "ts[i := (rq, ph')]"
    have "\<forall>r. i_rows w' (key, user) = Some r \<longrightarrow> expiry \<le> ik_expires r"
      using S exp now(2) by (fastforce simp: step_ok_def)
    moreover have "i_fault w' = (\<lambda>_. None)" using istep_frame [OF st] nf by auto
    moreover have "phase_ok env (fst (?ts ! j)) (i_rows w' (key, user)) (snd (?ts ! j))"
      if "j < length ts" "under env key user (fst (?ts ! j))" for j
      using that other [of j] S i by (cases "j = i") (auto simp: step_ok_def)
    moreover have "j = k"
      if "j < length ts" "k < length ts" "under env key user (fst (?ts ! j))" "under env key user (fst (?ts ! k))"
        "owns (snd (?ts ! j))" "owns (snd (?ts ! k))" for j k
      using that other [of j] other [of k] one [of j k] i(1) by (cases "j = i"; cases "k = i") auto
    ultimately show ?thesis
      unfolding idem_inv_def length_list_update by blast
  qed
qed

lemma idem_reach_clock: "idem_reach env w0 ts w \<Longrightarrow> i_clock w0 \<le> i_clock w"
proof (induction rule: idem_reach.induct)
  case (request_step ts w i rq ph ph' w')
  then show ?case using istep_frame [OF request_step(4)] by simp
next
  case (cleanup ts w)
  then show ?case by (auto simp: DeleteExpired_def split: prod.splits sum.splits dest!: idem_call_frame)
qed auto

lemma idem_reach_inv:
  assumes "idem_reach env w0 ts w" "responses_ok env" "i_rows w0 (key, user) = None" "i_fault w0 = (\<lambda>_. None)"
    and "i_clock w < i_clock w0 + ttl (e_TTL env)"
  shows "idem_inv env key user (i_clock w0 + ttl (e_TTL env)) ts w"
  using assms(1,5)
proof (induction rule: idem_reach.induct)
  case start
  then show ?case using assms(3,4) by (simp add: idem_inv_def)
next
  case (arrive ts w rq)
  then show ?case by (auto simp: idem_inv_def nth_append less_Suc_eq)
next
  case (request_step ts w i rq ph ph' w')
  have "i_clock w = i_clock w'" using istep_frame [OF request_step(4)] by simp
  with idem_inv_step [OF _ assms(2) request_step(2,3,4)] request_step.IH request_step.prems idem_reach_clock [OF request_step(1)]
  show ?case by simp
next
  case (tick ts w d)
  then show ?case by (simp add: idem_inv_def)
next
  case (cleanup ts w)
  let ?e = "i_clock w0 + ttl (e_TTL env)"
  have nf: "i_clock (snd (DeleteExpired w)) = i_clock w"
    by (auto simp: DeleteExpired_def split: prod.splits sum.splits dest!: idem_call_frame)
  with cleanup have inv: "idem_inv env key user ?e ts w" and now: "i_clock w < ?e" by simp_all
  then have "i_fault w = (\<lambda>_. None)" "\<And>r. i_rows w (key, user) = Some r \<Longrightarrow> ?e \<le> ik_expires r" by (simp_all add: idem_inv_def)
  then have "i_rows (snd (DeleteExpired w)) (key, user) = i_rows w (key, user)" "i_fault (snd (DeleteExpired w)) = i_fault w"
    using now by (fastforce simp: DeleteExpired_def idem_call_ok KeyDeleteExpired_def split: option.splits)+
  with inv show ?case by (simp add: idem_inv_def)
next
  case (elsewhere ts w app)
  then show ?case by (simp add: idem_inv_def)
qed

section \<open>Properties\<close>

text \<open>C25: a create procedure runs at most once per key. Let any number of requests of one user arrive under
  one key, interleaved in any way with each other, with other requests, the cleanup and the rest of the
  program. While the store works and the key has not expired, at most one of them is answered by a run of
  its handler, and all that are answered with a response get the same one.\<close>

theorem idempotency_at_most_once:
  assumes "idem_reach env w0 ts w" "responses_ok env" "i_rows w0 (key, user) = None" "i_fault w0 = (\<lambda>_. None)"
    and "i_clock w < i_clock w0 + ttl (e_TTL env)"
    and "i < length ts" "ts ! i = (rq, Returned (Inr (resp, st)) called)" "under env key user rq"
    and "j < length ts" "ts ! j = (rq', Returned (Inr (resp', st')) called')" "under env key user rq'"
  shows "resp' = resp \<and> (called \<and> called' \<longrightarrow> j = i)"
proof -
  note inv = idem_reach_inv [OF assms(1-5)]
  have "stored_answer env (i_rows w (key, user)) resp" "stored_answer env (i_rows w (key, user)) resp'"
    using idem_invD(3) [OF inv assms(6)] idem_invD(3) [OF inv assms(9)] assms(7,8,10,11) by simp_all
  then have "resp' = resp" by (auto simp: stored_answer_def)
  moreover have "called \<and> called' \<longrightarrow> j = i"
    using idem_invD(4) [OF inv assms(9,6)] assms(7,8,10,11) by simp
  ultimately show ?thesis by blast
qed

definition sample_proc :: "(nat, nat) procedure" where
  "sample_proc = \<lparr>pr_type = ResourceCluster, pr_resolve = \<lambda>u h. Inr ''active'', pr_extract = \<lambda>r. Inr r,
     pr_deserialize = \<lambda>b. Inr (length b)\<rparr>"

text \<open>A handler that counts its runs and answers with the count.\<close>

definition sample_env :: "(unit, nat, nat) idem_env" where
  "sample_env = \<lparr>e_procedures = \<lambda>p. if p = ''CreateCluster'' then Some sample_proc else None, e_parse = \<lambda>s. Inr (length s),
     e_marshal_req = \<lambda>r. Inr [], e_marshal_resp = \<lambda>n. Inr (replicate n 0), e_next = \<lambda>rq n. (Inr (Suc n), Suc n), e_TTL = 0\<rparr>"

definition sample_rq :: "unit rpc_request" where
  "sample_rq = \<lparr>rq_procedure = ''CreateCluster'', rq_key = ''k'', rq_user = Some 7, rq_msg = ()\<rparr>"

definition sample_idem :: "nat idem_world" where
  "sample_idem = \<lparr>i_rows = \<lambda>_. None, i_clock = 0, i_fault = \<lambda>_. None, i_calls = 0, i_app = 0\<rparr>"

lemma sample_under: "under sample_env 1 7 sample_rq"
  by (simp add: under_def admit_def sample_env_def sample_rq_def hashRequest_def)

lemma sample_responses_ok: "responses_ok sample_env"
  by (auto simp: responses_ok_def sample_env_def sample_proc_def)

lemma idem_reach_isteps:
  assumes "idem_reach env w0 ts w" "i < length ts" "ts ! i = (rq, ph)" "isteps n env rq ph w = (ph', w')"
  shows "idem_reach env w0 (ts[i := (rq, ph')]) w'"
  using assms
proof (induction n arbitrary: ts ph w)
  case 0
  then show ?case by (metis isteps.simps(1) list_update_id prod.inject)
next
  case (Suc n)
  obtain ph1 w1 where st: "istep env rq ph w = (ph1, w1)" by fastforce
  with Suc.IH [OF idem_reach.request_step [OF Suc.prems(1-3) st], of ph1] Suc.prems show ?case by simp
qed

definition sample_row_done :: idem_row where
  "sample_row_done = \<lparr>ik_procedure = ''CreateCluster'', ik_hash = Sum256 [], ik_response = Some [0], ik_resource = Some (ResourceCluster, 1),
     ik_expires = 86400000000\<rparr>"

lemma sample_admit: "admit sample_env sample_rq = Admit sample_proc 1 7 (Sum256 [])"
  by (simp add: admit_def sample_env_def sample_rq_def hashRequest_def)

lemma Intercept_unfold: "Intercept env rq w = isteps (Suc (Suc (Suc (Suc (Suc 0))))) env rq Arrived w"
  by (simp add: Intercept_def numeral_eq_Suc)

lemma sample_idem_simps:
  "e_next sample_env rq n = (Inr (Suc n), Suc n)" "e_marshal_resp sample_env n = Inr (replicate n 0)" "e_TTL sample_env = 0"
  "rq_procedure sample_rq = ''CreateCluster''" "pr_extract sample_proc r = Inr r" "pr_type sample_proc = ResourceCluster"
  "pr_deserialize sample_proc b = Inr (length b)" "pr_resolve sample_proc u n = Inr ''active''"
  by (simp_all add: sample_env_def sample_rq_def sample_proc_def)

lemma sample_first:
  "Intercept sample_env sample_rq sample_idem = (Returned (Inr (1, Some ''processing'')) True,
     sample_idem\<lparr>i_rows := [(1, 7) \<mapsto> sample_row_done], i_calls := 3, i_app := 1\<rparr>)"
  by (simp add: Intercept_unfold istep_admit [OF sample_admit] on_lookup_def run_next_def completeReservation_def sample_idem_simps
      Lookup_def Reserve_def Complete_def idem_call_def KeyLookup_def KeyReserve_def KeyComplete_def ttl_def sample_idem_def
      sample_row_done_def)

lemma sample_second:
  "Intercept sample_env sample_rq (sample_idem\<lparr>i_rows := [(1, 7) \<mapsto> sample_row_done], i_calls := 3, i_app := 1\<rparr>) =
     (Returned (Inr (1, Some ''active'')) False, sample_idem\<lparr>i_rows := [(1, 7) \<mapsto> sample_row_done], i_calls := 4, i_app := 1\<rparr>)"
  by (simp add: Intercept_unfold istep_admit [OF sample_admit] on_lookup_def handleReplay_def sample_idem_simps
      Lookup_def idem_call_def KeyLookup_def sample_idem_def sample_row_done_def)

theorem idempotency_at_most_once_witness:
  "\<exists>w resp st called resp' st' called'. idem_reach sample_env sample_idem
       [(sample_rq, Returned (Inr (resp, st)) called), (sample_rq, Returned (Inr (resp', st')) called')] w \<and>
     resp' = resp \<and> \<not> (called \<and> called') \<and> i_app w = 1"
proof -
  let ?w = "sample_idem\<lparr>i_rows := [(1, 7) \<mapsto> sample_row_done], i_calls := 4, i_app := 1\<rparr>"
  let ?ts = "[(sample_rq, Returned (Inr (1, Some ''processing'')) True), (sample_rq, Returned (Inr (1, Some ''active'')) False)]"
  have a: "idem_reach sample_env sample_idem [(sample_rq, Arrived), (sample_rq, Arrived)] sample_idem"
    using idem_reach.arrive [OF idem_reach.arrive [OF idem_reach.start]] by simp
  have b: "idem_reach sample_env sample_idem [(sample_rq, Returned (Inr (1, Some ''processing'')) True), (sample_rq, Arrived)]
      (sample_idem\<lparr>i_rows := [(1, 7) \<mapsto> sample_row_done], i_calls := 3, i_app := 1\<rparr>)"
    using idem_reach_isteps [OF a _ _ sample_first [unfolded Intercept_def], of 0] by simp
  have c: "idem_reach sample_env sample_idem ?ts ?w"
    using idem_reach_isteps [OF b _ _ sample_second [unfolded Intercept_def], of 1] by simp
  have clk: "i_clock ?w < i_clock sample_idem + ttl (e_TTL sample_env)" "i_rows sample_idem (1, 7) = None" "i_fault sample_idem = (\<lambda>_. None)"
    by (simp_all add: sample_idem_def ttl_def sample_idem_simps)
  have "1 = (1 :: nat) \<and> (True \<and> False \<longrightarrow> (1 :: nat) = 0)"
    by (rule idempotency_at_most_once [OF c sample_responses_ok clk(2,3,1), of 0 sample_rq 1 _ True 1 sample_rq 1 _ False])
      (simp_all add: sample_under [simplified])
  with c show ?thesis by (intro exI conjI) (auto simp: sample_idem_def)
qed

text \<open>C26: an expired key blocks its user until the cleanup runs. While the row of an expired key is still
  in the table, the lookup does not see it and the reservation runs into it: the request is refused as
  \<open>already being processed\<close> although nothing is, whatever its parameters, and neither the handler nor the
  table is touched. After the cleanup has deleted the row, the same request runs its handler.\<close>

theorem expired_key_refused:
  assumes "admit env rq = Admit proc key user h" "i_fault w = (\<lambda>_. None)"
    and "i_rows w (key, user) = Some r" "ik_expires r < i_clock w"
  shows "\<exists>w'. Intercept env rq w = (Returned (Inl in_progress) False, w') \<and> i_rows w' = i_rows w \<and> i_app w' = i_app w \<and>
    fst (isteps 2 env rq Arrived (snd (DeleteExpired w'))) = Holding"
proof -
  let ?w = "w\<lparr>i_calls := Suc (Suc (Suc (i_calls w)))\<rparr>"
  have "Intercept env rq w = (Returned (Inl in_progress) False, ?w)"
    using assms(2-4) by (simp add: Intercept_unfold istep_admit [OF assms(1)] on_lookup_def Lookup_def Reserve_def idem_call_def
        KeyLookup_def KeyReserve_def)
  moreover have "fst (isteps 2 env rq Arrived (snd (DeleteExpired ?w))) = Holding"
    using assms(2-4) by (simp add: numeral_2_eq_2 istep_admit [OF assms(1)] on_lookup_def Lookup_def Reserve_def idem_call_def
        KeyLookup_def KeyReserve_def DeleteExpired_def KeyDeleteExpired_def)
  ultimately show ?thesis by (intro exI [of _ ?w]) simp
qed

theorem expired_key_refused_witness:
  "\<exists>w'. Intercept sample_env sample_rq (sample_idem\<lparr>i_rows := [(1, 7) \<mapsto> sample_row_done], i_clock := 90000000000\<rparr>) =
     (Returned (Inl in_progress) False, w')"
  using expired_key_refused [OF sample_admit, of "sample_idem\<lparr>i_rows := [(1, 7) \<mapsto> sample_row_done], i_clock := 90000000000\<rparr>"
      sample_row_done]
  by (auto simp: sample_idem_def sample_row_done_def)

end
