(* ===== verification/Authz.thy ===== *)
theory Authz
  imports Gardener "HOL-Library.Finite_Map"
begin

text \<open>
  The authorization client of \<open>common/authz\<close>: the objects and actions of the OpenFGA model
  (\<open>types_gen.go\<close>) and the single and batch evaluations (\<open>client.go\<close>). OpenFGA's \<open>Check\<close> is a
  parameter. Contexts and properties are Go maps, which are references: they live in an explicit
  memory, because \<open>Evaluate\<close> writes into a map it shares with its caller.
\<close>

section \<open>Maps in memory\<close>

text \<open>A value of type \<open>any\<close> in a context: a \<open>map[string]any\<close> (nil or an address) or anything else.\<close>

type_synonym addr = nat

datatype any = AnyMap "addr option" | AnyValue string

type_synonym gomap = "(string, any) fmap"

record mem =
  mm_maps :: "addr \<Rightarrow> gomap"
  mm_next :: addr

definition empty_mem :: mem where
  "empty_mem = \<lparr>mm_maps = (\<lambda>a. fmempty), mm_next = 0\<rparr>"

definition new_map :: "gomap \<Rightarrow> mem \<Rightarrow> addr \<times> mem" where
  "new_map g m = (mm_next m, m\<lparr>mm_maps := (mm_maps m)(mm_next m := g), mm_next := Suc (mm_next m)\<rparr>)"

text \<open>\<open>maps.Copy\<close> into the map at an address.\<close>

definition copy_into :: "addr \<Rightarrow> gomap \<Rightarrow> mem \<Rightarrow> mem" where
  "copy_into a g m = m\<lparr>mm_maps := (mm_maps m)(a := fmadd (mm_maps m a) g)\<rparr>"

text \<open>Ranging over or copying from a nil map finds no entry.\<close>

definition contents :: "mem \<Rightarrow> addr option \<Rightarrow> gomap" where
  "contents m p = (case p of None \<Rightarrow> fmempty | Some a \<Rightarrow> mm_maps m a)"

section \<open>Objects and actions (types\_gen.go)\<close>

record object =
  obj_Type :: string
  obj_ID :: string
  obj_Properties :: "addr option"

record action =
  act_Name :: string
  act_Properties :: "addr option"

definition object_string :: "object \<Rightarrow> string" where
  "object_string ob = obj_Type ob @ '':'' @ obj_ID ob"

definition ObjectTypeUser :: string where "ObjectTypeUser = ''user''"
definition ObjectTypeOrganization :: string where "ObjectTypeOrganization = ''organization''"
definition ObjectTypeProject :: string where "ObjectTypeProject = ''project''"
definition ObjectTypeProjectMember :: string where "ObjectTypeProjectMember = ''project_member''"
definition ObjectTypeCluster :: string where "ObjectTypeCluster = ''cluster''"
definition ObjectTypeNodePool :: string where "ObjectTypeNodePool = ''node_pool''"
definition ObjectTypeNamespace :: string where "ObjectTypeNamespace = ''namespace''"
definition ObjectTypeApiKey :: string where "ObjectTypeApiKey = ''api_key''"
definition ObjectTypePlugin :: string where "ObjectTypePlugin = ''plugin''"

lemmas object_type_defs = ObjectTypeUser_def ObjectTypeOrganization_def ObjectTypeProject_def ObjectTypeProjectMember_def
  ObjectTypeCluster_def ObjectTypeNodePool_def ObjectTypeNamespace_def ObjectTypeApiKey_def ObjectTypePlugin_def

definition ActionAdmin :: string where "ActionAdmin = ''admin''"
definition ActionViewer :: string where "ActionViewer = ''viewer''"
definition ActionCanView :: string where "ActionCanView = ''can_view''"
definition ActionParent :: string where "ActionParent = ''parent''"
definition ActionProjectAdmin :: string where "ActionProjectAdmin = ''project_admin''"
definition ActionProjectViewer :: string where "ActionProjectViewer = ''project_viewer''"
definition ActionOwner :: string where "ActionOwner = ''owner''"
definition ActionCreator :: string where "ActionCreator = ''creator''"
definition ActionUsableBy :: string where "ActionUsableBy = ''usable_by''"
definition ActionCanUse :: string where "ActionCanUse = ''can_use''"

lemmas action_defs = ActionAdmin_def ActionViewer_def ActionCanView_def ActionParent_def ActionProjectAdmin_def
  ActionProjectViewer_def ActionOwner_def ActionCreator_def ActionUsableBy_def ActionCanUse_def

definition User :: "(uuid \<Rightarrow> string) \<Rightarrow> uuid \<Rightarrow> object" where
  "User us u = \<lparr>obj_Type = ObjectTypeUser, obj_ID = us u, obj_Properties = None\<rparr>"

definition Organization :: "(uuid \<Rightarrow> string) \<Rightarrow> uuid \<Rightarrow> object" where
  "Organization us u = \<lparr>obj_Type = ObjectTypeOrganization, obj_ID = us u, obj_Properties = None\<rparr>"

definition Project :: "(uuid \<Rightarrow> string) \<Rightarrow> uuid \<Rightarrow> object" where
  "Project us u = \<lparr>obj_Type = ObjectTypeProject, obj_ID = us u, obj_Properties = None\<rparr>"

definition ProjectMember :: "(uuid \<Rightarrow> string) \<Rightarrow> uuid \<Rightarrow> object" where
  "ProjectMember us u = \<lparr>obj_Type = ObjectTypeProjectMember, obj_ID = us u, obj_Properties = None\<rparr>"

definition Cluster :: "(uuid \<Rightarrow> string) \<Rightarrow> uuid \<Rightarrow> object" where
  "Cluster us u = \<lparr>obj_Type = ObjectTypeCluster, obj_ID = us u, obj_Properties = None\<rparr>"

definition NodePool :: "(uuid \<Rightarrow> string) \<Rightarrow> uuid \<Rightarrow> object" where
  "NodePool us u = \<lparr>obj_Type = ObjectTypeNodePool, obj_ID = us u, obj_Properties = None\<rparr>"

definition Namespace :: "(uuid \<Rightarrow> string) \<Rightarrow> uuid \<Rightarrow> object" where
  "Namespace us u = \<lparr>obj_Type = ObjectTypeNamespace, obj_ID = us u, obj_Properties = None\<rparr>"

definition ApiKey :: "(uuid \<Rightarrow> string) \<Rightarrow> uuid \<Rightarrow> object" where
  "ApiKey us u = \<lparr>obj_Type = ObjectTypeApiKey, obj_ID = us u, obj_Properties = None\<rparr>"

definition Plugin :: "(uuid \<Rightarrow> string) \<Rightarrow> uuid \<Rightarrow> object" where
  "Plugin us u = \<lparr>obj_Type = ObjectTypePlugin, obj_ID = us u, obj_Properties = None\<rparr>"

lemmas object_defs = User_def Organization_def Project_def ProjectMember_def Cluster_def NodePool_def
  Namespace_def ApiKey_def Plugin_def

definition CanView :: action where "CanView = \<lparr>act_Name = ActionCanView, act_Properties = None\<rparr>"
definition CanUse :: action where "CanUse = \<lparr>act_Name = ActionCanUse, act_Properties = None\<rparr>"

section \<open>Evaluations (client.go)\<close>

record EvaluationRequest =
  er_Subject :: object
  er_Resource :: object
  er_Action :: action
  er_Context :: "addr option"

record EvaluationsRequest =
  es_Subject :: "object option"
  es_Resource :: "object option"
  es_Action :: "action option"
  es_Context :: "addr option"
  es_Evaluations :: "EvaluationRequest list"
  es_Semantic :: "string option"

text \<open>OpenFGA's \<open>Check\<close>: user, relation, object, and the context with the memory its nested maps are in;
  the answer's \<open>Allowed\<close> is a pointer.\<close>

type_synonym fga_check = "string \<Rightarrow> string \<Rightarrow> string \<Rightarrow> (gomap \<times> mem) option \<Rightarrow> gerr + bool option"

text \<open>The properties of the object or of the action are copied into the map found under \<open>key\<close>, or into a
  new one.\<close>

definition add_properties :: "string \<Rightarrow> addr option \<Rightarrow> gomap \<times> mem \<Rightarrow> gomap \<times> mem" where
  "add_properties key props = (\<lambda>(ctx, m).
     case props of
       None \<Rightarrow> (ctx, m)
     | Some p \<Rightarrow>
         let (a, m) = (case fmlookup ctx key of
                         Some (AnyMap (Some a)) \<Rightarrow> (a, m)
                       | _ \<Rightarrow> new_map fmempty m)
         in (fmupd key (AnyMap (Some a)) ctx, copy_into a (mm_maps m p) m))"

definition check_context :: "EvaluationRequest \<Rightarrow> mem \<Rightarrow> gomap \<times> mem" where
  "check_context req m =
     add_properties ''action'' (act_Properties (er_Action req))
       (add_properties ''object'' (obj_Properties (er_Resource req)) (contents m (er_Context req), m))"

definition Evaluate :: "fga_check \<Rightarrow> EvaluationRequest \<Rightarrow> mem \<Rightarrow> (gerr + bool) \<times> mem" where
  "Evaluate check req m =
     (let (ctx, m) = check_context req m
      in (case check (object_string (er_Subject req)) (act_Name (er_Action req)) (object_string (er_Resource req))
                 (if ctx = fmempty then None else Some (ctx, m)) of
            Inl e \<Rightarrow> Inl (errorf ''check'' e)
          | Inr allowed \<Rightarrow> Inr (allowed = Some True), m))"

definition CanViewCluster :: "fga_check option \<Rightarrow> (uuid \<Rightarrow> string) \<Rightarrow> uuid \<Rightarrow> uuid \<Rightarrow> mem \<Rightarrow> (gerr + bool) \<times> mem" where
  "CanViewCluster c us user cluster m =
     (case c of
        None \<Rightarrow> (Inl (ErrNew ''openfga client not configured''), m)
      | Some check \<Rightarrow>
          (case Evaluate check \<lparr>er_Subject = User us user, er_Resource = Cluster us cluster, er_Action = CanView, er_Context = None\<rparr> m of
             (Inl e, m) \<Rightarrow> (Inl (errorf ''openfga can_view'' e), m)
           | (Inr d, m) \<Rightarrow> (Inr d, m)))"

definition ExecuteAll :: string where "ExecuteAll = ''execute_all''"
definition DenyOnFirstDeny :: string where "DenyOnFirstDeny = ''deny_on_first_deny''"
definition PermitOnFirstPermit :: string where "PermitOnFirstPermit = ''permit_on_first_permit''"

lemmas semantic_defs = ExecuteAll_def DenyOnFirstDeny_def PermitOnFirstPermit_def

definition merge_defaults :: "EvaluationRequest \<Rightarrow> EvaluationsRequest \<Rightarrow> EvaluationRequest" where
  "merge_defaults eval req =
     (let r1 = (case es_Subject req of
                  Some s \<Rightarrow> if obj_Type (er_Subject eval) = '''' then eval\<lparr>er_Subject := s\<rparr> else eval
                | None \<Rightarrow> eval);
          r2 = (case es_Resource req of
                  Some s \<Rightarrow> if obj_Type (er_Resource eval) = '''' then r1\<lparr>er_Resource := s\<rparr> else r1
                | None \<Rightarrow> r1)
      in case es_Action req of
           Some a \<Rightarrow> if act_Name (er_Action eval) = '''' then r2\<lparr>er_Action := a\<rparr> else r2
         | None \<Rightarrow> r2)"

definition mergeEvaluation :: "EvaluationRequest \<Rightarrow> EvaluationsRequest \<Rightarrow> mem \<Rightarrow> EvaluationRequest \<times> mem" where
  "mergeEvaluation eval req m =
     (if es_Context req \<noteq> None \<or> er_Context eval \<noteq> None
      then (let (a, m) = new_map (fmadd (contents m (es_Context req)) (contents m (er_Context eval))) m
            in ((merge_defaults eval req)\<lparr>er_Context := Some a\<rparr>, m))
      else (merge_defaults eval req, m))"

definition stops :: "string \<Rightarrow> bool \<Rightarrow> bool" where
  "stops semantic decision \<longleftrightarrow>
     (semantic = DenyOnFirstDeny \<and> \<not> decision) \<or> (semantic = PermitOnFirstPermit \<and> decision)"

fun eval_loop ::
  "fga_check \<Rightarrow> EvaluationsRequest \<Rightarrow> string \<Rightarrow> EvaluationRequest list \<Rightarrow> bool list \<Rightarrow> mem \<Rightarrow> (gerr + bool list) \<times> mem" where
  "eval_loop check req semantic [] results m = (Inr results, m)"
| "eval_loop check req semantic (eval # evals) results m =
     (let (merged, m) = mergeEvaluation eval req m
      in case Evaluate check merged m of
           (Inl e, m) \<Rightarrow> (Inl e, m)
         | (Inr d, m) \<Rightarrow>
             if stops semantic d then (Inr (results @ [d]), m)
             else eval_loop check req semantic evals (results @ [d]) m)"

definition Evaluations :: "fga_check \<Rightarrow> EvaluationsRequest \<Rightarrow> mem \<Rightarrow> (gerr + bool list) \<times> mem" where
  "Evaluations check req m =
     (let given = (case es_Semantic req of None \<Rightarrow> '''' | Some s \<Rightarrow> s);
          semantic = (if given = '''' then ExecuteAll else given)
      in if semantic \<in> {ExecuteAll, DenyOnFirstDeny, PermitOnFirstPermit}
         then eval_loop check req semantic (es_Evaluations req) [] m
         else (Inl (ErrNew (''unsupported evaluation semantic: '' @ go_quote given)), m))"


section \<open>What a batch answers\<close>

text \<open>The answers of a batch, each evaluation run in the memory the earlier ones left, without any early
  return; \<open>through\<close> keeps a list up to and including its first element with a property.\<close>

fun answers :: "fga_check \<Rightarrow> EvaluationsRequest \<Rightarrow> EvaluationRequest list \<Rightarrow> mem \<Rightarrow> (gerr + bool) list" where
  "answers check req [] m = []"
| "answers check req (eval # evals) m =
     (let (merged, m) = mergeEvaluation eval req m; (d, m) = Evaluate check merged m
      in d # answers check req evals m)"

fun through :: "('a \<Rightarrow> bool) \<Rightarrow> 'a list \<Rightarrow> 'a list" where
  "through p [] = []"
| "through p (x # xs) = (if p x then [x] else x # through p xs)"

definition halts :: "string \<Rightarrow> gerr + bool \<Rightarrow> bool" where
  "halts semantic a = (case a of Inl e \<Rightarrow> True | Inr d \<Rightarrow> stops semantic d)"

fun collect :: "('e + 'a) list \<Rightarrow> 'e + 'a list" where
  "collect [] = Inr []"
| "collect (Inl e # xs) = Inl e"
| "collect (Inr a # xs) = (case collect xs of Inl e \<Rightarrow> Inl e | Inr as \<Rightarrow> Inr (a # as))"

definition semantic_of :: "EvaluationsRequest \<Rightarrow> string" where
  "semantic_of req = (case es_Semantic req of None \<Rightarrow> ExecuteAll | Some s \<Rightarrow> if s = '''' then ExecuteAll else s)"

definition supported :: "string \<Rightarrow> bool" where
  "supported s \<longleftrightarrow> s \<in> {ExecuteAll, DenyOnFirstDeny, PermitOnFirstPermit}"

lemma eval_loop_answers:
  "fst (eval_loop check req semantic evals results m) =
     (case collect (through (halts semantic) (answers check req evals m)) of
        Inl e \<Rightarrow> Inl e | Inr ds \<Rightarrow> Inr (results @ ds))"
proof (induction evals arbitrary: results m)
  case (Cons ev evals)
  obtain merged m1 where m1: "mergeEvaluation ev req m = (merged, m1)" by fastforce
  obtain d m2 where m2: "Evaluate check merged m1 = (d, m2)" by fastforce
  show ?case
    using Cons.IH m1 m2 by (cases d) (auto simp: halts_def split: sum.splits)
qed simp

lemma Evaluations_answers:
  assumes "supported (semantic_of req)"
  shows "fst (Evaluations check req m) = collect (through (halts (semantic_of req)) (answers check req (es_Evaluations req) m))"
proof -
  have "Evaluations check req m = eval_loop check req (semantic_of req) (es_Evaluations req) [] m"
    using assms by (auto simp: Evaluations_def semantic_of_def supported_def Let_def split: option.splits)
  then show ?thesis by (simp add: eval_loop_answers split: sum.splits)
qed

section \<open>Batches that share no map\<close>

text \<open>A context as OpenFGA sees it, with the maps directly below it looked up.\<close>

definition resolved :: "mem \<Rightarrow> any \<Rightarrow> gomap + string" where
  "resolved m v = (case v of AnyMap p \<Rightarrow> Inl (contents m p) | AnyValue s \<Rightarrow> Inr s)"

definition ctx_view :: "gomap \<times> mem \<Rightarrow> (string, gomap + string) fmap" where
  "ctx_view = (\<lambda>(ctx, m). fmmap (resolved m) ctx)"

text \<open>\<open>Check\<close> looks at the context and the maps directly below it (the maps below those are never written).\<close>

definition reads_view :: "fga_check \<Rightarrow> bool" where
  "reads_view check \<longleftrightarrow> (\<forall>u r ob c c'. ctx_view c = ctx_view c' \<longrightarrow> check u r ob (Some c) = check u r ob (Some c'))"

definition valid_addr :: "mem \<Rightarrow> addr option \<Rightarrow> bool" where
  "valid_addr m p \<longleftrightarrow> (case p of None \<Rightarrow> True | Some a \<Rightarrow> a < mm_next m)"

definition mem_ok :: "mem \<Rightarrow> bool" where
  "mem_ok m \<longleftrightarrow> (\<forall>a < mm_next m. \<forall>k p. fmlookup (mm_maps m a) k = Some (AnyMap p) \<longrightarrow> valid_addr m p)"

definition extends :: "mem \<Rightarrow> mem \<Rightarrow> bool" where
  "extends m m' \<longleftrightarrow> mm_next m \<le> mm_next m' \<and> (\<forall>a < mm_next m. mm_maps m' a = mm_maps m a)"

lemma extends_refl [simp]: "extends m m"
  by (simp add: extends_def)

lemma extends_trans: "extends m m' \<Longrightarrow> extends m' m'' \<Longrightarrow> extends m m''"
  by (auto simp: extends_def)

lemma valid_extends: "extends m m' \<Longrightarrow> valid_addr m p \<Longrightarrow> valid_addr m' p"
  by (auto simp: extends_def valid_addr_def split: option.splits)

lemma contents_extends: "extends m m' \<Longrightarrow> valid_addr m p \<Longrightarrow> contents m' p = contents m p"
  by (auto simp: extends_def valid_addr_def contents_def split: option.splits)

lemma new_map_extends: "new_map g m = (a, m') \<Longrightarrow> extends m m' \<and> mm_maps m' a = g \<and> a = mm_next m \<and> mm_next m' = Suc a"
  by (auto simp: new_map_def extends_def)

text \<open>The context of one evaluation of a batch, and its property maps, hold no map under \<open>object\<close> or
  \<open>action\<close> that properties would be copied into.\<close>

definition merged_context :: "EvaluationRequest \<Rightarrow> EvaluationsRequest \<Rightarrow> mem \<Rightarrow> gomap" where
  "merged_context eval req m = fmadd (contents m (es_Context req)) (contents m (er_Context eval))"

definition no_map :: "gomap \<Rightarrow> string \<Rightarrow> bool" where
  "no_map ctx key \<longleftrightarrow> (case fmlookup ctx key of Some (AnyMap (Some a)) \<Rightarrow> False | _ \<Rightarrow> True)"

definition unshared :: "EvaluationRequest \<Rightarrow> EvaluationsRequest \<Rightarrow> mem \<Rightarrow> bool" where
  "unshared eval req m \<longleftrightarrow>
     (let r = merge_defaults eval req; ctx = merged_context eval req m
      in (obj_Properties (er_Resource r) = None \<or> no_map ctx ''object'') \<and>
         (act_Properties (er_Action r) = None \<or> no_map ctx ''action''))"


definition ctx_ok :: "mem \<Rightarrow> gomap \<Rightarrow> bool" where
  "ctx_ok m ctx \<longleftrightarrow> (\<forall>k p. fmlookup ctx k = Some (AnyMap p) \<longrightarrow> valid_addr m p)"

definition parts_ok :: "mem \<Rightarrow> EvaluationsRequest \<Rightarrow> EvaluationRequest \<Rightarrow> bool" where
  "parts_ok m req eval \<longleftrightarrow> valid_addr m (es_Context req) \<and> valid_addr m (er_Context eval) \<and>
     (case es_Resource req of None \<Rightarrow> True | Some r \<Rightarrow> valid_addr m (obj_Properties r)) \<and>
     (case es_Action req of None \<Rightarrow> True | Some a \<Rightarrow> valid_addr m (act_Properties a)) \<and>
     valid_addr m (obj_Properties (er_Resource eval)) \<and> valid_addr m (act_Properties (er_Action eval))"

definition put_map :: "string \<Rightarrow> mem \<Rightarrow> addr option \<Rightarrow> (string, gomap + string) fmap \<Rightarrow> (string, gomap + string) fmap" where
  "put_map key m props v = (case props of None \<Rightarrow> v | Some p \<Rightarrow> fmupd key (Inl (mm_maps m p)) v)"

lemma resolved_extends: "extends m m' \<Longrightarrow> (\<And>p. v = AnyMap p \<Longrightarrow> valid_addr m p) \<Longrightarrow> resolved m' v = resolved m v"
  by (cases v) (auto simp: resolved_def contents_extends)

lemma view_extends: "extends m m' \<Longrightarrow> ctx_ok m ctx \<Longrightarrow> ctx_view (ctx, m') = ctx_view (ctx, m)"
  by (rule fmap_ext) (auto simp: ctx_view_def ctx_ok_def intro!: map_option_cong resolved_extends)

lemma view_empty_iff: "ctx_view (ctx, m) = fmempty \<longleftrightarrow> ctx = fmempty"
proof
  assume "ctx_view (ctx, m) = fmempty"
  then have "map_option (resolved m) (fmlookup ctx k) = None" for k
    by (metis (no_types, lifting) case_prod_conv fmempty_lookup fmlookup_map ctx_view_def)
  then show "ctx = fmempty" by (intro fmap_ext) simp
qed (simp add: ctx_view_def)

lemma put_extends: "extends m m' \<Longrightarrow> valid_addr m p \<Longrightarrow> put_map key m' p v = put_map key m p v"
  by (auto simp: put_map_def extends_def valid_addr_def split: option.splits)

lemma add_properties_view:
  assumes "props = None \<or> no_map ctx key" "ctx_ok m ctx" "valid_addr m props" "add_properties key props (ctx, m) = (ctx', m')"
  shows "extends m m' \<and> ctx_ok m' ctx' \<and> ctx_view (ctx', m') = put_map key m props (ctx_view (ctx, m)) \<and>
    (\<forall>k. k \<noteq> key \<longrightarrow> no_map ctx' k = no_map ctx k)"
proof (cases props)
  case None
  with assms show ?thesis by (auto simp: add_properties_def put_map_def)
next
  case (Some p)
  obtain a m1 where nm: "new_map fmempty m = (a, m1)" by fastforce
  from new_map_extends [OF nm] have e1: "extends m m1" "mm_maps m1 a = fmempty" "a = mm_next m" "mm_next m1 = Suc a" by auto
  have res: "ctx' = fmupd key (AnyMap (Some a)) ctx" "m' = copy_into a (mm_maps m1 p) m1"
    using assms(1,4) Some nm by (auto simp: add_properties_def no_map_def split: option.splits any.splits)
  have p: "p < mm_next m" using assms(3) Some by (simp add: valid_addr_def)
  have ex: "extends m m'" using e1 res by (auto simp: extends_def copy_into_def)
  have at: "mm_maps m' a = mm_maps m p" "mm_next m' = Suc a"
    using e1 p res by (auto simp: copy_into_def extends_def)
  have "ctx_ok m' ctx'"
    using assms(2) ex at by (auto simp: ctx_ok_def res valid_extends) (simp add: valid_addr_def)
  moreover have "ctx_view (ctx', m') = fmupd key (Inl (mm_maps m p)) (ctx_view (ctx, m'))"
    by (simp add: ctx_view_def res(1) resolved_def contents_def at(1) fmmap_fmupd)
  ultimately show ?thesis
    using Some ex view_extends [OF ex assms(2)] by (simp add: put_map_def res(1) no_map_def)
qed

lemma merge_defaults_context [simp]: "er_Context (merge_defaults eval req) = er_Context eval"
  by (simp add: merge_defaults_def Let_def split: option.split)

lemma merge_shape:
  assumes "mergeEvaluation eval req m = (r, m')"
  obtains p where "r = (merge_defaults eval req)\<lparr>er_Context := p\<rparr>" "extends m m'" "contents m' p = merged_context eval req m"
proof (cases "es_Context req = None \<and> er_Context eval = None")
  case True
  with assms have "r = (merge_defaults eval req)\<lparr>er_Context := None\<rparr>" "m' = m"
    by (auto simp: mergeEvaluation_def intro: EvaluationRequest.equality)
  with True that show ?thesis by (auto simp: merged_context_def contents_def)
next
  case False
  obtain a m1 where nm: "new_map (merged_context eval req m) m = (a, m1)" by fastforce
  from assms False nm have "r = (merge_defaults eval req)\<lparr>er_Context := Some a\<rparr>" "m' = m1"
    by (auto simp: mergeEvaluation_def merged_context_def)
  with that new_map_extends [OF nm] show ?thesis by (auto simp: contents_def)
qed

lemma merge_defaults_valid:
  "parts_ok m req eval \<Longrightarrow> valid_addr m (obj_Properties (er_Resource (merge_defaults eval req))) \<and>
     valid_addr m (act_Properties (er_Action (merge_defaults eval req)))"
  by (auto simp: parts_ok_def merge_defaults_def Let_def split: option.splits)

lemma merged_context_ok: "mem_ok m \<Longrightarrow> parts_ok m req eval \<Longrightarrow> ctx_ok m (merged_context eval req m)"
  by (auto simp: ctx_ok_def merged_context_def parts_ok_def mem_ok_def contents_def valid_addr_def split: option.splits if_splits)

lemma merged_context_extends: "extends m m' \<Longrightarrow> parts_ok m req eval \<Longrightarrow> merged_context eval req m' = merged_context eval req m"
  by (simp add: merged_context_def contents_extends parts_ok_def)


definition judged :: "fga_check \<Rightarrow> EvaluationRequest \<Rightarrow> gomap \<times> mem \<Rightarrow> gerr + bool" where
  "judged check req c =
     (case check (object_string (er_Subject req)) (act_Name (er_Action req)) (object_string (er_Resource req))
             (if fst c = fmempty then None else Some c) of
        Inl e \<Rightarrow> Inl (errorf ''check'' e) | Inr allowed \<Rightarrow> Inr (allowed = Some True))"

lemma Evaluate_judged: "Evaluate check req m = (judged check req (check_context req m), snd (check_context req m))"
  by (simp add: Evaluate_def judged_def Let_def split_beta split: sum.split)

lemma judged_view:
  assumes "reads_view check" "ctx_view c = ctx_view c'"
  shows "judged check req c = judged check req c'"
proof -
  have "fst c = fmempty \<longleftrightarrow> fst c' = fmempty"
    using view_empty_iff [of "fst c" "snd c"] view_empty_iff [of "fst c'" "snd c'"] assms(2) by simp
  moreover have "check u r ob (Some c) = check u r ob (Some c')" for u r ob
    using assms unfolding reads_view_def by blast
  ultimately show ?thesis by (simp add: judged_def)
qed

lemma judged_context [simp]: "judged check (req\<lparr>er_Context := p\<rparr>) c = judged check req c"
  by (simp add: judged_def)

definition seen :: "EvaluationRequest \<Rightarrow> EvaluationsRequest \<Rightarrow> mem \<Rightarrow> (string, gomap + string) fmap" where
  "seen eval req m = put_map ''action'' m (act_Properties (er_Action (merge_defaults eval req)))
     (put_map ''object'' m (obj_Properties (er_Resource (merge_defaults eval req))) (ctx_view (merged_context eval req m, m)))"

lemma check_context_seen:
  assumes "mem_ok m" "parts_ok m req eval" "unshared eval req m" "extends m m1" "mergeEvaluation eval req m1 = (r, m2)"
  shows "ctx_view (check_context r m2) = seen eval req m \<and> extends m1 (snd (check_context r m2))"
proof -
  let ?d = "merge_defaults eval req" and ?ctx = "merged_context eval req m"
  obtain p where r: "r = ?d\<lparr>er_Context := p\<rparr>" and m2: "extends m1 m2" and c: "contents m2 p = merged_context eval req m1"
    using merge_shape [OF assms(5)] .
  have e2: "extends m m2" using assms(4) m2 by (rule extends_trans)
  have c': "contents m2 p = ?ctx" using c merged_context_extends [OF assms(4,2)] by simp
  have ok: "ctx_ok m ?ctx" using assms(1,2) by (rule merged_context_ok)
  then have ok2: "ctx_ok m2 ?ctx" using e2 by (auto simp: ctx_ok_def valid_extends)
  note v = merge_defaults_valid [OF assms(2)]
  have sh: "obj_Properties (er_Resource ?d) = None \<or> no_map ?ctx ''object''" "act_Properties (er_Action ?d) = None \<or> no_map ?ctx ''action''"
    using assms(3) by (auto simp: unshared_def Let_def)
  obtain ctx3 m3 where a3: "add_properties ''object'' (obj_Properties (er_Resource ?d)) (?ctx, m2) = (ctx3, m3)" by fastforce
  have s3: "extends m2 m3 \<and> ctx_ok m3 ctx3 \<and> ctx_view (ctx3, m3) = put_map ''object'' m2 (obj_Properties (er_Resource ?d)) (ctx_view (?ctx, m2)) \<and>
      (\<forall>k. k \<noteq> ''object'' \<longrightarrow> no_map ctx3 k = no_map ?ctx k)"
    by (rule add_properties_view [OF sh(1) ok2 _ a3]) (use v in \<open>simp add: valid_extends [OF e2]\<close>)
  have e3: "extends m m3" using extends_trans [OF e2] s3 by simp
  obtain ctx4 m4 where a4: "add_properties ''action'' (act_Properties (er_Action ?d)) (ctx3, m3) = (ctx4, m4)" by fastforce
  have s4: "extends m3 m4 \<and> ctx_ok m4 ctx4 \<and> ctx_view (ctx4, m4) = put_map ''action'' m3 (act_Properties (er_Action ?d)) (ctx_view (ctx3, m3)) \<and>
      (\<forall>k. k \<noteq> ''action'' \<longrightarrow> no_map ctx4 k = no_map ctx3 k)"
    by (rule add_properties_view [OF _ _ _ a4]) (use sh(2) s3 v in \<open>simp_all add: valid_extends [OF e3]\<close>)
  have "check_context r m2 = (ctx4, m4)" using a3 a4 c' by (simp add: check_context_def r)
  moreover have "extends m1 m4" using extends_trans [OF extends_trans [OF m2, of m3], of m4] s3 s4 by simp
  moreover have "ctx_view (ctx4, m4) = seen eval req m"
    using s3 s4 v put_extends [OF e3] put_extends [OF e2] by (simp add: seen_def view_extends [OF e2 ok])
  ultimately show ?thesis by simp
qed

definition alone :: "fga_check \<Rightarrow> EvaluationsRequest \<Rightarrow> mem \<Rightarrow> EvaluationRequest \<Rightarrow> gerr + bool" where
  "alone check req m eval = fst (case mergeEvaluation eval req m of (r, m) \<Rightarrow> Evaluate check r m)"

lemma answers_alone:
  assumes "reads_view check" "mem_ok m" "\<forall>eval \<in> set evals. parts_ok m req eval \<and> unshared eval req m" "extends m m1"
  shows "answers check req evals m1 = map (alone check req m) evals"
  using assms(3,4)
proof (induction evals arbitrary: m1)
  case (Cons ev evals)
  obtain r m2 where mg: "mergeEvaluation ev req m1 = (r, m2)" by fastforce
  obtain r' m2' where mg': "mergeEvaluation ev req m = (r', m2')" by fastforce
  obtain p where r: "r = (merge_defaults ev req)\<lparr>er_Context := p\<rparr>" using merge_shape [OF mg] .
  obtain p' where r': "r' = (merge_defaults ev req)\<lparr>er_Context := p'\<rparr>" using merge_shape [OF mg'] .
  have ok: "parts_ok m req ev" "unshared ev req m" using Cons.prems(1) by auto
  have 1: "ctx_view (check_context r m2) = seen ev req m \<and> extends m1 (snd (check_context r m2))"
    by (rule check_context_seen [OF assms(2) ok Cons.prems(2) mg])
  have 2: "ctx_view (check_context r' m2') = seen ev req m"
    using check_context_seen [OF assms(2) ok extends_refl mg'] by simp
  have "judged check r (check_context r m2) = alone check req m ev"
    using 1 2 judged_view [OF assms(1), of "check_context r m2" "check_context r' m2'"]
    by (simp add: alone_def mg' Evaluate_judged) (simp add: r r')
  moreover have "extends m (snd (check_context r m2))"
    using extends_trans [OF Cons.prems(2)] 1 by simp
  ultimately show ?case
    using Cons.IH Cons.prems(1) by (simp add: mg Evaluate_judged)
qed simp


section \<open>Properties\<close>

lemma through_prefix:
  assumes "collect (through (halts semantic) as) = Inr ds"
  shows "map Inr ds = take (length ds) as \<and>
    (length ds = length as \<or> (ds \<noteq> [] \<and> stops semantic (last ds))) \<and> (\<forall>d \<in> set (butlast ds). \<not> stops semantic d)"
  using assms
proof (induction as arbitrary: ds)
  case (Cons a as)
  then show ?case by (cases a) (auto simp: halts_def split: if_splits sum.splits)
qed simp

text \<open>
  C28: batch evaluation. When no evaluation copies properties into a map of its context, a batch under a supported
  semantic answers as the evaluations do alone, in order: it fails with the first error it meets, and otherwise
  its decisions are those of the single evaluations, all of them or up to and including the first one that its
  semantic stops at. An unknown semantic is refused before anything is checked.
\<close>

theorem Evaluations_as_alone:
  assumes "reads_view check" "mem_ok m" "\<forall>eval \<in> set (es_Evaluations req). parts_ok m req eval \<and> unshared eval req m"
  shows "(supported (semantic_of req) \<longrightarrow>
      fst (Evaluations check req m) = collect (through (halts (semantic_of req)) (map (alone check req m) (es_Evaluations req))) \<and>
      (\<forall>ds. fst (Evaluations check req m) = Inr ds \<longrightarrow>
         map Inr ds = take (length ds) (map (alone check req m) (es_Evaluations req)) \<and> (\<forall>d \<in> set (butlast ds). \<not> stops (semantic_of req) d) \<and>
         (length ds = length (es_Evaluations req) \<or> ds \<noteq> [] \<and> stops (semantic_of req) (last ds)))) \<and>
    (\<not> supported (semantic_of req) \<longrightarrow>
      Evaluations check req m = (Inl (ErrNew (''unsupported evaluation semantic: '' @ go_quote (semantic_of req))), m))"
proof (cases "supported (semantic_of req)")
  case True
  have "fst (Evaluations check req m) = collect (through (halts (semantic_of req)) (map (alone check req m) (es_Evaluations req)))"
    using Evaluations_answers [OF True] answers_alone [OF assms(1-3) extends_refl] by simp
  with True through_prefix [of "semantic_of req" "map (alone check req m) (es_Evaluations req)"] show ?thesis
    by auto
next
  case False
  then show ?thesis
    by (auto simp: Evaluations_def semantic_of_def supported_def Let_def split: option.splits if_splits)
qed

text \<open>A check that allows what is public, a context shared by a batch, with a map under \<open>object\<close>, and two documents of
  which the first is public.\<close>

definition public_check :: fga_check where
  "public_check u r ob c =
     (case c of None \<Rightarrow> Inr (Some False)
      | Some (ctx, m) \<Rightarrow>
          Inr (Some (case fmlookup ctx ''object'' of
                       Some (AnyMap p) \<Rightarrow> fmlookup (contents m p) ''public'' = Some (AnyValue ''true'')
                     | _ \<Rightarrow> False)))"

definition shared_mem :: mem where
  "shared_mem = \<lparr>mm_maps = (\<lambda>a. fmempty)(1 := fmupd ''object'' (AnyMap (Some 0)) fmempty, 2 := fmupd ''public'' (AnyValue ''true'') fmempty),
     mm_next = 3\<rparr>"

definition document :: "string \<Rightarrow> addr option \<Rightarrow> EvaluationRequest" where
  "document name props = \<lparr>er_Subject = User dec_us 1, er_Resource = \<lparr>obj_Type = ''document'', obj_ID = name, obj_Properties = props\<rparr>,
     er_Action = CanView, er_Context = None\<rparr>"

definition batch_of :: "EvaluationRequest list \<Rightarrow> EvaluationsRequest" where
  "batch_of evs = \<lparr>es_Subject = None, es_Resource = None, es_Action = None, es_Context = Some 1, es_Evaluations = evs, es_Semantic = None\<rparr>"

lemma public_check_view: "reads_view public_check"
proof -
  have "public_check u r ob (Some c) =
      Inr (Some (case fmlookup (ctx_view c) ''object'' of Some (Inl g) \<Rightarrow> fmlookup g ''public'' = Some (AnyValue ''true'') | _ \<Rightarrow> False))" for u r ob c
    by (cases c) (auto simp: public_check_def ctx_view_def resolved_def split: option.splits any.splits)
  then show ?thesis by (simp add: reads_view_def)
qed

definition plain_mem :: mem where
  "plain_mem = \<lparr>mm_maps = (\<lambda>a. fmempty)(1 := fmupd ''tenant'' (AnyValue ''t'') fmempty, 2 := fmupd ''public'' (AnyValue ''true'') fmempty),
     mm_next = 3\<rparr>"

lemma plain_mem_ok: "mem_ok plain_mem"
  by (auto simp: mem_ok_def plain_mem_def split: if_splits)

theorem Evaluations_as_alone_witness:
  "reads_view public_check \<and> mem_ok plain_mem \<and>
   fst (Evaluations public_check (batch_of [document ''brochure'' (Some 2), document ''secret'' None, document ''brochure'' (Some 2)]) plain_mem) =
     Inr [True, False, True]"
proof -
  let ?evs = "[document ''brochure'' (Some 2), document ''secret'' None, document ''brochure'' (Some 2)]"
  have "\<forall>eval \<in> set (es_Evaluations (batch_of ?evs)). parts_ok plain_mem (batch_of ?evs) eval \<and> unshared eval (batch_of ?evs) plain_mem"
    by code_simp
  from Evaluations_as_alone [OF public_check_view plain_mem_ok this]
  have "fst (Evaluations public_check (batch_of ?evs) plain_mem) =
      collect (through (halts (semantic_of (batch_of ?evs))) (map (alone public_check (batch_of ?evs) plain_mem) (es_Evaluations (batch_of ?evs))))"
    by (simp add: supported_def semantic_of_def batch_of_def)
  also have "\<dots> = Inr [True, False, True]" by code_simp
  finally show ?thesis using public_check_view plain_mem_ok by simp
qed


end
