(* ===== verification/AuthzWorker.thy ===== *)
theory AuthzWorker
  imports Authz Tenant_Db
begin

text \<open>
  The authz-worker: it drains \<open>authz.outbox\<close> and writes the relationship tuples of the rows the
  entries name to OpenFGA. The queries of \<open>pkg/db\<close>, the handlers of \<open>pkg/worker/handler\<close> and the
  loop of \<open>pkg/worker/worker.go\<close>. OpenFGA is a parameter with the contract of the locale
  \<open>tuple_store\<close>; the tenant tables are those of \<open>Tenant_Db\<close>.
\<close>

section \<open>Tables and queries (queries.sql.go)\<close>

record api_key_row =
  k_id :: uuid
  k_org :: uuid
  k_user :: uuid
  k_expires :: "micros option"
  k_revoked :: "micros option"
  k_deleted :: "micros option"

record plugin_row =
  pl_id :: uuid
  pl_org :: uuid
  pl_deleted :: "micros option"

record authz_row =
  ax_id :: uuid
  ax_project :: "uuid option"
  ax_project_member :: "uuid option"
  ax_cluster :: "uuid option"
  ax_node_pool :: "uuid option"
  ax_namespace :: "uuid option"
  ax_api_key :: "uuid option"
  ax_org_user :: "uuid option"
  ax_plugin :: "uuid option"
  ax_created :: micros
  ax_processed :: "micros option"
  ax_retries :: int
  ax_retry_after :: "micros option"
  ax_failed :: "micros option"
  ax_status :: ob_status
  ax_status_info :: "string option"

text \<open>The world the worker runs in: the tables, the outbox rows other transactions hold locked, the clock, which
  call to the database fails with which error, and the state behind the OpenFGA client.\<close>

record 't authz_world =
  az_db :: tenant_db
  az_api_keys :: "api_key_row list"
  az_plugins :: "plugin_row list"
  az_outbox :: "authz_row list"
  az_locked :: "uuid list"
  az_now :: micros
  az_fault :: "nat \<Rightarrow> gerr option"
  az_calls :: nat
  az_fga :: 't

definition az_call :: "('t authz_world \<Rightarrow> (gerr + 'a) \<times> 't authz_world) \<Rightarrow> 't authz_world \<Rightarrow> (gerr + 'a) \<times> 't authz_world" where
  "az_call q w =
     (let w1 = w\<lparr>az_calls := Suc (az_calls w)\<rparr>
      in case az_fault w (az_calls w) of Some e \<Rightarrow> (Inl e, w1) | None \<Rightarrow> q w1)"

definition az_query :: "('t authz_world \<Rightarrow> gerr + 'a) \<Rightarrow> 't authz_world \<Rightarrow> (gerr + 'a) \<times> 't authz_world" where
  "az_query q = az_call (\<lambda>w. (q w, w))"

definition GetApiKeyByID :: "uuid \<Rightarrow> 't authz_world \<Rightarrow> gerr + api_key_row" where
  "GetApiKeyByID i w = one [r. r \<leftarrow> az_api_keys w, k_id r = i]"

definition GetClusterByID :: "uuid \<Rightarrow> 't authz_world \<Rightarrow> gerr + cluster_row" where
  "GetClusterByID i w = one [r. r \<leftarrow> clusters (az_db w), c_id r = i]"

definition GetNamespaceByID :: "uuid \<Rightarrow> 't authz_world \<Rightarrow> gerr + namespace_row" where
  "GetNamespaceByID i w = one [r. r \<leftarrow> namespaces (az_db w), n_id r = i]"

definition GetNodePoolByID :: "uuid \<Rightarrow> 't authz_world \<Rightarrow> gerr + node_pool_row" where
  "GetNodePoolByID i w = one [r. r \<leftarrow> node_pools (az_db w), np_id r = i]"

definition GetOrganizationUserByID :: "uuid \<Rightarrow> 't authz_world \<Rightarrow> gerr + org_user_row" where
  "GetOrganizationUserByID i w = one [r. r \<leftarrow> org_users (az_db w), ou_id r = i]"

definition GetPluginByID :: "uuid \<Rightarrow> 't authz_world \<Rightarrow> gerr + plugin_row" where
  "GetPluginByID i w = one [r. r \<leftarrow> az_plugins w, pl_id r = i]"

definition GetProjectByID :: "uuid \<Rightarrow> 't authz_world \<Rightarrow> gerr + project_row" where
  "GetProjectByID i w = one [r. r \<leftarrow> projects (az_db w), p_id r = i]"

definition GetProjectMemberByID :: "uuid \<Rightarrow> 't authz_world \<Rightarrow> gerr + project_member_row" where
  "GetProjectMemberByID i w = one [r. r \<leftarrow> project_members (az_db w), pm_id r = i]"

definition az_due :: "micros \<Rightarrow> authz_row \<Rightarrow> bool" where
  "az_due now r \<longleftrightarrow> (ax_status r = Pending \<or> ax_status r = Retrying) \<and>
     (case ax_retry_after r of None \<Rightarrow> True | Some t \<Rightarrow> t \<le> now)"

definition GetAndLockNextOutboxRow :: "'t authz_world \<Rightarrow> gerr + authz_row" where
  "GetAndLockNextOutboxRow w =
     (case select_min ax_created (\<lambda>r. az_due (az_now w) r \<and> ax_id r \<notin> set (az_locked w)) (az_outbox w) of
        None \<Rightarrow> Inl ErrNoRows
      | Some r \<Rightarrow> Inr r)"

definition az_update :: "(authz_row \<Rightarrow> bool) \<Rightarrow> (authz_row \<Rightarrow> authz_row) \<Rightarrow> 't authz_world \<Rightarrow> 't authz_world" where
  "az_update p f w = w\<lparr>az_outbox := update_where p f (az_outbox w)\<rparr>"

definition MarkOutboxRowProcessed :: "uuid \<Rightarrow> 't authz_world \<Rightarrow> 't authz_world" where
  "MarkOutboxRowProcessed i w = az_update (\<lambda>r. ax_id r = i)
     (\<lambda>r. r\<lparr>ax_processed := Some (az_now w), ax_status := Completed, ax_status_info := None\<rparr>) w"

definition MarkOutboxRowFailed :: "uuid \<Rightarrow> string \<Rightarrow> 't authz_world \<Rightarrow> 't authz_world" where
  "MarkOutboxRowFailed i info w = az_update (\<lambda>r. ax_id r = i)
     (\<lambda>r. r\<lparr>ax_status := Failed, ax_status_info := Some info\<rparr>) w"

text \<open>The right-hand sides of \<open>SET\<close> read the old row; PostgreSQL refuses a counter that would leave its range, and
  \<open>RETURNING\<close> finds no row when no row has the identifier.\<close>

definition az_retry_row :: "micros \<Rightarrow> micros \<Rightarrow> micros \<Rightarrow> string \<Rightarrow> authz_row \<Rightarrow> authz_row" where
  "az_retry_row base cap now info r = r\<lparr>ax_retries := ax_retries r + 1, ax_failed := Some now,
     ax_retry_after := Some (now + backoff base cap (ax_retries r)), ax_status := Retrying, ax_status_info := Some info\<rparr>"

definition MarkOutboxRowRetry ::
  "uuid \<Rightarrow> micros \<Rightarrow> micros \<Rightarrow> string \<Rightarrow> 't authz_world \<Rightarrow> (gerr + int) \<times> 't authz_world" where
  "MarkOutboxRowRetry i base cap info w =
     (case lookup_row ax_id i (az_outbox w) of
        None \<Rightarrow> (Inl ErrNoRows, w)
      | Some r \<Rightarrow>
          if in32 (ax_retries r + 1)
          then (Inr (ax_retries r + 1), az_update (\<lambda>r. ax_id r = i) (az_retry_row base cap (az_now w) info) w)
          else (Inl (ErrNew ''integer out of range''), w))"

definition ResetFailedOutboxItems :: "'t authz_world \<Rightarrow> 't authz_world" where
  "ResetFailedOutboxItems w = az_update (\<lambda>r. ax_status r = Failed)
     (\<lambda>r. r\<lparr>ax_status := Pending, ax_retries := 0, ax_retry_after := None\<rparr>) w"

section \<open>Tuples (handler.go)\<close>

record tuple_key =
  tk_User :: string
  tk_Relation :: string
  tk_Object :: string

text \<open>A relationship condition: its name and the \<open>expiration\<close> of its context.\<close>

type_synonym fga_condition = "string \<times> string"

type_synonym tuples = "tuple_key \<Rightarrow> fga_condition option option"

text \<open>The two calls of the OpenFGA client: the flag is the conflict option (ignore duplicate writes, ignore missing
  deletes).\<close>

record 't fga_ops =
  WriteTuples :: "bool \<Rightarrow> (tuple_key \<times> fga_condition option) list \<Rightarrow> 't \<Rightarrow> gerr option \<times> 't"
  DeleteTuples :: "bool \<Rightarrow> tuple_key list \<Rightarrow> 't \<Rightarrow> gerr option \<times> 't"

text \<open>The handler's environment: the client, the text of a UUID, and \<open>Time.Format(time.RFC3339)\<close> in the time zone of
  the process.\<close>

record 't authz_env =
  ae_fga :: "'t fga_ops"
  ae_us :: "uuid \<Rightarrow> string"
  ae_rfc3339 :: "micros \<Rightarrow> string"

definition tuple :: "object \<Rightarrow> string \<Rightarrow> object \<Rightarrow> tuple_key" where
  "tuple subject relation ob = \<lparr>tk_User = object_string subject, tk_Relation = relation, tk_Object = object_string ob\<rparr>"

definition tupleDelete :: "object \<Rightarrow> string \<Rightarrow> object \<Rightarrow> tuple_key" where
  "tupleDelete subject relation ob = \<lparr>tk_User = object_string subject, tk_Relation = relation, tk_Object = object_string ob\<rparr>"

definition writeTuplesIfNotExist ::
  "'t authz_env \<Rightarrow> (tuple_key \<times> fga_condition option) list \<Rightarrow> 't authz_world \<Rightarrow> gerr option \<times> 't authz_world" where
  "writeTuplesIfNotExist env ts w =
     (if ts = [] then (None, w)
      else case WriteTuples (ae_fga env) True ts (az_fga w) of
             (Some e, t) \<Rightarrow> (Some (errorf ''write tuples'' e), w\<lparr>az_fga := t\<rparr>)
           | (None, t) \<Rightarrow> (None, w\<lparr>az_fga := t\<rparr>))"

definition deleteTuplesIfExist ::
  "'t authz_env \<Rightarrow> tuple_key list \<Rightarrow> 't authz_world \<Rightarrow> gerr option \<times> 't authz_world" where
  "deleteTuplesIfExist env ks w =
     (if ks = [] then (None, w)
      else case DeleteTuples (ae_fga env) True ks (az_fga w) of
             (Some e, t) \<Rightarrow> (Some (errorf ''delete tuples'' e), w\<lparr>az_fga := t\<rparr>)
           | (None, t) \<Rightarrow> (None, w\<lparr>az_fga := t\<rparr>))"

section \<open>The handlers\<close>

text \<open>How every handler reads its row.\<close>

definition get_row ::
  "'t authz_env \<Rightarrow> string \<Rightarrow> (uuid \<Rightarrow> 't authz_world \<Rightarrow> gerr + 'r) \<Rightarrow> uuid \<Rightarrow> 't authz_world \<Rightarrow> (gerr + 'r) \<times> 't authz_world" where
  "get_row env what q i w =
     (case az_query (q i) w of
        (Inl e, w) \<Rightarrow>
          (if errors_is ErrNoRows e then Inl (ErrNew (what @ '' not found: '' @ ae_us env i)) else Inl (errorf (''get '' @ what) e), w)
      | (Inr r, w) \<Rightarrow> (Inr r, w))"

text \<open>A handler returns \<open>None\<close> when it panics.\<close>

type_synonym 't authz_handler = "uuid \<Rightarrow> 't authz_world \<Rightarrow> (gerr option \<times> 't authz_world) option"

definition handle_OrganizationUser :: "'t authz_env \<Rightarrow> 't authz_handler" where
  "handle_OrganizationUser env i w =
     (case get_row env ''organization user'' GetOrganizationUserByID i w of
        (Inl e, w) \<Rightarrow> Some (Some e, w)
      | (Inr orgUser, w) \<Rightarrow>
          let user = User (ae_us env) (ou_user orgUser); org = Organization (ae_us env) (ou_org orgUser)
          in case deleteTuplesIfExist env [tupleDelete user ActionAdmin org, tupleDelete user ActionViewer org] w of
               (Some e, w) \<Rightarrow> Some (Some e, w)
             | (None, w) \<Rightarrow>
                 if ou_deleted orgUser \<noteq> None then Some (None, w)
                 else if ou_status orgUser \<noteq> ''accepted'' then Some (None, w)
                 else if ou_permission orgUser = ''admin'' then Some (writeTuplesIfNotExist env [(tuple user ActionAdmin org, None)] w)
                 else if ou_permission orgUser = ''viewer'' then Some (writeTuplesIfNotExist env [(tuple user ActionViewer org, None)] w)
                 else None)"

definition handle_Project :: "'t authz_env \<Rightarrow> 't authz_handler" where
  "handle_Project env i w =
     (case get_row env ''project'' GetProjectByID i w of
        (Inl e, w) \<Rightarrow> Some (Some e, w)
      | (Inr project, w) \<Rightarrow>
          let clusterObj = Cluster (ae_us env) (p_cluster project); projectObj = Project (ae_us env) (p_id project)
          in if p_deleted project \<noteq> None
             then Some (deleteTuplesIfExist env [tupleDelete clusterObj ActionParent projectObj] w)
             else Some (writeTuplesIfNotExist env [(tuple clusterObj ActionParent projectObj, None)] w))"

definition handle_ProjectMember :: "'t authz_env \<Rightarrow> 't authz_handler" where
  "handle_ProjectMember env i w =
     (case get_row env ''project member'' GetProjectMemberByID i w of
        (Inl e, w) \<Rightarrow> Some (Some e, w)
      | (Inr member, w) \<Rightarrow>
          let user = User (ae_us env) (pm_user member); project = Project (ae_us env) (pm_project member);
              projectMember = ProjectMember (ae_us env) (pm_id member)
          in case deleteTuplesIfExist env [tupleDelete user ActionProjectAdmin project, tupleDelete user ActionProjectViewer project,
                 tupleDelete project ActionParent projectMember] w of
               (Some e, w) \<Rightarrow> Some (Some e, w)
             | (None, w) \<Rightarrow>
                 if pm_deleted member \<noteq> None then Some (None, w)
                 else if pm_role member = ''admin''
                 then Some (writeTuplesIfNotExist env [(tuple user ActionProjectAdmin project, None), (tuple project ActionParent projectMember, None)] w)
                 else if pm_role member = ''viewer''
                 then Some (writeTuplesIfNotExist env [(tuple user ActionProjectViewer project, None), (tuple project ActionParent projectMember, None)] w)
                 else None)"

definition handle_Cluster :: "'t authz_env \<Rightarrow> 't authz_handler" where
  "handle_Cluster env i w =
     (case get_row env ''cluster'' GetClusterByID i w of
        (Inl e, w) \<Rightarrow> Some (Some e, w)
      | (Inr cluster, w) \<Rightarrow>
          let orgObj = Organization (ae_us env) (c_org cluster); clusterObj = Cluster (ae_us env) (c_id cluster)
          in if c_deleted cluster \<noteq> None
             then Some (deleteTuplesIfExist env [tupleDelete orgObj ActionOwner clusterObj] w)
             else Some (writeTuplesIfNotExist env [(tuple orgObj ActionOwner clusterObj, None)] w))"

definition handle_NodePool :: "'t authz_env \<Rightarrow> 't authz_handler" where
  "handle_NodePool env i w =
     (case get_row env ''node pool'' GetNodePoolByID i w of
        (Inl e, w) \<Rightarrow> Some (Some e, w)
      | (Inr nodePool, w) \<Rightarrow>
          let clusterObj = Cluster (ae_us env) (np_cluster nodePool); nodePoolObj = NodePool (ae_us env) (np_id nodePool)
          in if np_deleted nodePool \<noteq> None
             then Some (deleteTuplesIfExist env [tupleDelete clusterObj ActionParent nodePoolObj] w)
             else Some (writeTuplesIfNotExist env [(tuple clusterObj ActionParent nodePoolObj, None)] w))"

definition handle_Namespace :: "'t authz_env \<Rightarrow> 't authz_handler" where
  "handle_Namespace env i w =
     (case get_row env ''namespace'' GetNamespaceByID i w of
        (Inl e, w) \<Rightarrow> Some (Some e, w)
      | (Inr namespace, w) \<Rightarrow>
          let projectObj = Project (ae_us env) (n_project namespace); namespaceObj = Namespace (ae_us env) (n_id namespace)
          in if n_deleted namespace \<noteq> None
             then Some (deleteTuplesIfExist env [tupleDelete projectObj ActionParent namespaceObj] w)
             else Some (writeTuplesIfNotExist env [(tuple projectObj ActionParent namespaceObj, None)] w))"

definition handle_ApiKey :: "'t authz_env \<Rightarrow> 't authz_handler" where
  "handle_ApiKey env i w =
     (case get_row env ''api key'' GetApiKeyByID i w of
        (Inl e, w) \<Rightarrow> Some (Some e, w)
      | (Inr apiKey, w) \<Rightarrow>
          let orgObj = Organization (ae_us env) (k_org apiKey); userObj = User (ae_us env) (k_user apiKey);
              apiKeyObj = ApiKey (ae_us env) (k_id apiKey)
          in if k_deleted apiKey \<noteq> None
             then Some (deleteTuplesIfExist env [tupleDelete orgObj ActionOwner apiKeyObj, tupleDelete userObj ActionCreator apiKeyObj,
                    tupleDelete userObj ActionUsableBy apiKeyObj] w)
             else if k_revoked apiKey \<noteq> None
             then Some (deleteTuplesIfExist env [tupleDelete userObj ActionUsableBy apiKeyObj] w)
             else
               (let condition = (case k_expires apiKey of None \<Rightarrow> None | Some t \<Rightarrow> Some (''is_not_expired'', ae_rfc3339 env t))
                in Some (writeTuplesIfNotExist env [(tuple orgObj ActionOwner apiKeyObj, None), (tuple userObj ActionCreator apiKeyObj, None),
                     (tuple userObj ActionUsableBy apiKeyObj, condition)] w)))"

definition handle_Plugin :: "'t authz_env \<Rightarrow> 't authz_handler" where
  "handle_Plugin env i w =
     (case get_row env ''plugin'' GetPluginByID i w of
        (Inl e, w) \<Rightarrow> Some (Some e, w)
      | (Inr plugin, w) \<Rightarrow>
          let orgObj = Organization (ae_us env) (pl_org plugin); pluginObj = Plugin (ae_us env) (pl_id plugin)
          in if pl_deleted plugin \<noteq> None
             then Some (deleteTuplesIfExist env [tupleDelete orgObj ActionOwner pluginObj] w)
             else Some (writeTuplesIfNotExist env [(tuple orgObj ActionOwner pluginObj, None)] w))"


section \<open>The worker (worker.go)\<close>

record authz_cfg =
  ac_PollInterval :: micros
  ac_BatchSize :: int
  ac_BaseBackoff :: micros
  ac_MaxBackoff :: micros
  ac_MaxRetries :: int
  ac_BackoffDelay :: micros

definition az_applyDefaults :: "authz_cfg \<Rightarrow> authz_cfg" where
  "az_applyDefaults cfg =
     \<lparr>ac_PollInterval = (if ac_PollInterval cfg = 0 then 5000000 else ac_PollInterval cfg),
      ac_BatchSize = (if ac_BatchSize cfg = 0 then 100 else ac_BatchSize cfg),
      ac_BaseBackoff = (if ac_BaseBackoff cfg = 0 then 500000 else ac_BaseBackoff cfg),
      ac_MaxBackoff = (if ac_MaxBackoff cfg = 0 then 60000000 else ac_MaxBackoff cfg),
      ac_MaxRetries = (if ac_MaxRetries cfg = 0 then 3 else ac_MaxRetries cfg),
      ac_BackoffDelay = (if ac_BackoffDelay cfg = 0 then 5000000 else ac_BackoffDelay cfg)\<rparr>"

text \<open>What an outbox row is about: the first of its foreign keys, in the order of \<open>dispatchItem\<close>.\<close>

datatype subject = SOrgUser uuid | SProject uuid | SProjectMember uuid | SCluster uuid | SNodePool uuid
  | SNamespace uuid | SApiKey uuid | SPlugin uuid

definition row_subject :: "authz_row \<Rightarrow> subject option" where
  "row_subject r =
     (case ax_org_user r of Some i \<Rightarrow> Some (SOrgUser i) | None \<Rightarrow>
     (case ax_project r of Some i \<Rightarrow> Some (SProject i) | None \<Rightarrow>
     (case ax_project_member r of Some i \<Rightarrow> Some (SProjectMember i) | None \<Rightarrow>
     (case ax_cluster r of Some i \<Rightarrow> Some (SCluster i) | None \<Rightarrow>
     (case ax_node_pool r of Some i \<Rightarrow> Some (SNodePool i) | None \<Rightarrow>
     (case ax_namespace r of Some i \<Rightarrow> Some (SNamespace i) | None \<Rightarrow>
     (case ax_api_key r of Some i \<Rightarrow> Some (SApiKey i) | None \<Rightarrow>
     (case ax_plugin r of Some i \<Rightarrow> Some (SPlugin i) | None \<Rightarrow> None))))))))"

definition handle :: "'t authz_env \<Rightarrow> subject \<Rightarrow> 't authz_world \<Rightarrow> (gerr option \<times> 't authz_world) option" where
  "handle env s = (case s of
       SOrgUser i \<Rightarrow> handle_OrganizationUser env i
     | SProject i \<Rightarrow> handle_Project env i
     | SProjectMember i \<Rightarrow> handle_ProjectMember env i
     | SCluster i \<Rightarrow> handle_Cluster env i
     | SNodePool i \<Rightarrow> handle_NodePool env i
     | SNamespace i \<Rightarrow> handle_Namespace env i
     | SApiKey i \<Rightarrow> handle_ApiKey env i
     | SPlugin i \<Rightarrow> handle_Plugin env i)"

definition dispatchItem :: "'t authz_env \<Rightarrow> authz_row \<Rightarrow> 't authz_world \<Rightarrow> (gerr option \<times> 't authz_world) option" where
  "dispatchItem env item w =
     (case row_subject item of
        None \<Rightarrow> Some (Some (ErrNew ''unknown outbox subject FK''), w)
      | Some s \<Rightarrow> handle env s w)"

definition handleProcessingError ::
  "authz_cfg \<Rightarrow> authz_row \<Rightarrow> gerr \<Rightarrow> 't authz_world \<Rightarrow> gerr option \<times> 't authz_world" where
  "handleProcessingError cfg item processErr w =
     (case az_call (MarkOutboxRowRetry (ax_id item) (ac_BaseBackoff cfg) (ac_MaxBackoff cfg) (err_text processErr)) w of
        (Inl e, w) \<Rightarrow> (Some (errorf ''mark outbox retry'' e), w)
      | (Inr retries, w) \<Rightarrow>
          if ac_MaxRetries cfg \<le> retries
          then (case az_call (\<lambda>w. (Inr (), MarkOutboxRowFailed (ax_id item) (err_text processErr) w)) w of
                  (Inl e, w) \<Rightarrow> (Some (errorf ''mark outbox failed'' e), w)
                | (Inr _, w) \<Rightarrow> (None, w))
          else (None, w))"

text \<open>One item. What the transaction writes is seen only once it commits, so the row is marked with the commit;
  rolling back undoes nothing else, as the handlers only read. A call that fails leaves the tables as they are.\<close>

definition processOneItem ::
  "'t authz_env \<Rightarrow> authz_cfg \<Rightarrow> 't authz_world \<Rightarrow> ((bool \<times> gerr option) \<times> 't authz_world) option" where
  "processOneItem env cfg w =
     (case az_query (\<lambda>w. Inr ()) w of
        (Inl e, w) \<Rightarrow> Some ((False, Some (errorf ''begin transaction'' e)), w)
      | (Inr _, w) \<Rightarrow>
     (case az_query GetAndLockNextOutboxRow w of
        (Inl e, w) \<Rightarrow>
          (if errors_is ErrNoRows e then Some ((False, None), w)
           else Some ((False, Some (errorf ''get next outbox row'' e)), w))
      | (Inr item, w) \<Rightarrow>
     (case dispatchItem env item w of
        None \<Rightarrow> None
      | Some (Some dispatchErr, w) \<Rightarrow>
          (case az_query (\<lambda>w. Inr ()) w of
             (Inl e, w) \<Rightarrow> Some ((True, Some (errorf ''rollback after dispatch error'' e)), w)
           | (Inr _, w) \<Rightarrow>
               (case handleProcessingError cfg item dispatchErr w of
                  (Some e, w) \<Rightarrow> Some ((True, Some (errorf ''handle processing error'' e)), w)
                | (None, w) \<Rightarrow> Some ((True, Some dispatchErr), w)))
      | Some (None, w) \<Rightarrow>
          (case az_query (\<lambda>w. Inr ()) w of
             (Inl e, w) \<Rightarrow> Some ((True, Some (errorf ''mark as processed'' e)), w)
           | (Inr _, w) \<Rightarrow>
               (case az_call (\<lambda>w. (Inr (), MarkOutboxRowProcessed (ax_id item) w)) w of
                  (Inl e, w) \<Rightarrow> Some ((True, Some (errorf ''commit'' e)), w)
                | (Inr _, w) \<Rightarrow> Some ((True, None), w))))))"

text \<open>\<open>processOneBatch\<close> logs errors and goes on while rows are found, \<open>BatchSize\<close> times at most; the log is the list of
  errors.\<close>

fun az_batch ::
  "'t authz_env \<Rightarrow> authz_cfg \<Rightarrow> nat \<Rightarrow> nat \<Rightarrow> gerr list \<Rightarrow> 't authz_world \<Rightarrow> (nat \<times> gerr list \<times> 't authz_world) option" where
  "az_batch env cfg 0 processed log w = Some (processed, log, w)"
| "az_batch env cfg (Suc n) processed log w =
     (case processOneItem env cfg w of
        None \<Rightarrow> None
      | Some ((found, err), w) \<Rightarrow>
          let log = (case err of None \<Rightarrow> log | Some e \<Rightarrow> log @ [e])
          in if found then az_batch env cfg n (Suc processed) log w else Some (processed, log, w))"

definition processOneBatch ::
  "'t authz_env \<Rightarrow> authz_cfg \<Rightarrow> gerr list \<Rightarrow> 't authz_world \<Rightarrow> (nat \<times> gerr list \<times> 't authz_world) option" where
  "processOneBatch env cfg log w = az_batch env cfg (nat (ac_BatchSize cfg)) 0 log w"

text \<open>\<open>processBatch\<close> repeats batches until one finds nothing. It may not end (a row that cannot be marked is found again
  at once), so it takes fuel.\<close>

datatype 'w emptied = NoFuel | Crashed | Emptied "gerr list" 'w

fun processBatch :: "nat \<Rightarrow> 't authz_env \<Rightarrow> authz_cfg \<Rightarrow> gerr list \<Rightarrow> 't authz_world \<Rightarrow> 't authz_world emptied" where
  "processBatch 0 env cfg log w = NoFuel"
| "processBatch (Suc n) env cfg log w =
     (case processOneBatch env cfg log w of
        None \<Rightarrow> Crashed
      | Some (processed, log, w) \<Rightarrow> if processed = 0 then Emptied log w else processBatch n env cfg log w)"

text \<open>What a (re)connected worker does before it waits for the first notification: reset the failed rows, then drain.\<close>

definition start_connection :: "nat \<Rightarrow> 't authz_env \<Rightarrow> authz_cfg \<Rightarrow> 't authz_world \<Rightarrow> gerr + 't authz_world emptied" where
  "start_connection fuel env cfg w =
     (case az_call (\<lambda>w. (Inr (), ResetFailedOutboxItems w)) w of
        (Inl e, w) \<Rightarrow> Inl (errorf ''reset failed outbox items'' e)
      | (Inr _, w) \<Rightarrow> Inr (processBatch fuel env cfg [] w))"

end
