(* ===== verification/AuthzProps.thy ===== *)
theory AuthzProps
  imports AuthzWorker
begin

text \<open>
  What the authz-worker guarantees: the tuples each row asks for, the contract of the tuple store (locale
  \<open>tuple_store\<close>), the effect of the handlers over it, the invariant of every run (no change is lost), that a
  started worker catches up, and the two situations in which the tuples of a membership go wrong.
\<close>

section \<open>What the tuples of a row should be\<close>

text \<open>For every subject the keys its handler may change, and the tuples its row asks for among them.\<close>

definition role_key :: "'t authz_env \<Rightarrow> org_user_row \<Rightarrow> string \<Rightarrow> tuple_key" where
  "role_key env r relation = tuple (User (ae_us env) (ou_user r)) relation (Organization (ae_us env) (ou_org r))"

definition member_key :: "'t authz_env \<Rightarrow> project_member_row \<Rightarrow> string \<Rightarrow> tuple_key" where
  "member_key env r relation = tuple (User (ae_us env) (pm_user r)) relation (Project (ae_us env) (pm_project r))"

definition membership_key :: "'t authz_env \<Rightarrow> project_member_row \<Rightarrow> tuple_key" where
  "membership_key env r = tuple (Project (ae_us env) (pm_project r)) ActionParent (ProjectMember (ae_us env) (pm_id r))"

definition project_key :: "'t authz_env \<Rightarrow> project_row \<Rightarrow> tuple_key" where
  "project_key env r = tuple (Cluster (ae_us env) (p_cluster r)) ActionParent (Project (ae_us env) (p_id r))"

definition cluster_key :: "'t authz_env \<Rightarrow> cluster_row \<Rightarrow> tuple_key" where
  "cluster_key env r = tuple (Organization (ae_us env) (c_org r)) ActionOwner (Cluster (ae_us env) (c_id r))"

definition node_pool_key :: "'t authz_env \<Rightarrow> node_pool_row \<Rightarrow> tuple_key" where
  "node_pool_key env r = tuple (Cluster (ae_us env) (np_cluster r)) ActionParent (NodePool (ae_us env) (np_id r))"

definition namespace_key :: "'t authz_env \<Rightarrow> namespace_row \<Rightarrow> tuple_key" where
  "namespace_key env r = tuple (Project (ae_us env) (n_project r)) ActionParent (Namespace (ae_us env) (n_id r))"

definition plugin_key :: "'t authz_env \<Rightarrow> plugin_row \<Rightarrow> tuple_key" where
  "plugin_key env r = tuple (Organization (ae_us env) (pl_org r)) ActionOwner (Plugin (ae_us env) (pl_id r))"

definition api_key_owner :: "'t authz_env \<Rightarrow> api_key_row \<Rightarrow> tuple_key" where
  "api_key_owner env r = tuple (Organization (ae_us env) (k_org r)) ActionOwner (ApiKey (ae_us env) (k_id r))"

definition api_key_user :: "'t authz_env \<Rightarrow> api_key_row \<Rightarrow> string \<Rightarrow> tuple_key" where
  "api_key_user env r relation = tuple (User (ae_us env) (k_user r)) relation (ApiKey (ae_us env) (k_id r))"

lemmas key_defs = role_key_def member_key_def membership_key_def project_key_def cluster_key_def node_pool_key_def
  namespace_key_def plugin_key_def api_key_owner_def api_key_user_def

definition api_key_condition :: "'t authz_env \<Rightarrow> api_key_row \<Rightarrow> fga_condition option" where
  "api_key_condition env r = map_option (\<lambda>t. (''is_not_expired'', ae_rfc3339 env t)) (k_expires r)"

type_synonym demand = "tuple_key list \<times> (tuple_key \<times> fga_condition option) list"

definition parent_demand :: "bool \<Rightarrow> tuple_key \<Rightarrow> demand" where
  "parent_demand live k = ([k], if live then [(k, None)] else [])"

definition org_user_demand :: "'t authz_env \<Rightarrow> org_user_row \<Rightarrow> demand" where
  "org_user_demand env r =
     ([role_key env r ActionAdmin, role_key env r ActionViewer],
      if ou_deleted r = None \<and> ou_status r = ''accepted''
      then [(role_key env r (if ou_permission r = ''admin'' then ActionAdmin else ActionViewer), None)] else [])"

definition project_member_demand :: "'t authz_env \<Rightarrow> project_member_row \<Rightarrow> demand" where
  "project_member_demand env r =
     ([member_key env r ActionProjectAdmin, member_key env r ActionProjectViewer, membership_key env r],
      if pm_deleted r = None
      then [(member_key env r (if pm_role r = ''admin'' then ActionProjectAdmin else ActionProjectViewer), None), (membership_key env r, None)]
      else [])"

text \<open>The handler of a revoked key leaves its owner and its creator alone.\<close>

definition api_key_demand :: "'t authz_env \<Rightarrow> api_key_row \<Rightarrow> demand" where
  "api_key_demand env r =
     (if k_deleted r = None \<and> k_revoked r \<noteq> None then ([api_key_user env r ActionUsableBy], [])
      else ([api_key_owner env r, api_key_user env r ActionCreator, api_key_user env r ActionUsableBy],
        if k_deleted r = None
        then [(api_key_owner env r, None), (api_key_user env r ActionCreator, None), (api_key_user env r ActionUsableBy, api_key_condition env r)]
        else []))"

definition demand_of :: "(gerr + 'r) \<Rightarrow> ('r \<Rightarrow> demand) \<Rightarrow> demand" where
  "demand_of q f = (case q of Inl e \<Rightarrow> ([], []) | Inr r \<Rightarrow> f r)"

definition demand :: "'t authz_env \<Rightarrow> 't authz_world \<Rightarrow> subject \<Rightarrow> demand" where
  "demand env w s = (case s of
       SOrgUser i \<Rightarrow> demand_of (GetOrganizationUserByID i w) (org_user_demand env)
     | SProject i \<Rightarrow> demand_of (GetProjectByID i w) (\<lambda>r. parent_demand (p_deleted r = None) (project_key env r))
     | SProjectMember i \<Rightarrow> demand_of (GetProjectMemberByID i w) (project_member_demand env)
     | SCluster i \<Rightarrow> demand_of (GetClusterByID i w) (\<lambda>r. parent_demand (c_deleted r = None) (cluster_key env r))
     | SNodePool i \<Rightarrow> demand_of (GetNodePoolByID i w) (\<lambda>r. parent_demand (np_deleted r = None) (node_pool_key env r))
     | SNamespace i \<Rightarrow> demand_of (GetNamespaceByID i w) (\<lambda>r. parent_demand (n_deleted r = None) (namespace_key env r))
     | SApiKey i \<Rightarrow> demand_of (GetApiKeyByID i w) (api_key_demand env)
     | SPlugin i \<Rightarrow> demand_of (GetPluginByID i w) (\<lambda>r. parent_demand (pl_deleted r = None) (plugin_key env r)))"

definition touched :: "'t authz_env \<Rightarrow> 't authz_world \<Rightarrow> subject \<Rightarrow> tuple_key set" where
  "touched env w s = set (fst (demand env w s))"

definition wanted :: "'t authz_env \<Rightarrow> 't authz_world \<Rightarrow> subject \<Rightarrow> tuples" where
  "wanted env w s = map_of (snd (demand env w s))"

definition settled :: "'t authz_env \<Rightarrow> 't authz_world \<Rightarrow> tuples \<Rightarrow> subject \<Rightarrow> bool" where
  "settled env w T s \<longleftrightarrow> (\<forall>k \<in> touched env w s. T k = wanted env w s k)"

text \<open>A stored tuple that is wanted carries the wanted condition. (The expiry of a key changes only when the key is
  deleted, and only the tuples that make a key usable have a condition.)\<close>

definition conditions_ok :: "'t authz_env \<Rightarrow> 't authz_world \<Rightarrow> tuples \<Rightarrow> bool" where
  "conditions_ok env w T \<longleftrightarrow> (\<forall>s k c. wanted env w s k = Some c \<longrightarrow> T k = None \<or> T k = Some c)"

text \<open>The \<open>CHECK\<close> constraints on permissions and roles.\<close>

definition roles_ok :: "tenant_db \<Rightarrow> bool" where
  "roles_ok d \<longleftrightarrow> list_all (\<lambda>r. ou_permission r = ''admin'' \<or> ou_permission r = ''viewer'') (org_users d) \<and>
     list_all (\<lambda>r. pm_role r = ''admin'' \<or> pm_role r = ''viewer'') (project_members d)"

section \<open>The tuple store\<close>

text \<open>The documented behaviour of OpenFGA's write call with the conflict options of the handlers: a request that succeeds
  has deleted what it names, or has written what was not stored before; a request that fails has changed only what it
  names, if anything. A request may not name a tuple twice.\<close>

locale tuple_store =
  fixes ops :: "'t fga_ops" and holds :: "'t \<Rightarrow> tuples"
  assumes write_ok: "WriteTuples ops True ts t = (None, t') \<Longrightarrow> distinct (map fst ts) \<Longrightarrow>
      holds t' k = (if holds t k = None then map_of ts k else holds t k)"
    and write_err: "WriteTuples ops True ts t = (Some e, t') \<Longrightarrow> distinct (map fst ts) \<Longrightarrow>
      holds t' k = holds t k \<or> (holds t k = None \<and> holds t' k = map_of ts k)"
    and delete_ok: "DeleteTuples ops True ks t = (None, t') \<Longrightarrow> distinct ks \<Longrightarrow>
      holds t' k = (if k \<in> set ks then None else holds t k)"
    and delete_err: "DeleteTuples ops True ks t = (Some e, t') \<Longrightarrow> distinct ks \<Longrightarrow>
      holds t' k = holds t k \<or> (k \<in> set ks \<and> holds t' k = None)"


text \<open>Two worlds that differ only in the call counter and the tuple store.\<close>

definition same_tables :: "'t authz_world \<Rightarrow> 't authz_world \<Rightarrow> bool" where
  "same_tables w w' \<longleftrightarrow> w' = w\<lparr>az_calls := az_calls w', az_fga := az_fga w'\<rparr>"

lemma same_tables_refl [simp]: "same_tables w w"
  by (simp add: same_tables_def)

lemma same_tables_calls [simp]: "same_tables w (w'\<lparr>az_calls := n\<rparr>) = same_tables w w'"
  by (cases w; cases w') (auto simp: same_tables_def)

lemma same_tables_fga [simp]: "same_tables w (w'\<lparr>az_fga := t\<rparr>) = same_tables w w'"
  by (cases w; cases w') (auto simp: same_tables_def)

lemma same_tables_trans: "same_tables w w' \<Longrightarrow> same_tables w' w'' \<Longrightarrow> same_tables w w''"
  by (cases w; cases w'; cases w'') (auto simp: same_tables_def)

lemma same_tables_fields:
  "same_tables w w' \<Longrightarrow> az_db w' = az_db w \<and> az_api_keys w' = az_api_keys w \<and> az_plugins w' = az_plugins w \<and>
     az_outbox w' = az_outbox w \<and> az_locked w' = az_locked w \<and> az_now w' = az_now w \<and> az_fault w' = az_fault w"
  by (cases w; cases w') (auto simp: same_tables_def)

lemmas get_defs = GetOrganizationUserByID_def GetProjectByID_def GetProjectMemberByID_def GetClusterByID_def
  GetNodePoolByID_def GetNamespaceByID_def GetApiKeyByID_def GetPluginByID_def

lemma demand_cong:
  "az_db w' = az_db w \<Longrightarrow> az_api_keys w' = az_api_keys w \<Longrightarrow> az_plugins w' = az_plugins w \<Longrightarrow> demand env w' s = demand env w s"
  by (simp add: demand_def get_defs split: subject.split)

lemma get_row_shape:
  assumes "get_row env what q i w = (r, w')" "\<And>n. q i (w\<lparr>az_calls := n\<rparr>) = q i w"
  shows "w' = w\<lparr>az_calls := Suc (az_calls w)\<rparr> \<and> (\<forall>x. r = Inr x \<longrightarrow> q i w = Inr x)"
  using assms by (auto simp: get_row_def az_query_def az_call_def Let_def split: option.splits sum.splits if_splits)

lemma get_calls [simp]:
  "GetOrganizationUserByID i (w\<lparr>az_calls := n\<rparr>) = GetOrganizationUserByID i w"
  "GetProjectByID i (w\<lparr>az_calls := n\<rparr>) = GetProjectByID i w"
  "GetProjectMemberByID i (w\<lparr>az_calls := n\<rparr>) = GetProjectMemberByID i w"
  "GetClusterByID i (w\<lparr>az_calls := n\<rparr>) = GetClusterByID i w"
  "GetNodePoolByID i (w\<lparr>az_calls := n\<rparr>) = GetNodePoolByID i w"
  "GetNamespaceByID i (w\<lparr>az_calls := n\<rparr>) = GetNamespaceByID i w"
  "GetApiKeyByID i (w\<lparr>az_calls := n\<rparr>) = GetApiKeyByID i w"
  "GetPluginByID i (w\<lparr>az_calls := n\<rparr>) = GetPluginByID i w"
  by (simp_all add: get_defs)

lemma tuple_eq_iff:
  "tuple a r b = tuple a' r' b' \<longleftrightarrow> object_string a = object_string a' \<and> r = r' \<and> object_string b = object_string b'"
  by (simp add: tuple_def)

lemma tupleDelete_tuple [simp]: "tupleDelete = tuple"
  by (intro ext) (simp add: tuple_def tupleDelete_def)

lemma relations_distinct [simp]:
  "ActionAdmin \<noteq> ActionViewer" "ActionProjectAdmin \<noteq> ActionProjectViewer" "ActionProjectAdmin \<noteq> ActionParent"
  "ActionProjectViewer \<noteq> ActionParent" "ActionOwner \<noteq> ActionCreator" "ActionOwner \<noteq> ActionUsableBy" "ActionCreator \<noteq> ActionUsableBy"
  by (simp_all add: action_defs)

lemmas relations_distinct' [simp] = relations_distinct [symmetric]

text \<open>A request's effect: the keys it may change, and what they are afterwards.\<close>

definition after :: "tuples \<Rightarrow> demand \<Rightarrow> tuples" where
  "after T d k = (if k \<in> set (fst d) then map_of (snd d) k else T k)"

text \<open>The handlers of the entities with one tuple have one shape.\<close>

definition parent_handler ::
  "string \<Rightarrow> (uuid \<Rightarrow> 't authz_world \<Rightarrow> gerr + 'r) \<Rightarrow> ('r \<Rightarrow> micros option) \<Rightarrow> ('t authz_env \<Rightarrow> 'r \<Rightarrow> tuple_key) \<Rightarrow>
   't authz_env \<Rightarrow> 't authz_handler" where
  "parent_handler what q del key env i w =
     (case get_row env what q i w of
        (Inl e, w) \<Rightarrow> Some (Some e, w)
      | (Inr r, w) \<Rightarrow>
          if del r \<noteq> None then Some (deleteTuplesIfExist env [key env r] w)
          else Some (writeTuplesIfNotExist env [(key env r, None)] w))"

lemma parent_handlers:
  "handle_Project = parent_handler ''project'' GetProjectByID p_deleted project_key"
  "handle_Cluster = parent_handler ''cluster'' GetClusterByID c_deleted cluster_key"
  "handle_NodePool = parent_handler ''node pool'' GetNodePoolByID np_deleted node_pool_key"
  "handle_Namespace = parent_handler ''namespace'' GetNamespaceByID n_deleted namespace_key"
  "handle_Plugin = parent_handler ''plugin'' GetPluginByID pl_deleted plugin_key"
  by (simp_all add: fun_eq_iff parent_handler_def handle_Project_def handle_Cluster_def handle_NodePool_def handle_Namespace_def
      handle_Plugin_def key_defs Let_def split: prod.split sum.split)

context tuple_store
begin

lemma delete_effect:
  assumes "deleteTuplesIfExist env ks w = (r, w')" "ae_fga env = ops" "distinct ks"
  shows "same_tables w w'" "r = None \<Longrightarrow> holds (az_fga w') = after (holds (az_fga w)) (ks, [])"
    "k \<notin> set ks \<Longrightarrow> holds (az_fga w') k = holds (az_fga w) k"
    "holds (az_fga w') k = holds (az_fga w) k \<or> holds (az_fga w') k = None"
proof -
  obtain e t where d: "DeleteTuples ops True ks (az_fga w) = (e, t)" by fastforce
  have t: "holds t k = holds (az_fga w) k \<or> (k \<in> set ks \<and> holds t k = None)" for k
    using delete_ok [of ks "az_fga w" t k] delete_err [of ks "az_fga w" _ t k] d assms(3) by (cases e) auto
  have ok: "e = None \<Longrightarrow> holds t = after (holds (az_fga w)) (ks, [])"
    using delete_ok [of ks "az_fga w" t] d assms(3) by (auto simp: after_def)
  have "w' = w \<and> ks = [] \<and> r = None \<or> w' = w\<lparr>az_fga := t\<rparr> \<and> (r = None \<longleftrightarrow> e = None)"
    using assms(1,2) d by (auto simp: deleteTuplesIfExist_def split: if_splits option.splits)
  then show "same_tables w w'" "r = None \<Longrightarrow> holds (az_fga w') = after (holds (az_fga w)) (ks, [])"
    "k \<notin> set ks \<Longrightarrow> holds (az_fga w') k = holds (az_fga w) k"
    "holds (az_fga w') k = holds (az_fga w) k \<or> holds (az_fga w') k = None"
    using t [of k] ok by (auto simp: after_def fun_eq_iff)
qed

lemma write_effect:
  assumes "writeTuplesIfNotExist env ts w = (r, w')" "ae_fga env = ops" "distinct (map fst ts)"
    "\<And>k c. map_of ts k = Some c \<Longrightarrow> holds (az_fga w) k = None \<or> holds (az_fga w) k = Some c"
  shows "same_tables w w'" "r = None \<Longrightarrow> holds (az_fga w') = after (holds (az_fga w)) (map fst ts, ts)"
    "k \<notin> fst ` set ts \<Longrightarrow> holds (az_fga w') k = holds (az_fga w) k"
    "holds (az_fga w') k = holds (az_fga w) k \<or> holds (az_fga w') k = map_of ts k"
proof -
  obtain e t where d: "WriteTuples ops True ts (az_fga w) = (e, t)" by fastforce
  have dom: "k \<notin> fst ` set ts \<longleftrightarrow> map_of ts k = None" for k
    by (simp add: map_of_eq_None_iff)
  have t: "holds t k = holds (az_fga w) k \<or> (holds (az_fga w) k = None \<and> holds t k = map_of ts k)" for k
    using write_ok [of ts "az_fga w" t k] write_err [of ts "az_fga w" _ t k] d assms(3) by (cases e) auto
  have ok: "holds t = after (holds (az_fga w)) (map fst ts, ts)" if "e = None"
  proof
    fix k
    show "holds t k = after (holds (az_fga w)) (map fst ts, ts) k"
      using write_ok [of ts "az_fga w" t k] d assms(3) assms(4) [of k] dom [of k] that
      by (cases "map_of ts k") (auto simp: after_def)
  qed
  have "w' = w \<and> ts = [] \<and> r = None \<or> w' = w\<lparr>az_fga := t\<rparr> \<and> (r = None \<longleftrightarrow> e = None)"
    using assms(1,2) d by (auto simp: writeTuplesIfNotExist_def split: if_splits option.splits)
  then consider "w' = w" "ts = []" | "w' = w\<lparr>az_fga := t\<rparr>" "r = None \<longleftrightarrow> e = None" by blast
  note cases = this
  show "same_tables w w'" by (cases rule: cases) simp_all
  show "r = None \<Longrightarrow> holds (az_fga w') = after (holds (az_fga w)) (map fst ts, ts)"
    by (cases rule: cases) (simp_all add: ok, simp add: after_def fun_eq_iff)
  show "k \<notin> fst ` set ts \<Longrightarrow> holds (az_fga w') k = holds (az_fga w) k"
    "holds (az_fga w') k = holds (az_fga w) k \<or> holds (az_fga w') k = map_of ts k"
    by (cases rule: cases; use t [of k] dom [of k] in auto)+
qed

lemma replace_effect:
  assumes "deleteTuplesIfExist env ks w = (None, w1)" "writeTuplesIfNotExist env ts w1 = (r, w')" "ae_fga env = ops"
    "distinct ks" "distinct (map fst ts)" "fst ` set ts \<subseteq> set ks"
  shows "same_tables w w'" "r = None \<Longrightarrow> holds (az_fga w') = after (holds (az_fga w)) (ks, ts)"
    "k \<notin> set ks \<Longrightarrow> holds (az_fga w') k = holds (az_fga w) k"
    "holds (az_fga w') k = holds (az_fga w) k \<or> holds (az_fga w') k = None \<or> holds (az_fga w') k = map_of ts k"
proof -
  note d = delete_effect [OF assms(1,3,4)]
  have none: "map_of ts k = Some c \<Longrightarrow> holds (az_fga w1) k = None \<or> holds (az_fga w1) k = Some c" for k c
    using d(2) assms(6) by (auto simp: after_def dest!: map_of_SomeD)
  note e = write_effect [OF assms(2,3,5) none]
  show "same_tables w w'" using d(1) e(1) by (rule same_tables_trans)
  show "holds (az_fga w') = after (holds (az_fga w)) (ks, ts)" if "r = None"
  proof
    fix k
    show "holds (az_fga w') k = after (holds (az_fga w)) (ks, ts) k"
      using d(2) [OF refl] e(2) [OF _ that] assms(6) map_of_eq_None_iff [of ts k] by (auto simp: after_def)
  qed
  show "holds (az_fga w') k = holds (az_fga w) k" if "k \<notin> set ks"
  proof -
    have "k \<notin> fst ` set ts" using that assms(6) by blast
    then show ?thesis using that d(3) e(3) by simp
  qed
  show "holds (az_fga w') k = holds (az_fga w) k \<or> holds (az_fga w') k = None \<or> holds (az_fga w') k = map_of ts k"
    using d(4) [of k] e(4) [of k] by auto
qed

text \<open>What is known after a handler has run for a subject.\<close>

definition handled :: "'t authz_env \<Rightarrow> demand \<Rightarrow> 't authz_world \<Rightarrow> gerr option \<times> 't authz_world \<Rightarrow> bool" where
  "handled env d w = (\<lambda>(r, w').
     same_tables w w' \<and> (r = None \<longrightarrow> holds (az_fga w') = after (holds (az_fga w)) d) \<and>
     (\<forall>k. k \<notin> set (fst d) \<longrightarrow> holds (az_fga w') k = holds (az_fga w) k) \<and>
     (\<forall>k. holds (az_fga w') k = holds (az_fga w) k \<or> holds (az_fga w') k = None \<or> holds (az_fga w') k = map_of (snd d) k))"

lemma handled_calls: "handled env d (w\<lparr>az_calls := n\<rparr>) rw = handled env d w rw"
  by (cases w; cases "snd rw") (auto simp: handled_def same_tables_def split: prod.split)

lemma handled_error: "handled env d w (Some e, w\<lparr>az_calls := n\<rparr>)"
  by (simp add: handled_def)

lemma handled_delete:
  assumes "ae_fga env = ops" "distinct ks"
  shows "handled env (ks, []) w (deleteTuplesIfExist env ks w)"
proof -
  obtain r w' where d: "deleteTuplesIfExist env ks w = (r, w')" by fastforce
  show ?thesis using delete_effect [OF d assms] unfolding d by (simp add: handled_def)
qed

lemma handled_write:
  assumes "ae_fga env = ops" "distinct (map fst ts)"
    "\<And>k c. map_of ts k = Some c \<Longrightarrow> holds (az_fga w) k = None \<or> holds (az_fga w) k = Some c"
  shows "handled env (map fst ts, ts) w (writeTuplesIfNotExist env ts w)"
proof -
  obtain r w' where d: "writeTuplesIfNotExist env ts w = (r, w')" by fastforce
  show ?thesis using write_effect [OF d assms] unfolding d by (auto simp: handled_def)
qed

lemma handled_replace:
  assumes "deleteTuplesIfExist env ks w = (None, w1)" "ae_fga env = ops" "distinct ks" "distinct (map fst ts)" "fst ` set ts \<subseteq> set ks"
  shows "handled env (ks, ts) w (writeTuplesIfNotExist env ts w1)"
proof -
  obtain r w' where d: "writeTuplesIfNotExist env ts w1 = (r, w')" by fastforce
  show ?thesis using replace_effect [OF assms(1) d assms(2-5)] unfolding d by (simp add: handled_def)
qed

lemma handled_failed_delete:
  "deleteTuplesIfExist env ks w = (Some e, w1) \<Longrightarrow> ae_fga env = ops \<Longrightarrow> distinct ks \<Longrightarrow> handled env (ks, ts) w (Some e, w1)"
  using delete_effect [of env ks w "Some e" w1] by (auto simp: handled_def)

lemma handled_parent:
  assumes "ae_fga env = ops" "live \<Longrightarrow> holds (az_fga w) k = None \<or> holds (az_fga w) k = Some None"
  shows "handled env (parent_demand live k) w
    (if \<not> live then deleteTuplesIfExist env [k] w else writeTuplesIfNotExist env [(k, None)] w)"
proof (cases live)
  case True
  have "handled env (map fst ts, ts) w (writeTuplesIfNotExist env ts w)" if "ts = [(k, None)]" for ts
    using assms True that by (intro handled_write) (auto split: if_splits)
  with True show ?thesis by (fastforce simp: parent_demand_def)
next
  case False
  then show ?thesis using assms(1) handled_delete [of env "[k]" w] by (simp add: parent_demand_def)
qed

lemma handle_get:
  assumes "get_row env what q i w = (r, w1)" "\<And>n. q i (w\<lparr>az_calls := n\<rparr>) = q i w"
    "\<And>e. r = Inl e \<Longrightarrow> res = (Some e, w1)"
    "\<And>x. q i w = Inr x \<Longrightarrow> r = Inr x \<Longrightarrow> handled env (f x) w1 res"
  shows "handled env (demand_of (q i w) f) w res"
proof (cases r)
  case (Inl e)
  then show ?thesis using assms(3) get_row_shape [OF assms(1,2)] handled_error by auto
next
  case (Inr x)
  then show ?thesis
    using assms(4) [of x] get_row_shape [OF assms(1,2)] by (auto simp: demand_of_def handled_calls)
qed

lemma handled_parent_handler:
  assumes "parent_handler what q del key env i w = Some res" "ae_fga env = ops" "\<And>n. q i (w\<lparr>az_calls := n\<rparr>) = q i w"
    "\<And>x. q i w = Inr x \<Longrightarrow> del x = None \<Longrightarrow> holds (az_fga w) (key env x) = None \<or> holds (az_fga w) (key env x) = Some None"
  shows "handled env (demand_of (q i w) (\<lambda>r. parent_demand (del r = None) (key env r))) w res"
proof -
  obtain r w1 where g: "get_row env what q i w = (r, w1)" by fastforce
  note w1 = get_row_shape [OF g assms(3)]
  show ?thesis
  proof (rule handle_get [OF g assms(3)])
    fix x assume x: "q i w = Inr x" "r = Inr x"
    have "handled env (parent_demand (del x = None) (key env x)) w1
        (if \<not> del x = None then deleteTuplesIfExist env [key env x] w1 else writeTuplesIfNotExist env [(key env x, None)] w1)"
      by (rule handled_parent [OF assms(2)]) (use assms(4) x w1 in simp)
    then show "handled env (parent_demand (del x = None) (key env x)) w1 res"
      using assms(1) g x by (simp add: parent_handler_def split: if_splits)
  qed (use assms(1) g in \<open>simp add: parent_handler_def\<close>)
qed

lemma handled_org_user:
  assumes "handle_OrganizationUser env i w = Some res" "ae_fga env = ops"
  shows "handled env (demand_of (GetOrganizationUserByID i w) (org_user_demand env)) w res"
proof -
  obtain r w1 where g: "get_row env ''organization user'' GetOrganizationUserByID i w = (r, w1)" by fastforce
  show ?thesis
  proof (rule handle_get [OF g get_calls(1)])
    fix x assume "r = Inr x"
    let ?ks = "[role_key env x ActionAdmin, role_key env x ActionViewer]"
    have ks: "distinct ?ks" by (simp add: role_key_def tuple_eq_iff)
    obtain d w2 where d: "deleteTuplesIfExist env ?ks w1 = (d, w2)" by fastforce
    note h = assms(1) [unfolded handle_OrganizationUser_def g prod.case, unfolded \<open>r = Inr x\<close> sum.case Let_def tupleDelete_tuple
      role_key_def [symmetric] d]
    have del: "handled env (?ks, []) w1 (d, w2)" using handled_delete [OF assms(2) ks, of w1] d by simp
    show "handled env (org_user_demand env x) w1 res"
    proof (cases d)
      case (Some e)
      then show ?thesis using h handled_failed_delete [OF _ assms(2) ks] d by (auto simp: org_user_demand_def)
    next
      case None
      have "handled env (?ks, [(role_key env x rel, None)]) w1 (writeTuplesIfNotExist env [(role_key env x rel, None)] w2)"
        if "rel \<in> {ActionAdmin, ActionViewer}" for rel
        by (rule handled_replace [OF d [unfolded None] assms(2) ks]) (use that in auto)
      then show ?thesis using h None del by (auto simp: org_user_demand_def split: if_splits)
    qed
  qed (use assms(1) g in \<open>simp add: handle_OrganizationUser_def\<close>)
qed

lemma handled_project_member:
  assumes "handle_ProjectMember env i w = Some res" "ae_fga env = ops"
  shows "handled env (demand_of (GetProjectMemberByID i w) (project_member_demand env)) w res"
proof -
  obtain r w1 where g: "get_row env ''project member'' GetProjectMemberByID i w = (r, w1)" by fastforce
  show ?thesis
  proof (rule handle_get [OF g get_calls(3)])
    fix x assume "r = Inr x"
    let ?ks = "[member_key env x ActionProjectAdmin, member_key env x ActionProjectViewer, membership_key env x]"
    have ks: "distinct ?ks" by (simp add: member_key_def membership_key_def tuple_eq_iff)
    obtain d w2 where d: "deleteTuplesIfExist env ?ks w1 = (d, w2)" by fastforce
    note h = assms(1) [unfolded handle_ProjectMember_def g prod.case, unfolded \<open>r = Inr x\<close> sum.case Let_def tupleDelete_tuple
      member_key_def [symmetric] membership_key_def [symmetric] d]
    have del: "handled env (?ks, []) w1 (d, w2)" using handled_delete [OF assms(2) ks, of w1] d by simp
    show "handled env (project_member_demand env x) w1 res"
    proof (cases d)
      case (Some e)
      then show ?thesis using h handled_failed_delete [OF _ assms(2) ks] d by (auto simp: project_member_demand_def)
    next
      case None
      have "handled env (?ks, [(member_key env x rel, None), (membership_key env x, None)]) w1
          (writeTuplesIfNotExist env [(member_key env x rel, None), (membership_key env x, None)] w2)"
        if "rel \<in> {ActionProjectAdmin, ActionProjectViewer}" for rel
        by (rule handled_replace [OF d [unfolded None] assms(2) ks])
          (use that in \<open>auto simp: member_key_def membership_key_def tuple_eq_iff\<close>)
      then show ?thesis using h None del by (auto simp: project_member_demand_def split: if_splits)
    qed
  qed (use assms(1) g in \<open>simp add: handle_ProjectMember_def\<close>)
qed

lemma handled_api_key:
  assumes "handle_ApiKey env i w = Some res" "ae_fga env = ops" "conditions_ok env w (holds (az_fga w))"
  shows "handled env (demand_of (GetApiKeyByID i w) (api_key_demand env)) w res"
proof -
  obtain r w1 where g: "get_row env ''api key'' GetApiKeyByID i w = (r, w1)" by fastforce
  note w1 = get_row_shape [OF g get_calls(7)]
  show ?thesis
  proof (rule handle_get [OF g get_calls(7)])
    fix x assume x: "GetApiKeyByID i w = Inr x" "r = Inr x"
    let ?ts = "[(api_key_owner env x, None), (api_key_user env x ActionCreator, None), (api_key_user env x ActionUsableBy, api_key_condition env x)]"
    have ks: "distinct (map fst ?ts)" by (simp add: api_key_owner_def api_key_user_def tuple_eq_iff)
    have cond: "(case k_expires x of None \<Rightarrow> None | Some t \<Rightarrow> Some (''is_not_expired'', ae_rfc3339 env t)) = api_key_condition env x"
      by (simp add: api_key_condition_def split: option.split)
    note h = assms(1) [unfolded handle_ApiKey_def g prod.case, unfolded x sum.case Let_def tupleDelete_tuple
      api_key_owner_def [symmetric] api_key_user_def [symmetric] cond]
    show "handled env (api_key_demand env x) w1 res"
    proof (cases "k_deleted x = None \<and> k_revoked x = None")
      case True
      have "holds (az_fga w1) k = None \<or> holds (az_fga w1) k = Some c" if "map_of ?ts k = Some c" for k c
        using assms(3) [unfolded conditions_ok_def, rule_format, of "SApiKey i" k c] that x w1 True
        by (simp add: wanted_def demand_def demand_of_def api_key_demand_def)
      then have "handled env (map fst ?ts, ?ts) w1 (writeTuplesIfNotExist env ?ts w1)"
        by (intro handled_write [OF assms(2) ks])
      then show ?thesis using True h by (simp add: api_key_demand_def)
    next
      case False
      then show ?thesis
        using h ks handled_delete [OF assms(2), of "map fst ?ts" w1] handled_delete [OF assms(2), of "[api_key_user env x ActionUsableBy]" w1]
        by (auto simp: api_key_demand_def split: if_splits)
    qed
  qed (use assms(1) g in \<open>simp add: handle_ApiKey_def\<close>)
qed

theorem handle_handled:
  assumes "handle env s w = Some res" "ae_fga env = ops" "conditions_ok env w (holds (az_fga w))"
  shows "handled env (demand env w s) w res"
proof -
  have cond: "wanted env w s k = Some None \<Longrightarrow> holds (az_fga w) k = None \<or> holds (az_fga w) k = Some None" for k
    using assms(3) by (auto simp: conditions_ok_def)
  show ?thesis
    using assms
    by (cases s; simp add: handle_def demand_def parent_handlers)
      (auto intro!: handled_org_user handled_project_member handled_api_key handled_parent_handler
        cond [unfolded wanted_def demand_def demand_of_def parent_demand_def])
qed

end

section \<open>Which subjects share tuples\<close>

text \<open>The relation of a key and the type of its object tell which kind of subject it belongs to.\<close>

definition kind :: "tuple_key \<Rightarrow> string \<times> string" where
  "kind k = (tk_Relation k, takeWhile (\<lambda>c. c \<noteq> CHR '':'') (tk_Object k))"

fun kinds :: "subject \<Rightarrow> (string \<times> string) list" where
  "kinds (SOrgUser i) = [(''admin'', ''organization''), (''viewer'', ''organization'')]"
| "kinds (SProject i) = [(''parent'', ''project'')]"
| "kinds (SProjectMember i) = [(''project_admin'', ''project''), (''project_viewer'', ''project''), (''parent'', ''project_member'')]"
| "kinds (SCluster i) = [(''owner'', ''cluster'')]"
| "kinds (SNodePool i) = [(''parent'', ''node_pool'')]"
| "kinds (SNamespace i) = [(''parent'', ''namespace'')]"
| "kinds (SApiKey i) = [(''owner'', ''api_key''), (''creator'', ''api_key''), (''usable_by'', ''api_key'')]"
| "kinds (SPlugin i) = [(''owner'', ''plugin'')]"

lemma kind_tuple: "CHR '':'' \<notin> set (obj_Type b) \<Longrightarrow> kind (tuple a r b) = (r, obj_Type b)"
  by (auto simp: kind_def tuple_def object_string_def takeWhile_append)

lemma kind_keys:
  "kind (role_key env r rel) = (rel, ''organization'')" "kind (member_key env m rel) = (rel, ''project'')"
  "kind (membership_key env m) = (''parent'', ''project_member'')" "kind (project_key env p) = (''parent'', ''project'')"
  "kind (cluster_key env c) = (''owner'', ''cluster'')" "kind (node_pool_key env np) = (''parent'', ''node_pool'')"
  "kind (namespace_key env n) = (''parent'', ''namespace'')" "kind (plugin_key env pl) = (''owner'', ''plugin'')"
  "kind (api_key_owner env k) = (''owner'', ''api_key'')" "kind (api_key_user env k rel) = (rel, ''api_key'')"
  by (simp_all add: key_defs kind_tuple object_defs object_type_defs action_defs)

lemmas demand_defs = org_user_demand_def project_member_demand_def api_key_demand_def parent_demand_def

lemma touched_kind: "k \<in> touched env w s \<Longrightarrow> kind k \<in> set (kinds s)"
  by (cases s) (auto simp: touched_def demand_def demand_of_def demand_defs kind_keys action_defs split: sum.splits if_splits)

lemma wanted_touched: "wanted env w s k = Some c \<Longrightarrow> k \<in> touched env w s"
  by (cases s) (auto simp: touched_def wanted_def demand_def demand_of_def demand_defs split: sum.splits if_splits)

lemma kinds_disjoint: "kd \<in> set (kinds s) \<Longrightarrow> kd \<in> set (kinds s') \<Longrightarrow> kinds s = kinds s'"
  by (cases s; cases s') auto

lemma one_filter: "one [r. r \<leftarrow> rs, P r] = Inr x \<Longrightarrow> x \<in> set rs \<and> P x"
  by (induction rs) (auto simp: one_def split: if_splits)

lemma get_found:
  "GetOrganizationUserByID i w = Inr r1 \<Longrightarrow> r1 \<in> set (org_users (az_db w)) \<and> ou_id r1 = i"
  "GetProjectByID i w = Inr r2 \<Longrightarrow> p_id r2 = i"
  "GetProjectMemberByID i w = Inr r3 \<Longrightarrow> r3 \<in> set (project_members (az_db w)) \<and> pm_id r3 = i"
  "GetClusterByID i w = Inr r4 \<Longrightarrow> c_id r4 = i"
  "GetNodePoolByID i w = Inr r5 \<Longrightarrow> np_id r5 = i"
  "GetNamespaceByID i w = Inr r6 \<Longrightarrow> n_id r6 = i"
  "GetApiKeyByID i w = Inr r7 \<Longrightarrow> k_id r7 = i"
  "GetPluginByID i w = Inr r8 \<Longrightarrow> pl_id r8 = i"
  by (auto simp: get_defs dest!: one_filter)

text \<open>No user has two membership rows for one organization or one project.\<close>

definition unique_members :: "tenant_db \<Rightarrow> bool" where
  "unique_members d \<longleftrightarrow> distinct (map (\<lambda>r. (ou_user r, ou_org r)) (org_users d)) \<and>
     distinct (map (\<lambda>r. (pm_user r, pm_project r)) (project_members d))"

lemma tuple_objects:
  "tuple a r b = tuple a' r' b' \<Longrightarrow> obj_Type a = obj_Type a' \<Longrightarrow> obj_Type b = obj_Type b' \<Longrightarrow>
   obj_ID a = obj_ID a' \<and> obj_ID b = obj_ID b'"
  by (simp add: tuple_eq_iff object_string_def)

lemma key_injects:
  assumes "inj (ae_us env)"
  shows "role_key env r rel = role_key env r' rel' \<Longrightarrow> ou_user r = ou_user r' \<and> ou_org r = ou_org r'"
    "member_key env m rel = member_key env m' rel' \<Longrightarrow> pm_user m = pm_user m' \<and> pm_project m = pm_project m'"
    "membership_key env m = membership_key env m' \<Longrightarrow> pm_id m = pm_id m'"
    "project_key env p = project_key env p' \<Longrightarrow> p_id p = p_id p'"
    "cluster_key env c = cluster_key env c' \<Longrightarrow> c_id c = c_id c'"
    "node_pool_key env np = node_pool_key env np' \<Longrightarrow> np_id np = np_id np'"
    "namespace_key env n = namespace_key env n' \<Longrightarrow> n_id n = n_id n'"
    "plugin_key env pl = plugin_key env pl' \<Longrightarrow> pl_id pl = pl_id pl'"
    "api_key_owner env k = api_key_owner env k' \<Longrightarrow> k_id k = k_id k'"
    "api_key_user env k rel = api_key_user env k' rel' \<Longrightarrow> k_id k = k_id k'"
  using assms by (auto simp: key_defs object_defs inj_eq dest!: tuple_objects)

lemma touched_disjoint:
  assumes "inj (ae_us env)" "unique_members (az_db w)" "k \<in> touched env w s" "k \<in> touched env w s'"
  shows "s = s'"
proof -
  have eq: "kinds s = kinds s'" using kinds_disjoint touched_kind assms(3,4) by blast
  have ou: "x = y" if "x \<in> set (org_users (az_db w))" "y \<in> set (org_users (az_db w))" "ou_user x = ou_user y" "ou_org x = ou_org y" for x y
    using assms(2) that by (auto simp: unique_members_def distinct_map inj_on_def)
  have pm: "x = y" if "x \<in> set (project_members (az_db w))" "y \<in> set (project_members (az_db w))" "pm_user x = pm_user y" "pm_project x = pm_project y" for x y
    using assms(2) that by (auto simp: unique_members_def distinct_map inj_on_def)
  note inject = key_injects [OF assms(1)]
  have nk: "membership_key env m \<noteq> member_key env m' ActionProjectAdmin" "membership_key env m \<noteq> member_key env m' ActionProjectViewer"
    "api_key_owner env q \<noteq> api_key_user env q' ActionCreator" "api_key_owner env q \<noteq> api_key_user env q' ActionUsableBy" for m m' q q'
    by (auto simp: key_defs tuple_eq_iff)
  show ?thesis
    using eq assms(3,4)
    apply (cases s; cases s'; simp)
           apply (fastforce simp: touched_def demand_def demand_of_def demand_defs nk nk [symmetric] split: sum.splits if_splits
             dest: inject get_found ou pm)+
    done
qed

context tuple_store
begin

lemma handle_conditions:
  assumes "handle env s w = Some (r, w')" "ae_fga env = ops" "conditions_ok env w (holds (az_fga w))"
    "inj (ae_us env)" "unique_members (az_db w)"
  shows "same_tables w w'" "conditions_ok env w' (holds (az_fga w'))"
    "s' \<noteq> s \<Longrightarrow> settled env w (holds (az_fga w)) s' \<Longrightarrow> settled env w' (holds (az_fga w')) s'"
    "r = None \<Longrightarrow> settled env w' (holds (az_fga w')) s"
proof -
  note h = handle_handled [OF assms(1-3), unfolded handled_def prod.case]
  show st: "same_tables w w'" using h by simp
  have d: "demand env w' = demand env w"
    using demand_cong [of w' w env] same_tables_fields [OF st] by auto
  then have tw: "touched env w' = touched env w" "wanted env w' = wanted env w"
    by (simp_all add: touched_def wanted_def fun_eq_iff)
  show "conditions_ok env w' (holds (az_fga w'))"
    unfolding conditions_ok_def tw
  proof (intro allI impI)
    fix s1 k c assume s1: "wanted env w s1 k = Some c"
    have "wanted env w s k = Some c" if "wanted env w s k = Some c'" for c'
      using touched_disjoint [OF assms(4,5), of k s1 s] s1 that wanted_touched by blast
    then have "wanted env w s k = None \<or> wanted env w s k = Some c" by (cases "wanted env w s k") auto
    moreover have "holds (az_fga w) k = None \<or> holds (az_fga w) k = Some c"
      using assms(3) s1 unfolding conditions_ok_def by blast
    moreover have "holds (az_fga w') k = holds (az_fga w) k \<or> holds (az_fga w') k = None \<or> holds (az_fga w') k = wanted env w s k"
      using h by (simp add: wanted_def)
    ultimately show "holds (az_fga w') k = None \<or> holds (az_fga w') k = Some c" by auto
  qed
  show "settled env w' (holds (az_fga w')) s'" if "s' \<noteq> s" "settled env w (holds (az_fga w)) s'"
    unfolding settled_def tw
  proof
    fix k assume k: "k \<in> touched env w s'"
    then have "k \<notin> touched env w s" using touched_disjoint [OF assms(4,5), of k s' s] that(1) by blast
    then have "holds (az_fga w') k = holds (az_fga w) k" using h by (simp add: touched_def)
    then show "holds (az_fga w') k = wanted env w s' k" using that(2) k by (simp add: settled_def)
  qed
  show "settled env w' (holds (az_fga w')) s" if "r = None"
    using that h unfolding settled_def tw by (simp add: after_def touched_def wanted_def)
qed

end

section \<open>No change is lost\<close>

text \<open>Every subject is settled, or the outbox still holds a row for it that is not completed.\<close>

definition tracked :: "'t authz_env \<Rightarrow> ('t \<Rightarrow> tuples) \<Rightarrow> 't authz_world \<Rightarrow> bool" where
  "tracked env holds w \<longleftrightarrow>
     (\<forall>s. settled env w (holds (az_fga w)) s \<or> (\<exists>r \<in> set (az_outbox w). row_subject r = Some s \<and> ax_status r \<noteq> Completed))"

text \<open>A run of the worker and its surroundings: iterations (whichever calls fail), the reset of failed rows, changes of a
  table with the row its trigger inserts, and the passing of time (with other workers' locks and the faults to come).\<close>

definition change :: "'t authz_env \<Rightarrow> ('t \<Rightarrow> tuples) \<Rightarrow> subject \<Rightarrow> authz_row \<Rightarrow> 't authz_world \<Rightarrow> 't authz_world \<Rightarrow> bool" where
  "change env holds s r w w' \<longleftrightarrow>
     row_subject r = Some s \<and> ax_status r = Pending \<and> ax_processed r = None \<and> az_outbox w' = az_outbox w @ [r] \<and> az_fga w' = az_fga w \<and>
     (\<forall>s'. s' \<noteq> s \<longrightarrow> demand env w' s' = demand env w s') \<and>
     ax_id r \<notin> ax_id ` set (az_outbox w) \<and>
     unique_members (az_db w') \<and> roles_ok (az_db w') \<and> conditions_ok env w' (holds (az_fga w'))"

inductive authz_run :: "'t authz_env \<Rightarrow> ('t \<Rightarrow> tuples) \<Rightarrow> authz_cfg \<Rightarrow> 't authz_world \<Rightarrow> 't authz_world \<Rightarrow> bool"
  for env holds cfg w where
  start: "authz_run env holds cfg w w"
| item: "authz_run env holds cfg w w1 \<Longrightarrow> processOneItem env cfg w1 = Some (res, w2) \<Longrightarrow> authz_run env holds cfg w w2"
| reset: "authz_run env holds cfg w w1 \<Longrightarrow> authz_run env holds cfg w (ResetFailedOutboxItems w1)"
| change: "authz_run env holds cfg w w1 \<Longrightarrow> change env holds s r w1 w2 \<Longrightarrow> authz_run env holds cfg w w2"
| time: "authz_run env holds cfg w w1 \<Longrightarrow>
    authz_run env holds cfg w (w1\<lparr>az_now := now, az_locked := ids, az_fault := faults, az_calls := n\<rparr>)"

definition run_inv :: "'t authz_env \<Rightarrow> ('t \<Rightarrow> tuples) \<Rightarrow> 't authz_world \<Rightarrow> bool" where
  "run_inv env holds w \<longleftrightarrow> tracked env holds w \<and> conditions_ok env w (holds (az_fga w)) \<and>
     unique_members (az_db w) \<and> roles_ok (az_db w) \<and> distinct (map ax_id (az_outbox w))"

text \<open>The rows of the outbox after an update of one row.\<close>

lemma az_update_fields [simp]:
  "az_db (az_update p f w) = az_db w" "az_api_keys (az_update p f w) = az_api_keys w" "az_plugins (az_update p f w) = az_plugins w"
  "az_fga (az_update p f w) = az_fga w" "az_now (az_update p f w) = az_now w" "az_locked (az_update p f w) = az_locked w"
  "az_fault (az_update p f w) = az_fault w" "az_outbox (az_update p f w) = update_where p f (az_outbox w)"
  by (simp_all add: az_update_def)

lemma settled_cong:
  "az_db w' = az_db w \<Longrightarrow> az_api_keys w' = az_api_keys w \<Longrightarrow> az_plugins w' = az_plugins w \<Longrightarrow>
   settled env w' T s = settled env w T s"
  using demand_cong [of w' w env s] by (simp add: settled_def touched_def wanted_def)

lemma conditions_cong:
  "az_db w' = az_db w \<Longrightarrow> az_api_keys w' = az_api_keys w \<Longrightarrow> az_plugins w' = az_plugins w \<Longrightarrow>
   conditions_ok env w' T = conditions_ok env w T"
  using demand_cong [of w' w env] by (simp add: conditions_ok_def wanted_def)

text \<open>An update of the outbox that completes no row keeps the invariant.\<close>

lemma tracked_update:
  assumes "tracked env holds w" "\<And>r. r \<in> set (az_outbox w) \<Longrightarrow> p r \<Longrightarrow> row_subject (f r) = row_subject r"
    "\<And>r. r \<in> set (az_outbox w) \<Longrightarrow> p r \<Longrightarrow> ax_status (f r) = Completed \<Longrightarrow> ax_status r = Completed"
  shows "tracked env holds (az_update p f w)"
proof -
  have "\<exists>r' \<in> set (update_where p f (az_outbox w)). row_subject r' = Some s \<and> ax_status r' \<noteq> Completed"
    if "r \<in> set (az_outbox w)" "row_subject r = Some s" "ax_status r \<noteq> Completed" for r s
    using that assms(2,3) [of r] by (intro bexI [of _ "if p r then f r else r"]) (auto simp: update_where_def)
  moreover have "settled env (az_update p f w) T s = settled env w T s" for T s
    by (rule settled_cong) simp_all
  ultimately show ?thesis using assms(1) unfolding tracked_def az_update_fields by blast
qed

lemma az_retry_row_fields [simp]:
  "ax_id (az_retry_row base cap now info r) = ax_id r" "ax_status (az_retry_row base cap now info r) = Retrying"
  by (simp_all add: az_retry_row_def)

lemma row_subject_updates [simp]:
  "row_subject (az_retry_row base cap now info r) = row_subject r"
  "row_subject (r\<lparr>ax_status := st, ax_status_info := i\<rparr>) = row_subject r"
  "row_subject (r\<lparr>ax_processed := pr, ax_status := st, ax_status_info := i\<rparr>) = row_subject r"
  "row_subject (r\<lparr>ax_status := st, ax_retries := n, ax_retry_after := ra\<rparr>) = row_subject r"
  by (simp_all add: row_subject_def az_retry_row_def cong: option.case_cong)

lemma az_query_shape: "az_query q w = (x, w') \<Longrightarrow> w' = w\<lparr>az_calls := Suc (az_calls w)\<rparr>"
  by (auto simp: az_query_def az_call_def Let_def split: option.splits)

lemma az_call_shape:
  "az_call (\<lambda>w. (Inr (), f w)) w = (x, w') \<Longrightarrow>
   w' = (case x of Inl e \<Rightarrow> w\<lparr>az_calls := Suc (az_calls w)\<rparr> | Inr _ \<Rightarrow> f (w\<lparr>az_calls := Suc (az_calls w)\<rparr>))"
  by (auto simp: az_call_def Let_def split: option.splits)

lemma az_update_calls [simp]: "az_update p f (w\<lparr>az_calls := n\<rparr>) = (az_update p f w)\<lparr>az_calls := n\<rparr>"
  by (simp add: az_update_def)

lemma mark_calls [simp]:
  "MarkOutboxRowProcessed i (w\<lparr>az_calls := n\<rparr>) = (MarkOutboxRowProcessed i w)\<lparr>az_calls := n\<rparr>"
  "MarkOutboxRowFailed i info (w\<lparr>az_calls := n\<rparr>) = (MarkOutboxRowFailed i info w)\<lparr>az_calls := n\<rparr>"
  "GetAndLockNextOutboxRow (w\<lparr>az_calls := n\<rparr>) = GetAndLockNextOutboxRow w"
  by (simp_all add: MarkOutboxRowProcessed_def MarkOutboxRowFailed_def GetAndLockNextOutboxRow_def)

text \<open>How the row of a failed dispatch is left: as it was (a call failed), retried, or retried and then failed.\<close>

definition after_error :: "authz_cfg \<Rightarrow> authz_row \<Rightarrow> gerr \<Rightarrow> 't authz_world \<Rightarrow> 't authz_world list" where
  "after_error cfg item e w =
     (let w1 = az_update (\<lambda>r. ax_id r = ax_id item)
            (az_retry_row (ac_BaseBackoff cfg) (ac_MaxBackoff cfg) (az_now w) (err_text e)) w
      in [w, w1, MarkOutboxRowFailed (ax_id item) (err_text e) w1])"

lemma handleProcessingError_shape:
  "handleProcessingError cfg item e w = (res, w') \<Longrightarrow> \<exists>w1 \<in> set (after_error cfg item e w). \<exists>n. w' = w1\<lparr>az_calls := n\<rparr>"
  by (auto simp: handleProcessingError_def MarkOutboxRowRetry_def after_error_def az_call_def Let_def
      split: option.splits sum.splits if_splits)

lemma item_cases:
  assumes "processOneItem env cfg w = Some ((fnd, err), w')"
  obtains (none) n where "\<not> fnd" "w' = w\<lparr>az_calls := n\<rparr>"
  | (completed) item n m w2 where "fnd" "err = None" "GetAndLockNextOutboxRow w = Inr item"
      "dispatchItem env item (w\<lparr>az_calls := n\<rparr>) = Some (None, w2)" "w' = (MarkOutboxRowProcessed (ax_id item) w2)\<lparr>az_calls := m\<rparr>"
  | (unmarked) item n m w2 where "fnd" "err \<noteq> None" "GetAndLockNextOutboxRow w = Inr item"
      "dispatchItem env item (w\<lparr>az_calls := n\<rparr>) = Some (None, w2)" "w' = w2\<lparr>az_calls := m\<rparr>"
  | (error) item e n m w2 w3 where "fnd" "err \<noteq> None" "GetAndLockNextOutboxRow w = Inr item"
      "dispatchItem env item (w\<lparr>az_calls := n\<rparr>) = Some (Some e, w2)" "w3 \<in> set (after_error cfg item e w2)" "w' = w3\<lparr>az_calls := m\<rparr>"
proof -
  obtain b w0 where b: "az_query (\<lambda>w. Inr ()) w = (b, w0)" by fastforce
  note w0 = az_query_shape [OF b]
  obtain g w1 where g: "az_query GetAndLockNextOutboxRow w0 = (g, w1)" by fastforce
  note w1 = az_query_shape [OF g]
  have gI: "g = Inr item \<Longrightarrow> GetAndLockNextOutboxRow w = Inr item" for item
    using g w0 by (auto simp: az_query_def az_call_def Let_def split: option.splits)
  show thesis
  proof (cases "\<exists>item. b = Inr () \<and> g = Inr item")
    case False
    with assms b g w0 w1 none show thesis
      by (cases b; cases g) (auto simp: processOneItem_def split: if_splits)
  next
    case True
    then obtain item where i: "b = Inr ()" "g = Inr item" by blast
    obtain d w2 where d: "dispatchItem env item w1 = Some (d, w2)"
      using assms b g i by (auto simp: processOneItem_def split: option.splits)
    have w1': "w1 = w\<lparr>az_calls := Suc (Suc (az_calls w))\<rparr>" using w0 w1 by simp
    show thesis
    proof (cases d)
      case None
      obtain x w3 where x: "az_query (\<lambda>w. Inr ()) w2 = (x, w3)" by fastforce
      obtain y w4 where y: "az_call (\<lambda>w. (Inr (), MarkOutboxRowProcessed (ax_id item) w)) w3 = (y, w4)" by fastforce
      show thesis
        using assms b g i d x y None gI [OF i(2)] w1' az_query_shape [OF x] az_call_shape [OF y]
          completed [of item "Suc (Suc (az_calls w))" w2] unmarked [of item "Suc (Suc (az_calls w))" w2]
        by (cases x; cases y) (auto simp: processOneItem_def)
    next
      case (Some e)
      obtain x w3 where x: "az_query (\<lambda>w. Inr ()) w2 = (x, w3)" by fastforce
      obtain y w4 where y: "handleProcessingError cfg item e w3 = (y, w4)" by fastforce
      have "\<exists>w5 \<in> set (after_error cfg item e w2). \<exists>n. w4 = w5\<lparr>az_calls := n\<rparr>"
        using handleProcessingError_shape [OF y] az_query_shape [OF x] by (auto simp: after_error_def Let_def)
      moreover have "w2 \<in> set (after_error cfg item e w2)" by (simp add: after_error_def Let_def)
      ultimately show thesis
        using assms b g i d x y Some gI [OF i(2)] w1' az_query_shape [OF x] error [of item "Suc (Suc (az_calls w))" e w2]
        by (cases x; cases y) (auto simp: processOneItem_def)
    qed
  qed
qed

lemma item_selected:
  "GetAndLockNextOutboxRow w = Inr item \<Longrightarrow>
     item \<in> set (az_outbox w) \<and> az_due (az_now w) item \<and> ax_id item \<notin> set (az_locked w) \<and> ax_status item \<noteq> Completed"
  by (auto simp: GetAndLockNextOutboxRow_def az_due_def dest!: select_min_Some split: option.splits)

lemma run_inv_calls [simp]: "run_inv env holds (w\<lparr>az_calls := n\<rparr>) = run_inv env holds w"
  using settled_cong [of "w\<lparr>az_calls := n\<rparr>" w] conditions_cong [of "w\<lparr>az_calls := n\<rparr>" w env]
  by (simp add: run_inv_def tracked_def)

lemma run_inv_update:
  assumes "run_inv env holds w" "\<And>r. row_subject (f r) = row_subject r" "\<And>r. ax_id (f r) = ax_id r"
    "\<And>r. r \<in> set (az_outbox w) \<Longrightarrow> p r \<Longrightarrow> ax_status (f r) = Completed \<Longrightarrow> ax_status r = Completed"
  shows "run_inv env holds (az_update p f w)"
proof -
  have "map ax_id (update_where p f (az_outbox w)) = map ax_id (az_outbox w)"
    using assms(3) by (simp add: update_where_def)
  moreover have "tracked env holds (az_update p f w)"
    by (rule tracked_update) (use assms in \<open>auto simp: run_inv_def\<close>)
  ultimately show ?thesis
    using assms(1) conditions_cong [of "az_update p f w" w env] by (simp add: run_inv_def)
qed

context tuple_store
begin

lemma dispatch_tracked:
  assumes "run_inv env holds w" "ae_fga env = ops" "inj (ae_us env)" "item \<in> set (az_outbox w)" "ax_status item \<noteq> Completed"
    "dispatchItem env item w = Some (r, w2)"
  shows "run_inv env holds w2 \<and> same_tables w w2 \<and>
    (r = None \<longrightarrow> (\<exists>s. row_subject item = Some s \<and> settled env w2 (holds (az_fga w2)) s))"
proof (cases "row_subject item")
  case None
  with assms show ?thesis by (auto simp: dispatchItem_def)
next
  case (Some s)
  then have h: "handle env s w = Some (r, w2)" using assms(6) by (simp add: dispatchItem_def)
  note k = handle_conditions [OF h assms(2) _ assms(3)]
  have inv: "conditions_ok env w (holds (az_fga w))" "unique_members (az_db w)" using assms(1) by (auto simp: run_inv_def)
  have st: "same_tables w w2" using k inv by blast
  note f = same_tables_fields [OF st]
  have "tracked env holds w2"
    unfolding tracked_def
  proof
    fix s'
    show "settled env w2 (holds (az_fga w2)) s' \<or> (\<exists>r \<in> set (az_outbox w2). row_subject r = Some s' \<and> ax_status r \<noteq> Completed)"
    proof (cases "s' = s")
      case True
      then show ?thesis using Some assms(4,5) f by auto
    next
      case False
      then show ?thesis using k(3) [OF inv False] assms(1) f by (auto simp: run_inv_def tracked_def)
    qed
  qed
  then show ?thesis using k inv st f Some assms(1) by (auto simp: run_inv_def)
qed

lemma item_inv:
  assumes "processOneItem env cfg w = Some ((fnd, err), w')" "run_inv env holds w" "ae_fga env = ops" "inj (ae_us env)"
  shows "run_inv env holds w'"
  using assms(1)
proof (cases rule: item_cases)
  case (none n)
  then show ?thesis using assms(2) by simp
next
  case (completed item n m w2)
  let ?w = "w\<lparr>az_calls := n\<rparr>"
  note sel = item_selected [OF completed(3)]
  have i: "run_inv env holds w2 \<and> same_tables ?w w2 \<and> (\<exists>s. row_subject item = Some s \<and> settled env w2 (holds (az_fga w2)) s)"
    using dispatch_tracked [of env ?w item None w2] assms(2-4) sel completed(4) by simp
  then obtain s where s: "row_subject item = Some s" "settled env w2 (holds (az_fga w2)) s" by blast
  have ob: "az_outbox w2 = az_outbox w" using i same_tables_fields [of ?w w2] by simp
  let ?w' = "MarkOutboxRowProcessed (ax_id item) w2"
  have "tracked env holds ?w'"
    unfolding tracked_def
  proof
    fix s'
    have st: "settled env ?w' (holds (az_fga ?w')) s' = settled env w2 (holds (az_fga w2)) s'" for s'
      using settled_cong [of ?w' w2] by (simp add: MarkOutboxRowProcessed_def)
    show "settled env ?w' (holds (az_fga ?w')) s' \<or> (\<exists>r \<in> set (az_outbox ?w'). row_subject r = Some s' \<and> ax_status r \<noteq> Completed)"
    proof (cases "settled env w2 (holds (az_fga w2)) s'")
      case True
      then show ?thesis using st by simp
    next
      case False
      then obtain r where r: "r \<in> set (az_outbox w)" "row_subject r = Some s'" "ax_status r \<noteq> Completed"
        using i ob by (auto simp: run_inv_def tracked_def)
      have "ax_id r \<noteq> ax_id item"
      proof
        assume "ax_id r = ax_id item"
        moreover have "inj_on ax_id (set (az_outbox w))" using assms(2) by (simp add: run_inv_def distinct_map)
        ultimately have "r = item" using r(1) sel by (simp add: inj_on_def)
        then show False using r(2) s False by simp
      qed
      then have "r \<in> set (az_outbox ?w')" using r(1) ob by (auto simp: MarkOutboxRowProcessed_def update_where_def intro!: image_eqI [of _ _ r])
      then show ?thesis using r by blast
    qed
  qed
  moreover have "map ax_id (az_outbox ?w') = map ax_id (az_outbox w2)"
    by (simp add: MarkOutboxRowProcessed_def update_where_def)
  moreover have "az_db ?w' = az_db w2" "az_fga ?w' = az_fga w2" "conditions_ok env ?w' = conditions_ok env w2"
    using conditions_cong [of ?w' w2 env] by (auto simp: MarkOutboxRowProcessed_def)
  ultimately have "run_inv env holds ?w'" using i by (simp only: run_inv_def)
  then show ?thesis using completed(5) by simp
next
  case (unmarked item n m w2)
  then show ?thesis
    using dispatch_tracked [of env "w\<lparr>az_calls := n\<rparr>" item None w2] assms(2-4) item_selected [OF unmarked(3)] by simp
next
  case (error item e n m w2 w3)
  have "run_inv env holds w2"
    using dispatch_tracked [of env "w\<lparr>az_calls := n\<rparr>" item "Some e" w2] assms(2-4) item_selected [OF error(3)] error(4) by simp
  moreover have "run_inv env holds w4 \<Longrightarrow> run_inv env holds (az_update p (az_retry_row b c now i) w4)" for w4 p b c now i
    by (rule run_inv_update) simp_all
  moreover have "run_inv env holds w4 \<Longrightarrow> run_inv env holds (MarkOutboxRowFailed j i w4)" for w4 j i
    unfolding MarkOutboxRowFailed_def by (rule run_inv_update) auto
  ultimately have "run_inv env holds w3" using error(5) by (auto simp: after_error_def Let_def)
  then show ?thesis using error(6) by simp
qed

lemma run_keeps_inv:
  assumes "authz_run env holds cfg w w'" "run_inv env holds w" "ae_fga env = ops" "inj (ae_us env)"
  shows "run_inv env holds w'"
  using assms(1)
proof (induction rule: authz_run.induct)
  case start
  show ?case by (rule assms(2))
next
  case (item w1 res w2)
  then show ?case using item_inv [of env cfg w1 "fst res" "snd res" w2] assms(3,4) by simp
next
  case (reset w1)
  show ?case unfolding ResetFailedOutboxItems_def by (rule run_inv_update [OF reset.IH]) auto
next
  case (change w1 s r w2)
  have "settled env w2 T s' = settled env w1 T s'" if "s' \<noteq> s" for T s'
    using change.hyps(2) that by (simp add: change_def settled_def touched_def wanted_def)
  then have "tracked env holds w2"
    using change.IH change.hyps(2) unfolding run_inv_def tracked_def change_def by fastforce
  then show ?case using change.IH change.hyps(2) by (auto simp: run_inv_def change_def)
next
  case (time w1 n faults ids now)
  let ?w = "w1\<lparr>az_now := now, az_locked := ids, az_fault := faults, az_calls := n\<rparr>"
  have "settled env ?w T s = settled env w1 T s" for T s by (rule settled_cong) simp_all
  moreover have "conditions_ok env ?w T = conditions_ok env w1 T" for T by (rule conditions_cong) simp_all
  ultimately show ?case using time.IH by (simp add: run_inv_def tracked_def)
qed

end

section \<open>Draining\<close>

lemma no_panic_org_user:
  assumes "roles_ok (az_db w)"
  shows "handle_OrganizationUser env i w \<noteq> None"
proof -
  obtain r w1 where g: "get_row env ''organization user'' GetOrganizationUserByID i w = (r, w1)" by fastforce
  have "ou_permission x = ''admin'' \<or> ou_permission x = ''viewer''" if "r = Inr x" for x
    using get_row_shape [OF g get_calls(1)] get_found(1) [of i w x] assms that by (auto simp: roles_ok_def list_all_iff)
  then show ?thesis
    by (cases r) (auto simp: handle_OrganizationUser_def g Let_def split: prod.split option.split)
qed

lemma no_panic_project_member:
  assumes "roles_ok (az_db w)"
  shows "handle_ProjectMember env i w \<noteq> None"
proof -
  obtain r w1 where g: "get_row env ''project member'' GetProjectMemberByID i w = (r, w1)" by fastforce
  have "pm_role x = ''admin'' \<or> pm_role x = ''viewer''" if "r = Inr x" for x
    using get_row_shape [OF g get_calls(3)] get_found(3) [of i w x] assms that by (auto simp: roles_ok_def list_all_iff)
  then show ?thesis
    by (cases r) (auto simp: handle_ProjectMember_def g Let_def split: prod.split option.split)
qed

lemma handle_no_panic: "roles_ok (az_db w) \<Longrightarrow> handle env s w \<noteq> None"
  using no_panic_org_user [of w env] no_panic_project_member [of w env]
  by (cases s) (auto simp: handle_def handle_ApiKey_def parent_handlers parent_handler_def Let_def split: prod.split sum.split)

text \<open>No call to the database fails, and OpenFGA accepts every request.\<close>

definition answering :: "'t fga_ops \<Rightarrow> bool" where
  "answering ops \<longleftrightarrow> (\<forall>ts t. fst (WriteTuples ops True ts t) = None) \<and> (\<forall>ks t. fst (DeleteTuples ops True ks t) = None)"

lemma answering_requests:
  assumes "answering (ae_fga env)"
  shows "\<exists>t. writeTuplesIfNotExist env ts w = (None, w\<lparr>az_fga := t\<rparr>)" "\<exists>t. deleteTuplesIfExist env ks w = (None, w\<lparr>az_fga := t\<rparr>)"
proof -
  obtain e t where "WriteTuples (ae_fga env) True ts (az_fga w) = (e, t)" by fastforce
  moreover from this have "e = None" using assms unfolding answering_def by (metis fst_conv)
  ultimately show "\<exists>t. writeTuplesIfNotExist env ts w = (None, w\<lparr>az_fga := t\<rparr>)"
    by (cases "ts = []") (auto simp: writeTuplesIfNotExist_def intro: exI [of _ "az_fga w"])
next
  obtain e t where "DeleteTuples (ae_fga env) True ks (az_fga w) = (e, t)" by fastforce
  moreover from this have "e = None" using assms unfolding answering_def by (metis fst_conv)
  ultimately show "\<exists>t. deleteTuplesIfExist env ks w = (None, w\<lparr>az_fga := t\<rparr>)"
    by (cases "ks = []") (auto simp: deleteTuplesIfExist_def intro: exI [of _ "az_fga w"])
qed

lemma get_row_ok:
  "az_fault w = (\<lambda>_. None) \<Longrightarrow> q i w = Inr x \<Longrightarrow> (\<And>n. q i (w\<lparr>az_calls := n\<rparr>) = q i w) \<Longrightarrow>
   get_row env what q i w = (Inr x, w\<lparr>az_calls := Suc (az_calls w)\<rparr>)"
  by (simp add: get_row_def az_query_def az_call_def)

lemma demand_of_found: "fst (demand_of q f) \<noteq> [] \<Longrightarrow> \<exists>x. q = Inr x"
  by (cases q) (auto simp: demand_of_def)

lemma answering_parent_handler:
  assumes "az_fault w = (\<lambda>_. None)" "answering (ae_fga env)" "fst (demand_of (q i w) f) \<noteq> []" "\<And>n. q i (w\<lparr>az_calls := n\<rparr>) = q i w"
    "parent_handler what q del key env i w = Some (r, w')"
  shows "r = None"
proof -
  obtain x where x: "q i w = Inr x" using demand_of_found [OF assms(3)] by blast
  show ?thesis
    using assms(5) get_row_ok [of w q i x env what, OF assms(1) x assms(4)] answering_requests [OF assms(2)]
    by (auto simp: parent_handler_def split: if_splits) (metis prod.inject)+
qed

lemma answering_handle:
  assumes "az_fault w = (\<lambda>_. None)" "answering (ae_fga env)" "touched env w s \<noteq> {}" "handle env s w = Some (r, w')"
  shows "r = None"
proof -
  have d: "fst (demand env w s) \<noteq> []" using assms(3) by (simp add: touched_def)
  have req: "\<exists>t. writeTuplesIfNotExist env ts u = (None, u\<lparr>az_fga := t\<rparr>)" "\<exists>t. deleteTuplesIfExist env ks u = (None, u\<lparr>az_fga := t\<rparr>)" for ts ks u
    using answering_requests [OF assms(2)] by blast+
  have fin: "fst (writeTuplesIfNotExist env ts u) = None" "fst (deleteTuplesIfExist env ks u) = None" for ts ks u
    using req(1) [of ts u] req(2) [of ks u] by auto
  note P = answering_parent_handler [OF assms(1,2)]
  show ?thesis
  proof (cases s)
    case (SOrgUser i)
    then obtain x where x: "GetOrganizationUserByID i w = Inr x" using d demand_of_found by (fastforce simp: demand_def)
    from get_row_ok [of w GetOrganizationUserByID i x, OF assms(1) x get_calls(1)] assms(4) SOrgUser fin show ?thesis
      by (auto simp: handle_def handle_OrganizationUser_def Let_def split: prod.splits option.splits if_splits) (metis fst_conv option.distinct(1))+
  next
    case (SProjectMember i)
    then obtain x where x: "GetProjectMemberByID i w = Inr x" using d demand_of_found by (fastforce simp: demand_def)
    from get_row_ok [of w GetProjectMemberByID i x, OF assms(1) x get_calls(3)] assms(4) SProjectMember fin show ?thesis
      by (auto simp: handle_def handle_ProjectMember_def Let_def split: prod.splits option.splits if_splits) (metis fst_conv option.distinct(1))+
  next
    case (SApiKey i)
    then obtain x where x: "GetApiKeyByID i w = Inr x" using d demand_of_found by (fastforce simp: demand_def)
    from get_row_ok [of w GetApiKeyByID i x, OF assms(1) x get_calls(7)] assms(4) SApiKey fin show ?thesis
      by (auto simp: handle_def handle_ApiKey_def Let_def split: if_splits) (metis fst_conv)+
  qed (use d assms(4) in \<open>auto simp: handle_def demand_def parent_handlers dest: P [of GetProjectByID, OF _ get_calls(2)]
      P [of GetClusterByID, OF _ get_calls(4)] P [of GetNodePoolByID, OF _ get_calls(5)]
      P [of GetNamespaceByID, OF _ get_calls(6)] P [of GetPluginByID, OF _ get_calls(8)]\<close>)
qed

text \<open>A world in which every row that is not completed can be processed.\<close>

definition drainable :: "'t authz_env \<Rightarrow> 't authz_world \<Rightarrow> bool" where
  "drainable env w \<longleftrightarrow> az_fault w = (\<lambda>_. None) \<and> az_locked w = [] \<and>
     (\<forall>r \<in> set (az_outbox w). ax_status r = Completed \<or>
        az_due (az_now w) r \<and> (\<exists>s. row_subject r = Some s \<and> touched env w s \<noteq> {}))"

definition open_rows :: "'t authz_world \<Rightarrow> nat" where
  "open_rows w = length (filter (\<lambda>r. ax_status r \<noteq> Completed) (az_outbox w))"

lemma touched_cong:
  "az_db w' = az_db w \<Longrightarrow> az_api_keys w' = az_api_keys w \<Longrightarrow> az_plugins w' = az_plugins w \<Longrightarrow> touched env w' s = touched env w s"
  using demand_cong [of w' w env s] by (simp add: touched_def)

lemma select_none:
  assumes "drainable env w"
  shows "(\<exists>e. GetAndLockNextOutboxRow w = Inl e) \<longleftrightarrow> open_rows w = 0"
    "GetAndLockNextOutboxRow w = Inl e \<Longrightarrow> e = ErrNoRows"
proof -
  have "open_rows w = 0 \<longleftrightarrow> (\<forall>r \<in> set (az_outbox w). \<not> az_due (az_now w) r)"
    using assms by (auto simp: open_rows_def drainable_def filter_empty_conv az_due_def)
  also have "\<dots> \<longleftrightarrow> select_min ax_created (\<lambda>r. az_due (az_now w) r \<and> ax_id r \<notin> set (az_locked w)) (az_outbox w) = None"
    using assms by (simp add: select_min_None_iff drainable_def)
  finally show "(\<exists>e. GetAndLockNextOutboxRow w = Inl e) \<longleftrightarrow> open_rows w = 0"
    by (auto simp: GetAndLockNextOutboxRow_def split: option.splits)
  show "GetAndLockNextOutboxRow w = Inl e \<Longrightarrow> e = ErrNoRows"
    by (auto simp: GetAndLockNextOutboxRow_def split: option.splits)
qed

lemma open_rows_mark:
  assumes "distinct (map ax_id rs)" "item \<in> set rs" "ax_status item \<noteq> Completed"
    "\<And>r. ax_status (f r) = Completed"
  shows "Suc (length (filter (\<lambda>r. ax_status r \<noteq> Completed) (update_where (\<lambda>r. ax_id r = ax_id item) f rs))) =
    length (filter (\<lambda>r. ax_status r \<noteq> Completed) rs)"
  using assms(1,2)
proof (induction rs)
  case (Cons a rs)
  have same: "update_where (\<lambda>r. ax_id r = ax_id item) f rs = rs" if "ax_id item \<notin> ax_id ` set rs"
  proof -
    have "ax_id r \<noteq> ax_id item" if "r \<in> set rs" for r using \<open>ax_id item \<notin> ax_id ` set rs\<close> that by (metis image_eqI)
    then show ?thesis by (simp add: update_where_def map_idI)
  qed
  show ?case
    using Cons same assms(3,4) by (cases "a = item") (auto simp: update_where_def)
qed simp

lemma no_fault_calls:
  assumes "az_fault w = (\<lambda>_. None)"
  shows "az_query q w = (q (w\<lparr>az_calls := Suc (az_calls w)\<rparr>), w\<lparr>az_calls := Suc (az_calls w)\<rparr>)"
    "az_call (\<lambda>w. (Inr (), f w)) w = (Inr (), f (w\<lparr>az_calls := Suc (az_calls w)\<rparr>))"
  using assms by (simp_all add: az_query_def az_call_def Let_def)

lemma item_none:
  assumes "drainable env w" "open_rows w = 0"
  shows "processOneItem env cfg w = Some ((False, None), w\<lparr>az_calls := Suc (Suc (az_calls w))\<rparr>)"
proof -
  have "GetAndLockNextOutboxRow w = Inl ErrNoRows" using select_none [OF assms(1)] assms(2) by blast
  moreover have "az_fault w = (\<lambda>_. None)" using assms(1) by (simp add: drainable_def)
  ultimately show ?thesis by (simp add: processOneItem_def no_fault_calls)
qed

lemma drainable_calls [simp]: "drainable env (w\<lparr>az_calls := n\<rparr>) = drainable env w" "open_rows (w\<lparr>az_calls := n\<rparr>) = open_rows w"
  using touched_cong [of "w\<lparr>az_calls := n\<rparr>" w env] by (simp_all add: drainable_def open_rows_def)

lemma drainable_mark:
  assumes "drainable env w" "same_tables w w2"
  shows "drainable env (MarkOutboxRowProcessed i w2)"
proof -
  note f = same_tables_fields [OF assms(2)]
  have "touched env (MarkOutboxRowProcessed i w2) s = touched env w s" for s
    by (rule touched_cong) (simp_all add: MarkOutboxRowProcessed_def f)
  moreover have "az_due n (r\<lparr>ax_processed := p, ax_status := Completed, ax_status_info := t\<rparr>) = False" for n r p t
    by (simp add: az_due_def)
  ultimately show ?thesis
    using assms(1) f by (auto simp: drainable_def MarkOutboxRowProcessed_def update_where_def)
qed

context tuple_store
begin

lemma item_drains:
  assumes "drainable env w" "run_inv env holds w" "ae_fga env = ops" "inj (ae_us env)" "answering ops" "0 < open_rows w"
  obtains w' where "processOneItem env cfg w = Some ((True, None), w')" "drainable env w'" "run_inv env holds w'"
    "Suc (open_rows w') = open_rows w"
proof -
  have nf: "az_fault w = (\<lambda>_. None)" using assms(1) by (simp add: drainable_def)
  obtain item where g: "GetAndLockNextOutboxRow w = Inr item"
    using select_none(1) [OF assms(1)] assms(6) by (cases "GetAndLockNextOutboxRow w") auto
  note sel = item_selected [OF g]
  obtain s where s: "row_subject item = Some s" "touched env w s \<noteq> {}"
    using sel assms(1) unfolding drainable_def by blast
  let ?w = "w\<lparr>az_calls := Suc (Suc (az_calls w))\<rparr>"
  have tw: "touched env ?w s = touched env w s" by (rule touched_cong) simp_all
  have "roles_ok (az_db ?w)" using assms(2) by (simp add: run_inv_def)
  then obtain r w2 where h: "handle env s ?w = Some (r, w2)" using handle_no_panic [of ?w env s] by fastforce
  have "r = None" by (rule answering_handle [OF _ _ _ h]) (use nf assms(3,5) s(2) tw in simp_all)
  then have d: "dispatchItem env item ?w = Some (None, w2)" using h s(1) by (simp add: dispatchItem_def)
  have "same_tables ?w w2" using dispatch_tracked [of env ?w item None w2] assms(2-4) sel d by simp
  then have f: "az_fault w2 = (\<lambda>_. None)" "az_outbox w2 = az_outbox w" and st: "same_tables w w2"
    using nf same_tables_fields [of ?w w2] same_tables_trans [of w ?w w2] by auto
  let ?w' = "(MarkOutboxRowProcessed (ax_id item) w2)\<lparr>az_calls := Suc (Suc (az_calls w2))\<rparr>"
  have p: "processOneItem env cfg w = Some ((True, None), ?w')"
    using g d nf f(1) by (simp add: processOneItem_def no_fault_calls)
  moreover have "drainable env ?w'" using drainable_mark [OF assms(1) st] by simp
  moreover have "run_inv env holds ?w'" using item_inv [OF p assms(2-4)] .
  moreover have "Suc (open_rows ?w') = open_rows w"
    using open_rows_mark [of "az_outbox w" item "\<lambda>r. r\<lparr>ax_processed := Some (az_now w2), ax_status := Completed, ax_status_info := None\<rparr>"]
      assms(2) sel f(2) by (simp add: open_rows_def MarkOutboxRowProcessed_def run_inv_def)
  ultimately show thesis using that by blast
qed

lemma batch_drains:
  assumes "drainable env w" "run_inv env holds w" "ae_fga env = ops" "inj (ae_us env)" "answering ops"
  shows "\<exists>w'. az_batch env cfg n p log w = Some (p + min n (open_rows w), log, w') \<and> drainable env w' \<and> run_inv env holds w' \<and>
    open_rows w' = open_rows w - n"
  using assms(1,2)
proof (induction n arbitrary: p w)
  case (Suc n)
  show ?case
  proof (cases "open_rows w = 0")
    case True
    then show ?thesis using item_none [OF Suc.prems(1) True, of cfg] Suc.prems by auto
  next
    case False
    then obtain w1 where w1: "processOneItem env cfg w = Some ((True, None), w1)" "drainable env w1" "run_inv env holds w1"
      "Suc (open_rows w1) = open_rows w"
      using item_drains [OF Suc.prems assms(3-5)] by blast
    show ?thesis using Suc.IH [OF w1(2,3), of "Suc p"] w1 by (auto simp: min_def split: if_splits)
  qed
qed auto

lemma drain_returns:
  assumes "drainable env w" "run_inv env holds w" "ae_fga env = ops" "inj (ae_us env)" "answering ops" "0 < ac_BatchSize cfg"
    "open_rows w < fuel"
  shows "\<exists>w'. processBatch fuel env cfg log w = Emptied log w' \<and> drainable env w' \<and> run_inv env holds w' \<and> open_rows w' = 0"
  using assms(1,2,7)
proof (induction fuel arbitrary: w)
  case (Suc fuel)
  obtain w1 where w1: "processOneBatch env cfg log w = Some (min (nat (ac_BatchSize cfg)) (open_rows w), log, w1)" "drainable env w1"
    "run_inv env holds w1" "open_rows w1 = open_rows w - nat (ac_BatchSize cfg)"
    using batch_drains [OF Suc.prems(1,2) assms(3-5), of cfg "nat (ac_BatchSize cfg)" 0 log] by (auto simp: processOneBatch_def)
  show ?case
  proof (cases "open_rows w = 0")
    case True
    then show ?thesis using w1 by simp
  next
    case False
    then have "open_rows w1 < fuel" "min (nat (ac_BatchSize cfg)) (open_rows w) \<noteq> 0" using w1(4) Suc.prems(3) assms(6) by auto
    then show ?thesis using Suc.IH [OF w1(2,3)] w1(1) by (simp add: min_def split: if_splits)
  qed
qed simp

end

section \<open>A store in memory\<close>

text \<open>The tuples in a list, and the answers OpenFGA gives to the next requests: an error leaves the tuples as they are.\<close>

record mem_fga =
  mf_tuples :: "(tuple_key \<times> fga_condition option) list"
  mf_errors :: "gerr option list"

definition next_answer :: "mem_fga \<Rightarrow> gerr option \<times> mem_fga" where
  "next_answer t = (case mf_errors t of [] \<Rightarrow> (None, t) | e # es \<Rightarrow> (e, t\<lparr>mf_errors := es\<rparr>))"

definition mem_write :: "bool \<Rightarrow> (tuple_key \<times> fga_condition option) list \<Rightarrow> mem_fga \<Rightarrow> gerr option \<times> mem_fga" where
  "mem_write ignore ts t =
     (case next_answer t of
        (Some e, t) \<Rightarrow> (Some e, t)
      | (None, t) \<Rightarrow>
          if \<not> ignore \<and> list_ex (\<lambda>(k, c). map_of (mf_tuples t) k \<noteq> None) ts
          then (Some (ErrNew ''cannot write a tuple which already exists''), t)
          else (None, t\<lparr>mf_tuples := mf_tuples t @ ts\<rparr>))"

definition mem_delete :: "bool \<Rightarrow> tuple_key list \<Rightarrow> mem_fga \<Rightarrow> gerr option \<times> mem_fga" where
  "mem_delete ignore ks t =
     (case next_answer t of
        (Some e, t) \<Rightarrow> (Some e, t)
      | (None, t) \<Rightarrow>
          if \<not> ignore \<and> list_ex (\<lambda>k. map_of (mf_tuples t) k = None) ks
          then (Some (ErrNew ''cannot delete a tuple which does not exist''), t)
          else (None, t\<lparr>mf_tuples := filter (\<lambda>(k, c). k \<notin> set ks) (mf_tuples t)\<rparr>))"

definition mem_holds :: "mem_fga \<Rightarrow> tuples" where
  "mem_holds t = map_of (mf_tuples t)"

definition mem_ops :: "mem_fga fga_ops" where
  "mem_ops = \<lparr>WriteTuples = mem_write, DeleteTuples = mem_delete\<rparr>"

lemma map_of_filter_key: "map_of (filter (\<lambda>(k, c). P k) xs) k = (if P k then map_of xs k else None)"
  by (induction xs) auto

interpretation memfga: tuple_store mem_ops mem_holds
proof
  fix ts t t' k e
  show "WriteTuples mem_ops True ts t = (None, t') \<Longrightarrow> distinct (map fst ts) \<Longrightarrow>
      mem_holds t' k = (if mem_holds t k = None then map_of ts k else mem_holds t k)"
    by (auto simp: mem_ops_def mem_write_def next_answer_def mem_holds_def map_add_def split: list.splits option.splits prod.splits)
  show "WriteTuples mem_ops True ts t = (Some e, t') \<Longrightarrow> distinct (map fst ts) \<Longrightarrow>
      mem_holds t' k = mem_holds t k \<or> (mem_holds t k = None \<and> mem_holds t' k = map_of ts k)"
    by (auto simp: mem_ops_def mem_write_def next_answer_def mem_holds_def split: list.splits option.splits prod.splits)
next
  fix ks t t' k e
  show "DeleteTuples mem_ops True ks t = (None, t') \<Longrightarrow> distinct ks \<Longrightarrow> mem_holds t' k = (if k \<in> set ks then None else mem_holds t k)"
    by (auto simp: mem_ops_def mem_delete_def next_answer_def mem_holds_def map_of_filter_key split: list.splits option.splits prod.splits)
  show "DeleteTuples mem_ops True ks t = (Some e, t') \<Longrightarrow> distinct ks \<Longrightarrow>
      mem_holds t' k = mem_holds t k \<or> (k \<in> set ks \<and> mem_holds t' k = None)"
    by (auto simp: mem_ops_def mem_delete_def next_answer_def mem_holds_def split: list.splits option.splits prod.splits)
qed

text \<open>The same store when it answers every request.\<close>

definition steady_ops :: "mem_fga fga_ops" where
  "steady_ops = \<lparr>WriteTuples = \<lambda>ig ts t. mem_write ig ts (t\<lparr>mf_errors := []\<rparr>), DeleteTuples = \<lambda>ig ks t. mem_delete ig ks (t\<lparr>mf_errors := []\<rparr>)\<rparr>"

lemma steady_holds: "mem_holds (t\<lparr>mf_errors := es\<rparr>) = mem_holds t"
  by (simp add: mem_holds_def)

interpretation steady: tuple_store steady_ops mem_holds
proof -
  have *: "WriteTuples steady_ops True ts t = WriteTuples mem_ops True ts (t\<lparr>mf_errors := []\<rparr>)"
    "DeleteTuples steady_ops True ks t = DeleteTuples mem_ops True ks (t\<lparr>mf_errors := []\<rparr>)" for ts ks t
    by (simp_all add: steady_ops_def mem_ops_def)
  note laws = memfga.write_ok [of _ "_\<lparr>mf_errors := []\<rparr>", unfolded steady_holds] memfga.write_err [of _ "_\<lparr>mf_errors := []\<rparr>", unfolded steady_holds]
    memfga.delete_ok [of _ "_\<lparr>mf_errors := []\<rparr>", unfolded steady_holds] memfga.delete_err [of _ "_\<lparr>mf_errors := []\<rparr>", unfolded steady_holds]
  show "tuple_store steady_ops mem_holds"
    by unfold_locales (unfold *, (rule laws; assumption)+)
qed

lemma steady_answering: "answering steady_ops"
  by (simp add: answering_def steady_ops_def mem_write_def mem_delete_def next_answer_def)

lemma dec_us_inj: "inj dec_us"
  by (simp add: inj_def dec_us_def)

definition steady_env :: "mem_fga authz_env" where
  "steady_env = \<lparr>ae_fga = steady_ops, ae_us = dec_us, ae_rfc3339 = \<lambda>t. ''t''\<rparr>"

definition mem_env :: "mem_fga authz_env" where
  "mem_env = \<lparr>ae_fga = mem_ops, ae_us = dec_us, ae_rfc3339 = \<lambda>t. ''t''\<rparr>"

text \<open>Without API keys no tuple needs a condition.\<close>

lemma conditions_plain:
  assumes "az_api_keys w = []" "\<And>k c. T k = Some c \<Longrightarrow> c = None"
  shows "conditions_ok env w T"
proof -
  have "wanted env w s k = Some c \<Longrightarrow> c = None" for s k c
    using assms(1) by (cases s) (auto simp: wanted_def demand_def demand_of_def demand_defs GetApiKeyByID_def one_def split: sum.splits if_splits)
  moreover have "T k = None \<or> T k = Some None" for k using assms(2) by (cases "T k") auto
  ultimately show ?thesis unfolding conditions_ok_def by metis
qed

definition membership :: "uuid \<Rightarrow> string \<Rightarrow> string \<Rightarrow> micros option \<Rightarrow> org_user_row" where
  "membership i permission status deleted = \<lparr>ou_id = i, ou_org = 3, ou_user = 7, ou_permission = permission, ou_status = status, ou_deleted = deleted\<rparr>"

definition membership_event :: "uuid \<Rightarrow> uuid \<Rightarrow> authz_row" where
  "membership_event i m = \<lparr>ax_id = i, ax_project = None, ax_project_member = None, ax_cluster = None, ax_node_pool = None, ax_namespace = None,
     ax_api_key = None, ax_org_user = Some m, ax_plugin = None, ax_created = int i, ax_processed = None, ax_retries = 0, ax_retry_after = None,
     ax_failed = None, ax_status = Pending, ax_status_info = None\<rparr>"

definition member_world :: "org_user_row list \<Rightarrow> authz_row list \<Rightarrow> mem_fga \<Rightarrow> mem_fga authz_world" where
  "member_world rows evs t = \<lparr>az_db = empty_db\<lparr>org_users := rows\<rparr>, az_api_keys = [], az_plugins = [], az_outbox = evs, az_locked = [], az_now = 0,
     az_fault = \<lambda>_. None, az_calls = 0, az_fga = t\<rparr>"

definition member_tuple :: "string \<Rightarrow> tuple_key \<times> fga_condition option" where
  "member_tuple rel = (tuple (User dec_us 7) rel (Organization dec_us 3), None)"

definition az_cfg :: authz_cfg where
  "az_cfg = az_applyDefaults \<lparr>ac_PollInterval = 0, ac_BatchSize = 0, ac_BaseBackoff = 0, ac_MaxBackoff = 0, ac_MaxRetries = 0, ac_BackoffDelay = 0\<rparr>"

lemma member_untouched:
  assumes "\<And>i. s = SOrgUser i \<Longrightarrow> i \<notin> ou_id ` set rows"
  shows "touched env (member_world rows evs t) s = {}"
proof (cases s)
  case (SOrgUser i)
  have "GetOrganizationUserByID i (member_world rows evs t) \<noteq> Inr x" for x
    using get_found(1) [of i "member_world rows evs t" x] assms [OF SOrgUser] by (auto simp: member_world_def empty_db_def)
  then show ?thesis by (cases "GetOrganizationUserByID i (member_world rows evs t)")
      (auto simp: SOrgUser touched_def demand_def demand_of_def)
qed (auto simp: touched_def demand_def demand_of_def get_defs member_world_def empty_db_def one_def)

lemma option_pair: "map_option fst x = Some a \<Longrightarrow> x = Some (a, snd (the x))"
  by (cases x) auto

definition joined_world :: "mem_fga authz_world" where
  "joined_world = member_world [membership 2 ''admin'' ''accepted'' None] [membership_event 12 2] \<lparr>mf_tuples = [], mf_errors = []\<rparr>"

lemma joined_inv: "run_inv env mem_holds joined_world"
proof -
  have "settled env joined_world T s" if "s \<noteq> SOrgUser 2" for T s
  proof -
    have "touched env joined_world s = {}"
      unfolding joined_world_def by (rule member_untouched) (use that in \<open>auto simp: membership_def\<close>)
    then show ?thesis by (simp add: settled_def)
  qed
  moreover have "row_subject (membership_event 12 2) = Some (SOrgUser 2)" "ax_status (membership_event 12 2) \<noteq> Completed"
    by (simp_all add: membership_event_def row_subject_def)
  ultimately have "tracked env mem_holds joined_world"
    unfolding tracked_def by (auto simp: joined_world_def member_world_def)
  moreover have "conditions_ok env joined_world (mem_holds (az_fga joined_world))"
    by (rule conditions_plain) (simp_all add: joined_world_def member_world_def mem_holds_def)
  ultimately show ?thesis
    by (simp add: run_inv_def joined_world_def member_world_def empty_db_def unique_members_def roles_ok_def membership_def)
qed

section \<open>Properties\<close>

lemma processOneItem_no_panic: "roles_ok (az_db w) \<Longrightarrow> processOneItem env cfg w \<noteq> None"
proof -
  assume r: "roles_ok (az_db w)"
  have "dispatchItem env item (w\<lparr>az_calls := n\<rparr>) \<noteq> None" for item n
    using handle_no_panic [of "w\<lparr>az_calls := n\<rparr>" env] r by (auto simp: dispatchItem_def split: option.split)
  moreover obtain b w0 where b: "az_query (\<lambda>w. Inr ()) w = (b, w0)" by fastforce
  moreover obtain g w1 where g: "az_query GetAndLockNextOutboxRow w0 = (g, w1)" by fastforce
  ultimately show ?thesis
    using az_query_shape [OF b] az_query_shape [OF g]
    by (cases b; cases g) (auto simp: processOneItem_def split: option.splits sum.splits prod.splits)
qed



lemma open_rows_0: "open_rows w = 0 \<longleftrightarrow> (\<forall>r \<in> set (az_outbox w). ax_status r = Completed)"
  by (auto simp: open_rows_def filter_empty_conv)



text \<open>
  C32: a late event of an old membership removes the roles of the new one. When a user left an organization (or declined)
  and joined again, two membership rows have the same user and organization. A successful run of the handler for the old
  row leaves the user without any role tuple, although the new row is accepted.
\<close>

theorem stale_membership_event_revokes:
  assumes "tuple_store (ae_fga env) holds" "inj (ae_us env)" "conditions_ok env w (holds (az_fga w))"
    "GetOrganizationUserByID i w = Inr old" "ou_deleted old \<noteq> None \<or> ou_status old \<noteq> ''accepted''"
    "GetOrganizationUserByID j w = Inr new" "ou_deleted new = None" "ou_status new = ''accepted''"
    "ou_user old = ou_user new" "ou_org old = ou_org new" "handle env (SOrgUser i) w = Some (None, w')"
  shows "holds (az_fga w') (role_key env new ActionAdmin) = None \<and> holds (az_fga w') (role_key env new ActionViewer) = None \<and>
    GetOrganizationUserByID j w' = Inr new \<and> \<not> settled env w' (holds (az_fga w')) (SOrgUser j)"
proof -
  note h = tuple_store.handle_handled [OF assms(1,11) refl assms(3), unfolded tuple_store.handled_def [OF assms(1)] prod.case]
  have eq: "role_key env old rel = role_key env new rel" for rel using assms(9,10) by (simp add: role_key_def)
  have "demand env w (SOrgUser i) = ([role_key env new ActionAdmin, role_key env new ActionViewer], [])"
    using assms(4,5) eq by (auto simp: demand_def demand_of_def org_user_demand_def)
  moreover have "holds (az_fga w') = after (holds (az_fga w)) (demand env w (SOrgUser i))" using h by blast
  ultimately have none: "holds (az_fga w') (role_key env new rel) = None" if "rel \<in> {ActionAdmin, ActionViewer}" for rel
    using that by (auto simp: after_def)
  have "same_tables w w'" using h by blast
  then have get: "GetOrganizationUserByID j w' = Inr new"
    using assms(6) same_tables_fields [of w w'] by (simp add: GetOrganizationUserByID_def)
  let ?rel = "if ou_permission new = ''admin'' then ActionAdmin else ActionViewer"
  have "role_key env new ?rel \<in> touched env w' (SOrgUser j)" "wanted env w' (SOrgUser j) (role_key env new ?rel) = Some None"
    using get assms(7,8) by (auto simp: touched_def wanted_def demand_def demand_of_def org_user_demand_def)
  moreover have "holds (az_fga w') (role_key env new ?rel) = None" by (rule none) simp
  ultimately have "\<not> settled env w' (holds (az_fga w')) (SOrgUser j)"
    unfolding settled_def by (metis option.distinct(1))
  with none get show ?thesis by simp
qed

text \<open>A user was removed from an organization and has joined again as an admin. OpenFGA refuses the first request, so the
  event of the removal is retried after the event of the new membership: the outbox is emptied, and the admin has no role.\<close>

definition rejoined_world :: "mem_fga authz_world" where
  "rejoined_world = member_world [membership 1 ''admin'' ''revoked'' (Some 5), membership 2 ''admin'' ''accepted'' None]
     [membership_event 11 1, membership_event 12 2] \<lparr>mf_tuples = [], mf_errors = [Some (ErrNew ''down'')]\<rparr>"

definition rejoined_drained :: "mem_fga authz_world" where
  "rejoined_drained = (case processBatch 3 mem_env az_cfg [] rejoined_world of Emptied log w \<Rightarrow> w\<lparr>az_now := 1000000\<rparr> | _ \<Rightarrow> rejoined_world)"

theorem stale_membership_event_revokes_witness:
  "map ax_status (az_outbox rejoined_drained) = [Retrying, Completed] \<and> mf_tuples (az_fga rejoined_drained) = [member_tuple ''admin''] \<and>
   (\<exists>w'. processOneItem mem_env az_cfg rejoined_drained = Some ((True, None), w') \<and>
      map ax_status (az_outbox w') = [Completed, Completed] \<and>
      mem_holds (az_fga w') (role_key mem_env (membership 2 ''admin'' ''accepted'' None) ActionAdmin) = None)"
proof -
  let ?new = "membership 2 ''admin'' ''accepted'' None" and ?old = "membership 1 ''admin'' ''revoked'' (Some 5)"
  let ?w1 = "rejoined_drained" and ?w2 = "snd (the (handle mem_env (SOrgUser 1) rejoined_drained))"
  have "az_api_keys ?w1 = []" "mf_tuples (az_fga ?w1) = [member_tuple ''admin'']" by code_simp+
  then have c: "conditions_ok mem_env ?w1 (mem_holds (az_fga ?w1))"
    by (intro conditions_plain) (auto simp: mem_holds_def member_tuple_def split: if_splits)
  have st: "tuple_store (ae_fga mem_env) mem_holds" using memfga.tuple_store_axioms by (simp add: mem_env_def)
  have inj: "inj (ae_us mem_env)" by (simp add: mem_env_def dec_us_inj)
  have f: "GetOrganizationUserByID 1 ?w1 = Inr ?old" "GetOrganizationUserByID 2 ?w1 = Inr ?new" by code_simp+
  have h: "handle mem_env (SOrgUser 1) ?w1 = Some (None, ?w2)" by (rule option_pair) code_simp
  have "mem_holds (az_fga ?w2) (role_key mem_env ?new ActionAdmin) = None"
    using stale_membership_event_revokes [OF st inj c f(1) _ f(2) _ _ _ _ h] by (simp add: membership_def)
  moreover have "az_fga (snd (the (processOneItem mem_env az_cfg ?w1))) = az_fga ?w2" by code_simp
  moreover have "map ax_status (az_outbox ?w1) = [Retrying, Completed]" "mf_tuples (az_fga ?w1) = [member_tuple ''admin'']"
    "map ax_status (az_outbox (snd (the (processOneItem mem_env az_cfg ?w1)))) = [Completed, Completed]" by code_simp+
  moreover have "processOneItem mem_env az_cfg ?w1 = Some ((True, None), snd (the (processOneItem mem_env az_cfg ?w1)))"
    by (rule option_pair) code_simp
  ultimately show ?thesis by metis
qed

section \<open>Two workers\<close>

text \<open>\<open>FOR NO KEY UPDATE SKIP LOCKED\<close> lets several workers handle different outbox rows at the same time, also two rows of
  one membership. The handler of a membership in the steps between which another worker may run: read the row, delete
  the role tuples, write the new one.\<close>

datatype ou_phase = OuRead | OuDelete org_user_row | OuWrite org_user_row | OuDone "gerr option" | OuPanic

fun ou_step :: "'t authz_env \<Rightarrow> uuid \<Rightarrow> ou_phase \<Rightarrow> 't authz_world \<Rightarrow> ou_phase \<times> 't authz_world" where
  "ou_step env i OuRead w =
     (case get_row env ''organization user'' GetOrganizationUserByID i w of
        (Inl e, w) \<Rightarrow> (OuDone (Some e), w)
      | (Inr orgUser, w) \<Rightarrow> (OuDelete orgUser, w))"
| "ou_step env i (OuDelete orgUser) w =
     (let user = User (ae_us env) (ou_user orgUser); org = Organization (ae_us env) (ou_org orgUser)
      in case deleteTuplesIfExist env [tupleDelete user ActionAdmin org, tupleDelete user ActionViewer org] w of
           (Some e, w) \<Rightarrow> (OuDone (Some e), w)
         | (None, w) \<Rightarrow> (OuWrite orgUser, w))"
| "ou_step env i (OuWrite orgUser) w =
     (let user = User (ae_us env) (ou_user orgUser); org = Organization (ae_us env) (ou_org orgUser)
      in if ou_deleted orgUser \<noteq> None \<or> ou_status orgUser \<noteq> ''accepted'' then (OuDone None, w)
         else if ou_permission orgUser = ''admin''
         then (case writeTuplesIfNotExist env [(tuple user ActionAdmin org, None)] w of (e, w) \<Rightarrow> (OuDone e, w))
         else if ou_permission orgUser = ''viewer''
         then (case writeTuplesIfNotExist env [(tuple user ActionViewer org, None)] w of (e, w) \<Rightarrow> (OuDone e, w))
         else (OuPanic, w))"
| "ou_step env i (OuDone e) w = (OuDone e, w)"
| "ou_step env i OuPanic w = (OuPanic, w)"

text \<open>Without interference the steps are the handler.\<close>

definition ou_outcome :: "ou_phase \<times> 't authz_world \<Rightarrow> (gerr option \<times> 't authz_world) option" where
  "ou_outcome = (\<lambda>(p, w). case p of OuDone e \<Rightarrow> Some (e, w) | _ \<Rightarrow> None)"

lemma ou_steps_handler:
  "handle_OrganizationUser env i w =
     ou_outcome (case ou_step env i OuRead w of (p, w) \<Rightarrow> case ou_step env i p w of (p, w) \<Rightarrow> ou_step env i p w)"
  by (auto simp: handle_OrganizationUser_def ou_outcome_def Let_def split: prod.splits sum.splits option.splits)

text \<open>The two workers and the update of the row's permission (\<open>MemberUpdatePermission\<close> of the organization API).\<close>

datatype actor = FirstWorker | SecondWorker | SetPermission string

fun interleave ::
  "'t authz_env \<Rightarrow> uuid \<Rightarrow> actor list \<Rightarrow> ou_phase \<times> ou_phase \<times> 't authz_world \<Rightarrow> ou_phase \<times> ou_phase \<times> 't authz_world" where
  "interleave env i [] st = st"
| "interleave env i (FirstWorker # as) (p, q, w) = (case ou_step env i p w of (p, w) \<Rightarrow> interleave env i as (p, q, w))"
| "interleave env i (SecondWorker # as) (p, q, w) = (case ou_step env i q w of (q, w) \<Rightarrow> interleave env i as (p, q, w))"
| "interleave env i (SetPermission perm # as) (p, q, w) =
     interleave env i as (p, q, w\<lparr>az_db := (az_db w)\<lparr>org_users :=
       update_where (\<lambda>r. ou_id r = i \<and> ou_deleted r = None) (\<lambda>r. r\<lparr>ou_permission := perm\<rparr>) (org_users (az_db w))\<rparr>\<rparr>)"

definition demoted_world :: "mem_fga authz_world" where
  "demoted_world = member_world [membership 2 ''admin'' ''accepted'' None] [membership_event 11 2, membership_event 12 2]
     \<lparr>mf_tuples = [member_tuple ''admin''], mf_errors = []\<rparr>"


end
