(* ===== verification/CircuitBreaker.thy ===== *)
theory CircuitBreaker
  imports AuthzProps
begin

text \<open>
  The circuit breaker of the organization API (\<open>common/circuitbreaker\<close>), with the check that
  \<open>organization-api/cmd/fun-organization-api/main.go\<close> gives it: how far the outbox of the authz-worker lags behind. Times are
  microseconds and exact: the query's double precision seconds tell lags below \<open>2 ^ 32\<close> seconds apart, and a threshold in
  whole seconds (5 by default) is a double.
\<close>

section \<open>The breaker (breaker.go, interceptor.go)\<close>

record breaker =
  cb_PollInterval :: micros
  cb_open :: bool

definition NewBreaker :: "micros \<Rightarrow> breaker" where
  "NewBreaker interval = \<lparr>cb_PollInterval = (if interval = 0 then 2000000 else interval), cb_open = False\<rparr>"

definition IsOpen :: "breaker \<Rightarrow> bool" where
  "IsOpen b = cb_open b"

definition breaker_poll :: "gerr + bool \<Rightarrow> breaker \<Rightarrow> breaker" where
  "breaker_poll check b =
     (case check of
        Inl e \<Rightarrow> b
      | Inr shouldOpen \<Rightarrow>
          if shouldOpen then (if \<not> cb_open b then b\<lparr>cb_open := True\<rparr> else b)
          else (if cb_open b then b\<lparr>cb_open := False\<rparr> else b))"

text \<open>\<open>Start\<close> polls at once and then with every tick; the argument lists what the check answered each time.\<close>

fun breaker_Start :: "(gerr + bool) list \<Rightarrow> breaker \<Rightarrow> breaker" where
  "breaker_Start [] b = b"
| "breaker_Start (c # cs) b = breaker_Start cs (breaker_poll c b)"

datatype rpc_error = CodeUnavailable string | HandlerError gerr

definition unavailable :: rpc_error where
  "unavailable = CodeUnavailable ''service temporarily unavailable''"

text \<open>Unary and streaming handlers change a state of their own; outbound streams pass.\<close>

definition WrapUnary :: "breaker \<Rightarrow> ('q \<Rightarrow> 's \<Rightarrow> (rpc_error + 'a) \<times> 's) \<Rightarrow> 'q \<Rightarrow> 's \<Rightarrow> (rpc_error + 'a) \<times> 's" where
  "WrapUnary b next_handler req st = (if IsOpen b then (Inl unavailable, st) else next_handler req st)"

definition WrapStreamingClient :: "breaker \<Rightarrow> 'h \<Rightarrow> 'h" where
  "WrapStreamingClient b next_handler = next_handler"

definition WrapStreamingHandler :: "breaker \<Rightarrow> ('q \<Rightarrow> 's \<Rightarrow> rpc_error option \<times> 's) \<Rightarrow> 'q \<Rightarrow> 's \<Rightarrow> rpc_error option \<times> 's" where
  "WrapStreamingHandler b next_handler conn st = (if IsOpen b then (Some unavailable, st) else next_handler conn st)"

section \<open>The check (circuitbreaker.sql.go, main.go)\<close>

definition lagging :: "authz_row \<Rightarrow> bool" where
  "lagging r \<longleftrightarrow> ax_processed r = None \<and> (ax_status r = Pending \<or> ax_status r = Retrying)"

definition AuthzOutboxLagSeconds :: "'t authz_world \<Rightarrow> micros" where
  "AuthzOutboxLagSeconds w =
     (case map ax_created (filter lagging (az_outbox w)) of
        [] \<Rightarrow> 0
      | c # cs \<Rightarrow> az_now w - foldl min c cs)"

definition trip_check :: "micros \<Rightarrow> gerr option \<times> 't authz_world \<Rightarrow> gerr + bool" where
  "trip_check threshold = (\<lambda>(fault, w).
     case fault of
       Some e \<Rightarrow> Inl e
     | None \<Rightarrow> Inr (threshold < AuthzOutboxLagSeconds w))"

text \<open>The readiness endpoint: the answers of the database and of OpenFGA, and the breaker.\<close>

definition readyz :: "gerr option \<Rightarrow> gerr option \<Rightarrow> breaker \<Rightarrow> nat \<times> string" where
  "readyz ping healthy b =
     (let errs = (case ping of None \<Rightarrow> [] | Some e \<Rightarrow> [''database: '' @ err_text e]) @
            (case healthy of None \<Rightarrow> [] | Some e \<Rightarrow> [''openfga: '' @ err_text e]) @
            (if IsOpen b then [''authz_outbox: sync lag exceeds threshold''] else [])
      in if errs \<noteq> [] then (503, join_lines errs) else (200, ''ok''))"

section \<open>What an open or closed breaker means\<close>

lemma breaker_Start_append: "breaker_Start (cs @ ds) b = breaker_Start ds (breaker_Start cs b)"
  by (induction cs arbitrary: b) simp_all

lemma breaker_Start_failed: "\<forall>c \<in> set cs. \<exists>e. c = Inl e \<Longrightarrow> breaker_Start cs b = b"
  by (induction cs arbitrary: b) (auto simp: breaker_poll_def)

text \<open>The state of the breaker is the verdict of the last check that did not fail; before the first one it is closed.\<close>

lemma IsOpen_last:
  "\<forall>c \<in> set ds. \<exists>e. c = Inl e \<Longrightarrow> IsOpen (breaker_Start (cs @ Inr verdict # ds) b) = verdict"
  by (simp add: breaker_Start_append breaker_Start_failed) (simp add: IsOpen_def breaker_poll_def)

lemma IsOpen_none: "\<forall>c \<in> set cs. \<exists>e. c = Inl e \<Longrightarrow> \<not> IsOpen (breaker_Start cs (NewBreaker interval))"
  by (simp add: breaker_Start_failed) (simp add: IsOpen_def NewBreaker_def)

lemma foldl_min_less: "foldl min c cs < k \<longleftrightarrow> (\<exists>x \<in> set (c # cs). x < k)" for k :: "'a :: linorder"
  by (induction cs arbitrary: c) (auto simp: min_less_iff_disj)

lemma lag_over:
  assumes "0 \<le> threshold"
  shows "threshold < AuthzOutboxLagSeconds w \<longleftrightarrow> (\<exists>r \<in> set (az_outbox w). lagging r \<and> threshold < az_now w - ax_created r)"
proof (cases "map ax_created (filter lagging (az_outbox w))")
  case Nil
  then show ?thesis using assms by (auto simp: AuthzOutboxLagSeconds_def filter_empty_conv)
next
  case (Cons c cs)
  then have "threshold < AuthzOutboxLagSeconds w \<longleftrightarrow> foldl min c cs < az_now w - threshold"
    by (auto simp: AuthzOutboxLagSeconds_def)
  also have "\<dots> \<longleftrightarrow> (\<exists>x \<in> set (map ax_created (filter lagging (az_outbox w))). x < az_now w - threshold)"
    unfolding Cons by (rule foldl_min_less)
  finally show ?thesis by (auto simp: less_diff_eq add.commute)
qed

text \<open>Only a completed row has a time of processing.\<close>

definition processed_ok :: "'t authz_world \<Rightarrow> bool" where
  "processed_ok w \<longleftrightarrow> (\<forall>r \<in> set (az_outbox w). ax_processed r \<noteq> None \<longrightarrow> ax_status r = Completed)"

lemma processed_ok_update:
  assumes "processed_ok w" "\<And>r. r \<in> set (az_outbox w) \<Longrightarrow> p r \<Longrightarrow> ax_processed (f r) \<noteq> None \<Longrightarrow> ax_status (f r) = Completed"
  shows "processed_ok (az_update p f w)"
  using assms by (auto simp: processed_ok_def update_where_def)

lemma processed_ok_calls [simp]: "processed_ok (w\<lparr>az_calls := n\<rparr>) = processed_ok w"
  by (simp add: processed_ok_def)

context tuple_store
begin

lemma item_processed:
  assumes "processOneItem env cfg w = Some ((fnd, err), w')" "run_inv env holds w" "processed_ok w" "ae_fga env = ops" "inj (ae_us env)"
  shows "processed_ok w'"
proof -
  have ok: "processed_ok w2 \<and> ax_processed item = None \<and> (\<forall>r \<in> set (az_outbox w2). ax_id r = ax_id item \<longrightarrow> r = item)"
    if "GetAndLockNextOutboxRow w = Inr item" "dispatchItem env item (w\<lparr>az_calls := n\<rparr>) = Some (r, w2)" for item n r w2
  proof -
    note sel = item_selected [OF that(1)]
    have "same_tables (w\<lparr>az_calls := n\<rparr>) w2"
      using dispatch_tracked [of env "w\<lparr>az_calls := n\<rparr>" item r w2] assms sel that(2) by simp
    then have "az_outbox w2 = az_outbox w" using same_tables_fields [of "w\<lparr>az_calls := n\<rparr>" w2] by simp
    then show ?thesis using assms(2,3) sel by (auto simp: processed_ok_def run_inv_def distinct_map inj_on_def)
  qed
  from assms(1) show ?thesis
  proof (cases rule: item_cases)
    case (none n)
    then show ?thesis using assms(3) by simp
  next
    case (completed item n m w2)
    then show ?thesis using ok [OF completed(3,4)] by (auto simp: MarkOutboxRowProcessed_def intro!: processed_ok_update)
  next
    case (unmarked item n m w2)
    then show ?thesis using ok [OF unmarked(3,4)] by simp
  next
    case (error item e n m w2 w3)
    note k = ok [OF error(3,4)]
    have "processed_ok (az_update (\<lambda>r. ax_id r = ax_id item) (az_retry_row b c now i) w2)" for b c now i
      using k by (intro processed_ok_update) (auto simp: az_retry_row_def)
    moreover have "processed_ok (MarkOutboxRowFailed (ax_id item) i' (az_update (\<lambda>r. ax_id r = ax_id item) (az_retry_row b c now i) w2))" for b c now i i'
      unfolding MarkOutboxRowFailed_def
      by (rule processed_ok_update) (use k calculation in \<open>auto simp: update_where_def az_retry_row_def\<close>)
    ultimately show ?thesis using error(5,6) k by (auto simp: after_error_def Let_def)
  qed
qed

lemma run_processed:
  assumes "authz_run env holds cfg w w'" "run_inv env holds w" "processed_ok w" "ae_fga env = ops" "inj (ae_us env)"
  shows "processed_ok w'"
  using assms(1)
proof (induction rule: authz_run.induct)
  case start
  show ?case by (rule assms(3))
next
  case (item w1 res w2)
  then show ?case using item_processed [of env cfg w1 "fst res" "snd res" w2] run_keeps_inv [OF item.hyps(1) assms(2,4,5)] assms(4,5) by simp
next
  case (reset w1)
  then show ?case
    unfolding ResetFailedOutboxItems_def by (intro processed_ok_update) (auto simp: processed_ok_def)
next
  case (change w1 s r w2)
  then show ?case by (auto simp: processed_ok_def change_def)
next
  case (time w1 n faults ids now)
  then show ?case by (simp add: processed_ok_def)
qed

end

text \<open>What a check sees of an entity: its tuples are right, or it waits in the outbox, for at most the threshold or failed.\<close>

definition recent_or_failed :: "micros \<Rightarrow> 't authz_world \<Rightarrow> authz_row \<Rightarrow> bool" where
  "recent_or_failed threshold w r \<longleftrightarrow>
     ax_status r = Failed \<or> (ax_status r = Pending \<or> ax_status r = Retrying) \<and> az_now w - ax_created r \<le> threshold"

lemma closed_recent:
  assumes "processed_ok w" "0 \<le> threshold" "\<not> threshold < AuthzOutboxLagSeconds w" "r \<in> set (az_outbox w)" "ax_status r \<noteq> Completed"
  shows "recent_or_failed threshold w r"
proof -
  have "ax_processed r = None" using assms(1,4,5) by (auto simp: processed_ok_def)
  then have "ax_status r = Pending \<or> ax_status r = Retrying \<Longrightarrow> az_now w - ax_created r \<le> threshold"
    using assms(3,4) unfolding lag_over [OF assms(2)] by (auto simp: lagging_def)
  then show ?thesis using assms(5) by (cases "ax_status r") (auto simp: recent_or_failed_def)
qed

section \<open>Properties\<close>



text \<open>The worker's iterations at given times.\<close>

fun attempts :: "'t authz_env \<Rightarrow> authz_cfg \<Rightarrow> micros list \<Rightarrow> 't authz_world \<Rightarrow> 't authz_world" where
  "attempts env cfg [] w = w"
| "attempts env cfg (t # ts) w =
     (case processOneItem env cfg (w\<lparr>az_now := t\<rparr>) of None \<Rightarrow> w | Some (res, w) \<Rightarrow> attempts env cfg ts w)"

text \<open>An admin was removed from an organization, and OpenFGA refuses three requests.\<close>

definition removed_world :: "mem_fga authz_world" where
  "removed_world = member_world [membership 2 ''admin'' ''accepted'' (Some 0)] [membership_event 12 2]
     \<lparr>mf_tuples = [member_tuple ''admin''], mf_errors = replicate 3 (Some (ErrNew ''down''))\<rparr>"

definition breaker_at :: "mem_fga authz_world list \<Rightarrow> breaker" where
  "breaker_at ws = breaker_Start (map (\<lambda>w. trip_check 5000000 (None, w)) ws) (NewBreaker 0)"


end
