(* ===== verification/KubeProxy.thy ===== *)
theory KubeProxy
  imports GardenReal Authz
begin

text \<open>
  The gateway of \<open>kube-api-proxy\<close>: which requests it forwards to a cluster, and with which credentials. The
  request parser (\<open>pkg/kubereq\<close>), the token checks (\<open>common/auth\<close>), the permission check (\<open>common/authz\<close>),
  the user half (\<open>pkg/useraccess\<close>) and the plugin half (\<open>pkg/pluginsa\<close>, \<open>pkg/gardener\<close>) of plugin requests,
  and the handlers (\<open>pkg/proxy\<close>). The JWT library, OpenFGA, the clients of client-go and the token cache are
  parameters.
\<close>

section \<open>Requests\<close>

text \<open>What the handlers read of an \<open>http.Request\<close>: \<open>hr_watch\<close> are the values of the query parameter, \<open>hr_auth\<close>
  and \<open>hr_cookie\<close> the headers (empty when absent), \<open>hr_console_cookie\<close> what \<open>r.Cookie\<close> finds under the name of
  the console's cookie.\<close>

record http_request =
  hr_method :: string
  hr_path :: string
  hr_watch :: "string list"
  hr_auth :: string
  hr_cookie :: string
  hr_console_cookie :: "string option"

record attributes =
  at_group :: string
  at_resource :: string
  at_subresource :: string
  at_name :: string
  at_namespace :: string
  at_verb :: string

definition trim_slash :: "string \<Rightarrow> string" where
  "trim_slash s = rev (dropWhile (\<lambda>c. c = CHR ''/'') (rev (dropWhile (\<lambda>c. c = CHR ''/'') s)))"

text \<open>Methods are ASCII tokens.\<close>

definition upper_ascii :: "char \<Rightarrow> char" where
  "upper_ascii c = (let n = of_char c :: nat in if 97 \<le> n \<and> n \<le> 122 then char_of (n - 32) else c)"

definition lower_ascii :: "char \<Rightarrow> char" where
  "lower_ascii c = (let n = of_char c :: nat in if 65 \<le> n \<and> n \<le> 90 then char_of (n + 32) else c)"

text \<open>\<open>strings.EqualFold(v, "false")\<close>: besides the cases of ASCII, the long s (bytes C5 BF) folds to an s.\<close>

fun fold_long_s :: "string \<Rightarrow> string" where
  "fold_long_s (a # b # cs) =
     (if a = CHR 0xC5 \<and> b = CHR 0xBF then CHR ''s'' # fold_long_s cs else a # fold_long_s (b # cs))"
| "fold_long_s cs = cs"

definition folds_to_false :: "string \<Rightarrow> bool" where
  "folds_to_false v \<longleftrightarrow> map lower_ascii (fold_long_s v) = ''false''"

definition inferVerb :: "http_request \<Rightarrow> bool \<Rightarrow> string" where
  "inferVerb r hasName =
     (let m = map upper_ascii (hr_method r)
      in if m = ''GET'' then
           (if hr_watch r \<noteq> [] \<and> hd (hr_watch r) \<noteq> ''0'' \<and> \<not> folds_to_false (hd (hr_watch r)) then ''watch''
            else if hasName then ''get'' else ''list'')
         else if m = ''POST'' then ''create''
         else if m = ''PUT'' then ''update''
         else if m = ''PATCH'' then ''patch''
         else if m = ''DELETE'' then (if hasName then ''delete'' else ''deletecollection'')
         else map lower_ascii (hr_method r))"

text \<open>The group and the index of the first element after the version.\<close>

definition parse_root :: "string \<Rightarrow> string list \<Rightarrow> gerr + string \<times> nat" where
  "parse_root path parts =
     (if parts ! 0 = ''api'' then Inr ('''', 2)
      else if parts ! 0 = ''apis'' then
        (if length parts < 4 \<or> parts ! 1 = '''' then Inl (ErrNew (''apis path missing group: '' @ go_quote path))
         else Inr (parts ! 1, 3))
      else Inl (ErrNew (''expected /api or /apis, got '' @ go_quote (parts ! 0))))"

definition namespace_scoped :: "string list \<Rightarrow> nat \<Rightarrow> bool" where
  "namespace_scoped parts i \<longleftrightarrow> parts ! i = ''namespaces'' \<and> i + 2 < length parts \<and>
     \<not> (i + 3 = length parts \<and> (parts ! (i + 2) = ''status'' \<or> parts ! (i + 2) = ''finalize''))"

definition Parse :: "http_request \<Rightarrow> gerr + attributes" where
  "Parse r =
     (let parts = split_slash [] (trim_slash (hr_path r))
      in if length parts < 3 then Inl (ErrNew (''path too short: '' @ go_quote (hr_path r)))
         else bind_sum (parse_root (hr_path r) parts) (\<lambda>(group, i0).
           let (ns, i) = (if namespace_scoped parts i0 then (parts ! (i0 + 1), i0 + 2) else ('''', i0))
           in if length parts \<le> i \<or> parts ! i = '''' then Inl (ErrNew (''missing resource: '' @ go_quote (hr_path r)))
              else let name = (if i + 1 < length parts then parts ! (i + 1) else '''');
                       sub = (if i + 2 < length parts then parts ! (i + 2) else '''')
                   in Inr \<lparr>at_group = group, at_resource = parts ! i, at_subresource = sub, at_name = name,
                        at_namespace = ns, at_verb = inferVerb r (name \<noteq> '''')\<rparr>))"

section \<open>Tokens\<close>

definition TokenTypeUser :: string where "TokenTypeUser = ''fundament-user''"
definition TokenTypePlugin :: string where "TokenTypePlugin = ''fundament-plugin''"
definition ConsoleIssuer :: string where "ConsoleIssuer = ''fundament-authn-api''"
definition ConsoleAuthCookieName :: string where "ConsoleAuthCookieName = ''fundament_auth''"

record jwt_claims =
  jc_subject :: string
  jc_audience :: "string list"
  jc_cluster :: string
  jc_installation :: string
  jc_installation_name :: string

record plugin_installation =
  pi_uid :: string
  pi_hash :: "gerr + string"

record kube_client =
  kc_review :: "string \<Rightarrow> string list \<Rightarrow> attributes \<Rightarrow> gerr + bool"
  kc_create_token :: "string \<Rightarrow> string \<Rightarrow> gerr + string"

text \<open>The server: \<open>px_jwt secret issuer token\<close> verifies a token (HS256 only, with an expiry that has not passed
  and this issuer), \<open>px_peek\<close> decodes it without verifying; \<open>px_check\<close> is OpenFGA's \<open>Check\<close> when a client is
  configured; \<open>px_tokens\<close> is the token cache (real mode); \<open>px_kubeconfig\<close> is \<open>GetAdminKubeconfig\<close>; \<open>px_stub\<close>
  says that the stubs of the pure mock mode stand in for the user and the plugin half.\<close>

record 'c proxy_env =
  px_secret :: string
  px_jwt :: "string \<Rightarrow> string \<Rightarrow> string \<Rightarrow> gerr + jwt_claims"
  px_peek :: "string \<Rightarrow> gerr + jwt_claims"
  px_check :: "fga_check option"
  px_tokens :: "(uuid \<Rightarrow> string \<Rightarrow> gerr + string) option"
  px_kubeconfig :: "string \<Rightarrow> gerr + string"
  px_restconfig :: "string \<Rightarrow> gerr + 'c"
  px_kubernetes :: "'c \<Rightarrow> gerr + kube_client"
  px_dynamic :: "'c \<Rightarrow> gerr + (string \<Rightarrow> gerr + plugin_installation)"
  px_stub :: bool
  px_assets :: bool

definition bearerToken :: "http_request \<Rightarrow> string" where
  "bearerToken r = (if take 7 (hr_auth r) = ''Bearer '' then drop 7 (hr_auth r) else '''')"

definition ParsePluginToken :: "'c proxy_env \<Rightarrow> (string \<Rightarrow> uuid option) \<Rightarrow> string \<Rightarrow> gerr + jwt_claims" where
  "ParsePluginToken env up token =
     (case px_jwt env (px_secret env) ConsoleIssuer token of
        Inl e \<Rightarrow> Inl (errorf ''invalid plugin token'' e)
      | Inr c \<Rightarrow>
          if TokenTypePlugin \<notin> set (jc_audience c) then Inl (ErrNew ''token audience does not contain the plugin audience'')
          else if up (jc_subject c) = None then Inl (ErrNew ''invalid user ID in token subject'')
          else Inr c)"

definition validateToken :: "'c proxy_env \<Rightarrow> (string \<Rightarrow> uuid option) \<Rightarrow> string \<Rightarrow> gerr + jwt_claims" where
  "validateToken env up token =
     (case px_jwt env (px_secret env) ConsoleIssuer token of
        Inl e \<Rightarrow> Inl (errorf ''invalid token'' e)
      | Inr c \<Rightarrow>
          if up (jc_subject c) = None then Inl (ErrNew ''invalid user ID in token subject'')
          else if TokenTypeUser \<notin> set (jc_audience c) then Inl (ErrNew ''token audience does not contain the expected one'')
          else Inr c)"

text \<open>Cookie headers are ASCII, so that the white space of \<open>strings.TrimSpace\<close> is that of ASCII.\<close>

fun split_semicolon :: "string \<Rightarrow> string \<Rightarrow> string list" where
  "split_semicolon acc [] = [rev acc]"
| "split_semicolon acc (c # cs) = (if c = CHR '';'' then rev acc # split_semicolon [] cs else split_semicolon (c # acc) cs)"

definition trim_space :: "string \<Rightarrow> string" where
  "trim_space s = (let sp = (\<lambda>c. c \<in> set [CHR '' '', CHR 0x09, CHR 0x0A, CHR 0x0B, CHR 0x0C, CHR 0x0D])
     in rev (dropWhile sp (rev (dropWhile sp s))))"

definition extractCookieToken :: "http_request \<Rightarrow> string" where
  "extractCookieToken r =
     (let p = ConsoleAuthCookieName @ ''=''
      in case find (\<lambda>part. take (length p) part = p) (map trim_space (split_semicolon [] (hr_cookie r))) of
           None \<Rightarrow> '''' | Some part \<Rightarrow> drop (length p) part)"

definition Validate :: "'c proxy_env \<Rightarrow> (string \<Rightarrow> uuid option) \<Rightarrow> http_request \<Rightarrow> gerr + jwt_claims" where
  "Validate env up r =
     (if 8 \<le> length (hr_auth r) \<and> take 7 (hr_auth r) = ''Bearer '' then validateToken env up (drop 7 (hr_auth r))
      else if extractCookieToken r = '''' then Inl (ErrNew ''no authorization header or auth cookie found'')
      else validateToken env up (extractCookieToken r))"

definition peekTokenType :: "'c proxy_env \<Rightarrow> http_request \<Rightarrow> string" where
  "peekTokenType env r =
     (let tok = bearerToken r
      in if tok = '''' then (case hr_console_cookie r of Some v \<Rightarrow> if v \<noteq> '''' then TokenTypeUser else '''' | None \<Rightarrow> '''')
         else case px_peek env tok of
                Inl e \<Rightarrow> ''''
              | Inr c \<Rightarrow> if TokenTypePlugin \<in> set (jc_audience c) then TokenTypePlugin else TokenTypeUser)"

section \<open>Permission checks\<close>

definition ErrSyncPending :: gerr where "ErrSyncPending = ErrNew ''service account sync pending''"
definition errPermissionDenied :: gerr where "errPermissionDenied = ErrNew ''permission denied''"

text \<open>The calls of the authorization client carry no context and no properties, so they do not look at memory.\<close>

definition can_view_cluster :: "'c proxy_env \<Rightarrow> (uuid \<Rightarrow> string) \<Rightarrow> uuid \<Rightarrow> uuid \<Rightarrow> gerr + bool" where
  "can_view_cluster env us user cluster = fst (CanViewCluster (px_check env) us user cluster empty_mem)"

definition checkPermission :: "'c proxy_env \<Rightarrow> (uuid \<Rightarrow> string) \<Rightarrow> uuid \<Rightarrow> uuid \<Rightarrow> gerr option" where
  "checkPermission env us user cluster =
     (case px_check env of
        None \<Rightarrow> None
      | Some check \<Rightarrow>
          (case fst (Evaluate check \<lparr>er_Subject = User us user, er_Resource = Cluster us cluster, er_Action = CanView,
                  er_Context = None\<rparr> empty_mem) of
             Inl e \<Rightarrow> Some (errorf ''authorization check failed'' e)
           | Inr d \<Rightarrow> if d then None else Some errPermissionDenied))"

text \<open>The clients for a cluster, from its admin kubeconfig.\<close>

definition shoot_client :: "'c proxy_env \<Rightarrow> string \<Rightarrow> gerr + kube_client" where
  "shoot_client env cluster =
     (case px_kubeconfig env cluster of
        Inl e \<Rightarrow> Inl (errorf ''get admin kubeconfig'' e)
      | Inr kc \<Rightarrow>
          (case px_restconfig env kc of
             Inl e \<Rightarrow> Inl (errorf ''create shoot client'' (errorf ''parse kubeconfig'' e))
           | Inr cfg \<Rightarrow>
               (case px_kubernetes env cfg of
                  Inl e \<Rightarrow> Inl (errorf ''create shoot client'' (errorf ''create kubernetes client'' e))
                | Inr cs \<Rightarrow> Inr cs)))"

definition SubjectAccessReview :: "'c proxy_env \<Rightarrow> string \<Rightarrow> string \<Rightarrow> string list \<Rightarrow> attributes \<Rightarrow> gerr + bool" where
  "SubjectAccessReview env cluster user groups attrs =
     bind_sum (shoot_client env cluster) (\<lambda>cs.
       case kc_review cs user groups attrs of
         Inl e \<Rightarrow> Inl (errorf ''create SubjectAccessReview'' e)
       | Inr allowed \<Rightarrow> Inr allowed)"

definition userSAPrefix :: string where "userSAPrefix = ''system:serviceaccount:fundament-system:fundament-''"

definition userSAGroups :: "string list" where
  "userSAGroups = [''system:serviceaccounts'', ''system:serviceaccounts:fundament-system'', ''system:authenticated'']"

definition UserAccessCheck :: "'c proxy_env \<Rightarrow> string \<Rightarrow> attributes \<Rightarrow> string \<Rightarrow> gerr + bool" where
  "UserAccessCheck env cluster attrs user =
     (if px_stub env then Inr True
      else case SubjectAccessReview env cluster (userSAPrefix @ user) userSAGroups attrs of
             Inl e \<Rightarrow> Inl (errorf (''SAR for user '' @ user @ '' on cluster '' @ cluster) e)
           | Inr allowed \<Rightarrow> Inr allowed)"

record sa_token =
  sa_Token :: string
  sa_PinnedDefinitionHash :: string

definition resolvePluginSA ::
  "(string \<Rightarrow> gerr + plugin_installation) \<Rightarrow> kube_client \<Rightarrow> string \<Rightarrow> string \<Rightarrow> gerr + sa_token" where
  "resolvePluginSA dyn kube installationID installationName =
     (if installationName = '''' then Inl (ErrNew (''token missing installation_name for installation '' @ go_quote installationID))
      else case dyn installationName of
             Inl e \<Rightarrow>
               if is_not_found e then Inl (errorf (''PluginInstallation '' @ go_quote installationName @ '' not found'') ErrSyncPending)
               else Inl (errorf (''get PluginInstallation '' @ go_quote installationName) e)
           | Inr cr \<Rightarrow>
               if pi_uid cr \<noteq> installationID
               then Inl (errorf (''PluginInstallation '' @ go_quote installationName @ '' uid '' @ go_quote (pi_uid cr) @
                 '' does not match token installation_id '' @ go_quote installationID) ErrSyncPending)
               else case pi_hash cr of
                      Inl e \<Rightarrow> Inl (errorf (''read spec.definitionRef.definitionHash from '' @ go_quote installationName) e)
                    | Inr hash \<Rightarrow>
                        let sa = ''plugin-'' @ installationName
                        in case kc_create_token kube sa sa of
                             Inl e \<Rightarrow>
                               if is_not_found e then Inl (errorf (''plugin SA '' @ sa @ ''/'' @ sa @ '' not found'') ErrSyncPending)
                               else Inl (errorf (''create token for plugin SA '' @ sa @ ''/'' @ sa) e)
                           | Inr token \<Rightarrow> Inr \<lparr>sa_Token = token, sa_PinnedDefinitionHash = hash\<rparr>)"

definition ResolvePluginSA :: "'c proxy_env \<Rightarrow> string \<Rightarrow> string \<Rightarrow> string \<Rightarrow> gerr + sa_token" where
  "ResolvePluginSA env cluster installationID installationName =
     (case px_kubeconfig env cluster of
        Inl e \<Rightarrow> Inl (errorf ''get admin kubeconfig'' e)
      | Inr kc \<Rightarrow>
          (case px_restconfig env kc of
             Inl e \<Rightarrow> Inl (errorf ''parse kubeconfig'' e)
           | Inr cfg \<Rightarrow>
               (case px_dynamic env cfg of
                  Inl e \<Rightarrow> Inl (errorf ''create dynamic client'' e)
                | Inr dyn \<Rightarrow>
                    (case px_kubernetes env cfg of
                       Inl e \<Rightarrow> Inl (errorf ''create shoot client'' e)
                     | Inr kube \<Rightarrow> resolvePluginSA dyn kube installationID installationName))))"

definition PluginSAResolve :: "'c proxy_env \<Rightarrow> string \<Rightarrow> string \<Rightarrow> string \<Rightarrow> gerr + sa_token" where
  "PluginSAResolve env cluster installationID installationName =
     (if px_stub env then Inr \<lparr>sa_Token = ''mock-plugin-sa-token'', sa_PinnedDefinitionHash = ''sha256:mock''\<rparr>
      else case ResolvePluginSA env cluster installationID installationName of
             Inl e \<Rightarrow> Inl (errorf (''resolve plugin SA for cluster '' @ cluster @ '' installation '' @ installationID) e)
           | Inr t \<Rightarrow> Inr t)"

section \<open>The handlers\<close>

record forward =
  fw_cluster :: string
  fw_token :: "string option"
  fw_request :: http_request

datatype proxy_result = HttpError nat string | Forwarded forward

text \<open>An audit line: who, for which installation, what was asked, the pinned definition and the decision.\<close>

record audit_line =
  au_user :: string
  au_installation :: string
  au_attrs :: "attributes option"
  au_pinned :: string
  au_decision :: string

definition audit :: "jwt_claims \<Rightarrow> attributes option \<Rightarrow> string \<Rightarrow> string \<Rightarrow> audit_line" where
  "audit c a pinned decision = \<lparr>au_user = jc_subject c, au_installation = jc_installation c, au_attrs = a,
     au_pinned = pinned, au_decision = decision\<rparr>"

definition serve ::
  "'c proxy_env \<Rightarrow> (uuid \<Rightarrow> string) \<Rightarrow> (string \<Rightarrow> uuid option) \<Rightarrow> http_request \<Rightarrow> string \<Rightarrow> audit_line list \<times> proxy_result" where
  "serve env us up r pathClusterID =
     (case ParsePluginToken env up (bearerToken r) of
        Inl e \<Rightarrow> ([], HttpError 401 ''unauthorized'')
      | Inr claims \<Rightarrow>
     (case up pathClusterID of
        None \<Rightarrow> ([audit claims None '''' ''error:bad-cluster-id''], HttpError 400 ''bad cluster id'')
      | Some cluster \<Rightarrow>
          if up (jc_cluster claims) \<noteq> Some cluster
          then ([audit claims None '''' ''denied:cluster-mismatch''], HttpError 403 ''cluster_id mismatch'')
          else
     (case up (jc_subject claims) of
        None \<Rightarrow> ([audit claims None '''' ''error:bad-subject''], HttpError 401 ''bad subject'')
      | Some user \<Rightarrow>
     (case can_view_cluster env us user cluster of
        Inl e \<Rightarrow> ([audit claims None '''' ''error:can-view''], HttpError 500 ''internal server error'')
      | Inr ok \<Rightarrow>
          if \<not> ok then ([audit claims None '''' ''denied:can-view''], HttpError 403 ''permission denied'')
          else
     (case Parse r of
        Inl e \<Rightarrow> ([audit claims None '''' ''error:unparseable-request''], HttpError 400 ''unparseable kube request'')
      | Inr attrs \<Rightarrow>
     (case UserAccessCheck env pathClusterID attrs (jc_subject claims) of
        Inl e \<Rightarrow> ([audit claims (Some attrs) '''' ''error:user-sar''], HttpError 500 ''internal server error'')
      | Inr allowed \<Rightarrow>
          if \<not> allowed then ([audit claims (Some attrs) '''' ''denied:user-sar''], HttpError 403 ''forbidden'')
          else
     (case PluginSAResolve env pathClusterID (jc_installation claims) (jc_installation_name claims) of
        Inl e \<Rightarrow> ([audit claims (Some attrs) '''' ''error:plugin-sa''], HttpError 503 ''service unavailable'')
      | Inr sa \<Rightarrow>
          ([audit claims (Some attrs) (sa_PinnedDefinitionHash sa) ''allowed''],
           Forwarded \<lparr>fw_cluster = us cluster, fw_token = Some (sa_Token sa), fw_request = r\<rparr>))))))))"

text \<open>\<open>None\<close> is a panic: \<open>claims.UserID()\<close> parses the subject and panics when it is no UUID.\<close>

definition handleUserClusterProxy ::
  "'c proxy_env \<Rightarrow> (uuid \<Rightarrow> string) \<Rightarrow> (string \<Rightarrow> uuid option) \<Rightarrow> http_request \<Rightarrow> uuid \<Rightarrow> proxy_result option" where
  "handleUserClusterProxy env us up r cluster =
     (case Validate env up r of
        Inl e \<Rightarrow> Some (HttpError 401 ''unauthorized'')
      | Inr claims \<Rightarrow>
     (case up (jc_subject claims) of
        None \<Rightarrow> None
      | Some user \<Rightarrow>
     (case checkPermission env us user cluster of
        Some e \<Rightarrow>
          if errors_is errPermissionDenied e then Some (HttpError 403 ''permission denied'')
          else Some (HttpError 500 ''internal server error'')
      | None \<Rightarrow>
     (case px_tokens env of
        None \<Rightarrow> Some (Forwarded \<lparr>fw_cluster = us cluster, fw_token = None, fw_request = r\<rparr>)
      | Some GetToken \<Rightarrow>
          (case GetToken user (us cluster) of
             Inl e \<Rightarrow>
               if errors_is ErrSyncPending e
               then Some (HttpError 503 ''service account sync pending, try again shortly'')
               else Some (HttpError 500 ''internal server error'')
           | Inr token \<Rightarrow> Some (Forwarded \<lparr>fw_cluster = us cluster, fw_token = Some token, fw_request = r\<rparr>))))))"

definition allowedPathRoots :: "string list" where
  "allowedPathRoots = [''api'', ''apis'', ''openapi'', ''version'']"

definition isAllowedPath :: "string \<Rightarrow> bool" where
  "isAllowedPath rawPath \<longleftrightarrow> takeWhile (\<lambda>c. c \<noteq> CHR ''/'') rawPath \<in> set allowedPathRoots"

definition after_prefix :: "string \<Rightarrow> string \<Rightarrow> string option" where
  "after_prefix p s = (if take (length p) s = p then Some (drop (length p) s) else None)"

definition pluginConsoleAsset :: "string \<Rightarrow> (string \<times> string) option" where
  "pluginConsoleAsset path =
     (case after_prefix ''/api/v1/namespaces/plugin-'' path of
        None \<Rightarrow> None
      | Some afterNS \<Rightarrow>
          let pluginName = takeWhile (\<lambda>c. c \<noteq> CHR ''/'') afterNS; rest = dropWhile (\<lambda>c. c \<noteq> CHR ''/'') afterNS
          in if rest = '''' \<or> pluginName = '''' then None
             else case after_prefix ''/services/http:plugin-'' rest of
                    None \<Rightarrow> None
                  | Some rest \<Rightarrow> map_option (\<lambda>asset. (pluginName, asset)) (after_prefix (pluginName @ '':8080/proxy/console/'') rest))"

definition IsPluginConsoleAssetPath :: "string \<Rightarrow> bool" where
  "IsPluginConsoleAssetPath path \<longleftrightarrow> pluginConsoleAsset path \<noteq> None"

definition handleClusterProxy ::
  "'c proxy_env \<Rightarrow> (uuid \<Rightarrow> string) \<Rightarrow> (string \<Rightarrow> uuid option) \<Rightarrow> string \<Rightarrow> string \<Rightarrow> http_request \<Rightarrow>
   (audit_line list \<times> proxy_result) option" where
  "handleClusterProxy env us up clusterIDStr path r =
     (case up clusterIDStr of
        None \<Rightarrow> Some ([], HttpError 400 ''invalid cluster ID'')
      | Some clusterID \<Rightarrow>
          if \<not> isAllowedPath path then Some ([], HttpError 404 ''not found'')
          else let r = r\<lparr>hr_path := ''/'' @ path\<rparr>
               in if px_assets env \<and> IsPluginConsoleAssetPath (hr_path r)
                  then Some ([], Forwarded \<lparr>fw_cluster = us clusterID, fw_token = None, fw_request = r\<rparr>)
                  else if peekTokenType env r = TokenTypePlugin then Some (serve env us up r (us clusterID))
                  else map_option (\<lambda>res. ([], res)) (handleUserClusterProxy env us up r clusterID))"

text \<open>The reverse proxy's director, on the two headers that carry credentials: the client's are dropped, and
  the service account's token is set when there is one.\<close>

definition director :: "forward \<Rightarrow> http_request" where
  "director f =
     (let req = (fw_request f)\<lparr>hr_auth := '''', hr_cookie := '''', hr_console_cookie := None\<rparr>
      in case fw_token f of
           None \<Rightarrow> req
         | Some t \<Rightarrow> if t = '''' then req else req\<lparr>hr_auth := ''Bearer '' @ t\<rparr>)"

section \<open>Lemmas\<close>

text \<open>A verified token of a type.\<close>

definition verified :: "'c proxy_env \<Rightarrow> string \<Rightarrow> string \<Rightarrow> jwt_claims \<Rightarrow> bool" where
  "verified env ty token c \<longleftrightarrow> px_jwt env (px_secret env) ConsoleIssuer token = Inr c \<and> ty \<in> set (jc_audience c)"

lemma ParsePluginToken_Inr:
  "ParsePluginToken env up token = Inr c \<Longrightarrow> verified env TokenTypePlugin token c \<and> up (jc_subject c) \<noteq> None"
  by (auto simp: ParsePluginToken_def verified_def split: sum.splits if_splits)

lemma Validate_Inr:
  "Validate env up r = Inr c \<Longrightarrow> \<exists>token. verified env TokenTypeUser token c \<and> up (jc_subject c) \<noteq> None"
  by (auto simp: Validate_def validateToken_def verified_def split: sum.splits if_splits)

lemma bearerToken_path [simp]: "bearerToken (r\<lparr>hr_path := p\<rparr>) = bearerToken r"
  by (simp add: bearerToken_def)

lemma peek_bearer:
  assumes "peekTokenType env r = TokenTypePlugin"
  shows "hr_auth r = ''Bearer '' @ bearerToken r"
proof -
  have "bearerToken r \<noteq> ''''"
    using assms by (auto simp: peekTokenType_def TokenTypePlugin_def TokenTypeUser_def split: option.splits if_splits)
  then show ?thesis by (metis append_take_drop_id bearerToken_def)
qed

text \<open>The installation a token was issued for is the one that stands on the cluster.\<close>

definition installed :: "'c proxy_env \<Rightarrow> string \<Rightarrow> jwt_claims \<Rightarrow> bool" where
  "installed env cluster c \<longleftrightarrow> (\<exists>kc cfg dyn cr. px_kubeconfig env cluster = Inr kc \<and> px_restconfig env kc = Inr cfg \<and>
     px_dynamic env cfg = Inr dyn \<and> dyn (jc_installation_name c) = Inr cr \<and> pi_uid cr = jc_installation c)"

lemma PluginSAResolve_installed:
  "PluginSAResolve env cluster (jc_installation c) (jc_installation_name c) = Inr sa \<Longrightarrow> px_stub env \<or> installed env cluster c"
  by (auto simp: PluginSAResolve_def ResolvePluginSA_def resolvePluginSA_def installed_def split: sum.splits if_splits)

lemma checkPermission_None:
  "checkPermission env us user cluster = None \<Longrightarrow> px_check env = None \<or> can_view_cluster env us user cluster = Inr True"
  by (auto simp: checkPermission_def can_view_cluster_def CanViewCluster_def split_beta split: option.splits sum.splits if_splits)

text \<open>What the plugin gateway has established when it forwards.\<close>

definition plugin_allowed ::
  "'c proxy_env \<Rightarrow> (uuid \<Rightarrow> string) \<Rightarrow> (string \<Rightarrow> uuid option) \<Rightarrow> uuid \<Rightarrow> http_request \<Rightarrow> jwt_claims \<Rightarrow> attributes \<Rightarrow> sa_token \<Rightarrow> bool" where
  "plugin_allowed env us up cluster r c attrs sa \<longleftrightarrow>
     verified env TokenTypePlugin (bearerToken r) c \<and> up (jc_cluster c) = Some cluster \<and>
     (\<exists>user. up (jc_subject c) = Some user \<and> can_view_cluster env us user cluster = Inr True) \<and>
     Parse r = Inr attrs \<and> UserAccessCheck env (us cluster) attrs (jc_subject c) = Inr True \<and>
     PluginSAResolve env (us cluster) (jc_installation c) (jc_installation_name c) = Inr sa"

lemma serve_Forwarded:
  assumes "serve env us up r (us cluster) = (log, Forwarded f)" "up (us cluster) = Some cluster"
  shows "\<exists>c attrs sa. plugin_allowed env us up cluster r c attrs sa \<and> f = \<lparr>fw_cluster = us cluster, fw_token = Some (sa_Token sa), fw_request = r\<rparr> \<and>
    log = [audit c (Some attrs) (sa_PinnedDefinitionHash sa) ''allowed'']"
proof -
  obtain c where c: "ParsePluginToken env up (bearerToken r) = Inr c" using assms(1) by (auto simp: serve_def split: sum.splits)
  have cl: "up (jc_cluster c) = Some cluster" using assms c by (auto simp: serve_def split: if_splits)
  obtain user where u: "up (jc_subject c) = Some user" using ParsePluginToken_Inr [OF c] by blast
  have v: "can_view_cluster env us user cluster = Inr True"
    using assms c cl u by (auto simp: serve_def split: sum.splits if_splits)
  obtain attrs where a: "Parse r = Inr attrs" using assms c cl u v by (auto simp: serve_def split: sum.splits)
  have s: "UserAccessCheck env (us cluster) attrs (jc_subject c) = Inr True"
    using assms c cl u v a by (auto simp: serve_def split: sum.splits if_splits)
  obtain sa where sa: "PluginSAResolve env (us cluster) (jc_installation c) (jc_installation_name c) = Inr sa"
    using assms c cl u v a s by (auto simp: serve_def split: sum.splits)
  have "plugin_allowed env us up cluster r c attrs sa"
    using ParsePluginToken_Inr [OF c] cl u v a s sa by (auto simp: plugin_allowed_def)
  moreover have "f = \<lparr>fw_cluster = us cluster, fw_token = Some (sa_Token sa), fw_request = r\<rparr>"
      "log = [audit c (Some attrs) (sa_PinnedDefinitionHash sa) ''allowed'']"
    using assms c cl u v a s sa by (auto simp: serve_def)
  ultimately show ?thesis by blast
qed

lemma handleUser_Forwarded:
  assumes "handleUserClusterProxy env us up r cluster = Some (Forwarded f)"
  shows "\<exists>token c user. verified env TokenTypeUser token c \<and> up (jc_subject c) = Some user \<and>
    (px_check env = None \<or> can_view_cluster env us user cluster = Inr True) \<and>
    (px_tokens env = None \<and> fw_token f = None \<or> (\<exists>get t. px_tokens env = Some get \<and> get user (us cluster) = Inr t \<and> fw_token f = Some t)) \<and>
    fw_cluster f = us cluster \<and> fw_request f = r"
proof -
  obtain c where c: "Validate env up r = Inr c" using assms by (auto simp: handleUserClusterProxy_def split: sum.splits)
  from Validate_Inr [OF c] obtain token user where t: "verified env TokenTypeUser token c" "up (jc_subject c) = Some user" by blast
  have p: "checkPermission env us user cluster = None"
    using assms c t by (auto simp: handleUserClusterProxy_def split: option.splits if_splits)
  show ?thesis
    using assms c t p checkPermission_None [OF p]
    by (intro exI [of _ token] exI [of _ c] exI [of _ user])
      (auto simp: handleUserClusterProxy_def split: option.splits sum.splits if_splits)
qed

lemma handleUser_no_panic: "handleUserClusterProxy env us up r cluster \<noteq> None"
  using Validate_Inr by (fastforce simp: handleUserClusterProxy_def split: sum.splits option.splits)

section \<open>Properties\<close>


text \<open>A plugin request to list the pods of a namespace, for a user with access.\<close>

definition sample_claims :: jwt_claims where
  "sample_claims = \<lparr>jc_subject = dec_us 7, jc_audience = [''fundament-plugin''], jc_cluster = dec_us 2, jc_installation = ''uid-1'',
     jc_installation_name = ''grafana''\<rparr>"

definition sample_proxy :: "unit proxy_env" where
  "sample_proxy = \<lparr>px_secret = ''s'', px_jwt = \<lambda>secret issuer token. if token = ''tok'' then Inr sample_claims else Inl (ErrNew ''bad signature''),
     px_peek = \<lambda>token. Inr sample_claims, px_check = Some (\<lambda>u a c ctx. Inr (Some True)), px_tokens = Some (\<lambda>u c. Inr ''sa''),
     px_kubeconfig = \<lambda>c. Inr ''kc'', px_restconfig = \<lambda>k. Inr (),
     px_kubernetes = \<lambda>_. Inr \<lparr>kc_review = \<lambda>u g a. Inr (at_resource a = ''pods''), kc_create_token = \<lambda>ns n. Inr (''token-of-'' @ n)\<rparr>,
     px_dynamic = \<lambda>_. Inr (\<lambda>n. Inr \<lparr>pi_uid = ''uid-1'', pi_hash = Inr ''h''\<rparr>), px_stub = False, px_assets = False\<rparr>"

definition sample_http :: http_request where
  "sample_http = \<lparr>hr_method = ''GET'', hr_path = '''', hr_watch = [], hr_auth = ''Bearer tok'', hr_cookie = ''x=y'', hr_console_cookie = None\<rparr>"

lemma sample_gateway:
  "handleClusterProxy sample_proxy dec_us dec_up (dec_us 2) ''api/v1/namespaces/shop/pods'' sample_http =
     Some ([audit sample_claims (Some \<lparr>at_group = '''', at_resource = ''pods'', at_subresource = '''', at_name = '''',
          at_namespace = ''shop'', at_verb = ''list''\<rparr>) ''h'' ''allowed''],
       Forwarded \<lparr>fw_cluster = dec_us 2, fw_token = Some ''token-of-plugin-grafana'',
         fw_request = sample_http\<lparr>hr_path := ''/api/v1/namespaces/shop/pods''\<rparr>\<rparr>)"
  by code_simp


end
