(* ===== verification/Caches.thy ===== *)
theory Caches
  imports KubeProxy
begin

text \<open>
  The two credential caches of the proxies: \<open>AdminKubeconfigCache\<close> of \<open>common/gardener/access.go\<close> (with the Gardener
  lookups of \<open>common/gardener/client.go\<close>) and the token cache of \<open>kube-api-proxy/pkg/token/cache.go\<close> (with
  \<open>RequestSAToken\<close> of \<open>pkg/gardener/client.go\<close>). Both sit on \<open>ttlcache\<close>, whose contract is the locale \<open>ttl_cache\<close>.
  \<open>singleflight\<close> lets concurrent callers share one fetch; a fetch is one step here. Times are nanoseconds.
\<close>

type_synonym nanos = int

section \<open>Durations scaled by a float64\<close>

text \<open>\<open>time.Duration(float64(d) * ratio)\<close>: the duration and the product are rounded to 53 bits (ties to even), the result
  is cut off. The ratio is a double, \<open>mant / 2 ^ 53\<close>.\<close>

fun nbits :: "nat \<Rightarrow> nat" where
  "nbits n = (if n = 0 then 0 else Suc (nbits (n div 2)))"

declare nbits.simps [simp del]

definition round53 :: "nat \<Rightarrow> nat" where
  "round53 n =
     (let s = nbits n - 53; q = n div 2 ^ s; r = n mod 2 ^ s
      in (if 2 ^ s < 2 * r \<or> (2 ^ s = 2 * r \<and> odd q) then Suc q else q) * 2 ^ s)"

definition scaled :: "nat \<Rightarrow> nanos \<Rightarrow> nanos" where
  "scaled mant d = sgn d * int (round53 (round53 (nat \<bar>d\<bar>) * mant) div 2 ^ 53)"

text \<open>The doubles nearest to 0.8 and 0.7.\<close>

definition refreshRatio :: nat where "refreshRatio = 7205759403792794"
definition accessRefreshRatio :: nat where "accessRefreshRatio = 6305039478318694"

section \<open>The TTL cache\<close>

record ('k, 'v, 'c) ttl_ops =
  tc_Get :: "'k \<Rightarrow> nanos \<Rightarrow> 'c \<Rightarrow> 'v option \<times> 'c"
  tc_Set :: "'k \<Rightarrow> 'v \<Rightarrow> nanos \<Rightarrow> nanos \<Rightarrow> 'c \<Rightarrow> 'c"

text \<open>The documented behaviour of \<open>ttlcache\<close>: an entry has a value, a time to live and an expiry; a time to live that is not
  positive never expires (the value -2 means the previous one and is left out); a hit moves the expiry to a full time to
  live from now, unless the cache is made with \<open>WithDisableTouchOnHit\<close>; expired entries are not returned and may be
  evicted.\<close>

definition unexpired :: "nanos \<Rightarrow> 'v \<times> nanos \<times> nanos \<Rightarrow> bool" where
  "unexpired now = (\<lambda>(v, ttl, exp). ttl \<le> 0 \<or> now \<le> exp)"

locale ttl_cache =
  fixes ops :: "('k, 'v, 'c) ttl_ops" and touch :: bool and entry :: "'c \<Rightarrow> 'k \<Rightarrow> ('v \<times> nanos \<times> nanos) option"
  assumes get_hit: "entry c k = Some (v, ttl, exp) \<Longrightarrow> unexpired now (v, ttl, exp) \<Longrightarrow>
      fst (tc_Get ops k now c) = Some v \<and>
      entry (snd (tc_Get ops k now c)) k = Some (v, ttl, if touch \<and> 0 < ttl then now + ttl else exp)"
    and get_miss: "entry c k = None \<or> entry c k = Some e \<and> \<not> unexpired now e \<Longrightarrow> fst (tc_Get ops k now c) = None"
    and get_other: "k' \<noteq> k \<or> entry c k' = None \<or> entry c k' = Some e \<and> \<not> unexpired now e \<Longrightarrow>
      entry (snd (tc_Get ops k now c)) k' = entry c k' \<or>
      (\<exists>e. entry c k' = Some e \<and> \<not> unexpired now e \<and> entry (snd (tc_Get ops k now c)) k' = None)"
    and set_entry: "ttl \<noteq> - 2 \<Longrightarrow> entry (tc_Set ops k v ttl now c) k' = (if k' = k then Some (v, ttl, now + ttl) else entry c k')"

section \<open>Admin kubeconfigs (common/gardener)\<close>

record go_url =
  url_base :: string
  url_path :: string
  url_query :: string

record 'r shoot_access_entry =
  sa_Host :: go_url
  sa_Transport :: 'r
  sa_RESTConfig :: 'r
  sa_OrganizationID :: string
  sa_refreshAt :: nanos

record garden_shoot =
  gs_name :: string
  gs_labels :: "string \<rightharpoonup> string"

text \<open>The Gardener API and client-go at a moment in time: the Shoots under a cluster's label, the admin kubeconfig a Shoot
  gets (with the requested expiration, when positive), what client-go makes of a kubeconfig, and how a time is printed in
  the time zone of the process.\<close>

record 'r gardener_api =
  ga_list :: "nanos \<Rightarrow> string \<Rightarrow> gerr + garden_shoot list"
  ga_adminkubeconfig :: "nanos \<Rightarrow> garden_shoot \<Rightarrow> int option \<Rightarrow> gerr + admin_kubeconfig"
  ga_parse :: "string \<Rightarrow> gerr + 'r"
  ga_restconfig :: "'r \<Rightarrow> gerr + 'r"
  ga_transport :: "'r \<Rightarrow> gerr + 'r"
  ga_host :: "'r \<Rightarrow> gerr + go_url"
  ga_time :: "nanos \<Rightarrow> string"

definition access_FindShoot :: "'r gardener_api \<Rightarrow> nanos \<Rightarrow> string \<Rightarrow> gerr + garden_shoot" where
  "access_FindShoot g now clusterID =
     (case ga_list g now clusterID of
        Inl e \<Rightarrow> Inl (errorf (''list shoots for cluster '' @ clusterID) e)
      | Inr items \<Rightarrow>
          (case items of
             [] \<Rightarrow> Inl (ErrNew (''no shoot found for cluster '' @ clusterID))
           | [shoot] \<Rightarrow> Inr shoot
           | _ \<Rightarrow> Inl (ErrNew (''found '' @ nat_str (length items) @ '' shoots labeled with cluster '' @ clusterID @ '', expected exactly one''))))"

definition AdminKubeconfigForShoot :: "'r gardener_api \<Rightarrow> nanos \<Rightarrow> garden_shoot \<Rightarrow> int \<Rightarrow> gerr + admin_kubeconfig" where
  "AdminKubeconfigForShoot g now shoot expirationSeconds =
     (case ga_adminkubeconfig g now shoot (if 0 < expirationSeconds then Some expirationSeconds else None) of
        Inl e \<Rightarrow> Inl (errorf (''request admin kubeconfig for shoot '' @ gs_name shoot) e)
      | Inr kc \<Rightarrow> Inr kc)"

definition access_GetAdminKubeconfig :: "'r gardener_api \<Rightarrow> nanos \<Rightarrow> string \<Rightarrow> int \<Rightarrow> gerr + admin_kubeconfig" where
  "access_GetAdminKubeconfig g now clusterID expirationSeconds =
     bind_sum (access_FindShoot g now clusterID) (\<lambda>shoot. AdminKubeconfigForShoot g now shoot expirationSeconds)"

definition accessFromKubeconfig :: "'r gardener_api \<Rightarrow> string \<Rightarrow> gerr + 'r shoot_access_entry" where
  "accessFromKubeconfig g kubeconfig =
     (case ga_parse g kubeconfig of
        Inl e \<Rightarrow> Inl (errorf ''parse kubeconfig'' e)
      | Inr cc \<Rightarrow>
          (case ga_restconfig g cc of
             Inl e \<Rightarrow> Inl (errorf ''build rest config'' e)
           | Inr cfg \<Rightarrow>
               (case ga_transport g cfg of
                  Inl e \<Rightarrow> Inl (errorf ''build transport'' e)
                | Inr transport \<Rightarrow>
                    (case ga_host g cfg of
                       Inl e \<Rightarrow> Inl (errorf ''parse kubeconfig host'' e)
                     | Inr host \<Rightarrow> Inr \<lparr>sa_Host = host\<lparr>url_path := '''', url_query := ''''\<rparr>, sa_Transport = transport, sa_RESTConfig = cfg,
                         sa_OrganizationID = '''', sa_refreshAt = 0\<rparr>))))"

text \<open>A fetch reads the clock four times: when it asks Gardener (\<open>t0\<close>), for the time to live (\<open>t1\<close>), for the time to
  refresh (\<open>t2\<close>), and inside \<open>Set\<close> (\<open>t3\<close>). The zero time stands for \<open>refreshAt\<close> before it is set.\<close>

record fetch_times =
  ft_0 :: nanos
  ft_1 :: nanos
  ft_2 :: nanos
  ft_3 :: nanos

definition access_fetch ::
  "(string, 'r shoot_access_entry, 'c) ttl_ops \<Rightarrow> 'r gardener_api \<Rightarrow> string \<Rightarrow> fetch_times \<Rightarrow> 'c \<Rightarrow> (gerr + 'r shoot_access_entry) \<times> 'c" where
  "access_fetch ops g clusterID ft c =
     (case access_FindShoot g (ft_0 ft) clusterID of
        Inl e \<Rightarrow> (Inl (errorf ''find shoot'' e), c)
      | Inr shoot \<Rightarrow>
     (case AdminKubeconfigForShoot g (ft_0 ft) shoot 0 of
        Inl e \<Rightarrow> (Inl (errorf (''admin kubeconfig for shoot '' @ gs_name shoot) e), c)
      | Inr adminKC \<Rightarrow>
     (case accessFromKubeconfig g (ak_kubeconfig adminKC) of
        Inl e \<Rightarrow> (Inl e, c)
      | Inr access \<Rightarrow>
          let ttl = ak_expires_at adminKC - ft_1 ft
          in if ttl \<le> 0
             then (Inl (ErrNew (''admin kubeconfig for cluster '' @ clusterID @ '' already expired at '' @ ga_time g (ak_expires_at adminKC))), c)
             else let access = access\<lparr>sa_OrganizationID := (case gs_labels shoot LabelOrganizationID of None \<Rightarrow> '''' | Some l \<Rightarrow> l),
                        sa_refreshAt := ft_2 ft + scaled accessRefreshRatio ttl\<rparr>
                  in (Inr access, tc_Set ops clusterID access ttl (ft_3 ft) c))))"

record 'c access_cache_state =
  ac_entries :: 'c
  ac_refreshing :: "string list"

text \<open>\<open>fetchAndCache\<close>: when the caller's context ends first it returns with an error, and the shared fetch goes on.\<close>

definition access_fetchAndCache ::
  "(string, 'r shoot_access_entry, 'c) ttl_ops \<Rightarrow> 'r gardener_api \<Rightarrow> string \<Rightarrow> fetch_times \<Rightarrow> gerr option \<Rightarrow> 'c access_cache_state \<Rightarrow>
   (gerr + 'r shoot_access_entry) \<times> 'c access_cache_state" where
  "access_fetchAndCache ops g clusterID ft done st =
     (case access_fetch ops g clusterID ft (ac_entries st) of
        (res, c) \<Rightarrow>
          (case done of
             Some e \<Rightarrow> Inl (errorf (''shoot access for cluster '' @ clusterID) e)
           | None \<Rightarrow> (case res of Inl e \<Rightarrow> Inl (errorf (''shoot access for cluster '' @ clusterID) e) | Inr a \<Rightarrow> Inr a),
           st\<lparr>ac_entries := c\<rparr>))"

text \<open>\<open>AccessFor\<close> at time \<open>now\<close>; the flag says that a background refresh was started.\<close>

definition AccessFor ::
  "(string, 'r shoot_access_entry, 'c) ttl_ops \<Rightarrow> 'r gardener_api \<Rightarrow> string \<Rightarrow> nanos \<Rightarrow> fetch_times \<Rightarrow> gerr option \<Rightarrow> 'c access_cache_state \<Rightarrow>
   (gerr + 'r shoot_access_entry) \<times> bool \<times> 'c access_cache_state" where
  "AccessFor ops g clusterID now ft done st =
     (case tc_Get ops clusterID now (ac_entries st) of
        (Some access, c) \<Rightarrow>
          (if sa_refreshAt access < now \<and> clusterID \<notin> set (ac_refreshing st)
           then (Inr access, True, st\<lparr>ac_entries := c, ac_refreshing := clusterID # ac_refreshing st\<rparr>)
           else (Inr access, False, st\<lparr>ac_entries := c\<rparr>))
      | (None, c) \<Rightarrow>
          (case access_fetchAndCache ops g clusterID ft done (st\<lparr>ac_entries := c\<rparr>) of (res, st) \<Rightarrow> (res, False, st)))"

text \<open>The background refresh: its error is logged, and the cluster may be refreshed again.\<close>

definition access_refresh ::
  "(string, 'r shoot_access_entry, 'c) ttl_ops \<Rightarrow> 'r gardener_api \<Rightarrow> string \<Rightarrow> fetch_times \<Rightarrow> 'c access_cache_state \<Rightarrow> 'c access_cache_state" where
  "access_refresh ops g clusterID ft st =
     (let st = snd (access_fetchAndCache ops g clusterID ft None st)
      in st\<lparr>ac_refreshing := removeAll clusterID (ac_refreshing st)\<rparr>)"

section \<open>Service account tokens (kube-api-proxy)\<close>

definition saTokenExpiry :: int where "saTokenExpiry = 900"
definition fundamentSystemNamespace :: string where "fundamentSystemNamespace = ''fundament-system''"

record SAToken =
  st_Token :: string
  st_ExpiresAt :: nanos

text \<open>\<open>CreateToken\<close> of the clientset made from a kubeconfig: namespace, name and requested lifetime.\<close>

record 'r token_api =
  ta_gardener :: "'r gardener_api"
  ta_clientset :: "string \<Rightarrow> gerr + (nanos \<Rightarrow> string \<Rightarrow> string \<Rightarrow> int \<Rightarrow> gerr + SAToken)"

definition RequestSAToken :: "'r token_api \<Rightarrow> (uuid \<Rightarrow> string) \<Rightarrow> nanos \<Rightarrow> string \<Rightarrow> uuid \<Rightarrow> gerr + SAToken" where
  "RequestSAToken ta us now clusterID userID =
     (case access_GetAdminKubeconfig (ta_gardener ta) now clusterID 0 of
        Inl e \<Rightarrow> Inl (errorf ''get admin kubeconfig'' e)
      | Inr kc \<Rightarrow>
          (case ta_clientset ta (ak_kubeconfig kc) of
             Inl e \<Rightarrow> Inl (errorf ''create shoot client'' e)
           | Inr create \<Rightarrow>
               let saName = ''fundament-'' @ us userID
               in case create now fundamentSystemNamespace saName saTokenExpiry of
                    Inl e \<Rightarrow>
                      if is_not_found e then Inl (errorf (''service account '' @ saName @ '' not found'') ErrSyncPending)
                      else Inl (errorf (''create token for SA '' @ saName) e)
                  | Inr tok \<Rightarrow> Inr tok))"

record cachedToken =
  ct_token :: string
  ct_issuedAt :: nanos
  ct_ttl :: nanos

definition shouldRefresh :: "nanos \<Rightarrow> cachedToken \<Rightarrow> bool" where
  "shouldRefresh now ct \<longleftrightarrow> ct_issuedAt ct + scaled refreshRatio (ct_ttl ct) < now"

type_synonym token_key = "uuid \<times> string"

text \<open>\<open>t0\<close> is when the token is asked for, \<open>t1\<close> the clock read afterwards, \<open>t2\<close> the clock inside \<open>Set\<close>.\<close>

definition requestToken ::
  "(token_key, cachedToken, 'c) ttl_ops \<Rightarrow> 'r token_api \<Rightarrow> (uuid \<Rightarrow> string) \<Rightarrow> token_key \<Rightarrow> nanos \<Rightarrow> nanos \<Rightarrow> nanos \<Rightarrow> 'c \<Rightarrow> (gerr + string) \<times> 'c" where
  "requestToken ops ta us key t0 t1 t2 c =
     (case RequestSAToken ta us t0 (snd key) (fst key) of
        Inl e \<Rightarrow> (Inl (errorf ''request SA token'' e), c)
      | Inr saToken \<Rightarrow>
          let ttl = st_ExpiresAt saToken - t1;
              ct = \<lparr>ct_token = st_Token saToken, ct_issuedAt = t1, ct_ttl = ttl\<rparr>
          in (Inr (ct_token ct), tc_Set ops key ct ttl t2 c))"

definition token_fetchAndCache ::
  "(token_key, cachedToken, 'c) ttl_ops \<Rightarrow> 'r token_api \<Rightarrow> (uuid \<Rightarrow> string) \<Rightarrow> token_key \<Rightarrow> nanos \<Rightarrow> nanos \<Rightarrow> nanos \<Rightarrow> 'c \<Rightarrow> (gerr + string) \<times> 'c" where
  "token_fetchAndCache ops ta us key t0 t1 t2 c =
     (case requestToken ops ta us key t0 t1 t2 c of
        (Inl e, c) \<Rightarrow> (Inl (errorf (''fetch token for '' @ us (fst key) @ ''/'' @ snd key) e), c)
      | (Inr t, c) \<Rightarrow> (Inr t, c))"

text \<open>The background refresh logs its error.\<close>

definition token_refresh ::
  "(token_key, cachedToken, 'c) ttl_ops \<Rightarrow> 'r token_api \<Rightarrow> (uuid \<Rightarrow> string) \<Rightarrow> token_key \<Rightarrow> nanos \<Rightarrow> nanos \<Rightarrow> nanos \<Rightarrow> 'c \<Rightarrow> 'c" where
  "token_refresh ops ta us key t0 t1 t2 c = snd (requestToken ops ta us key t0 t1 t2 c)"

text \<open>\<open>GetToken\<close> at time \<open>now\<close>; the flag says that a background refresh was started.\<close>

definition GetToken ::
  "(token_key, cachedToken, 'c) ttl_ops \<Rightarrow> 'r token_api \<Rightarrow> (uuid \<Rightarrow> string) \<Rightarrow> token_key \<Rightarrow> nanos \<Rightarrow> nanos \<Rightarrow> nanos \<Rightarrow> nanos \<Rightarrow> 'c \<Rightarrow>
   (gerr + string) \<times> bool \<times> 'c" where
  "GetToken ops ta us key now t0 t1 t2 c =
     (case tc_Get ops key now c of
        (Some ct, c) \<Rightarrow> (Inr (ct_token ct), shouldRefresh now ct, c)
      | (None, c) \<Rightarrow> (case token_fetchAndCache ops ta us key t0 t1 t2 c of (res, c) \<Rightarrow> (res, False, c)))"

section \<open>A cache in memory\<close>

definition map_get :: "bool \<Rightarrow> 'k \<Rightarrow> nanos \<Rightarrow> ('k \<rightharpoonup> 'v \<times> nanos \<times> nanos) \<Rightarrow> 'v option \<times> ('k \<rightharpoonup> 'v \<times> nanos \<times> nanos)" where
  "map_get touch k now c =
     (case c k of
        None \<Rightarrow> (None, c)
      | Some (v, ttl, exp) \<Rightarrow>
          if unexpired now (v, ttl, exp) then (Some v, if touch \<and> 0 < ttl then c(k \<mapsto> (v, ttl, now + ttl)) else c)
          else (None, c(k := None)))"

definition map_set :: "'k \<Rightarrow> 'v \<Rightarrow> nanos \<Rightarrow> nanos \<Rightarrow> ('k \<rightharpoonup> 'v \<times> nanos \<times> nanos) \<Rightarrow> ('k \<rightharpoonup> 'v \<times> nanos \<times> nanos)" where
  "map_set k v ttl now c = c(k \<mapsto> (v, ttl, now + ttl))"

definition map_ops :: "bool \<Rightarrow> ('k, 'v, 'k \<rightharpoonup> 'v \<times> nanos \<times> nanos) ttl_ops" where
  "map_ops touch = \<lparr>tc_Get = map_get touch, tc_Set = map_set\<rparr>"

lemma map_ops_ttl_cache: "ttl_cache (map_ops touch) touch (\<lambda>c. c)"
proof
  fix c :: "'k \<rightharpoonup> 'v \<times> nanos \<times> nanos" and k k' v ttl exp now e
  show "c k = Some (v, ttl, exp) \<Longrightarrow> unexpired now (v, ttl, exp) \<Longrightarrow>
      fst (tc_Get (map_ops touch) k now c) = Some v \<and>
      snd (tc_Get (map_ops touch) k now c) k = Some (v, ttl, if touch \<and> 0 < ttl then now + ttl else exp)"
    by (simp add: map_ops_def map_get_def)
  show "c k = None \<or> c k = Some e \<and> \<not> unexpired now e \<Longrightarrow> fst (tc_Get (map_ops touch) k now c) = None"
    by (auto simp: map_ops_def map_get_def split: option.split prod.split)
  show "k' \<noteq> k \<or> c k' = None \<or> c k' = Some e \<and> \<not> unexpired now e \<Longrightarrow>
      snd (tc_Get (map_ops touch) k now c) k' = c k' \<or>
      (\<exists>e. c k' = Some e \<and> \<not> unexpired now e \<and> snd (tc_Get (map_ops touch) k now c) k' = None)"
    by (auto simp: map_ops_def map_get_def split: option.splits prod.splits if_splits)
  show "ttl \<noteq> - 2 \<Longrightarrow> tc_Set (map_ops touch) k v ttl now c k' = (if k' = k then Some (v, ttl, now + ttl) else c k')"
    by (simp add: map_ops_def map_set_def)
qed

interpretation plain_ttl: ttl_cache "map_ops False" False "\<lambda>c. c"
  by (rule map_ops_ttl_cache)

interpretation touch_ttl: ttl_cache "map_ops True" True "\<lambda>c. c"
  by (rule map_ops_ttl_cache)

section \<open>No expired admin credential is served\<close>

text \<open>An access that Gardener issued for the cluster's one Shoot, with the expiry of its kubeconfig.\<close>

definition issued :: "'r gardener_api \<Rightarrow> string \<Rightarrow> 'r shoot_access_entry \<Rightarrow> nanos \<Rightarrow> bool" where
  "issued g clusterID a expiry \<longleftrightarrow>
     (\<exists>t shoot kc acc r. access_FindShoot g t clusterID = Inr shoot \<and> AdminKubeconfigForShoot g t shoot 0 = Inr kc \<and>
        accessFromKubeconfig g (ak_kubeconfig kc) = Inr acc \<and> expiry = ak_expires_at kc \<and>
        a = acc\<lparr>sa_OrganizationID := (case gs_labels shoot LabelOrganizationID of None \<Rightarrow> '''' | Some l \<Rightarrow> l), sa_refreshAt := r\<rparr>)"

datatype access_op = Access string nanos fetch_times "gerr option" | Refresh string fetch_times

fun access_step ::
  "(string, 'r shoot_access_entry, 'c) ttl_ops \<Rightarrow> 'r gardener_api \<Rightarrow> 'c access_cache_state \<Rightarrow> access_op \<Rightarrow> 'c access_cache_state" where
  "access_step ops g st (Access k now ft done) = snd (snd (AccessFor ops g k now ft done st))"
| "access_step ops g st (Refresh k ft) = access_refresh ops g k ft st"

text \<open>The clock runs forward, and storing an access takes at most \<open>delay\<close>.\<close>

definition prompt :: "nanos \<Rightarrow> fetch_times \<Rightarrow> bool" where
  "prompt delay ft \<longleftrightarrow> ft_1 ft \<le> ft_3 ft \<and> ft_3 ft \<le> ft_1 ft + delay"

fun op_times :: "access_op \<Rightarrow> fetch_times" where
  "op_times (Access k now ft done) = ft"
| "op_times (Refresh k ft) = ft"

text \<open>The entries of the cache of admin kubeconfigs, which is made with \<open>WithDisableTouchOnHit\<close>: issued by Gardener, with a
  time to live, and gone at most \<open>delay\<close> after the kubeconfig's expiry.\<close>

locale access_store = ttl_cache ops False entry
  for ops :: "(string, 'r shoot_access_entry, 'c) ttl_ops" and entry :: "'c \<Rightarrow> string \<Rightarrow> ('r shoot_access_entry \<times> nanos \<times> nanos) option"
begin

definition fresh_entries :: "'r gardener_api \<Rightarrow> nanos \<Rightarrow> 'c \<Rightarrow> bool" where
  "fresh_entries g delay c \<longleftrightarrow>
     (\<forall>k a ttl exp. entry c k = Some (a, ttl, exp) \<longrightarrow> 0 < ttl \<and> (\<exists>e. issued g k a e \<and> exp \<le> e + delay))"

lemma get_entry: "entry (snd (tc_Get ops k now c)) k' = entry c k' \<or> entry (snd (tc_Get ops k now c)) k' = None"
proof (cases "entry c k'")
  case (Some e)
  show ?thesis
  proof (cases "k' = k \<and> unexpired now e")
    case True
    obtain v ttl exp where "e = (v, ttl, exp)" by (cases e)
    then show ?thesis using get_hit [of c k v ttl exp now] Some True by simp
  next
    case False
    then show ?thesis using get_other [of k' k c e now] Some by auto
  qed
qed (use get_other [of k' k c _ now] in auto)

lemma fresh_get: "fresh_entries g delay c \<Longrightarrow> fresh_entries g delay (snd (tc_Get ops k now c))"
  using get_entry [of k now c] unfolding fresh_entries_def by (metis option.distinct(1))

lemma fetch_fresh:
  assumes "access_fetch ops g k ft c = (res, c')" "fresh_entries g delay c" "prompt delay ft"
  shows "fresh_entries g delay c' \<and> (\<forall>a. res = Inr a \<longrightarrow> (\<exists>e. issued g k a e \<and> ft_3 ft \<le> e + delay))"
proof (cases res)
  case (Inl e)
  then have "c' = c" using assms(1) by (auto simp: access_fetch_def Let_def split: sum.splits if_splits)
  then show ?thesis using assms(2) Inl by simp
next
  case (Inr a)
  then obtain shoot kc acc where f: "access_FindShoot g (ft_0 ft) k = Inr shoot" "AdminKubeconfigForShoot g (ft_0 ft) shoot 0 = Inr kc"
      "accessFromKubeconfig g (ak_kubeconfig kc) = Inr acc" and ttl: "0 < ak_expires_at kc - ft_1 ft"
    and a: "a = acc\<lparr>sa_OrganizationID := (case gs_labels shoot LabelOrganizationID of None \<Rightarrow> '''' | Some l \<Rightarrow> l),
        sa_refreshAt := ft_2 ft + scaled accessRefreshRatio (ak_expires_at kc - ft_1 ft)\<rparr>"
    and c': "c' = tc_Set ops k a (ak_expires_at kc - ft_1 ft) (ft_3 ft) c"
    using assms(1) by (auto simp: access_fetch_def Let_def split: sum.splits if_splits)
  have i: "issued g k a (ak_expires_at kc)" unfolding issued_def using f a by blast
  have le: "ft_3 ft + (ak_expires_at kc - ft_1 ft) \<le> ak_expires_at kc + delay" "ft_3 ft \<le> ak_expires_at kc + delay"
    using assms(3) ttl by (auto simp: prompt_def)
  have "fresh_entries g delay c'"
    using assms(2) i le ttl set_entry [of "ak_expires_at kc - ft_1 ft" k a "ft_3 ft" c]
    unfolding fresh_entries_def c' by (auto split: if_splits)
  then show ?thesis using i le(2) Inr by auto
qed

lemma hit_entry:
  assumes "fst (tc_Get ops k now c) = Some a"
  obtains ttl exp where "entry c k = Some (a, ttl, exp)" "unexpired now (a, ttl, exp)"
proof (cases "entry c k")
  case None
  then show ?thesis using get_miss [of c k _ now] assms by auto
next
  case (Some e)
  obtain v ttl exp where e: "e = (v, ttl, exp)" by (cases e)
  then show ?thesis using get_hit [of c k v ttl exp now] get_miss [of c k e now] Some assms that by (cases "unexpired now e") auto
qed

definition access_ok :: "'r gardener_api \<Rightarrow> nanos \<Rightarrow> 'c access_cache_state \<Rightarrow> bool" where
  "access_ok g delay st \<longleftrightarrow> fresh_entries g delay (ac_entries st) \<and> distinct (ac_refreshing st)"

lemma AccessFor_ok:
  assumes "AccessFor ops g k now ft done st = (res, started, st')" "access_ok g delay st" "prompt delay ft"
  shows "access_ok g delay st' \<and>
    (\<forall>a. res = Inr a \<longrightarrow> (\<exists>e. issued g k a e \<and> (if fst (tc_Get ops k now (ac_entries st)) = None then ft_3 ft else now) \<le> e + delay))"
proof (cases "fst (tc_Get ops k now (ac_entries st))")
  case (Some a)
  then obtain c where g: "tc_Get ops k now (ac_entries st) = (Some a, c)" by (metis prod.collapse)
  obtain ttl exp where e: "entry (ac_entries st) k = Some (a, ttl, exp)" "unexpired now (a, ttl, exp)" using hit_entry [OF Some] .
  then obtain e' where "issued g k a e'" "now \<le> e' + delay"
    using assms(2) by (fastforce simp: access_ok_def fresh_entries_def unexpired_def)
  moreover have "fresh_entries g delay c" using fresh_get [of g delay "ac_entries st" k now] g assms(2) by (simp add: access_ok_def)
  ultimately show ?thesis
    using assms(1,2) g Some by (auto simp: AccessFor_def access_ok_def split: if_splits)
next
  case None
  then obtain c where g: "tc_Get ops k now (ac_entries st) = (None, c)" by (metis prod.collapse)
  have fr: "fresh_entries g delay c" using fresh_get [of g delay "ac_entries st" k now] g assms(2) by (simp add: access_ok_def)
  obtain r c' where f: "access_fetch ops g k ft c = (r, c')" by fastforce
  show ?thesis
    using assms(1,2) g None f fetch_fresh [OF f fr assms(3)]
    by (auto simp: AccessFor_def access_fetchAndCache_def access_ok_def split: option.splits sum.splits)
qed

lemma refresh_ok: "access_ok g delay st \<Longrightarrow> prompt delay ft \<Longrightarrow> access_ok g delay (access_refresh ops g k ft st)"
  using fetch_fresh [of g k ft "ac_entries st" _ _ delay]
  by (auto simp: access_refresh_def access_fetchAndCache_def access_ok_def Let_def distinct_removeAll split: prod.splits)

lemma steps_ok:
  "access_ok g delay st \<Longrightarrow> list_all (\<lambda>op. prompt delay (op_times op)) opers \<Longrightarrow> access_ok g delay (foldl (access_step ops g) st opers)"
proof (induction opers arbitrary: st)
  case (Cons op opers)
  have "access_ok g delay (access_step ops g st op)"
  proof (cases op)
    case (Access k now ft dn)
    obtain res started st' where "AccessFor ops g k now ft dn st = (res, started, st')" by (metis prod_cases3)
    then show ?thesis using AccessFor_ok [of g k now ft dn st res started st' delay] Cons.prems Access by simp
  next
    case (Refresh k ft)
    then show ?thesis using refresh_ok Cons.prems by simp
  qed
  then show ?case using Cons.IH Cons.prems by simp
qed simp

end

interpretation plain_access: access_store "map_ops False" "\<lambda>c. c"
  by unfold_locales

text \<open>Requests for the token of one user and cluster, while every background refresh fails (a failed refresh leaves the cache
  as it is).\<close>

fun requests ::
  "(token_key, cachedToken, 'c) ttl_ops \<Rightarrow> 'r token_api \<Rightarrow> (uuid \<Rightarrow> string) \<Rightarrow> token_key \<Rightarrow> nanos list \<Rightarrow> 'c \<Rightarrow> (gerr + string) list" where
  "requests ops ta us key [] c = []"
| "requests ops ta us key (t # ts) c = (case GetToken ops ta us key t t t t c of (res, started, c) \<Rightarrow> res # requests ops ta us key ts c)"

text \<open>Every request comes while the entry lives; a hit prolongs it.\<close>

fun within :: "nanos \<Rightarrow> nanos \<Rightarrow> nanos list \<Rightarrow> bool" where
  "within exp ttl [] \<longleftrightarrow> True"
| "within exp ttl (t # ts) \<longleftrightarrow> t \<le> exp \<and> within (t + ttl) ttl ts"

text \<open>The token cache is made without \<open>WithDisableTouchOnHit\<close>.\<close>

locale token_store = ttl_cache ops True entry
  for ops :: "(token_key, cachedToken, 'c) ttl_ops" and entry :: "'c \<Rightarrow> token_key \<Rightarrow> (cachedToken \<times> nanos \<times> nanos) option"
begin

lemma GetToken_hit:
  assumes "entry c key = Some (ct, ttl, exp)" "unexpired now (ct, ttl, exp)"
  shows "\<exists>c'. GetToken ops ta us key now t0 t1 t2 c = (Inr (ct_token ct), shouldRefresh now ct, c') \<and>
    entry c' key = Some (ct, ttl, if 0 < ttl then now + ttl else exp)"
  using get_hit [OF assms] by (cases "tc_Get ops key now c") (simp add: GetToken_def)

lemma requests_hit:
  "entry c key = Some (ct, ttl, exp) \<Longrightarrow> 0 < ttl \<Longrightarrow> within exp ttl ts \<Longrightarrow>
   requests ops ta us key ts c = replicate (length ts) (Inr (ct_token ct))"
proof (induction ts arbitrary: c exp)
  case (Cons t ts)
  have "unexpired t (ct, ttl, exp)" using Cons.prems(3) by (simp add: unexpired_def)
  from GetToken_hit [OF Cons.prems(1) this, of ta us t t t]
  obtain c' where "GetToken ops ta us key t t t t c = (Inr (ct_token ct), shouldRefresh t ct, c')" "entry c' key = Some (ct, ttl, t + ttl)"
    using Cons.prems(2) by auto
  then show ?case using Cons.IH [of c' "t + ttl"] Cons.prems by simp
qed simp

lemma requestToken_entry:
  assumes "RequestSAToken ta us t0 (snd key) (fst key) = Inr sat" "st_ExpiresAt sat - t1 \<noteq> - 2"
  shows "\<exists>c'. requestToken ops ta us key t0 t1 t2 c = (Inr (st_Token sat), c') \<and>
    entry c' key = Some (\<lparr>ct_token = st_Token sat, ct_issuedAt = t1, ct_ttl = st_ExpiresAt sat - t1\<rparr>, st_ExpiresAt sat - t1, t2 + (st_ExpiresAt sat - t1))"
  using assms set_entry by (simp add: requestToken_def Let_def)

end

interpretation touch_tokens: token_store "map_ops True" "\<lambda>c. c"
  by unfold_locales

section \<open>Properties\<close>

text \<open>
  C34: no stale admin credential. Over a TTL cache with its documented behaviour, in every state that calls and background
  refreshes reach from an empty cache, whatever Gardener answers, a call that succeeds returns an access that Gardener
  issued for the one Shoot labelled with that cluster, with that Shoot's organization, and not later than the expiry of its
  kubeconfig plus the time it took to store it; at most one refresh per cluster runs in the background.
\<close>

theorem AccessFor_never_stale:
  assumes "access_store ops entry" "\<forall>k. entry c k = None" "list_all (\<lambda>op. prompt delay (op_times op)) opers" "prompt delay ft"
    "st = foldl (access_step ops g) \<lparr>ac_entries = c, ac_refreshing = []\<rparr> opers"
    "AccessFor ops g k now ft dn st = (Inr a, started, st')"
  shows "(\<exists>e. issued g k a e \<and> (if fst (tc_Get ops k now (ac_entries st)) = None then ft_3 ft else now) \<le> e + delay) \<and>
    distinct (ac_refreshing st')"
proof -
  have "access_store.access_ok entry g delay \<lparr>ac_entries = c, ac_refreshing = []\<rparr>"
    using assms(2) by (simp add: access_store.access_ok_def [OF assms(1)] access_store.fresh_entries_def [OF assms(1)])
  then have "access_store.access_ok entry g delay st"
    using access_store.steps_ok [OF assms(1) _ assms(3)] assms(5) by blast
  from access_store.AccessFor_ok [OF assms(1,6) this assms(4)] show ?thesis
    by (simp add: access_store.access_ok_def [OF assms(1)])
qed

definition sample_gardener :: "unit gardener_api" where
  "sample_gardener = \<lparr>ga_list = \<lambda>t cl. Inr [\<lparr>gs_name = ''s'' @ cl, gs_labels = [LabelOrganizationID \<mapsto> ''org'']\<rparr>],
     ga_adminkubeconfig = \<lambda>t shoot secs. Inr \<lparr>ak_kubeconfig = ''kc'', ak_expires_at = t + 3600\<rparr>, ga_parse = \<lambda>k. Inr (), ga_restconfig = \<lambda>r. Inr (),
     ga_transport = \<lambda>r. Inr (), ga_host = \<lambda>r. Inr \<lparr>url_base = ''https://api'', url_path = ''/x'', url_query = ''''\<rparr>, ga_time = \<lambda>t. ''time''\<rparr>"

definition times_at :: "nanos \<Rightarrow> fetch_times" where
  "times_at t = \<lparr>ft_0 = t, ft_1 = t + 1, ft_2 = t + 1, ft_3 = t + 2\<rparr>"

definition sample_access :: "unit shoot_access_entry" where
  "sample_access = \<lparr>sa_Host = \<lparr>url_base = ''https://api'', url_path = '''', url_query = ''''\<rparr>, sa_Transport = (), sa_RESTConfig = (),
     sa_OrganizationID = ''org'', sa_refreshAt = 1 + scaled accessRefreshRatio 3599\<rparr>"

lemma sample_first_access:
  "foldl (access_step (map_ops False) sample_gardener) \<lparr>ac_entries = Map.empty, ac_refreshing = []\<rparr> [Access ''c'' 0 (times_at 0) None] =
   \<lparr>ac_entries = [''c'' \<mapsto> (sample_access, 3599, 3601)], ac_refreshing = []\<rparr>"
  by (simp add: AccessFor_def map_ops_def map_get_def map_set_def access_fetchAndCache_def access_fetch_def access_FindShoot_def
      AdminKubeconfigForShoot_def accessFromKubeconfig_def sample_gardener_def sample_access_def times_at_def Let_def)

theorem AccessFor_never_stale_witness:
  "\<exists>st st' started e. AccessFor (map_ops False) sample_gardener ''c'' 3000 (times_at 3000) None st = (Inr sample_access, started, st') \<and>
     issued sample_gardener ''c'' sample_access e \<and> 3000 \<le> e + 1 \<and> distinct (ac_refreshing st')"
proof -
  let ?opers = "[Access ''c'' 0 (times_at 0) None]"
  let ?st = "foldl (access_step (map_ops False) sample_gardener) \<lparr>ac_entries = Map.empty, ac_refreshing = []\<rparr> ?opers"
  have hit: "fst (tc_Get (map_ops False) ''c'' 3000 (ac_entries ?st)) \<noteq> None"
    unfolding sample_first_access by (simp add: map_ops_def map_get_def unexpired_def)
  obtain started st' where r: "AccessFor (map_ops False) sample_gardener ''c'' 3000 (times_at 3000) None ?st = (Inr sample_access, started, st')"
    unfolding sample_first_access by (cases "sa_refreshAt sample_access < 3000") (auto simp: AccessFor_def map_ops_def map_get_def unexpired_def)
  have "list_all (\<lambda>op. prompt 1 (op_times op)) ?opers" "prompt 1 (times_at 3000)" by (simp_all add: prompt_def times_at_def)
  from AccessFor_never_stale [OF plain_access.access_store_axioms _ this refl r] hit
  have "(\<exists>e. issued sample_gardener ''c'' sample_access e \<and> 3000 \<le> e + 1) \<and> distinct (ac_refreshing st')" by (auto simp del: foldl_Cons)
  then show ?thesis using r by blast
qed

text \<open>
  C35: an expired service account token is served. Over a TTL cache with its documented behaviour, made as the token cache
  makes it, a token that was fetched is returned to every later request as long as each comes within a time to live of the
  one before and the background refreshes fail (for one, because the user's ServiceAccount was deleted): also when it has
  expired, and no request asks for a new one.
\<close>

theorem GetToken_serves_expired:
  assumes "token_store ops entry" "RequestSAToken ta us t0 (snd key) (fst key) = Inr sat" "t1 \<le> t2" "t1 < st_ExpiresAt sat"
    "requestToken ops ta us key t0 t1 t2 c = (res, c')" "within (t2 + (st_ExpiresAt sat - t1)) (st_ExpiresAt sat - t1) ts"
    "ts \<noteq> []" "st_ExpiresAt sat < last ts"
  shows "requests ops ta us key ts c' = replicate (length ts) (Inr (st_Token sat)) \<and> last (requests ops ta us key ts c') = Inr (st_Token sat)"
proof -
  have ttl: "0 < st_ExpiresAt sat - t1" using assms(4) by simp
  obtain ct where "entry c' key = Some (ct, st_ExpiresAt sat - t1, t2 + (st_ExpiresAt sat - t1))" "ct_token ct = st_Token sat"
    using token_store.requestToken_entry [OF assms(1,2), of t1 t2 c] ttl assms(5) by auto
  then have "requests ops ta us key ts c' = replicate (length ts) (Inr (st_Token sat))"
    using token_store.requests_hit [OF assms(1) _ ttl assms(6), of c' key ct ta us] by simp
  then show ?thesis using assms(7) by simp
qed

text \<open>A user whose ServiceAccount is deleted at time 100.\<close>

definition sample_tokens :: "unit token_api" where
  "sample_tokens = \<lparr>ta_gardener = sample_gardener,
     ta_clientset = \<lambda>k. Inr (\<lambda>t ns n secs. if t < 100 then Inr \<lparr>st_Token = ''tok'', st_ExpiresAt = t + secs\<rparr> else Inl (NotFound n))\<rparr>"

theorem GetToken_serves_expired_witness:
  "st_ExpiresAt \<lparr>st_Token = ''tok'', st_ExpiresAt = 900\<rparr> < 1500 \<and>
   requests (map_ops True) sample_tokens dec_us (7, ''c'') [800, 1500, 2300] (snd (requestToken (map_ops True) sample_tokens dec_us (7, ''c'') 0 0 0 Map.empty)) =
     [Inr ''tok'', Inr ''tok'', Inr ''tok''] \<and>
   fst (requestToken (map_ops True) sample_tokens dec_us (7, ''c'') 1500 1500 1500 Map.empty) \<noteq> Inr ''tok''"
proof -
  let ?rq = "requestToken (map_ops True) sample_tokens dec_us (7, ''c'') 0 0 0 Map.empty"
  have "RequestSAToken sample_tokens dec_us 0 (snd ((7, ''c'') :: token_key)) (fst ((7, ''c'') :: token_key)) = Inr \<lparr>st_Token = ''tok'', st_ExpiresAt = 900\<rparr>" by code_simp
  from GetToken_serves_expired [OF touch_tokens.token_store_axioms this, of 0 0 Map.empty "fst ?rq" "snd ?rq" "[800, 1500, 2300]"]
  have "requests (map_ops True) sample_tokens dec_us (7, ''c'') [800, 1500, 2300] (snd ?rq) = [Inr ''tok'', Inr ''tok'', Inr ''tok'']"
    by (simp add: eval_nat_numeral)
  moreover have "\<exists>e. fst (requestToken (map_ops True) sample_tokens dec_us (7, ''c'') 1500 1500 1500 Map.empty) = Inl e"
    by (simp add: requestToken_def RequestSAToken_def access_GetAdminKubeconfig_def access_FindShoot_def AdminKubeconfigForShoot_def
        sample_tokens_def sample_gardener_def Let_def)
  ultimately show ?thesis by auto
qed

end
