(* ===== verification/PluginController.thy ===== *)
theory PluginController
  imports UserPlan Gardener Kubename
begin

text \<open>
  The plugin-controller: \<open>plugin-controller/pkg/controller/{reconciler,resources,status,definition_cache}.go\<close> with the
  manifest functions of \<open>plugin-sdk/pluginruntime/definition.go\<close>. The Kubernetes client (with
  \<open>controllerutil.CreateOrUpdate\<close>), the YAML decoder, the definition client and the plugin's RPCs are parameters; what the
  client promises is the locale \<open>plugin_cluster\<close>.
\<close>

section \<open>Manifests (plugin-sdk)\<close>

definition HashManifest :: "byte list \<Rightarrow> string" where
  "HashManifest manifest = ''sha256:'' @ hex_encode (Sum256 manifest)"

record policy_rule =
  pr_APIGroups :: "string list"
  pr_Resources :: "string list"
  pr_Verbs :: "string list"
  pr_ResourceNames :: "string list"

text \<open>The fields of a definition that are read here.\<close>

record plugin_definition =
  pd_APIVersion :: string
  pd_Kind :: string
  pd_Name :: string
  pd_RBAC :: "policy_rule list"
  pd_Image :: string
  pd_ImagePullPolicy :: string

text \<open>\<open>@sha256:[0-9a-f]{64}\<close> at the end of the text.\<close>

definition imageDigestRef :: "string \<Rightarrow> bool" where
  "imageDigestRef s \<longleftrightarrow> 72 \<le> length s \<and> take 8 (drop (length s - 72) s) = ''@sha256:'' \<and> list_all is_hex (drop (length s - 64) s)"

definition validImagePullPolicies :: "string list" where
  "validImagePullPolicies = ['''', ''Always'', ''IfNotPresent'', ''Never'']"

definition ParseDefinition :: "(byte list \<Rightarrow> gerr + plugin_definition) \<Rightarrow> byte list \<Rightarrow> gerr + plugin_definition" where
  "ParseDefinition yaml data =
     (case yaml data of
        Inl e \<Rightarrow> Inl (errorf ''parse plugin definition'' e)
      | Inr def \<Rightarrow>
          if pd_APIVersion def \<noteq> ''fundament.io/v1''
          then Inl (ErrNew (''unsupported apiVersion '' @ go_quote (pd_APIVersion def) @ '', expected '' @ go_quote ''fundament.io/v1''))
          else if pd_Kind def \<noteq> ''PluginDefinition''
          then Inl (ErrNew (''unsupported kind '' @ go_quote (pd_Kind def) @ '', expected '' @ go_quote ''PluginDefinition''))
          else if pd_Name def = '''' then Inl (ErrNew ''plugin definition is missing required field metadata.name'')
          else if pd_Image def = '''' then Inl (ErrNew ''plugin definition is missing required field spec.image'')
          else if \<not> imageDigestRef (pd_Image def)
          then Inl (ErrNew (''spec.image '' @ go_quote (pd_Image def) @ '' must be a digest reference (repo@sha256:<64 hex chars>), not a mutable tag''))
          else if pd_ImagePullPolicy def \<notin> set validImagePullPolicies
          then Inl (ErrNew (''spec.imagePullPolicy '' @ go_quote (pd_ImagePullPolicy def) @ '' is invalid, expected one of '' @ go_quote ''Always'' @
                 '', '' @ go_quote ''IfNotPresent'' @ '', '' @ go_quote ''Never'' @ '' (or empty)''))
          else Inr def)"

section \<open>Installations and their children\<close>

record condition =
  cd_Type :: string
  cd_Status :: bool
  cd_ObservedGeneration :: int
  cd_Reason :: string
  cd_Message :: string
  cd_LastTransitionTime :: int

datatype plugin_phase = PhaseNone | PluginPhasePending | PluginPhaseDeploying | PluginPhaseRunning | PluginPhaseDegraded | PluginPhaseFailed
  | PluginPhaseTerminating

record installation_status =
  is_Phase :: plugin_phase
  is_Message :: string
  is_Ready :: bool
  is_ObservedGeneration :: int
  is_Conditions :: "condition list"

record installation =
  pi_Name :: string
  pi_Generation :: int
  pi_deleting :: bool
  pi_Finalizers :: "string list"
  pi_PluginName :: string
  pi_PluginVersion :: string
  pi_DefinitionHash :: string
  pi_Config :: smap
  pi_Status :: installation_status

record probe =
  pb_Path :: string
  pb_Port :: string
  pb_InitialDelaySeconds :: int
  pb_PeriodSeconds :: int

record container =
  ct_Name :: string
  ct_Image :: string
  ct_ImagePullPolicy :: string
  ct_Port :: "string \<times> int \<times> string"
  ct_Env :: "(string \<times> string) list"
  ct_Liveness :: probe
  ct_Readiness :: probe

record deployment_spec =
  dp_Replicas :: int
  dp_Selector :: smap
  dp_PodLabels :: smap
  dp_ServiceAccountName :: string
  dp_Containers :: "container list"

record service_spec =
  sv_Selector :: smap
  sv_PublishNotReadyAddresses :: bool
  sv_Ports :: "(string \<times> int \<times> string) list"

text \<open>An object of any of the seven kinds: its labels, whether it is being deleted, and the fields its kind has. What
  defaulting adds on the server is not part of it.\<close>

datatype kkind = KNamespace | KServiceAccount | KRoleBinding | KClusterRole | KClusterRoleBinding | KDeployment | KService

type_synonym kkey = "kkind \<times> string \<times> string"

record child =
  ch_deleting :: bool
  ch_labels :: smap
  ch_role_ref :: role_ref
  ch_subjects :: "subject list"
  ch_rules :: "policy_rule list"
  ch_deployment :: deployment_spec
  ch_service :: service_spec

definition new_child :: child where
  "new_child = \<lparr>ch_deleting = False, ch_labels = [], ch_role_ref = no_role_ref, ch_subjects = [], ch_rules = [],
     ch_deployment = \<lparr>dp_Replicas = 0, dp_Selector = [], dp_PodLabels = [], dp_ServiceAccountName = '''', dp_Containers = []\<rparr>,
     ch_service = \<lparr>sv_Selector = [], sv_PublishNotReadyAddresses = False, sv_Ports = []\<rparr>\<rparr>"

section \<open>Child resources (resources.go)\<close>

definition labelManagedBy :: string where "labelManagedBy = ''app.kubernetes.io/managed-by''"
definition labelPlugin :: string where "labelPlugin = ''plugins.fundament.io/plugin''"
definition labelInstallationName :: string where "labelInstallationName = ''plugins.fundament.io/installation-name''"
definition managedByValue :: string where "managedByValue = ''plugin-controller''"
definition maxInstallationNameLen :: nat where "maxInstallationNameLen = 56"

lemmas label_names = labelManagedBy_def labelPlugin_def labelInstallationName_def

definition dnsLabel :: "string \<Rightarrow> bool" where
  "dnsLabel s \<longleftrightarrow> s \<noteq> [] \<and> label_char (hd s) \<and> label_char (last s) \<and> list_all (\<lambda>c. label_char c \<or> c = CHR ''-'') s"

definition validateInstallationName :: "string \<Rightarrow> gerr option" where
  "validateInstallationName name =
     (if name = '''' then Some (ErrNew ''metadata.name must not be empty'')
      else if maxInstallationNameLen < length name
      then Some (ErrNew (''metadata.name '' @ go_quote name @ '' exceeds maximum length of '' @ nat_str maxInstallationNameLen @
             '' characters (child resources are prefixed with '' @ go_quote ''plugin-'' @ '')''))
      else if \<not> dnsLabel name
      then Some (ErrNew (''metadata.name '' @ go_quote name @ '' is not a valid DNS label (must be lowercase alphanumeric or '' @ [CHR 0x27] @ ''-'' @ [CHR 0x27] @
             '', and must start and end with an alphanumeric character)''))
      else None)"

definition childName :: "string \<Rightarrow> string" where
  "childName installationName = ''plugin-'' @ installationName"

definition pluginNamespace :: "string \<Rightarrow> string" where
  "pluginNamespace installationName = ''plugin-'' @ installationName"

definition childLabels :: "installation \<Rightarrow> smap" where
  "childLabels cr = [(labelManagedBy, managedByValue), (labelPlugin, pi_Name cr), (labelInstallationName, pi_Name cr)]"

definition mergeLabels :: "smap \<Rightarrow> smap \<Rightarrow> smap" where
  "mergeLabels dst src = maps_copy dst src"

definition selectorLabels :: "installation \<Rightarrow> smap" where
  "selectorLabels cr = [(labelPlugin, pi_Name cr), (labelInstallationName, pi_Name cr)]"

definition mutateNamespace :: "installation \<Rightarrow> child \<Rightarrow> child" where
  "mutateNamespace cr ns = ns\<lparr>ch_labels := mergeLabels (ch_labels ns) (childLabels cr)\<rparr>"

definition mutateServiceAccount :: "installation \<Rightarrow> child \<Rightarrow> child" where
  "mutateServiceAccount cr sa = sa\<lparr>ch_labels := mergeLabels (ch_labels sa) (childLabels cr)\<rparr>"

definition plugin_subject :: "installation \<Rightarrow> subject" where
  "plugin_subject cr = \<lparr>sj_kind = ''ServiceAccount'', sj_group = '''', sj_name = childName (pi_Name cr), sj_namespace = pluginNamespace (pi_Name cr)\<rparr>"

definition mutateRoleBinding :: "installation \<Rightarrow> child \<Rightarrow> child" where
  "mutateRoleBinding cr rb = rb\<lparr>ch_labels := childLabels cr,
     ch_role_ref := \<lparr>rr_group = ''rbac.authorization.k8s.io'', rr_kind = ''ClusterRole'', rr_name = ''admin''\<rparr>,
     ch_subjects := [plugin_subject cr]\<rparr>"

definition pluginScopeClusterRoleName :: "string \<Rightarrow> string" where
  "pluginScopeClusterRoleName installationName = ''plugin-'' @ installationName @ ''-scope''"

definition mutatePluginScopeClusterRole :: "installation \<Rightarrow> policy_rule list \<Rightarrow> child \<Rightarrow> child" where
  "mutatePluginScopeClusterRole cr rules role = role\<lparr>ch_labels := mergeLabels (ch_labels role) (childLabels cr),
     ch_rules := map (\<lambda>rule. \<lparr>pr_APIGroups = pr_APIGroups rule, pr_Resources = pr_Resources rule, pr_Verbs = pr_Verbs rule,
       pr_ResourceNames = pr_ResourceNames rule\<rparr>) rules\<rparr>"

definition mutatePluginScopeClusterRoleBinding :: "installation \<Rightarrow> child \<Rightarrow> child" where
  "mutatePluginScopeClusterRoleBinding cr crb = crb\<lparr>ch_labels := mergeLabels (ch_labels crb) (childLabels cr),
     ch_role_ref := \<lparr>rr_group = ''rbac.authorization.k8s.io'', rr_kind = ''ClusterRole'', rr_name = pluginScopeClusterRoleName (pi_Name cr)\<rparr>,
     ch_subjects := [plugin_subject cr]\<rparr>"

text \<open>\<open>Config\<close> is a Go map: its keys are distinct, and sorted here.\<close>

definition config_env :: "smap \<Rightarrow> (string \<times> string) list" where
  "config_env cfg = map (\<lambda>k. (''FUNP_'' @ k, sget cfg k)) (sort (map fst cfg))"

definition mutateDeployment :: "installation \<Rightarrow> plugin_definition \<Rightarrow> (string \<times> string) list \<Rightarrow> child \<Rightarrow> child" where
  "mutateDeployment cr def fundEnvVars deploy = deploy\<lparr>ch_labels := childLabels cr, ch_deployment :=
     \<lparr>dp_Replicas = 1, dp_Selector = selectorLabels cr, dp_PodLabels = childLabels cr, dp_ServiceAccountName = childName (pi_Name cr),
      dp_Containers = [\<lparr>ct_Name = pi_Name cr, ct_Image = pd_Image def, ct_ImagePullPolicy = pd_ImagePullPolicy def, ct_Port = (''http'', 8080, ''TCP''),
        ct_Env = fundEnvVars @ config_env (pi_Config cr),
        ct_Liveness = \<lparr>pb_Path = ''/livez'', pb_Port = ''http'', pb_InitialDelaySeconds = 5, pb_PeriodSeconds = 10\<rparr>,
        ct_Readiness = \<lparr>pb_Path = ''/readyz'', pb_Port = ''http'', pb_InitialDelaySeconds = 10, pb_PeriodSeconds = 10\<rparr>\<rparr>]\<rparr>\<rparr>"

definition mutateService :: "installation \<Rightarrow> child \<Rightarrow> child" where
  "mutateService cr svc = svc\<lparr>ch_labels := childLabels cr, ch_service :=
     \<lparr>sv_Selector = selectorLabels cr, sv_PublishNotReadyAddresses = True, sv_Ports = [(''http'', 8080, ''http'')]\<rparr>\<rparr>"

section \<open>Status (status.go)\<close>

definition pluginServiceURL :: "string \<Rightarrow> string" where
  "pluginServiceURL pluginName = ''http://plugin-'' @ pluginName @ ''.'' @ pluginNamespace pluginName @ ''.svc.cluster.local:8080''"

definition mapPhase :: "string \<Rightarrow> gerr + plugin_phase" where
  "mapPhase phase =
     (if phase = ''running'' then Inr PluginPhaseRunning
      else if phase = ''installing'' then Inr PluginPhaseDeploying
      else if phase = ''degraded'' then Inr PluginPhaseDegraded
      else if phase = ''failed'' then Inr PluginPhaseFailed
      else if phase = ''uninstalling'' then Inr PluginPhaseTerminating
      else Inl (ErrNew (''unknown plugin phase: '' @ go_quote phase)))"

text \<open>What the services answer during one reconciliation: the plugin's status and uninstall RPCs (by the address of the
  plugin), with the code of an error, and the definition client (which may not be configured).\<close>

datatype rpc_code = RpcUnavailable | RpcUnimplemented | RpcOther

record answers =
  an_GetStatus :: "string \<Rightarrow> gerr + string \<times> string"
  an_RequestUninstall :: "string \<Rightarrow> (rpc_code \<times> gerr) option"
  an_GetDefinition :: "(string \<Rightarrow> string \<Rightarrow> gerr + byte list) option"
  an_now :: int

definition status_poll :: "answers \<Rightarrow> installation \<Rightarrow> installation_status" where
  "status_poll an cr =
     (case an_GetStatus an (pluginServiceURL (pi_Name cr)) of
        Inl e \<Rightarrow> \<lparr>is_Phase = PluginPhaseDeploying, is_Message = ''plugin not reachable: '' @ err_text e, is_Ready = False,
           is_ObservedGeneration = pi_Generation cr, is_Conditions = []\<rparr>
      | Inr (phase, message) \<Rightarrow>
          (case mapPhase phase of
             Inl e \<Rightarrow> \<lparr>is_Phase = PluginPhaseDegraded, is_Message = err_text e, is_Ready = False,
                is_ObservedGeneration = pi_Generation cr, is_Conditions = []\<rparr>
           | Inr p \<Rightarrow> \<lparr>is_Phase = p, is_Message = message, is_Ready = (p = PluginPhaseRunning),
                is_ObservedGeneration = pi_Generation cr, is_Conditions = []\<rparr>))"

section \<open>The definition cache (definition_cache.go)\<close>

type_synonym definition_cache = "string \<rightharpoonup> plugin_definition"

definition newDefinitionCache :: definition_cache where
  "newDefinitionCache = Map.empty"

definition cache_get :: "string \<Rightarrow> definition_cache \<Rightarrow> plugin_definition option" where
  "cache_get hash c = c hash"

definition cache_put :: "string \<Rightarrow> plugin_definition \<Rightarrow> definition_cache \<Rightarrow> definition_cache" where
  "cache_put hash def c = c(hash \<mapsto> def)"

section \<open>The reconciler (reconciler.go)\<close>

definition finalizerName :: string where "finalizerName = ''plugins.fundament.io/cleanup''"
definition ConditionPluginScopeReady :: string where "ConditionPluginScopeReady = ''PluginScopeReady''"
definition unknownDefinitionHash :: string where "unknownDefinitionHash = ''sha256:unknown''"
definition unknownDefinitionVersion :: string where "unknownDefinitionVersion = ''unknown''"

definition isUnpinned :: "string \<Rightarrow> bool" where
  "isUnpinned hash \<longleftrightarrow> hash = '''' \<or> hash = unknownDefinitionHash"

definition isUnpinnedVersion :: "string \<Rightarrow> bool" where
  "isUnpinnedVersion version \<longleftrightarrow> version = '''' \<or> version = unknownDefinitionVersion"

record controller_cfg =
  FundamentClusterID :: string
  FundamentInstallID :: string
  FundamentOrgID :: string
  StatusPollInterval :: int
  AllowUnpinnedHash :: bool

text \<open>The Kubernetes client. \<open>kc_CreateOrUpdate\<close> is \<open>controllerutil.CreateOrUpdate\<close> with the function that changes the object;
  a status update returns the installation as the server has it, which replaces the one in memory.\<close>

record 's kube_client =
  kc_Get :: "string \<Rightarrow> 's \<Rightarrow> (gerr + installation) \<times> 's"
  kc_Update :: "installation \<Rightarrow> 's \<Rightarrow> gerr option \<times> 's"
  kc_StatusUpdate :: "installation \<Rightarrow> 's \<Rightarrow> (gerr + installation) \<times> 's"
  kc_CreateOrUpdate :: "kkey \<Rightarrow> (child \<Rightarrow> child) \<Rightarrow> 's \<Rightarrow> gerr option \<times> 's"
  kc_Delete :: "kkey \<Rightarrow> 's \<Rightarrow> gerr option \<times> 's"

record 's controller =
  pc_client :: "'s kube_client"
  pc_cfg :: controller_cfg
  pc_yaml :: "byte list \<Rightarrow> gerr + plugin_definition"

definition fundamentEnvVars :: "controller_cfg \<Rightarrow> (string \<times> string) list" where
  "fundamentEnvVars cfg = [(''FUNDAMENT_CLUSTER_ID'', FundamentClusterID cfg), (''FUNDAMENT_INSTALL_ID'', FundamentInstallID cfg),
     (''FUNDAMENT_ORGANIZATION_ID'', FundamentOrgID cfg)]"

fun upsert_condition :: "condition \<Rightarrow> int \<Rightarrow> condition list \<Rightarrow> condition list" where
  "upsert_condition cond now [] = [cond\<lparr>cd_LastTransitionTime := now\<rparr>]"
| "upsert_condition cond now (existing # cs) =
     (if cd_Type existing \<noteq> ConditionPluginScopeReady then existing # upsert_condition cond now cs
      else cond\<lparr>cd_LastTransitionTime := (if cd_Status existing = cd_Status cond then cd_LastTransitionTime existing else now)\<rparr> # cs)"

definition setPluginScopeCondition :: "int \<Rightarrow> installation \<Rightarrow> bool \<Rightarrow> string \<Rightarrow> string \<Rightarrow> installation" where
  "setPluginScopeCondition now cr status reason message =
     (let cond = \<lparr>cd_Type = ConditionPluginScopeReady, cd_Status = status, cd_ObservedGeneration = pi_Generation cr, cd_Reason = reason,
            cd_Message = message, cd_LastTransitionTime = 0\<rparr>
      in cr\<lparr>pi_Status := (pi_Status cr)\<lparr>is_Conditions := upsert_condition cond now (is_Conditions (pi_Status cr))\<rparr>\<rparr>)"

definition fetchDefinition ::
  "'s controller \<Rightarrow> answers \<Rightarrow> installation \<Rightarrow> definition_cache \<Rightarrow> (gerr + plugin_definition) \<times> definition_cache" where
  "fetchDefinition pc an cr cache =
     (case an_GetDefinition an of
        None \<Rightarrow> (Inl (ErrNew ''plugin-controller misconfigured: no definition client (WithDefClient) set''), cache)
      | Some GetDefinition \<Rightarrow>
          let pinned = pi_DefinitionHash cr
          in if isUnpinned pinned \<and> \<not> AllowUnpinnedHash (pc_cfg pc)
             then (Inl (ErrNew (''PluginInstallation '' @ go_quote (pi_Name cr) @ '' has no pinned spec.definitionRef.definitionHash ('' @ go_quote pinned @
                    '') and PLUGIN_CONTROLLER_ALLOW_UNPINNED_HASH is false'')), cache)
             else if isUnpinnedVersion (pi_PluginVersion cr)
             then (Inl (ErrNew (''PluginInstallation '' @ go_quote (pi_Name cr) @ '' has no resolvable spec.definitionRef.pluginVersion ('' @
                    go_quote (pi_PluginVersion cr) @ ''); a real published version is required to fetch its PluginDefinition (pending marketplace wiring, FUN-11)'')), cache)
             else case (if isUnpinned pinned then None else cache_get pinned cache) of
                    Some def \<Rightarrow> (Inr def, cache)
                  | None \<Rightarrow>
                      (case GetDefinition (pi_PluginName cr) (pi_PluginVersion cr) of
                         Inl e \<Rightarrow> (Inl (errorf ''fetch definition'' e), cache)
                       | Inr manifest \<Rightarrow>
                           let computed = HashManifest manifest
                           in if \<not> isUnpinned pinned \<and> computed \<noteq> pinned
                              then (Inl (ErrNew (''definition hash mismatch: pinned='' @ go_quote pinned @ '', computed='' @ go_quote computed)), cache)
                              else case ParseDefinition (pc_yaml pc) manifest of
                                     Inl e \<Rightarrow> (Inl (errorf ''parse manifest'' e), cache)
                                   | Inr def \<Rightarrow> (Inr def, if isUnpinned pinned then cache else cache_put pinned def cache)))"

text \<open>The keys of the children, and the calls in their order; the first error ends the reconciliation.\<close>

definition namespace_of :: "installation \<Rightarrow> kkey" where "namespace_of cr = (KNamespace, '''', pluginNamespace (pi_Name cr))"
definition inside :: "kkind \<Rightarrow> installation \<Rightarrow> kkey" where "inside kd cr = (kd, pluginNamespace (pi_Name cr), childName (pi_Name cr))"
definition scope_of :: "kkind \<Rightarrow> installation \<Rightarrow> kkey" where "scope_of kd cr = (kd, '''', pluginScopeClusterRoleName (pi_Name cr))"

definition ensure :: "'s controller \<Rightarrow> string \<Rightarrow> kkey \<Rightarrow> (child \<Rightarrow> child) \<Rightarrow> 's \<Rightarrow> gerr option \<times> 's" where
  "ensure pc what key mutate s =
     (case kc_CreateOrUpdate (pc_client pc) key mutate s of
        (Some e, s) \<Rightarrow> (Some (errorf (''reconcile '' @ what) e), s)
      | (None, s) \<Rightarrow> (None, s))"

fun in_order :: "('s \<Rightarrow> gerr option \<times> 's) list \<Rightarrow> 's \<Rightarrow> gerr option \<times> 's" where
  "in_order [] s = (None, s)"
| "in_order (f # fs) s = (case f s of (Some e, s) \<Rightarrow> (Some e, s) | (None, s) \<Rightarrow> in_order fs s)"

definition reconcilePluginScope :: "'s controller \<Rightarrow> installation \<Rightarrow> plugin_definition \<Rightarrow> 's \<Rightarrow> gerr option \<times> 's" where
  "reconcilePluginScope pc cr def = in_order
     [ensure pc ''plugin-scope ClusterRole'' (scope_of KClusterRole cr) (mutatePluginScopeClusterRole cr (pd_RBAC def)),
      ensure pc ''plugin-scope ClusterRoleBinding'' (scope_of KClusterRoleBinding cr) (mutatePluginScopeClusterRoleBinding cr)]"

definition reconcileChildren ::
  "'s controller \<Rightarrow> answers \<Rightarrow> installation \<Rightarrow> definition_cache \<Rightarrow> 's \<Rightarrow> (gerr option \<times> installation \<times> definition_cache) \<times> 's" where
  "reconcileChildren pc an cr cache s =
     (case fetchDefinition pc an cr cache of
        (Inl e, cache) \<Rightarrow>
          ((Some (errorf ''reconcile plugin scope'' e), setPluginScopeCondition (an_now an) cr False ''MaterialisationFailed'' (err_text e), cache), s)
      | (Inr def, cache) \<Rightarrow>
     (case in_order
             [ensure pc ''Namespace'' (namespace_of cr) (mutateNamespace cr),
              ensure pc ''ServiceAccount'' (inside KServiceAccount cr) (mutateServiceAccount cr),
              ensure pc ''RoleBinding'' (inside KRoleBinding cr) (mutateRoleBinding cr)] s of
        (Some e, s) \<Rightarrow> ((Some e, cr, cache), s)
      | (None, s) \<Rightarrow>
     (case reconcilePluginScope pc cr def s of
        (Some e, s) \<Rightarrow>
          ((Some (errorf ''reconcile plugin scope'' e), setPluginScopeCondition (an_now an) cr False ''MaterialisationFailed'' (err_text e), cache), s)
      | (None, s) \<Rightarrow>
          let cr1 = (if isUnpinned (pi_DefinitionHash cr)
                then setPluginScopeCondition (an_now an) cr True ''MaterialisedUnpinned''
                  ''plugin-scope ClusterRole materialised from an UNPINNED definition (no hash consent); RBAC reflects whatever the manifest declared''
                else setPluginScopeCondition (an_now an) cr True ''Materialised'' ''plugin-scope ClusterRole materialised from PluginDefinition manifest'')
          in case in_order
                    [ensure pc ''Deployment'' (inside KDeployment cr) (mutateDeployment cr def (fundamentEnvVars (pc_cfg pc))),
                     ensure pc ''Service'' (inside KService cr) (mutateService cr)] s of
               (e, s) \<Rightarrow> ((e, cr1, cache), s))))"

text \<open>A result is the time to requeue after (0 for none) and an error.\<close>

definition requestPluginUninstall :: "answers \<Rightarrow> installation \<Rightarrow> int \<times> gerr option" where
  "requestPluginUninstall an cr =
     (case an_RequestUninstall an (pluginServiceURL (pi_Name cr)) of
        None \<Rightarrow> (0, None)
      | Some (code, e) \<Rightarrow>
          if code = RpcUnavailable \<or> code = RpcUnimplemented then (0, None)
          else (10000000, Some (errorf ''request plugin uninstall'' e)))"

definition delete_child :: "'s controller \<Rightarrow> string \<Rightarrow> kkey \<Rightarrow> 's \<Rightarrow> gerr option \<times> 's" where
  "delete_child pc what key s =
     (case kc_Delete (pc_client pc) key s of
        (None, s) \<Rightarrow> (None, s)
      | (Some e, s) \<Rightarrow> if is_not_found e then (None, s) else (Some (errorf (''delete '' @ what) e), s))"

definition handleDeletion :: "'s controller \<Rightarrow> answers \<Rightarrow> installation \<Rightarrow> 's \<Rightarrow> (int \<times> gerr option) \<times> 's" where
  "handleDeletion pc an cr s =
     (if finalizerName \<notin> set (pi_Finalizers cr) then ((0, None), s)
      else
        let cr1 = cr\<lparr>pi_Status := (pi_Status cr)\<lparr>is_Phase := PluginPhaseTerminating, is_Message := ''uninstalling plugin''\<rparr>\<rparr>
        in case kc_StatusUpdate (pc_client pc) cr1 s of
             (res, s) \<Rightarrow>
               let cr2 = (case res of Inl e \<Rightarrow> cr1 | Inr c \<Rightarrow> c)
               in case requestPluginUninstall an cr2 of
                    (requeue, err) \<Rightarrow>
                      if err \<noteq> None \<or> requeue \<noteq> 0 then ((requeue, err), s)
                      else case in_order
                                  [delete_child pc (''plugin-scope ClusterRoleBinding '' @ pluginScopeClusterRoleName (pi_Name cr2)) (scope_of KClusterRoleBinding cr2),
                                   delete_child pc (''plugin-scope ClusterRole '' @ pluginScopeClusterRoleName (pi_Name cr2)) (scope_of KClusterRole cr2),
                                   delete_child pc ''Namespace'' (namespace_of cr2)] s of
                             (Some e, s) \<Rightarrow> ((0, Some e), s)
                           | (None, s) \<Rightarrow>
                               (case kc_Update (pc_client pc) (cr2\<lparr>pi_Finalizers := removeAll finalizerName (pi_Finalizers cr2)\<rparr>) s of
                                  (Some e, s) \<Rightarrow> ((0, Some (errorf ''remove finalizer'' e)), s)
                                | (None, s) \<Rightarrow> ((0, None), s)))"

definition Reconcile ::
  "'s controller \<Rightarrow> answers \<Rightarrow> string \<Rightarrow> definition_cache \<times> 's \<Rightarrow> (int \<times> gerr option) \<times> definition_cache \<times> 's" where
  "Reconcile pc an name = (\<lambda>(cache, s).
     case kc_Get (pc_client pc) name s of
       (Inl e, s) \<Rightarrow> if is_not_found e then ((0, None), cache, s) else ((0, Some (errorf ''get PluginInstallation'' e)), cache, s)
     | (Inr cr, s) \<Rightarrow>
         if pi_deleting cr then (case handleDeletion pc an cr s of (r, s) \<Rightarrow> (r, cache, s))
         else if finalizerName \<notin> set (pi_Finalizers cr)
         then (case kc_Update (pc_client pc) (cr\<lparr>pi_Finalizers := pi_Finalizers cr @ [finalizerName]\<rparr>) s of
                 (Some e, s) \<Rightarrow> ((0, Some (errorf ''add finalizer'' e)), cache, s)
               | (None, s) \<Rightarrow> ((0, None), cache, s))
         else case validateInstallationName (pi_Name cr) of
                Some e \<Rightarrow>
                  (case kc_StatusUpdate (pc_client pc) (cr\<lparr>pi_Status := \<lparr>is_Phase = PluginPhaseFailed, is_Message = err_text e, is_Ready = False,
                           is_ObservedGeneration = pi_Generation cr, is_Conditions = []\<rparr>\<rparr>) s of
                     (_, s) \<Rightarrow> ((0, None), cache, s))
              | None \<Rightarrow>
                  (case reconcileChildren pc an cr cache s of
                     ((Some err, cr, cache), s) \<Rightarrow>
                       (case kc_StatusUpdate (pc_client pc) cr s of (_, s) \<Rightarrow> ((0, Some (errorf ''reconcile children'' err)), cache, s))
                   | ((None, cr, cache), s) \<Rightarrow>
                       let status = (status_poll an cr)\<lparr>is_Conditions := is_Conditions (pi_Status cr)\<rparr>
                       in case kc_StatusUpdate (pc_client pc) (cr\<lparr>pi_Status := status\<rparr>) s of
                            (Inl e, s) \<Rightarrow> ((0, Some (errorf ''update status'' e)), cache, s)
                          | (Inr _, s) \<Rightarrow> ((StatusPollInterval (pc_cfg pc), None), cache, s)))"

section \<open>What the API server promises\<close>

definition changed :: "kkey \<Rightarrow> (child \<Rightarrow> child) \<Rightarrow> (kkey \<Rightarrow> child option) \<Rightarrow> kkey \<Rightarrow> child option" where
  "changed key f m = m(key \<mapsto> f (case m key of None \<Rightarrow> new_child | Some ob \<Rightarrow> ob))"

text \<open>An object that is gone or being deleted; and the objects a deletion reaches (a namespace takes its contents with it).\<close>

definition leaving :: "child option \<Rightarrow> bool" where
  "leaving x \<longleftrightarrow> (case x of None \<Rightarrow> True | Some ob \<Rightarrow> ch_deleting ob)"

definition below :: "kkey \<Rightarrow> kkey \<Rightarrow> bool" where
  "below key k \<longleftrightarrow> k = key \<or> (fst key = KNamespace \<and> fst (snd k) = snd (snd key))"

text \<open>A call that fails may have had its effect. A status update changes the status only, an update of an installation
  sets its finalizers, and removes it when it is being deleted and none is left.\<close>

locale plugin_cluster =
  fixes kc :: "'s kube_client" and objs :: "'s \<Rightarrow> kkey \<Rightarrow> child option" and crs :: "'s \<Rightarrow> string \<Rightarrow> installation option"
  assumes named: "crs s n = Some cr \<Longrightarrow> pi_Name cr = n"
    and get: "kc_Get kc n s = (r, s') \<Longrightarrow> objs s' = objs s \<and> crs s' = crs s \<and> (\<forall>cr. r = Inr cr \<longrightarrow> crs s n = Some cr) \<and>
      (\<forall>e. r = Inl e \<longrightarrow> is_not_found e \<longrightarrow> crs s n = None)"
    and update: "kc_Update kc cr s = (e, s') \<Longrightarrow> objs s' = objs s \<and>
      (e \<noteq> None \<and> crs s' = crs s \<or>
       (\<exists>cr'. pi_Name cr' = pi_Name cr \<and> pi_Finalizers cr' = pi_Finalizers cr \<and>
          crs s' = (crs s)(pi_Name cr := (if pi_deleting cr \<and> pi_Finalizers cr = [] then None else Some cr'))))"
    and status_update: "kc_StatusUpdate kc cr s = (r, s') \<Longrightarrow> objs s' = objs s \<and>
      ((\<exists>e. r = Inl e) \<and> crs s' = crs s \<or>
       (\<exists>old. crs s (pi_Name cr) = Some old \<and> crs s' = (crs s)(pi_Name cr \<mapsto> old\<lparr>pi_Status := pi_Status cr\<rparr>) \<and>
          (\<forall>cr'. r = Inr cr' \<longrightarrow> cr' = old\<lparr>pi_Status := pi_Status cr\<rparr>)))"
    and create_or_update: "kc_CreateOrUpdate kc key f s = (e, s') \<Longrightarrow> crs s' = crs s \<and>
      (objs s' = changed key f (objs s) \<or> e \<noteq> None \<and> objs s' = objs s)"
    and delete: "kc_Delete kc key s = (e, s') \<Longrightarrow> crs s' = crs s \<and>
      (\<forall>k. objs s' k = objs s k \<or> below key k \<and> (objs s' k = None \<or> objs s' k = map_option (ch_deleting_update (\<lambda>_. True)) (objs s k))) \<and>
      ((case e of None \<Rightarrow> True | Some er \<Rightarrow> is_not_found er) \<longrightarrow> leaving (objs s' key))"

section \<open>A cluster in memory\<close>

text \<open>Each call takes the next fault: none, or an error text and whether the call has had its effect nevertheless.\<close>

record mem_cluster =
  mc_objs :: "kkey \<Rightarrow> child option"
  mc_crs :: "string \<Rightarrow> installation option"
  mc_faults :: "(string \<times> bool) option list"

definition mc_call :: "(mem_cluster \<Rightarrow> gerr option \<times> mem_cluster) \<Rightarrow> mem_cluster \<Rightarrow> gerr option \<times> mem_cluster" where
  "mc_call f m =
     (case mc_faults m of
        [] \<Rightarrow> f m
      | None # fs \<Rightarrow> f (m\<lparr>mc_faults := fs\<rparr>)
      | Some (msg, eff) # fs \<Rightarrow> (Some (ErrNew msg), if eff then snd (f (m\<lparr>mc_faults := fs\<rparr>)) else m\<lparr>mc_faults := fs\<rparr>))"

definition mc_view :: "mem_cluster \<Rightarrow> string \<Rightarrow> installation option" where
  "mc_view m n = map_option (\<lambda>cr. cr\<lparr>pi_Name := n\<rparr>) (mc_crs m n)"

definition mem_client :: "mem_cluster kube_client" where
  "mem_client = \<lparr>
     kc_Get = \<lambda>n m. (case mc_call (\<lambda>m. (case mc_view m n of None \<Rightarrow> Some (NotFound n) | Some _ \<Rightarrow> None, m)) m of
        (Some e, m) \<Rightarrow> (Inl e, m) | (None, m) \<Rightarrow> (Inr (the (mc_view m n)), m)),
     kc_Update = \<lambda>cr. mc_call (\<lambda>m. if mc_view m (pi_Name cr) = None then (Some (NotFound (pi_Name cr)), m)
        else (None, m\<lparr>mc_crs := (mc_crs m)(pi_Name cr := (if pi_deleting cr \<and> pi_Finalizers cr = [] then None else Some cr))\<rparr>)),
     kc_StatusUpdate = \<lambda>cr m. (case mc_call (\<lambda>m. (case mc_view m (pi_Name cr) of None \<Rightarrow> (Some (NotFound (pi_Name cr)), m)
          | Some old \<Rightarrow> (None, m\<lparr>mc_crs := (mc_crs m)(pi_Name cr \<mapsto> old\<lparr>pi_Status := pi_Status cr\<rparr>)\<rparr>))) m of
        (Some e, m) \<Rightarrow> (Inl e, m) | (None, m) \<Rightarrow> (Inr (the (mc_view m (pi_Name cr))), m)),
     kc_CreateOrUpdate = \<lambda>key f. mc_call (\<lambda>m. (None, m\<lparr>mc_objs := changed key f (mc_objs m)\<rparr>)),
     kc_Delete = \<lambda>key. mc_call (\<lambda>m. if mc_objs m key = None then (Some (NotFound ''object''), m)
        else (None, m\<lparr>mc_objs := \<lambda>k. if below key k then None else mc_objs m k\<rparr>))\<rparr>"

lemma mc_call_cases:
  assumes "mc_call f m = (e, m')"
  obtains m1 where "m1 = m\<lparr>mc_faults := tl (mc_faults m)\<rparr>" "f m1 = (e, m')"
  | m1 msg where "m1 = m\<lparr>mc_faults := tl (mc_faults m)\<rparr>" "e = Some (ErrNew msg)" "m' = m1 \<or> m' = snd (f m1)"
proof (cases "mc_faults m")
  case Nil
  then have eq: "m\<lparr>mc_faults := tl (mc_faults m)\<rparr> = m" by simp
  have "f m = (e, m')" using assms Nil by (simp add: mc_call_def)
  then show thesis using that(1) [OF refl] unfolding eq by blast
next
  case (Cons ft fs)
  with assms that show thesis by (cases ft) (auto simp: mc_call_def split: if_splits)
qed

interpretation mem_plugins: plugin_cluster mem_client mc_objs mc_view
proof
  fix m m' :: mem_cluster and n :: string and cr :: installation and e :: "gerr option" and key :: kkey and f r
  show "mc_view m n = Some cr \<Longrightarrow> pi_Name cr = n" by (auto simp: mc_view_def)
  show "kc_Get mem_client n m = (r, m') \<Longrightarrow> mc_objs m' = mc_objs m \<and> mc_view m' = mc_view m \<and> (\<forall>cr. r = Inr cr \<longrightarrow> mc_view m n = Some cr) \<and>
      (\<forall>e. r = Inl e \<longrightarrow> is_not_found e \<longrightarrow> mc_view m n = None)"
    by (auto simp: mem_client_def mc_view_def split: prod.splits option.splits elim!: mc_call_cases)
  have "kc_Update mem_client cr m = (e, m') \<Longrightarrow> mc_objs m' = mc_objs m \<and>
      (e \<noteq> None \<and> mc_view m' = mc_view m \<or>
       mc_view m' = (mc_view m)(pi_Name cr := (if pi_deleting cr \<and> pi_Finalizers cr = [] then None else Some cr)))"
    by (auto simp: mem_client_def mc_view_def fun_eq_iff split: if_splits elim!: mc_call_cases)
  then show "kc_Update mem_client cr m = (e, m') \<Longrightarrow> mc_objs m' = mc_objs m \<and>
      (e \<noteq> None \<and> mc_view m' = mc_view m \<or>
       (\<exists>cr'. pi_Name cr' = pi_Name cr \<and> pi_Finalizers cr' = pi_Finalizers cr \<and>
          mc_view m' = (mc_view m)(pi_Name cr := (if pi_deleting cr \<and> pi_Finalizers cr = [] then None else Some cr'))))"
    by blast
  show "kc_StatusUpdate mem_client cr m = (r, m') \<Longrightarrow> mc_objs m' = mc_objs m \<and>
      ((\<exists>e. r = Inl e) \<and> mc_view m' = mc_view m \<or>
       (\<exists>old. mc_view m (pi_Name cr) = Some old \<and> mc_view m' = (mc_view m)(pi_Name cr \<mapsto> old\<lparr>pi_Status := pi_Status cr\<rparr>) \<and>
          (\<forall>cr'. r = Inr cr' \<longrightarrow> cr' = old\<lparr>pi_Status := pi_Status cr\<rparr>)))"
    by (auto simp: mem_client_def mc_view_def fun_eq_iff split: prod.splits option.splits elim!: mc_call_cases)
  show "kc_CreateOrUpdate mem_client key f m = (e, m') \<Longrightarrow> mc_view m' = mc_view m \<and>
      (mc_objs m' = changed key f (mc_objs m) \<or> e \<noteq> None \<and> mc_objs m' = mc_objs m)"
    by (auto simp: mem_client_def mc_view_def fun_eq_iff elim!: mc_call_cases)
  show "kc_Delete mem_client key m = (e, m') \<Longrightarrow> mc_view m' = mc_view m \<and>
      (\<forall>k. mc_objs m' k = mc_objs m k \<or> below key k \<and> (mc_objs m' k = None \<or> mc_objs m' k = map_option (ch_deleting_update (\<lambda>_. True)) (mc_objs m k))) \<and>
      ((case e of None \<Rightarrow> True | Some er \<Rightarrow> is_not_found er) \<longrightarrow> leaving (mc_objs m' key))"
    by (auto simp: mem_client_def mc_view_def fun_eq_iff below_def leaving_def split: if_splits elim!: mc_call_cases)
qed

end
