(* ===== verification/PluginProps.thy ===== *)
theory PluginProps
  imports PluginController
begin

text \<open>
  What the plugin-controller does to a cluster: it installs only what the installation's hash stands for, it converges, and
  it lets an installation go only after its permissions are gone.
\<close>

section \<open>What an installation asks for\<close>

text \<open>A definition an installation may be built from: parsed from a manifest with the pinned hash, or, where the operator
  allows it, from any manifest when nothing is pinned.\<close>

definition grounded :: "'s controller \<Rightarrow> installation \<Rightarrow> plugin_definition \<Rightarrow> bool" where
  "grounded pc cr d \<longleftrightarrow>
     (\<exists>manifest. ParseDefinition (pc_yaml pc) manifest = Inr d \<and>
        (HashManifest manifest = pi_DefinitionHash cr \<or> isUnpinned (pi_DefinitionHash cr) \<and> AllowUnpinnedHash (pc_cfg pc)))"

definition carries :: "smap \<Rightarrow> smap \<Rightarrow> bool" where
  "carries labels wanted \<longleftrightarrow> (\<forall>(l, v) \<in> set wanted. map_of labels l = Some v)"

definition desired :: "controller_cfg \<Rightarrow> installation \<Rightarrow> plugin_definition \<Rightarrow> kkey \<Rightarrow> child \<Rightarrow> bool" where
  "desired cfg cr d k ob \<longleftrightarrow> carries (ch_labels ob) (childLabels cr) \<and>
     (k = namespace_of cr \<or> k = inside KServiceAccount cr \<or>
      k = inside KRoleBinding cr \<and> rr_name (ch_role_ref ob) = ''admin'' \<and> ch_subjects ob = [plugin_subject cr] \<or>
      k = scope_of KClusterRole cr \<and> ch_rules ob = pd_RBAC d \<or>
      k = scope_of KClusterRoleBinding cr \<and> rr_name (ch_role_ref ob) = pluginScopeClusterRoleName (pi_Name cr) \<and> ch_subjects ob = [plugin_subject cr] \<or>
      k = inside KDeployment cr \<and> dp_ServiceAccountName (ch_deployment ob) = childName (pi_Name cr) \<and>
        map ct_Image (dp_Containers (ch_deployment ob)) = [pd_Image d] \<and>
        map ct_Env (dp_Containers (ch_deployment ob)) = [fundamentEnvVars cfg @ config_env (pi_Config cr)] \<or>
      k = inside KService cr \<and> sv_Selector (ch_service ob) = selectorLabels cr)"

text \<open>The children in the order in which they are made, with the function that changes each.\<close>

type_synonym child_call = "string \<times> kkey \<times> (child \<Rightarrow> child)"

definition base_children :: "installation \<Rightarrow> child_call list" where
  "base_children cr =
     [(''Namespace'', namespace_of cr, mutateNamespace cr),
      (''ServiceAccount'', inside KServiceAccount cr, mutateServiceAccount cr),
      (''RoleBinding'', inside KRoleBinding cr, mutateRoleBinding cr)]"

definition scope_children :: "installation \<Rightarrow> plugin_definition \<Rightarrow> child_call list" where
  "scope_children cr d =
     [(''plugin-scope ClusterRole'', scope_of KClusterRole cr, mutatePluginScopeClusterRole cr (pd_RBAC d)),
      (''plugin-scope ClusterRoleBinding'', scope_of KClusterRoleBinding cr, mutatePluginScopeClusterRoleBinding cr)]"

definition pod_children :: "controller_cfg \<Rightarrow> installation \<Rightarrow> plugin_definition \<Rightarrow> child_call list" where
  "pod_children cfg cr d =
     [(''Deployment'', inside KDeployment cr, mutateDeployment cr d (fundamentEnvVars cfg)),
      (''Service'', inside KService cr, mutateService cr)]"

definition all_children :: "controller_cfg \<Rightarrow> installation \<Rightarrow> plugin_definition \<Rightarrow> child_call list" where
  "all_children cfg cr d = base_children cr @ scope_children cr d @ pod_children cfg cr d"

lemmas children_defs = base_children_def scope_children_def pod_children_def

definition child_keys :: "installation \<Rightarrow> kkey list" where
  "child_keys cr = [namespace_of cr, inside KServiceAccount cr, inside KRoleBinding cr, scope_of KClusterRole cr, scope_of KClusterRoleBinding cr,
     inside KDeployment cr, inside KService cr]"

lemma all_children_keys: "map (fst \<circ> snd) (all_children cfg cr d) = child_keys cr"
  by (simp add: all_children_def children_defs child_keys_def)

lemma distinct_child_keys: "distinct (child_keys cr)"
  by (simp add: child_keys_def namespace_of_def inside_def scope_of_def)

lemma carries_childLabels:
  "carries (childLabels cr) (childLabels cr)" "carries (mergeLabels l (childLabels cr)) (childLabels cr)"
proof -
  have d: "distinct (map fst (childLabels cr))" by (simp add: childLabels_def label_names)
  then show "carries (childLabels cr) (childLabels cr)" "carries (mergeLabels l (childLabels cr)) (childLabels cr)"
    by (auto simp: carries_def mergeLabels_def map_add_Some_iff)
qed

lemmas mutate_defs = mutateNamespace_def mutateServiceAccount_def mutateRoleBinding_def mutatePluginScopeClusterRole_def
  mutatePluginScopeClusterRoleBinding_def mutateDeployment_def mutateService_def

lemma rules_kept: "map (\<lambda>rule. \<lparr>pr_APIGroups = pr_APIGroups rule, pr_Resources = pr_Resources rule, pr_Verbs = pr_Verbs rule,
    pr_ResourceNames = pr_ResourceNames rule\<rparr>) rules = rules"
  by (rule map_idI) simp

lemma children_desired: "(w, k, f) \<in> set (all_children cfg cr d) \<Longrightarrow> desired cfg cr d k (f ob)"
  unfolding all_children_def desired_def
  by (auto simp: children_defs mutate_defs carries_childLabels rules_kept)

section \<open>Sequences of calls\<close>

definition ensures :: "'s controller \<Rightarrow> child_call list \<Rightarrow> 's \<Rightarrow> gerr option \<times> 's" where
  "ensures pc xs = in_order (map (\<lambda>(w, k, f). ensure pc w k f) xs)"

lemma in_order_append:
  "in_order (fs @ gs) s = (case in_order fs s of (Some e, s) \<Rightarrow> (Some e, s) | (None, s) \<Rightarrow> in_order gs s)"
  by (induction fs arbitrary: s) (auto split: prod.splits option.splits)

lemma ensures_append: "ensures pc (xs @ ys) s = (case ensures pc xs s of (Some e, s) \<Rightarrow> (Some e, s) | (None, s) \<Rightarrow> ensures pc ys s)"
  by (auto simp: ensures_def in_order_append split: prod.split option.split)

lemma children_lists:
  "[ensure pc ''Namespace'' (namespace_of cr) (mutateNamespace cr),
    ensure pc ''ServiceAccount'' (inside KServiceAccount cr) (mutateServiceAccount cr),
    ensure pc ''RoleBinding'' (inside KRoleBinding cr) (mutateRoleBinding cr)] = map (\<lambda>(w, k, f). ensure pc w k f) (base_children cr)"
  "[ensure pc ''plugin-scope ClusterRole'' (scope_of KClusterRole cr) (mutatePluginScopeClusterRole cr (pd_RBAC d)),
    ensure pc ''plugin-scope ClusterRoleBinding'' (scope_of KClusterRoleBinding cr) (mutatePluginScopeClusterRoleBinding cr)] =
   map (\<lambda>(w, k, f). ensure pc w k f) (scope_children cr d)"
  "[ensure pc ''Deployment'' (inside KDeployment cr) (mutateDeployment cr d (fundamentEnvVars cfg)),
    ensure pc ''Service'' (inside KService cr) (mutateService cr)] = map (\<lambda>(w, k, f). ensure pc w k f) (pod_children cfg cr d)"
  by (simp_all add: children_defs)

lemmas children_code = reconcileChildren_def reconcilePluginScope_def children_lists ensures_def [symmetric]

lemma children_run:
  assumes "reconcileChildren pc an cr cache s = ((e, cr1, cache1), s')" "fetchDefinition pc an cr cache = (Inr d, cache2)"
  shows "cache1 = cache2 \<and> (\<exists>e'. ensures pc (all_children (pc_cfg pc) cr d) s = (e', s') \<and> (e = None \<longleftrightarrow> e' = None))"
  using assms unfolding children_code all_children_def ensures_append
  by (auto simp: Let_def split: prod.splits option.splits)

lemma children_stopped:
  assumes "reconcileChildren pc an cr cache s = ((e, cr1, cache1), s')" "fetchDefinition pc an cr cache = (Inl er, cache2)"
  shows "cache1 = cache2 \<and> s' = s \<and> e \<noteq> None"
  using assms by (auto simp: reconcileChildren_def)

lemma setPluginScopeCondition_fields [simp]:
  "pi_Name (setPluginScopeCondition now cr st r msg) = pi_Name cr" "pi_Generation (setPluginScopeCondition now cr st r msg) = pi_Generation cr"
  by (simp_all add: setPluginScopeCondition_def Let_def)

text \<open>There is one condition \<open>PluginScopeReady\<close>, with the new status.\<close>

lemma upsert_condition_set:
  "cd_Type cond = ConditionPluginScopeReady \<Longrightarrow>
   \<exists>c \<in> set (upsert_condition cond now cs). cd_Type c = ConditionPluginScopeReady \<and> cd_Status c = cd_Status cond \<and> cd_Reason c = cd_Reason cond"
  by (induction cs) auto

lemma setPluginScopeCondition_has:
  "\<exists>c \<in> set (is_Conditions (pi_Status (setPluginScopeCondition now cr st r msg))). cd_Type c = ConditionPluginScopeReady \<and> cd_Status c = st \<and> cd_Reason c = r"
  using upsert_condition_set [of "\<lparr>cd_Type = ConditionPluginScopeReady, cd_Status = st, cd_ObservedGeneration = pi_Generation cr, cd_Reason = r,
      cd_Message = msg, cd_LastTransitionTime = 0\<rparr>" now]
  by (simp add: setPluginScopeCondition_def)

lemma children_cr:
  assumes "reconcileChildren pc an cr cache s = ((e, cr1, cache1), s')"
  shows "pi_Name cr1 = pi_Name cr \<and> pi_Generation cr1 = pi_Generation cr"
    "e = None \<Longrightarrow> \<exists>c \<in> set (is_Conditions (pi_Status cr1)). cd_Type c = ConditionPluginScopeReady \<and> cd_Status c"
proof -
  show "pi_Name cr1 = pi_Name cr \<and> pi_Generation cr1 = pi_Generation cr"
    using assms unfolding children_code by (auto simp: Let_def split: prod.splits option.splits sum.splits)
  assume "e = None"
  then obtain r msg where "cr1 = setPluginScopeCondition (an_now an) cr True r msg"
    using assms unfolding children_code by (auto simp: Let_def split: prod.splits option.splits sum.splits if_splits)
  then show "\<exists>c \<in> set (is_Conditions (pi_Status cr1)). cd_Type c = ConditionPluginScopeReady \<and> cd_Status c"
    using setPluginScopeCondition_has [of "an_now an" cr True r msg] by auto
qed

context plugin_cluster
begin

lemma ensure_objs:
  "pc_client pc = kc \<Longrightarrow> ensure pc w key f s = (e, s') \<Longrightarrow>
   crs s' = crs s \<and> (objs s' = changed key f (objs s) \<or> e \<noteq> None \<and> objs s' = objs s)"
  using create_or_update [of key f s] by (auto simp: ensure_def split: prod.splits option.splits)

lemma ensures_frame:
  assumes "pc_client pc = kc" "ensures pc xs s = (e, s')"
  shows "crs s' = crs s \<and> (\<forall>k. objs s' k = objs s k \<or> (\<exists>w f ob. (w, k, f) \<in> set xs \<and> objs s' k = Some (f ob)))"
  using assms(2)
proof (induction xs arbitrary: s)
  case (Cons x xs)
  obtain w key f where x: "x = (w, key, f)" by (cases x)
  obtain e1 s1 where en: "ensure pc w key f s = (e1, s1)" by fastforce
  note s1 = ensure_objs [OF assms(1) en]
  then have one: "objs s1 k = objs s k \<or> k = key \<and> (\<exists>ob. objs s1 k = Some (f ob))" for k
    by (cases "k = key") (auto simp: changed_def)
  show ?case
  proof (cases e1)
    case (Some er)
    then show ?thesis using Cons.prems en s1 one x by (fastforce simp: ensures_def)
  next
    case None
    then have "ensures pc xs s1 = (e, s')" using Cons.prems en x by (simp add: ensures_def)
    from Cons.IH [OF this] show ?thesis using s1 one x by (metis list.set_intros)
  qed
qed (simp add: ensures_def)

lemma ensures_done:
  assumes "pc_client pc = kc" "ensures pc xs s = (None, s')"
  shows "objs s' = foldl (\<lambda>m (w, k, f). changed k f m) (objs s) xs"
  using assms(2)
proof (induction xs arbitrary: s)
  case (Cons x xs)
  obtain w key f where x: "x = (w, key, f)" by (cases x)
  obtain e1 s1 where en: "ensure pc w key f s = (e1, s1)" by fastforce
  show ?case
    using ensure_objs [OF assms(1) en] Cons.IH [of s1] Cons.prems en x by (cases e1) (auto simp: ensures_def)
qed (simp add: ensures_def)

end

lemma foldl_changed_other:
  "k \<notin> (fst \<circ> snd) ` set xs \<Longrightarrow> foldl (\<lambda>m (w, k, f). changed k f m) m xs k = m k"
  by (induction xs arbitrary: m) (auto simp: changed_def split: prod.splits)

lemma foldl_changed:
  "distinct (map (fst \<circ> snd) xs) \<Longrightarrow> (w, k, f) \<in> set xs \<Longrightarrow> \<exists>ob. foldl (\<lambda>m (w, k, f). changed k f m) m xs k = Some (f ob)"
proof (induction xs arbitrary: m)
  case (Cons x xs)
  show ?case
  proof (cases "x = (w, k, f)")
    case True
    then have "k \<notin> (fst \<circ> snd) ` set xs" using Cons.prems(1) by auto
    then have "foldl (\<lambda>m (w, k, f). changed k f m) (changed k f m) xs k = changed k f m k" by (rule foldl_changed_other)
    then show ?thesis using True by (auto simp: changed_def [of k f m])
  next
    case False
    then show ?thesis using Cons.IH [of "case x of (w, k, f) \<Rightarrow> changed k f m"] Cons.prems by auto
  qed
qed simp

section \<open>The definition an installation gets\<close>

text \<open>Every entry of the cache was parsed from a manifest with that hash.\<close>

definition cache_ok :: "'s controller \<Rightarrow> definition_cache \<Rightarrow> bool" where
  "cache_ok pc cache \<longleftrightarrow> (\<forall>h d. cache h = Some d \<longrightarrow> (\<exists>manifest. HashManifest manifest = h \<and> ParseDefinition (pc_yaml pc) manifest = Inr d))"

lemma fetchDefinition_grounded:
  assumes "fetchDefinition pc an cr cache = (res, cache')" "cache_ok pc cache"
  shows "cache_ok pc cache' \<and> (\<forall>d. res = Inr d \<longrightarrow> grounded pc cr d)"
  using assms
  by (fastforce simp: fetchDefinition_def cache_ok_def grounded_def cache_get_def cache_put_def Let_def
      split: option.splits sum.splits if_splits)

lemma ParseDefinition_digest: "ParseDefinition yaml manifest = Inr d \<Longrightarrow> imageDigestRef (pd_Image d)"
  by (auto simp: ParseDefinition_def split: sum.splits if_splits)

lemma grounded_digest: "grounded pc cr d \<Longrightarrow> imageDigestRef (pd_Image d)"
  by (auto simp: grounded_def dest: ParseDefinition_digest)

lemma reconcile_cache:
  assumes "Reconcile pc an n (cache, s) = (r, cache', s')" "cache_ok pc cache"
  shows "cache_ok pc cache'"
proof -
  have "cache_ok pc c" if "reconcileChildren pc an cr cache t = ((e, cr1, c), t')" for cr t e cr1 c t'
  proof -
    obtain fd c1 where f: "fetchDefinition pc an cr cache = (fd, c1)" by fastforce
    have "c = c1" using that f children_run [of pc an cr cache t e cr1 c t'] children_stopped [of pc an cr cache t e cr1 c t'] by (cases fd) auto
    then show ?thesis using fetchDefinition_grounded [OF f assms(2)] by simp
  qed
  then show ?thesis
    using assms by (fastforce simp: Reconcile_def Let_def split: prod.splits sum.splits option.splits if_splits)
qed

text \<open>A run of the controller: reconciliations of any installation, with any answers, restarts, and anything that others do to the
  cluster in between.\<close>

inductive controller_run :: "'s controller \<Rightarrow> definition_cache \<times> 's \<Rightarrow> bool" for pc where
  start: "controller_run pc (newDefinitionCache, s)"
| reconcile: "controller_run pc (cache, s) \<Longrightarrow> Reconcile pc an n (cache, s) = (r, cache', s') \<Longrightarrow> controller_run pc (cache', s')"
| others: "controller_run pc (cache, s) \<Longrightarrow> controller_run pc (cache, t)"

lemma run_cache_ok: "controller_run pc st \<Longrightarrow> cache_ok pc (fst st)"
proof (induction rule: controller_run.induct)
  case (start s)
  show ?case by (simp add: cache_ok_def newDefinitionCache_def)
next
  case (reconcile cache s an n r cache' s')
  then show ?case using reconcile_cache by simp
next
  case (others cache s t)
  then show ?case by simp
qed

text \<open>The configuration of a plugin cannot set the variables that identify the cluster, the installation or the organization.\<close>

lemma env_distinct:
  assumes "distinct (map fst (pi_Config cr))"
  shows "distinct (map fst (fundamentEnvVars cfg @ config_env (pi_Config cr)))"
proof -
  have "map fst (config_env (pi_Config cr)) = map (\<lambda>k. ''FUNP_'' @ k) (sort (map fst (pi_Config cr)))"
    by (simp add: config_env_def)
  moreover have "distinct (map (\<lambda>k. ''FUNP_'' @ k) (sort (map fst (pi_Config cr))))"
    using assms by (simp add: distinct_map inj_on_def)
  ultimately show ?thesis by (auto simp: fundamentEnvVars_def)
qed

section \<open>Reconciliation\<close>

context plugin_cluster
begin

lemma children_effect:
  assumes "pc_client pc = kc" "cache_ok pc cache" "reconcileChildren pc an cr cache s = ((e, cr1, cache1), s')"
  shows "crs s' = crs s"
    "objs s' k \<noteq> objs s k \<Longrightarrow> \<exists>d ob. grounded pc cr d \<and> objs s' k = Some ob \<and> desired (pc_cfg pc) cr d k ob"
    "e = None \<Longrightarrow> \<exists>d. grounded pc cr d \<and> (\<forall>k \<in> set (child_keys cr). \<exists>ob. objs s' k = Some ob \<and> desired (pc_cfg pc) cr d k ob)"
proof -
  obtain fd c1 where f: "fetchDefinition pc an cr cache = (fd, c1)" by fastforce
  note g = fetchDefinition_grounded [OF f assms(2)]
  have "crs s' = crs s \<and> (objs s' k \<noteq> objs s k \<longrightarrow> (\<exists>d ob. grounded pc cr d \<and> objs s' k = Some ob \<and> desired (pc_cfg pc) cr d k ob)) \<and>
    (e = None \<longrightarrow> (\<exists>d. grounded pc cr d \<and> (\<forall>k \<in> set (child_keys cr). \<exists>ob. objs s' k = Some ob \<and> desired (pc_cfg pc) cr d k ob)))"
  proof (cases fd)
    case (Inl er)
    then show ?thesis using children_stopped [OF assms(3)] f by auto
  next
    case (Inr d)
    obtain e' where en: "ensures pc (all_children (pc_cfg pc) cr d) s = (e', s')" "e = None \<longleftrightarrow> e' = None"
      using children_run [OF assms(3)] f Inr by blast
    note fr = ensures_frame [OF assms(1) en(1)]
    have "\<exists>ob. objs s' k = Some ob \<and> desired (pc_cfg pc) cr d k ob" if "e = None" "k \<in> set (child_keys cr)" for k
    proof -
      have "k \<in> (fst \<circ> snd) ` set (all_children (pc_cfg pc) cr d)"
        using that(2) all_children_keys [of "pc_cfg pc" cr d] by (metis list.set_map)
      then obtain w f where m: "(w, k, f) \<in> set (all_children (pc_cfg pc) cr d)" by auto
      have "objs s' = foldl (\<lambda>m (w, k, f). changed k f m) (objs s) (all_children (pc_cfg pc) cr d)"
        using ensures_done [OF assms(1)] en that(1) by simp
      then show ?thesis
        using foldl_changed [OF _ m, of "objs s"] distinct_child_keys [of cr] children_desired [OF m] by (auto simp: all_children_keys)
    qed
    moreover have "grounded pc cr d" using g Inr by simp
    moreover have "objs s' k \<noteq> objs s k \<longrightarrow> (\<exists>ob. objs s' k = Some ob \<and> desired (pc_cfg pc) cr d k ob)"
      using fr children_desired by meson
    ultimately show ?thesis using fr by blast
  qed
  then show "crs s' = crs s"
    "objs s' k \<noteq> objs s k \<Longrightarrow> \<exists>d ob. grounded pc cr d \<and> objs s' k = Some ob \<and> desired (pc_cfg pc) cr d k ob"
    "e = None \<Longrightarrow> \<exists>d. grounded pc cr d \<and> (\<forall>k \<in> set (child_keys cr). \<exists>ob. objs s' k = Some ob \<and> desired (pc_cfg pc) cr d k ob)"
    by blast+
qed


end

text \<open>What deleting does to an object, and deletions in order.\<close>

definition reaped :: "child option \<Rightarrow> child option \<Rightarrow> bool" where
  "reaped x y \<longleftrightarrow> y = x \<or> y = None \<or> y = map_option (ch_deleting_update (\<lambda>_. True)) x"

lemma reaped_trans: "reaped x y \<Longrightarrow> reaped y z \<Longrightarrow> reaped x z"
  by (cases x) (auto simp: reaped_def)

lemma reaped_leaving: "reaped x y \<Longrightarrow> leaving x \<Longrightarrow> leaving y"
  by (cases x) (auto simp: reaped_def leaving_def)

definition deletes :: "'s controller \<Rightarrow> (string \<times> kkey) list \<Rightarrow> 's \<Rightarrow> gerr option \<times> 's" where
  "deletes pc xs = in_order (map (\<lambda>(w, k). delete_child pc w k) xs)"

context plugin_cluster
begin

lemma deletes_effect:
  assumes "pc_client pc = kc" "deletes pc xs s = (e, s')"
  shows "crs s' = crs s \<and> (\<forall>k. reaped (objs s k) (objs s' k) \<and> (objs s' k = objs s k \<or> (\<exists>(w, key) \<in> set xs. below key k))) \<and>
    (e = None \<longrightarrow> (\<forall>(w, key) \<in> set xs. leaving (objs s' key)))"
  using assms(2)
proof (induction xs arbitrary: s)
  case (Cons x xs)
  obtain w key where x: "x = (w, key)" by (cases x)
  obtain e1 s1 where d: "delete_child pc w key s = (e1, s1)" by fastforce
  obtain e0 where kd: "kc_Delete kc key s = (e0, s1)" and ok: "e1 = None \<longrightarrow> (case e0 of None \<Rightarrow> True | Some er \<Rightarrow> is_not_found er)"
    using d assms(1) by (auto simp: delete_child_def split: prod.splits option.splits if_splits)
  have one: "crs s1 = crs s" "reaped (objs s k) (objs s1 k)" "objs s1 k = objs s k \<or> below key k" "e1 = None \<longrightarrow> leaving (objs s1 key)" for k
    using delete [OF kd] ok unfolding reaped_def by blast+
  show ?case
  proof (cases e1)
    case (Some er)
    then have "e = Some er" "s' = s1" using Cons.prems d x by (simp_all add: deletes_def)
    then show ?thesis using x one by (simp del: split_paired_All) blast
  next
    case None
    then have "deletes pc xs s1 = (e, s')" using Cons.prems d x by (simp add: deletes_def)
    note ih = Cons.IH [OF this]
    have "leaving (objs s' key)" using ih one(4) None reaped_leaving by blast
    moreover have "reaped (objs s k) (objs s' k)" for k using ih one(2) reaped_trans by blast
    moreover have "objs s' k = objs s k \<or> (\<exists>(w, key) \<in> set (x # xs). below key k)" for k
      using ih one(3) [of k] x by (simp del: split_paired_All) metis
    ultimately show ?thesis using ih one(1) x by (simp del: split_paired_All)
  qed
qed (simp add: deletes_def reaped_def)

end

text \<open>The installation still holds the controller's finalizer.\<close>

definition held :: "installation option \<Rightarrow> bool" where
  "held x \<longleftrightarrow> (\<exists>cr. x = Some cr \<and> finalizerName \<in> set (pi_Finalizers cr))"

definition uninstall_accepted :: "answers \<Rightarrow> string \<Rightarrow> bool" where
  "uninstall_accepted an n \<longleftrightarrow>
     (case an_RequestUninstall an (pluginServiceURL n) of None \<Rightarrow> True | Some (code, e) \<Rightarrow> code = RpcUnavailable \<or> code = RpcUnimplemented)"

definition cleanup :: "installation \<Rightarrow> (string \<times> kkey) list" where
  "cleanup cr =
     [(''plugin-scope ClusterRoleBinding '' @ pluginScopeClusterRoleName (pi_Name cr), scope_of KClusterRoleBinding cr),
      (''plugin-scope ClusterRole '' @ pluginScopeClusterRoleName (pi_Name cr), scope_of KClusterRole cr),
      (''Namespace'', namespace_of cr)]"

lemma handleDeletion_code:
  "handleDeletion pc an cr s =
     (if finalizerName \<notin> set (pi_Finalizers cr) then ((0, None), s)
      else
        let cr1 = cr\<lparr>pi_Status := (pi_Status cr)\<lparr>is_Phase := PluginPhaseTerminating, is_Message := ''uninstalling plugin''\<rparr>\<rparr>
        in case kc_StatusUpdate (pc_client pc) cr1 s of
             (res, s) \<Rightarrow>
               let cr2 = (case res of Inl e \<Rightarrow> cr1 | Inr c \<Rightarrow> c)
               in if \<not> uninstall_accepted an (pi_Name cr2) then (requestPluginUninstall an cr2, s)
                  else case deletes pc (cleanup cr2) s of
                         (Some e, s) \<Rightarrow> ((0, Some e), s)
                       | (None, s) \<Rightarrow>
                           (case kc_Update (pc_client pc) (cr2\<lparr>pi_Finalizers := removeAll finalizerName (pi_Finalizers cr2)\<rparr>) s of
                              (Some e, s) \<Rightarrow> ((0, Some (errorf ''remove finalizer'' e)), s)
                            | (None, s) \<Rightarrow> ((0, None), s)))"
  by (auto simp: handleDeletion_def deletes_def cleanup_def requestPluginUninstall_def uninstall_accepted_def Let_def
      split: prod.splits option.splits sum.splits)

context plugin_cluster
begin

lemma status_update_held:
  assumes "kc_StatusUpdate kc cr s = (res, s')" "crs s (pi_Name cr) = Some old"
  shows "objs s' = objs s \<and> held (crs s' (pi_Name cr)) = held (Some old) \<and>
    (case res of Inl e \<Rightarrow> True | Inr c \<Rightarrow> pi_Name c = pi_Name old \<and> pi_Finalizers c = pi_Finalizers old \<and> pi_deleting c = pi_deleting old)"
  using status_update [OF assms(1)]
proof (elim conjE disjE exE)
  fix old'
  assume "objs s' = objs s" "crs s (pi_Name cr) = Some old'" "crs s' = (crs s)(pi_Name cr \<mapsto> old'\<lparr>pi_Status := pi_Status cr\<rparr>)"
    "\<forall>cr'. res = Inr cr' \<longrightarrow> cr' = old'\<lparr>pi_Status := pi_Status cr\<rparr>"
  then show ?thesis using assms(2) by (cases res) (simp_all add: held_def)
qed (use assms(2) in \<open>simp add: held_def\<close>)

lemma deletion_effect:
  assumes "pc_client pc = kc" "crs s n = Some cr" "finalizerName \<in> set (pi_Finalizers cr)" "handleDeletion pc an cr s = (r, s')"
  shows "reaped (objs s k) (objs s' k)"
    "objs s' k \<noteq> objs s k \<Longrightarrow> uninstall_accepted an n \<and> (\<exists>(w, key) \<in> set (cleanup cr). below key k)"
    "\<not> held (crs s' n) \<Longrightarrow> uninstall_accepted an n \<and> (\<forall>(w, key) \<in> set (cleanup cr). leaving (objs s' key))"
    "snd r = None \<Longrightarrow> \<not> held (crs s' n)"
proof -
  have nm: "pi_Name cr = n" using named [OF assms(2)] .
  let ?cr1 = "cr\<lparr>pi_Status := (pi_Status cr)\<lparr>is_Phase := PluginPhaseTerminating, is_Message := ''uninstalling plugin''\<rparr>\<rparr>"
  obtain res s1 where su: "kc_StatusUpdate kc ?cr1 s = (res, s1)" by fastforce
  define cr2 where "cr2 = (case res of Inl e \<Rightarrow> ?cr1 | Inr c \<Rightarrow> c)"
  have s1: "objs s1 = objs s" "held (crs s1 n)" "pi_Name cr2 = n" "pi_Finalizers cr2 = pi_Finalizers cr"
    using status_update_held [OF su, of cr] assms(2,3) nm by (auto simp: cr2_def held_def split: sum.splits)
  have cl: "cleanup cr2 = cleanup cr" using s1(3) nm by (simp add: cleanup_def scope_of_def namespace_of_def)
  have h: "handleDeletion pc an cr s =
      (if \<not> uninstall_accepted an n then (requestPluginUninstall an cr2, s1)
       else case deletes pc (cleanup cr) s1 of
              (Some e, s) \<Rightarrow> ((0, Some e), s)
            | (None, s) \<Rightarrow>
                (case kc_Update kc (cr2\<lparr>pi_Finalizers := removeAll finalizerName (pi_Finalizers cr2)\<rparr>) s of
                   (Some e, s) \<Rightarrow> ((0, Some (errorf ''remove finalizer'' e)), s)
                 | (None, s) \<Rightarrow> ((0, None), s)))"
    unfolding handleDeletion_code Let_def assms(1) su prod.case cr2_def [symmetric] s1(3) cl
    using assms(3) by simp
  have "reaped (objs s k) (objs s' k) \<and>
    (objs s' k \<noteq> objs s k \<longrightarrow> uninstall_accepted an n \<and> (\<exists>(w, key) \<in> set (cleanup cr). below key k)) \<and>
    (\<not> held (crs s' n) \<longrightarrow> uninstall_accepted an n \<and> (\<forall>(w, key) \<in> set (cleanup cr). leaving (objs s' key))) \<and>
    (snd r = None \<longrightarrow> \<not> held (crs s' n))"
  proof (cases "uninstall_accepted an n")
    case False
    then have "s' = s1" "r = requestPluginUninstall an cr2" using h assms(4) by auto
    moreover have "snd (requestPluginUninstall an cr2) \<noteq> None"
      using False s1(3) by (auto simp: requestPluginUninstall_def uninstall_accepted_def split: option.splits)
    ultimately show ?thesis using s1 by (auto simp: reaped_def)
  next
    case True
    obtain e s2 where d: "deletes pc (cleanup cr) s1 = (e, s2)" by fastforce
    note s2 = deletes_effect [OF assms(1) d]
    show ?thesis
    proof (cases e)
      case (Some er)
      then have "s' = s2" "snd r = Some er" using h d True assms(4) by auto
      then show ?thesis using s1 s2 True Some by (simp del: split_paired_All) blast
    next
      case None
      obtain e2 s3 where u: "kc_Update kc (cr2\<lparr>pi_Finalizers := removeAll finalizerName (pi_Finalizers cr2)\<rparr>) s2 = (e2, s3)" by fastforce
      have "s' = s3 \<and> (snd r = None \<longrightarrow> e2 = None)" using h d u True None assms(4) by (cases e2) auto
      moreover have "objs s3 = objs s2 \<and> (e2 = None \<longrightarrow> \<not> held (crs s3 n))"
        using update [OF u] s1(3) by (auto simp: held_def split: if_splits)
      ultimately show ?thesis using s1 s2 True None by (simp del: split_paired_All) blast
    qed
  qed
  then show "reaped (objs s k) (objs s' k)"
    "objs s' k \<noteq> objs s k \<Longrightarrow> uninstall_accepted an n \<and> (\<exists>(w, key) \<in> set (cleanup cr). below key k)"
    "\<not> held (crs s' n) \<Longrightarrow> uninstall_accepted an n \<and> (\<forall>(w, key) \<in> set (cleanup cr). leaving (objs s' key))"
    "snd r = None \<Longrightarrow> \<not> held (crs s' n)"
    by blast+
qed


text \<open>The branches of a reconciliation.\<close>

lemma reconcile_cases:
  assumes "pc_client pc = kc" "Reconcile pc an n (cache, s) = (r, cache', s')"
  obtains (untouched) "objs s' = objs s" "cache' = cache" "\<And>cr. crs s n = Some cr \<Longrightarrow> \<not> pi_deleting cr \<Longrightarrow> finalizerName \<in> set (pi_Finalizers cr) \<Longrightarrow>
      validateInstallationName n = None \<Longrightarrow> snd r \<noteq> None" "\<And>cr. crs s n = Some cr \<Longrightarrow> pi_deleting cr \<Longrightarrow> finalizerName \<in> set (pi_Finalizers cr) \<Longrightarrow>
      crs s' = crs s \<and> snd r \<noteq> None"
  | (deleting) cr t where "crs s n = Some cr" "pi_deleting cr" "finalizerName \<in> set (pi_Finalizers cr)" "objs t = objs s" "crs t = crs s"
      "handleDeletion pc an cr t = (r, s')"
  | (children) cr t e cr1 t' where "crs s n = Some cr" "\<not> pi_deleting cr" "finalizerName \<in> set (pi_Finalizers cr)" "objs t = objs s" "crs t = crs s"
      "reconcileChildren pc an cr cache t = ((e, cr1, cache'), t')" "objs s' = objs t'"
      "snd r = None \<Longrightarrow> e = None \<and> fst r = StatusPollInterval (pc_cfg pc) \<and>
         (\<exists>cr'. crs s' n = Some cr' \<and> pi_Status cr' = (status_poll an cr1)\<lparr>is_Conditions := is_Conditions (pi_Status cr1)\<rparr>)"
proof -
  obtain g t where g: "kc_Get kc n s = (g, t)" by fastforce
  note t = get [OF g]
  show thesis
  proof (cases g)
    case (Inl e)
    have "r = (0, None) \<and> is_not_found e \<or> snd r \<noteq> None \<and> \<not> is_not_found e" "s' = t" "cache' = cache"
      using assms g Inl by (auto simp: Reconcile_def split: if_splits)
    then show thesis using t Inl by (intro untouched) auto
  next
    case (Inr cr)
    have cr: "crs s n = Some cr" "pi_Name cr = n" "objs t = objs s" "crs t = crs s" using t Inr named by auto
    consider (del) "pi_deleting cr" | (fin) "\<not> pi_deleting cr" "finalizerName \<notin> set (pi_Finalizers cr)"
      | (bad) er where "\<not> pi_deleting cr" "finalizerName \<in> set (pi_Finalizers cr)" "validateInstallationName n = Some er"
      | (ok) "\<not> pi_deleting cr" "finalizerName \<in> set (pi_Finalizers cr)" "validateInstallationName n = None"
      by (cases "validateInstallationName n") blast+
    then show thesis
    proof cases
      case del
      then have h: "handleDeletion pc an cr t = (r, s')" "cache' = cache"
        using assms g Inr by (auto simp: Reconcile_def split: prod.splits)
      show thesis
      proof (cases "finalizerName \<in> set (pi_Finalizers cr)")
        case True
        then show thesis using deleting cr del h by blast
      next
        case False
        then have "s' = t" using h by (simp add: handleDeletion_def)
        then show thesis using cr del False h by (intro untouched) auto
      qed
    next
      case fin
      obtain e u where u: "kc_Update kc (cr\<lparr>pi_Finalizers := pi_Finalizers cr @ [finalizerName]\<rparr>) t = (e, u)" by fastforce
      have "s' = u" "cache' = cache" using assms g Inr fin u by (auto simp: Reconcile_def split: option.splits)
      then show thesis using update [OF u] cr fin by (intro untouched) auto
    next
      case (bad er)
      let ?c = "cr\<lparr>pi_Status := \<lparr>is_Phase = PluginPhaseFailed, is_Message = err_text er, is_Ready = False, is_ObservedGeneration = pi_Generation cr,
          is_Conditions = []\<rparr>\<rparr>"
      obtain e u where u: "kc_StatusUpdate kc ?c t = (e, u)" by fastforce
      have "s' = u" "cache' = cache" using assms g Inr bad u cr(2) by (auto simp: Reconcile_def)
      then show thesis using status_update [OF u] cr bad by (intro untouched) auto
    next
      case ok
      obtain e cr1 c1 t' where ch: "reconcileChildren pc an cr cache t = ((e, cr1, c1), t')" by (metis prod.collapse)
      let ?c = "case e of None \<Rightarrow> cr1\<lparr>pi_Status := (status_poll an cr1)\<lparr>is_Conditions := is_Conditions (pi_Status cr1)\<rparr>\<rparr> | Some _ \<Rightarrow> cr1"
      obtain e2 u where u: "kc_StatusUpdate kc ?c t' = (e2, u)" by fastforce
      have R: "s' = u" "cache' = c1" "snd r = None \<Longrightarrow> e = None \<and> fst r = StatusPollInterval (pc_cfg pc) \<and> (\<exists>x. e2 = Inr x)"
        using assms g Inr ok ch u cr(2) by (auto simp: Reconcile_def Let_def split: option.splits sum.splits)
      have su: "objs u = objs t'" "\<exists>x. e2 = Inr x \<Longrightarrow> \<exists>cr'. crs u (pi_Name ?c) = Some cr' \<and> pi_Status cr' = pi_Status ?c"
        using status_update [OF u] by auto
      have nm: "pi_Name ?c = n" using children_cr(1) [OF ch] cr(2) by (cases e) auto
      show thesis
        using children [OF cr(1) ok(1,2) cr(3,4)] ch R su nm by (cases e) auto
    qed
  qed
qed

end

section \<open>Properties\<close>

text \<open>
  C38: only what was consented to is installed. Over an API server with its documented behaviour, after any run of the
  controller with anything others do in between, whichever calls fail: an object that a reconciliation changes belongs to
  its installation. If the installation is being deleted, the change is a deletion that the plugin did not refuse.
  Otherwise the object is as the definition asks for, and the definition was parsed from a manifest whose SHA-256 is the
  installation's pin (or nothing is pinned and the operator allows that); the scope role has exactly its rules, bound to the
  installation's service account only, and the image is exactly its image, a digest reference.
\<close>

theorem controller_installs_consented:
  assumes "plugin_cluster (pc_client pc) objs crs" "controller_run pc (cache, s)" "Reconcile pc an n (cache, s) = (r, cache', s')"
    "objs s' k \<noteq> objs s k"
  shows "\<exists>cr. crs s n = Some cr \<and>
    (if pi_deleting cr then reaped (objs s k) (objs s' k) \<and> uninstall_accepted an n \<and> (\<exists>(w, key) \<in> set (cleanup cr). below key k)
     else finalizerName \<in> set (pi_Finalizers cr) \<and>
       (\<exists>d ob. grounded pc cr d \<and> imageDigestRef (pd_Image d) \<and> objs s' k = Some ob \<and> desired (pc_cfg pc) cr d k ob))"
proof (cases rule: plugin_cluster.reconcile_cases [OF assms(1) refl assms(3), consumes 0, case_names untouched deleting children])
  case untouched
  then show ?thesis using assms(4) by simp
next
  case (deleting cr t)
  have "crs t n = Some cr" using deleting by simp
  note d = plugin_cluster.deletion_effect(1,2) [OF assms(1) refl this deleting(3,6), where k = k]
  show ?thesis using d deleting assms(4) by (intro exI [of _ cr]) auto
next
  case (children cr t e cr1 t')
  have "cache_ok pc cache" using run_cache_ok [OF assms(2)] by simp
  note c = plugin_cluster.children_effect(2) [OF assms(1) refl this children(6), where k = k]
  show ?thesis using c children assms(4) grounded_digest by (intro exI [of _ cr]) auto
qed

definition sample_definition :: plugin_definition where
  "sample_definition = \<lparr>pd_APIVersion = ''fundament.io/v1'', pd_Kind = ''PluginDefinition'', pd_Name = ''cert'',
     pd_RBAC = [\<lparr>pr_APIGroups = [''''], pr_Resources = [''secrets''], pr_Verbs = [''get''], pr_ResourceNames = [''tls'']\<rparr>],
     pd_Image = ''repo/cert@sha256:'' @ replicate 64 (CHR ''a''), pd_ImagePullPolicy = ''''\<rparr>"

definition sample_controller :: "mem_cluster controller" where
  "sample_controller = \<lparr>pc_client = mem_client,
     pc_cfg = \<lparr>FundamentClusterID = ''c'', FundamentInstallID = ''i'', FundamentOrgID = ''o'', StatusPollInterval = 30000000, AllowUnpinnedHash = False\<rparr>,
     pc_yaml = \<lambda>manifest. Inr sample_definition\<rparr>"

definition sample_installation :: "bool \<Rightarrow> installation" where
  "sample_installation deleting = \<lparr>pi_Name = ''cert'', pi_Generation = 1, pi_deleting = deleting, pi_Finalizers = [finalizerName], pi_PluginName = ''cert'',
     pi_PluginVersion = ''v1'', pi_DefinitionHash = HashManifest [], pi_Config = [(''LEVEL'', ''info'')],
     pi_Status = \<lparr>is_Phase = PhaseNone, is_Message = '''', is_Ready = False, is_ObservedGeneration = 0, is_Conditions = []\<rparr>\<rparr>"

definition sample_cluster :: "bool \<Rightarrow> mem_cluster" where
  "sample_cluster deleting = \<lparr>mc_objs = Map.empty, mc_crs = [''cert'' \<mapsto> sample_installation deleting], mc_faults = []\<rparr>"

definition sample_answers :: answers where
  "sample_answers = \<lparr>an_GetStatus = \<lambda>url. Inr (''running'', ''''), an_RequestUninstall = \<lambda>url. None, an_GetDefinition = Some (\<lambda>n v. Inr []), an_now = 7\<rparr>"

lemma HashManifest_pinned [simp]: "\<not> isUnpinned (HashManifest manifest)"
proof
  have len: "length (HashManifest manifest) = 71" by (simp add: HashManifest_def)
  assume "isUnpinned (HashManifest manifest)"
  then have "length (HashManifest manifest) = 0 \<or> length (HashManifest manifest) = 14"
    unfolding isUnpinned_def unknownDefinitionHash_def by auto
  then show False using len by simp
qed

lemma sample_digest: "imageDigestRef (pd_Image sample_definition)"
  by code_simp

lemma sample_fetch:
  "fetchDefinition sample_controller sample_answers (sample_installation b) newDefinitionCache =
     (Inr sample_definition, cache_put (HashManifest []) sample_definition newDefinitionCache)"
  using sample_digest
  by (simp add: fetchDefinition_def sample_controller_def sample_answers_def sample_installation_def cache_get_def newDefinitionCache_def
      isUnpinnedVersion_def unknownDefinitionVersion_def ParseDefinition_def sample_definition_def validImagePullPolicies_def)

lemma mem_plugin_client_ok:
  "mc_faults m = [] \<Longrightarrow> kc_CreateOrUpdate mem_client key f m = (None, m\<lparr>mc_objs := changed key f (mc_objs m)\<rparr>)"
  "mc_faults m = [] \<Longrightarrow> mc_crs m n = Some cr \<Longrightarrow> kc_Get mem_client n m = (Inr (cr\<lparr>pi_Name := n\<rparr>), m)"
  by (simp_all add: mem_client_def mc_call_def mc_view_def)

lemma sample_fields [simp]:
  "pc_client sample_controller = mem_client" "mc_faults (sample_cluster b) = []" "mc_objs (sample_cluster b) = Map.empty"
  "mc_crs (sample_cluster b) = [''cert'' \<mapsto> sample_installation b]" "pi_Name (sample_installation b) = ''cert''"
  "pi_deleting (sample_installation b) = b" "pi_Finalizers (sample_installation b) = [finalizerName]"
  by (simp_all add: sample_controller_def sample_cluster_def sample_installation_def)

lemma sample_children:
  "\<exists>cr1. reconcileChildren sample_controller sample_answers (sample_installation False) newDefinitionCache (sample_cluster False) =
     ((None, cr1, cache_put (HashManifest []) sample_definition newDefinitionCache),
      (sample_cluster False)\<lparr>mc_objs := foldl (\<lambda>m (w, k, f). changed k f m) Map.empty
        (all_children (pc_cfg sample_controller) (sample_installation False) sample_definition)\<rparr>)"
  by (simp add: reconcileChildren_def sample_fetch reconcilePluginScope_def ensure_def mem_plugin_client_ok all_children_def children_defs Let_def)

lemma mem_status_ok:
  "mc_faults m = [] \<Longrightarrow> mc_crs m (pi_Name cr) = Some old \<Longrightarrow>
   \<exists>x m'. kc_StatusUpdate mem_client cr m = (Inr x, m') \<and> mc_objs m' = mc_objs m \<and> mc_faults m' = []"
  by (simp add: mem_client_def mc_call_def mc_view_def)

lemma sample_name_ok: "validateInstallationName ''cert'' = None"
  by code_simp

lemma sample_reconcile:
  "\<exists>c' s'. Reconcile sample_controller sample_answers ''cert'' (newDefinitionCache, sample_cluster False) = ((30000000, None), c', s') \<and>
     mc_objs s' = foldl (\<lambda>m (w, k, f). changed k f m) Map.empty (all_children (pc_cfg sample_controller) (sample_installation False) sample_definition)"
proof -
  let ?objs = "foldl (\<lambda>m (w, k, f). changed k f m) Map.empty (all_children (pc_cfg sample_controller) (sample_installation False) sample_definition)"
  obtain cr1 where ch: "reconcileChildren sample_controller sample_answers (sample_installation False) newDefinitionCache (sample_cluster False) =
     ((None, cr1, cache_put (HashManifest []) sample_definition newDefinitionCache), (sample_cluster False)\<lparr>mc_objs := ?objs\<rparr>)"
    using sample_children by blast
  have nm: "pi_Name cr1 = ''cert''" using children_cr(1) [OF ch] by simp
  let ?c = "cr1\<lparr>pi_Status := (status_poll sample_answers cr1)\<lparr>is_Conditions := is_Conditions (pi_Status cr1)\<rparr>\<rparr>"
  have "\<exists>x m'. kc_StatusUpdate mem_client ?c ((sample_cluster False)\<lparr>mc_objs := ?objs\<rparr>) = (Inr x, m') \<and>
      mc_objs m' = mc_objs ((sample_cluster False)\<lparr>mc_objs := ?objs\<rparr>) \<and> mc_faults m' = []"
    by (rule mem_status_ok [of _ _ "sample_installation False"]) (simp_all add: nm)
  then obtain x m' where u: "kc_StatusUpdate mem_client ?c ((sample_cluster False)\<lparr>mc_objs := ?objs\<rparr>) = (Inr x, m')" "mc_objs m' = ?objs" by auto
  have nm2: "(sample_installation False)\<lparr>pi_Name := ''cert''\<rparr> = sample_installation False" by (simp add: sample_installation_def)
  have "kc_Get mem_client ''cert'' (sample_cluster False) = (Inr (sample_installation False), sample_cluster False)"
    using mem_plugin_client_ok(2) [of "sample_cluster False" "''cert''" "sample_installation False"] nm2 by simp
  moreover have "StatusPollInterval (pc_cfg sample_controller) = 30000000" by (simp add: sample_controller_def)
  ultimately show ?thesis using ch u sample_name_ok by (simp add: Reconcile_def Let_def)
qed

text \<open>The first reconciliation of a new installation makes its scope role.\<close>

theorem controller_installs_consented_witness:
  "\<exists>c' s' d ob. Reconcile sample_controller sample_answers ''cert'' (newDefinitionCache, sample_cluster False) = ((30000000, None), c', s') \<and>
     grounded sample_controller (sample_installation False) d \<and> mc_objs s' (scope_of KClusterRole (sample_installation False)) = Some ob \<and>
     ch_rules ob = pd_RBAC d"
proof -
  obtain c' s' where r: "Reconcile sample_controller sample_answers ''cert'' (newDefinitionCache, sample_cluster False) = ((30000000, None), c', s')"
    and ob: "mc_objs s' = foldl (\<lambda>m (w, k, f). changed k f m) Map.empty (all_children (pc_cfg sample_controller) (sample_installation False) sample_definition)"
    using sample_reconcile by blast
  let ?k = "scope_of KClusterRole (sample_installation False)"
  have "mc_objs s' ?k \<noteq> mc_objs (sample_cluster False) ?k"
    unfolding ob by (simp add: all_children_def children_defs changed_def namespace_of_def inside_def scope_of_def)
  moreover have "plugin_cluster (pc_client sample_controller) mc_objs mc_view" using mem_plugins.plugin_cluster_axioms by simp
  ultimately have "\<exists>cr. mc_view (sample_cluster False) ''cert'' = Some cr \<and>
    (if pi_deleting cr then reaped (mc_objs (sample_cluster False) ?k) (mc_objs s' ?k) \<and> uninstall_accepted sample_answers ''cert'' \<and>
       (\<exists>(w, key) \<in> set (cleanup cr). below key ?k)
     else finalizerName \<in> set (pi_Finalizers cr) \<and> (\<exists>d ob. grounded sample_controller cr d \<and> imageDigestRef (pd_Image d) \<and>
       mc_objs s' ?k = Some ob \<and> desired (pc_cfg sample_controller) cr d ?k ob))"
    using controller_installs_consented [OF _ controller_run.start r] by blast
  moreover have "mc_view (sample_cluster False) ''cert'' = Some (sample_installation False)"
    by (simp add: mc_view_def sample_installation_def)
  ultimately show ?thesis
    using r by (auto simp: desired_def namespace_of_def inside_def scope_of_def)
qed





end
