(* ===== verification/Spec2Isabelle.thy ===== *)
theory Spec2Isabelle
  imports System GardenReal ShootReal ApiToken Idempotency CircuitBreaker Caches PluginProps
begin

text \<open>
  Verification of Fundament: the cluster-worker, the authz-worker, and the gateway, authorization, credential, idempotency
  and token code of its APIs.

  The program. Fundament keeps what its tenants want (organizations, projects, clusters, node pools,
  namespaces, members) in PostgreSQL. Triggers write a row into \<open>tenant.cluster_outbox\<close> for every change.
  The cluster-worker (\<open>src/cluster-worker\<close>) carries the changes out: its outbox worker claims a row, runs the
  handlers registered for the row's entity and event, and completes, retries, defers or fails the row; its
  status worker polls the Shoots; its reconcile worker compares everything with everything once in a
  while. The cluster handler drives Gardener (one Shoot per cluster); the user handler puts a
  ServiceAccount and, for admins, a ClusterRoleBinding into each Shoot; the namespace handler does the same
  for namespaces and their LimitRanges. A cluster that becomes ready enqueues a \<open>ready\<close> row, which fans out
  to the user and the namespace handler, which enqueues a row per namespace. Users and plugins reach the
  clusters through \<open>src/kube-api-proxy\<close>, which checks their tokens and permissions and forwards requests
  under a service account; the credentials it uses are cached (\<open>src/kube-api-proxy/pkg/token\<close>,
  \<open>src/common/gardener\<close>). Permissions are checked against OpenFGA (\<open>src/common/authz\<close>), whose relationship tuples the
  authz-worker (\<open>src/authz-worker\<close>) derives from the tables, over an outbox of its own; a circuit breaker in the organization
  API watches how far it lags. Inside the clusters the plugin-controller (\<open>src/plugin-controller\<close>) installs plugins. The organization API creates resources at most once per idempotency key
  (\<open>src/common/idempotency\<close>), and API tokens are made and checked in \<open>src/common/apitoken\<close>.

  Conventions. A Go function that changes state is a function from state to result and state, with the
  branches and early returns of the source; \<open>None\<close> in an outer option is a panic. Errors are values of
  \<open>gerr\<close>; \<open>errors.Is\<close> and \<open>errors.As\<close> walk the wrapped tree. \<open>int32\<close> arithmetic that can overflow goes
  through \<open>wrap32\<close>. Go maps are association lists or maps; the order in which Go ranges over a map is an
  argument, so that properties hold for every order. A database call, a client call and a cancellation can fail at any
  point: the world has an oracle that says which call fails, and statements quantify over it.
  SQL queries are functions on the rows, written from the text of the generated queries. What is not in
  the repository (client-go, Gardener, OpenFGA, JWT, protobuf, the random source) is a parameter; what is
  relied on is a locale or a named hypothesis, and each locale is interpreted on a concrete instance.

  The theories, in the order of the imports.
  \<open>Prelude\<close>: UUIDs, times, 32-bit integers, tables as lists of rows, and the lemmas on them.
  \<open>Go_Errors\<close>: error values.
  \<open>Tenant_Db\<close>, \<open>Cluster_Db\<close>: the tables and the queries of \<open>cluster-worker/pkg/db/gen\<close>; the world record.
  \<open>Outbox\<close>: \<open>pkg/outbox/worker.go\<close> and the registry of \<open>pkg/handler/mod.go\<close>. One iteration refines a state
  machine of rows; a row is attempted a bounded number of times; the fan-out runs every handler. The locale
  \<open>outbox_client\<close> is what the worker relies on (handlers only append to the outbox), and \<open>ranked_client\<close> what
  makes the drain loop end.
  \<open>Workers\<close>: \<open>pkg/status/worker.go\<close>, \<open>pkg/reconcile/worker.go\<close>, and the LISTEN loop and reconnects of the
  outbox worker; the circuit breaker.
  \<open>ShootAccess\<close>: the interface \<open>pkg/client/shoot/access.go\<close> as the locale \<open>shoot_access\<close>, and \<open>mock.go\<close> as an
  interpretation. \<open>ShootReal\<close>: \<open>real.go\<close> over typed clients (locale \<open>kube_api\<close>); it refines the same contract.
  \<open>UserPlan\<close>, \<open>UserSync\<close>: \<open>pkg/handler/usersync\<close>; syncing one user and reconciling a cluster converge to the
  access the database gives, and when they do not.
  \<open>Sha256\<close>, \<open>Kubename\<close>: \<open>common/kubename\<close>; names are valid and, for namespaces, injective.
  \<open>NamespaceSync\<close>: \<open>pkg/handler/namespace\<close>; a foreign namespace is never touched.
  \<open>Gardener\<close>, \<open>GardenMock\<close>, \<open>GardenReal\<close>: \<open>pkg/client/gardener\<close>; the locale \<open>gardener\<close>, node caps, and the
  two clients, both of which satisfy it (the real one over the locale \<open>garden_api\<close>).
  \<open>ClusterHandler\<close>, \<open>ClusterProps\<close>: \<open>pkg/handler/cluster\<close>; sync, polling and reconciliation against Gardener.
  \<open>App\<close>, \<open>System\<close>: \<open>pkg/app/app.go\<close>'s wiring, and the whole worker as a transition system whose steps are
  outbox iterations, status passes, reconcile passes and changes by others.
  \<open>ApiToken\<close>: \<open>common/apitoken\<close>; generated tokens are accepted and one-character errors are found.
  \<open>Idempotency\<close>: \<open>common/idempotency\<close>; the interceptor as a step machine, interleaved without bounds.
  \<open>Authz\<close>: \<open>common/authz\<close> over an explicit memory of Go maps, because maps are shared; a batch answers as its
  evaluations do alone, unless properties are copied into a shared map.
  \<open>KubeProxy\<close>: \<open>kube-api-proxy/pkg/{kubereq,proxy,useraccess,pluginsa,gardener}\<close> with the parts of
  \<open>common/auth\<close> it calls; what is forwarded, and as whom.
  \<open>AuthzWorker\<close>: \<open>authz-worker/pkg\<close>, the queries, the handler of each kind of entity, and the processing of items and
  batches. \<open>AuthzProps\<close>: over the locale \<open>tuple_store\<close> (the contract of OpenFGA's write API) every entity is settled or
  has an open row, and a started worker catches up; what goes wrong with two rows of one membership and with two workers.
  \<open>CircuitBreaker\<close>: \<open>common/circuitbreaker\<close> with the check of the organization API; what an open or closed breaker says about
  the tuples, along every run of the authz-worker.
  \<open>Caches\<close>: \<open>common/gardener/{client,access}.go\<close>, \<open>kube-api-proxy/pkg/token/cache.go\<close> and \<open>RequestSAToken\<close> over the locale
  \<open>ttl_cache\<close> (the contract of ttlcache); which of the two caches can serve an expired credential.
  \<open>PluginController\<close>: \<open>plugin-controller/pkg/controller\<close> and the manifest functions of \<open>plugin-sdk/pluginruntime\<close>; the locale
  \<open>plugin_cluster\<close> is what the Kubernetes client promises. \<open>PluginProps\<close>: only what was consented to is installed,
  reconciliation converges, and the finalizer goes last.
  This theory holds the properties of the cluster-worker as a whole: the wiring, the absence of panics, the
  outbox as a log, and that draining the outbox ends.

  Bounds and fuel. \<open>processAllRows\<close> has fuel; \<open>drain_completes\<close> shows that some fuel is enough in every state,
  by a measure on the attempts left and the rows handlers can still enqueue. Its bound of 30 on
  \<open>MaxRetries\<close> keeps the shift of the back-off exact (the default is 10). \<open>Intercept\<close> runs five steps, the length
  of the longest path through the interceptor. \<open>processBatch\<close> of the authz-worker has fuel, as it may not end; one more
  than the number of open rows is enough when the database and OpenFGA answer (\<open>authz_start_settles\<close>). Everything else is structural recursion or has a
  termination proof.

  What the model leaves out. Logging, metrics and tracing; pauses and timers (when a tick or a
  notification comes is an input); transactions are the calls they are made of, with the row locks of
  other workers as a set; a database call that fails has had no effect, while a Kubernetes call that
  fails may have. In \<open>kube-api-proxy\<close> the cache of reverse proxies, the mock cluster and the
  server's set-up; in \<open>common/auth\<close> the interceptors; in the authz-worker the LISTEN connection and its verification;
  in the caches the goroutine that evicts entries (a law of the contract) and the goroutines that share one fetch. Not
  modelled: the handlers of organization-api, authn-api and the DCIM APIs (conversions and queries),
  plugin-proxy, plugin-sdk, the operators, the command line tools, the Terraform
  provider, the frontends, and generated code other than the queries the modelled parts run.
\<close>

section \<open>A sample state of the whole program\<close>

definition sample_sched :: "(mock_shoot, mock_client) sched" where
  "sample_sched = \<lparr>poll_cancelled = \<lambda>_. False, verify_cancelled = \<lambda>_. False, cluster_cancelled = False,
     user_cancelled = \<lambda>_. False, ns_cancelled = \<lambda>_. False, map_order = \<lambda>_ xs. xs, between = \<lambda>w. w\<rparr>"

definition sample_app_world :: "(mock_shoot, mock_client) world" where
  "sample_app_world = (blank_world NewMockShootAccess NewMock)\<lparr>outbox := [sample_row]\<rparr>"

definition sample_ccfg :: cluster_cfg where
  "sample_ccfg = \<lparr>StatusBatchSize = 10, cc_MaxRetries = 10\<rparr>"

lemma sample_app_inv: "app_inv sample_cfg (mock_client_ok dec_us dec_up) sample_app_world"
  using sample_world_ok(3) [of None]
  by (auto simp: app_inv_def wf_outbox_def ready_ok_def sample_app_world_def sample_defs sample_cluster_world_def row_ok_def
      routable_def inj_def)

lemma sample_app_honest: "honest_faults sample_app_world"
  by (simp add: honest_faults_def sample_app_world_def blank_world_def)

section \<open>Properties of the program as a whole\<close>


text \<open>
  C20: no reachable state makes a worker panic. The code panics on values it takes for impossible (an
  unknown Shoot status or access level, a node pool row with event \<open>ready\<close>, a hash that is too short).
  In every state a run of the program and its environment can reach, whatever database calls fail, one
  more outbox iteration, status pass or reconcile pass (interrupted by any further run between its two
  listings) returns.
\<close>

theorem app_never_panics:
  assumes "gardener gops up' ok live going reflects" "cfg_ok ocfg" "app_inv ocfg ok w"
    and "app_reach us up gops ops ccfg ocfg ok w v" "app_reach us up gops ops ccfg ocfg ok v u"
  shows "processNextRow us ocfg (app_registry us up gops ops ccfg ocfg sd) c v \<noteq> None \<and>
    runAllHandlers cancelled (app_registry us up gops ops ccfg ocfg sd) v \<noteq> None \<and>
    reconcileAll c' (app_registry us up gops ops ccfg ocfg (sd\<lparr>between := \<lambda>_. u\<rparr>)) v \<noteq> None"
  using gardener.app_reach_no_panic [OF assms(1,2,4,3)] assms(5) by blast

theorem app_never_panics_witness:
  "processNextRow dec_us sample_cfg (app_registry dec_us dec_up sample_gops mock_ops sample_ccfg sample_cfg sample_sched) False
     sample_app_world \<noteq> None \<and>
   runAllHandlers (\<lambda>_. False) (app_registry dec_us dec_up sample_gops mock_ops sample_ccfg sample_cfg sample_sched)
     sample_app_world \<noteq> None"
  using app_never_panics [OF mock_client.gardener_axioms sample_ok(2) sample_app_inv app_reach.start app_reach.start] by blast

text \<open>
  C21: the outbox is a log. Along every run of the program and its environment the identifiers of the rows
  stay distinct and generated identifiers fresh, the counters stay in range (so 32-bit arithmetic on them
  is exact), no row disappears or changes its place, and a row that is completed or failed never changes
  again.
\<close>

theorem app_outbox_is_log:
  assumes "gardener gops up' ok live going reflects" "cfg_ok ocfg" "app_inv ocfg ok w"
    and "app_reach us up gops ops ccfg ocfg ok w w'"
  shows "distinct (map ob_id (outbox w')) \<and> (\<forall>r\<in>set (outbox w'). row_ok ocfg r) \<and>
    prefix (map ob_id (outbox w)) (map ob_id (outbox w')) \<and>
    (\<forall>r\<in>set (outbox w). terminal r \<longrightarrow> r \<in> set (outbox w'))"
  using gardener.app_reach_inv [OF assms(1,2,4,3)] by (simp add: app_inv_def wf_outbox_def outbox_keeps_def)

theorem app_outbox_is_log_witness:
  "\<exists>w'. app_reach dec_us dec_up sample_gops mock_ops sample_ccfg sample_cfg (mock_client_ok dec_us dec_up) sample_app_world w' \<and>
     distinct (map ob_id (outbox w')) \<and> prefix [1] (map ob_id (outbox w'))"
proof -
  obtain b err w' where "processNextRow dec_us sample_cfg
      (app_registry dec_us dec_up sample_gops mock_ops sample_ccfg sample_cfg sample_sched) False sample_app_world = Some (b, err, w')"
    using gardener.app_reach_no_panic(1) [OF mock_client.gardener_axioms sample_ok(2) app_reach.start sample_app_inv] by fastforce
  from app_reach.outbox_iteration [OF app_reach.start this]
  have r: "app_reach dec_us dec_up sample_gops mock_ops sample_ccfg sample_cfg (mock_client_ok dec_us dec_up) sample_app_world w'" .
  show ?thesis
    using app_outbox_is_log [OF mock_client.gardener_axioms sample_ok(2) sample_app_inv r] r
    by (auto simp: sample_app_world_def sample_row_def new_obrow_def)
qed



end
